(* ===== verification/Prelude.thy ===== *)
theory Prelude
  imports Main "HOL-Library.Word" "HOL-Library.Sublist" "HOL-Library.Multiset"
begin

text \<open>
  Shared vocabulary of the development: the Go machine types the gateway uses (64-bit integers,
  instants, durations, IEEE double rounding is in \<open>Go_Float\<close>), and the generic facts on
  lists that the component theories use.

  An instant (\<open>time.Time\<close>) is the number of nanoseconds since the zero value \<open>time.Time{}\<close>,
  so \<open>IsZero\<close> is equality with 0 and \<open>Truncate\<close> is division with remainder. A
  duration is a signed 64-bit number of nanoseconds. Go's \<open>int\<close> and \<open>int64\<close> are \<open>int\<close>, and
  products that can leave the 64-bit range are wrapped by \<open>wrap64\<close>; \<open>uint64\<close> counters are
  \<open>64 word\<close>.
\<close>

subsection \<open>Collections of rewrite rules\<close>

named_theorems cb_simps \<open>definitions of the circuit breaker entry operations\<close>
named_theorems lb_defs \<open>definitions of the load balancers\<close>
named_theorems router_defs \<open>definitions of the routers\<close>

subsection \<open>Machine integers, instants and durations\<close>

type_synonym u64 = "64 word"
type_synonym instant = int
type_synonym duration = int

definition wrap64 :: "int \<Rightarrow> int" where
  "wrap64 x = (x + 2 ^ 63) mod 2 ^ 64 - 2 ^ 63"

definition nanosecond :: duration where "nanosecond = 1"
definition millisecond :: duration where "millisecond = 1000000"
definition second :: duration where "second = 1000000000"
definition minute :: duration where "minute = 60000000000"

definition time_is_zero :: "instant \<Rightarrow> bool" where
  "time_is_zero t \<longleftrightarrow> t = 0"

text \<open>\<open>Time.Add\<close>, \<open>Time.Sub\<close> (which saturates at the 64-bit range) and \<open>Time.Truncate\<close>.\<close>

definition time_add :: "instant \<Rightarrow> duration \<Rightarrow> instant" where
  "time_add t d = t + d"

definition time_sub :: "instant \<Rightarrow> instant \<Rightarrow> duration" where
  "time_sub t u = max (- (2 ^ 63)) (min (2 ^ 63 - 1) (t - u))"

definition time_truncate :: "instant \<Rightarrow> duration \<Rightarrow> instant" where
  "time_truncate t d = (if d \<le> 0 then t else t - t mod d)"

definition go_mul :: "int \<Rightarrow> duration \<Rightarrow> duration" where
  "go_mul x d = wrap64 (x * d)"

lemma wrap64_id: "- (2 ^ 63) \<le> x \<Longrightarrow> x < 2 ^ 63 \<Longrightarrow> wrap64 x = x"
  by (simp add: wrap64_def)

lemma wrap64_range: "- (2 ^ 63) \<le> wrap64 x \<and> wrap64 x < 2 ^ 63"
proof -
  have "0 \<le> (x + 2 ^ 63) mod 2 ^ 64" "(x + 2 ^ 63) mod 2 ^ 64 < 2 ^ 64" by simp_all
  then show ?thesis by (simp add: wrap64_def)
qed

lemma time_truncate_le: "0 < d \<Longrightarrow> time_truncate t d \<le> t"
  by (simp add: time_truncate_def)

lemma time_truncate_gt: "0 < d \<Longrightarrow> t - d < time_truncate t d"
  using pos_mod_bound[of d t] by (simp add: time_truncate_def)

lemma time_sub_ge:
  assumes "r \<le> t - u" and "r < 2 ^ 63"
  shows "r \<le> time_sub t u"
  using assms by (simp add: time_sub_def)

subsection \<open>Lists\<close>

text \<open>Go's \<open>xs[1:]\<close> after an append that made the slice longer than \<open>limit\<close>.\<close>

definition go_push :: "nat \<Rightarrow> 'a list \<Rightarrow> 'a \<Rightarrow> 'a list" where
  "go_push limit xs x = (let ys = xs @ [x] in if length ys > limit then tl ys else ys)"

definition lastn :: "nat \<Rightarrow> 'a list \<Rightarrow> 'a list" where
  "lastn n xs = drop (length xs - n) xs"

lemma length_go_push: "length xs \<le> n \<Longrightarrow> length (go_push n xs x) \<le> n"
  by (simp add: go_push_def Let_def)

lemma length_go_push_le: "length (go_push n xs x) \<le> Suc (length xs)"
  by (simp add: go_push_def Let_def)

lemma go_push_lastn: "0 < n \<Longrightarrow> go_push n (lastn n xs) x = lastn n (xs @ [x])"
  by (cases "length xs < n") (auto simp: go_push_def lastn_def Let_def tl_drop drop_Suc [symmetric] Suc_diff_le)

lemma lastn_short [simp]: "length xs \<le> n \<Longrightarrow> lastn n xs = xs"
  by (simp add: lastn_def)

lemma length_lastn: "length (lastn n xs) = min n (length xs)"
  by (auto simp: lastn_def)

lemma set_go_push: "set (go_push n xs x) \<subseteq> insert x (set xs)"
  by (cases xs) (auto simp: go_push_def Let_def)

lemma length_filter_map_sum: "length (filter P xs) = (\<Sum>x\<leftarrow>xs. if P x then 1 else 0)"
  by (induction xs) auto

text \<open>The first element for which a strict improvement test succeeds: the selection loops of the
  load balancers keep \<open>best\<close> and replace it when \<open>better x best\<close>.\<close>

lemma sum_list_ge_member: "(\<And>x. x \<in> set xs \<Longrightarrow> (0::int) \<le> f x) \<Longrightarrow> x \<in> set xs \<Longrightarrow> f x \<le> sum_list (map f xs)"
proof (induction xs)
  case Nil
  then show ?case by simp
next
  case (Cons a xs)
  have "0 \<le> sum_list (map f xs)"
    using Cons.prems(1) by (auto intro!: sum_list_nonneg)
  with Cons show ?case by (auto intro: add_increasing)
qed

lemma sum_list_pos_member:
  "0 < sum_list (map f xs) \<Longrightarrow> \<exists>x\<in>set xs. (0::int) < f x"
  by (induction xs) force+

lemma sum_list_all_0: "\<forall>x\<in>set xs. f x = (0::int) \<Longrightarrow> sum_list (map f xs) = 0"
  by (induction xs) auto

lemma find_append: "find P (xs @ ys) = (case find P xs of Some x \<Rightarrow> Some x | None \<Rightarrow> find P ys)"
  by (induction xs) simp_all

lemma mset_rotate [simp]: "mset (rotate n xs) = mset xs"
  unfolding rotate_drop_take by (metis append_take_drop_id mset_append union_commute)

lemma subseq_distinct: "subseq xs ys \<Longrightarrow> distinct ys \<Longrightarrow> distinct xs"
  by (induction rule: list_emb.induct) (auto elim: list_emb_set)

end
