(* ===== verification/Go_Float.thy ===== *)
theory Go_Float
  imports Prelude "HOL-Library.Log_Nat"
begin

text \<open>
  Go's \<open>float64\<close>: a finite value is a rational, and every operation of the source rounds
  its exact result to 53 significant bits, to the nearest representable value with ties to even
  (\<open>fl64\<close>, subnormal range included). Infinities and NaN are not represented: no operation
  modelled here divides by zero or leaves the finite range for the magnitudes the gateway uses.
  The theory shows that the rounding is monotone and exact on the integers of magnitude at most
  \<open>2^53\<close>, and packages these laws as the locale \<open>rounding\<close>, which the arithmetic of the
  rate limiter relies on.
\<close>

subsection \<open>Rounding to an integer, ties to even\<close>

definition rnd_even :: "rat \<Rightarrow> int" where
  "rnd_even y = (let f = \<lfloor>y\<rfloor>; d = y - of_int f in
     if d < 1/2 then f else if 1/2 < d then f + 1 else if even f then f else f + 1)"

lemma rnd_even_bounds: "\<lfloor>y\<rfloor> \<le> rnd_even y \<and> rnd_even y \<le> \<lfloor>y\<rfloor> + 1"
  by (simp add: rnd_even_def Let_def)

lemma rnd_even_of_int [simp]: "rnd_even (of_int n) = n"
  by (simp add: rnd_even_def)

lemma rnd_even_mono: "y \<le> z \<Longrightarrow> rnd_even y \<le> rnd_even z"
proof -
  assume yz: "y \<le> z"
  then have fl: "\<lfloor>y\<rfloor> \<le> \<lfloor>z\<rfloor>" by (rule floor_mono)
  show ?thesis
  proof (cases "\<lfloor>y\<rfloor> = \<lfloor>z\<rfloor>")
    case True
    then show ?thesis using yz by (simp add: rnd_even_def Let_def)
  next
    case False
    with fl have "\<lfloor>y\<rfloor> + 1 \<le> \<lfloor>z\<rfloor>" by linarith
    then show ?thesis using rnd_even_bounds[of y] rnd_even_bounds[of z] by linarith
  qed
qed

subsection \<open>The binary exponent\<close>

definition ilog2 :: "rat \<Rightarrow> int" where
  "ilog2 x = (case quotient_of x of (p, q) \<Rightarrow>
     let k = int (floorlog 2 (nat p)) - int (floorlog 2 (nat q))
     in if 2 powi k \<le> x then k else k - 1)"

lemma floorlog_bounds_rat:
  assumes "0 < p"
  shows "(2::rat) powi (int (floorlog 2 (nat p)) - 1) \<le> of_int p"
    and "(of_int p :: rat) < 2 powi (int (floorlog 2 (nat p)))"
proof -
  have fb: "2 ^ (floorlog 2 (nat p) - 1) \<le> nat p" "nat p < 2 ^ floorlog 2 (nat p)"
    using floorlog_bounds[of "nat p" 2] assms by simp_all
  have pos: "0 < floorlog 2 (nat p)"
    using assms by (simp add: floorlog_def)
  have e: "int (floorlog 2 (nat p)) - 1 = int (floorlog 2 (nat p) - 1)"
    using pos by simp
  have "(of_nat (2 ^ (floorlog 2 (nat p) - 1)) :: rat) \<le> of_nat (nat p)"
    using fb(1) by (rule of_nat_mono)
  then show "(2::rat) powi (int (floorlog 2 (nat p)) - 1) \<le> of_int p"
    unfolding e using assms by (simp add: power_int_of_nat)
  have "(of_nat (nat p) :: rat) < of_nat (2 ^ floorlog 2 (nat p))"
    using fb(2) by (simp only: of_nat_less_iff)
  then show "(of_int p :: rat) < 2 powi (int (floorlog 2 (nat p)))"
    using assms by (simp add: power_int_of_nat)
qed

lemma powi_add_rat: "(2::rat) powi (a + b) = 2 powi a * 2 powi b"
  by (simp add: power_int_add)

lemma ilog2_bounds:
  assumes "0 < x"
  shows "2 powi (ilog2 x) \<le> x" and "x < 2 powi (ilog2 x + 1)"
proof -
  obtain p q where pq: "quotient_of x = (p, q)" by (cases "quotient_of x")
  have q: "0 < q" using quotient_of_denom_pos[OF pq] .
  have x: "x = of_int p / of_int q" using quotient_of_div[OF pq] .
  have p: "0 < p" using assms q unfolding x by (simp add: zero_less_divide_iff)
  define a b where "a = int (floorlog 2 (nat p))" and "b = int (floorlog 2 (nat q))"
  note P = floorlog_bounds_rat[OF p, folded a_def] and Q = floorlog_bounds_rat[OF q, folded b_def]
  have q': "(0::rat) < of_int q" using q by simp
  have "(2::rat) powi (a - b - 1) * of_int q \<le> 2 powi (a - b - 1) * 2 powi b"
    using Q(2) by (intro mult_left_mono) auto
  also have "\<dots> = 2 powi (a - 1)" by (simp add: powi_add_rat [symmetric])
  finally have lo: "2 powi (a - b - 1) \<le> x"
    using P(1) q' unfolding x by (simp add: pos_le_divide_eq)
  have "of_int p < (2::rat) powi a" using P(2) .
  also have "\<dots> = 2 powi (a - b + 1) * 2 powi (b - 1)" by (simp add: powi_add_rat [symmetric])
  also have "\<dots> \<le> 2 powi (a - b + 1) * of_int q" using Q(1) by (intro mult_left_mono) auto
  finally have hi: "x < 2 powi (a - b + 1)"
    using q' unfolding x by (simp add: pos_divide_less_eq)
  have il: "ilog2 x = (if 2 powi (a - b) \<le> x then a - b else a - b - 1)"
    by (simp add: ilog2_def pq a_def b_def Let_def)
  show "2 powi (ilog2 x) \<le> x" using lo by (simp add: il)
  show "x < 2 powi (ilog2 x + 1)" using hi by (simp add: il not_le)
qed

lemma powi2_mono: "a \<le> b \<Longrightarrow> (2::rat) powi a \<le> 2 powi b"
  by (rule power_int_increasing) auto

lemma powi2_less_imp: "(2::rat) powi a < 2 powi b \<Longrightarrow> a < b"
  by (meson not_le powi2_mono)

lemma ilog2_mono: "0 < x \<Longrightarrow> x \<le> y \<Longrightarrow> ilog2 x \<le> ilog2 y"
proof -
  assume "0 < x" "x \<le> y"
  then have "(2::rat) powi (ilog2 x) < 2 powi (ilog2 y + 1)"
    using ilog2_bounds(1)[of x] ilog2_bounds(2)[of y] by linarith
  then show ?thesis using powi2_less_imp by fastforce
qed

subsection \<open>Rounding to double precision\<close>

definition ulp_exp :: "rat \<Rightarrow> int" where
  "ulp_exp x = max (ilog2 x) (- 1022) - 52"

definition flp64 :: "rat \<Rightarrow> rat" where
  "flp64 x = of_int (rnd_even (x / 2 powi (ulp_exp x))) * 2 powi (ulp_exp x)"

definition fl64 :: "rat \<Rightarrow> rat" where
  "fl64 x = (if x = 0 then 0 else if 0 < x then flp64 x else - flp64 (- x))"

lemma flp64_nonneg: "0 < x \<Longrightarrow> 0 \<le> flp64 x"
proof -
  assume "0 < x"
  then have "rnd_even 0 \<le> rnd_even (x / 2 powi (ulp_exp x))" by (intro rnd_even_mono) simp
  moreover have "rnd_even 0 = 0" using rnd_even_of_int[of 0] by simp
  ultimately show ?thesis by (simp add: flp64_def)
qed

lemma flp64_upper:
  assumes "0 < x" and "x \<le> of_int m * 2 powi (ulp_exp x)"
  shows "flp64 x \<le> of_int m * 2 powi (ulp_exp x)"
proof -
  have "x / 2 powi (ulp_exp x) \<le> of_int m" using assms(2) by (simp add: pos_divide_le_eq)
  then have "rnd_even (x / 2 powi (ulp_exp x)) \<le> m" by (metis rnd_even_mono rnd_even_of_int)
  then show ?thesis by (simp add: flp64_def)
qed

lemma flp64_lower:
  assumes "0 < x" and "of_int m * 2 powi (ulp_exp x) \<le> x"
  shows "of_int m * 2 powi (ulp_exp x) \<le> flp64 x"
proof -
  have "of_int m \<le> x / 2 powi (ulp_exp x)" using assms(2) by (simp add: pos_le_divide_eq)
  then have "m \<le> rnd_even (x / 2 powi (ulp_exp x))" by (metis rnd_even_mono rnd_even_of_int)
  then show ?thesis by (simp add: flp64_def)
qed

lemma powi_split: "(2::rat) powi (e + int k) = of_int (2 ^ k) * 2 powi e"
  by (simp add: power_int_add power_int_of_nat mult.commute)

lemma flp64_mono_exp:
  assumes x: "0 < x" and xy: "x \<le> y" and lt: "ulp_exp x < ulp_exp y"
  shows "flp64 x \<le> flp64 y"
proof -
  have y: "0 < y" using x xy by simp
  have ny: "- 1022 \<le> ilog2 y" and uy: "ulp_exp y = ilog2 y - 52" using lt by (auto simp: ulp_exp_def)
  have ux: "ilog2 x + 1 \<le> ulp_exp x + int 53" by (simp add: ulp_exp_def)
  have "x \<le> 2 powi (ilog2 x + 1)" using ilog2_bounds(2)[OF x] by simp
  also have "\<dots> \<le> 2 powi (ulp_exp x + int 53)" using ux by (rule powi2_mono)
  also have "\<dots> = of_int (2 ^ 53) * 2 powi (ulp_exp x)" by (rule powi_split)
  finally have "flp64 x \<le> of_int (2 ^ 53) * 2 powi (ulp_exp x)" by (rule flp64_upper[OF x])
  also have "\<dots> = 2 powi (ulp_exp x + int 53)" by (rule powi_split [symmetric])
  also have "\<dots> \<le> 2 powi (ulp_exp y + int 52)" using lt by (intro powi2_mono) simp
  also have "\<dots> = of_int (2 ^ 52) * 2 powi (ulp_exp y)" by (rule powi_split)
  also have "\<dots> \<le> flp64 y"
  proof (rule flp64_lower[OF y])
    have "of_int (2 ^ 52) * 2 powi (ulp_exp y) = (2::rat) powi (ulp_exp y + int 52)"
      by (rule powi_split [symmetric])
    also have "\<dots> = 2 powi (ilog2 y)" by (simp add: uy)
    finally show "of_int (2 ^ 52) * 2 powi (ulp_exp y) \<le> y"
      using ilog2_bounds(1)[OF y] by simp
  qed
  finally show ?thesis .
qed

lemma flp64_mono:
  assumes x: "0 < x" and xy: "x \<le> y"
  shows "flp64 x \<le> flp64 y"
proof (cases "ulp_exp x = ulp_exp y")
  case True
  have "x / 2 powi (ulp_exp x) \<le> y / 2 powi (ulp_exp x)"
    using xy by (intro divide_right_mono) auto
  then have "rnd_even (x / 2 powi (ulp_exp x)) \<le> rnd_even (y / 2 powi (ulp_exp x))"
    by (rule rnd_even_mono)
  then show ?thesis using True by (simp add: flp64_def)
next
  case False
  moreover have "ulp_exp x \<le> ulp_exp y" using ilog2_mono[OF x xy] by (simp add: ulp_exp_def)
  ultimately show ?thesis using flp64_mono_exp[OF x xy] by simp
qed

lemma fl64_mono: "x \<le> y \<Longrightarrow> fl64 x \<le> fl64 y"
proof -
  assume xy: "x \<le> y"
  consider "0 < x" | "y < 0" | "x \<le> 0" "0 \<le> y" by linarith
  then show ?thesis
  proof cases
    case 1
    then show ?thesis using flp64_mono[OF 1 xy] xy by (simp add: fl64_def)
  next
    case 2
    then have "flp64 (- y) \<le> flp64 (- x)" using xy by (intro flp64_mono) auto
    then show ?thesis using 2 xy by (simp add: fl64_def)
  next
    case 3
    then have "fl64 x \<le> 0" using flp64_nonneg[of "- x"] by (auto simp: fl64_def)
    moreover have "0 \<le> fl64 y" using 3 flp64_nonneg[of y] by (auto simp: fl64_def)
    ultimately show ?thesis by (rule order_trans)
  qed
qed

lemma fl64_0 [simp]: "fl64 0 = 0"
  by (simp add: fl64_def)

lemma flp64_nat_exact:
  assumes n: "0 < n" and b: "n \<le> 2 ^ 53"
  shows "flp64 (of_int n) = of_int n"
proof -
  let ?e = "ulp_exp (of_int n)"
  note lb = ilog2_bounds[of "of_int n"]
  have "(2::rat) powi 0 < 2 powi (ilog2 (of_int n) + 1)" using lb(2) n by (simp add: less_le_trans)
  then have i0: "0 \<le> ilog2 (of_int n)" using powi2_less_imp by fastforce
  have "\<exists>m. (of_int n :: rat) / 2 powi ?e = of_int m"
  proof (cases "n = 2 ^ 53")
    case True
    have "(2::rat) powi 53 < 2 powi (ilog2 (of_int n) + 1)" using lb(2) n True by simp
    then have "53 < ilog2 (of_int n) + 1" by (rule powi2_less_imp)
    moreover have "(2::rat) powi (ilog2 (of_int n)) < 2 powi 54"
      using lb(1) n True by (simp add: le_less_trans)
    then have "ilog2 (of_int n) < 54" by (rule powi2_less_imp)
    ultimately have "ilog2 (of_int n) = 53" by simp
    then have "(of_int n :: rat) / 2 powi ?e = of_int (2 ^ 52)"
      using True by (simp add: ulp_exp_def)
    then show ?thesis by blast
  next
    case False
    then have "(of_int n :: rat) < of_int (2 ^ 53)" using b by (simp only: of_int_less_iff)
    then have "(2::rat) powi (ilog2 (of_int n)) < 2 powi 53" using lb(1) n by simp
    then have "ilog2 (of_int n) < 53" by (rule powi2_less_imp)
    then obtain k where e: "?e = - int k"
      using i0 by (intro that[of "nat (- ?e)"]) (simp add: ulp_exp_def)
    have "(of_int n :: rat) / 2 powi ?e = of_int (n * 2 ^ k)"
      by (simp add: e power_int_minus power_int_of_nat field_simps)
    then show ?thesis by blast
  qed
  then obtain m where m: "(of_int n :: rat) / 2 powi ?e = of_int m" by blast
  then have "flp64 (of_int n) = of_int m * 2 powi ?e" by (simp add: flp64_def)
  also have "\<dots> = of_int n" using m by (simp add: divide_eq_eq)
  finally show ?thesis .
qed

lemma fl64_int_exact: "\<bar>n\<bar> \<le> 2 ^ 53 \<Longrightarrow> fl64 (of_int n) = of_int n"
proof (cases "n < 0")
  case True
  assume "\<bar>n\<bar> \<le> 2 ^ 53"
  then have "flp64 (of_int (- n)) = of_int (- n)" using True by (intro flp64_nat_exact) auto
  then show ?thesis using True by (simp add: fl64_def)
next
  case False
  assume "\<bar>n\<bar> \<le> 2 ^ 53"
  then show ?thesis using False flp64_nat_exact[of n] by (auto simp: fl64_def)
qed

subsection \<open>The laws the arithmetic relies on\<close>

locale rounding =
  fixes rnd :: "rat \<Rightarrow> rat"
  assumes rnd_mono: "x \<le> y \<Longrightarrow> rnd x \<le> rnd y"
    and rnd_int: "\<bar>n\<bar> \<le> 2 ^ 53 \<Longrightarrow> rnd (of_int n) = of_int n"
begin

lemma rnd_0: "rnd 0 = 0"
  using rnd_int[of 0] by simp

lemma rnd_nonneg: "0 \<le> x \<Longrightarrow> 0 \<le> rnd x"
  using rnd_mono[of 0 x] by (simp add: rnd_0)

lemma rnd_le_int: "\<bar>n\<bar> \<le> 2 ^ 53 \<Longrightarrow> x \<le> of_int n \<Longrightarrow> rnd x \<le> of_int n"
  using rnd_mono[of x "of_int n"] by (simp add: rnd_int)

lemma rnd_ge_int: "\<bar>n\<bar> \<le> 2 ^ 53 \<Longrightarrow> of_int n \<le> x \<Longrightarrow> of_int n \<le> rnd x"
  using rnd_mono[of "of_int n" x] by (simp add: rnd_int)

end

interpretation f64: rounding fl64
  by unfold_locales (auto intro: fl64_mono fl64_int_exact)

subsection \<open>Conversions\<close>

text \<open>\<open>float64(n)\<close>, \<open>int64(x)\<close> (truncation towards zero) and \<open>math.Ceil\<close>.\<close>

definition float64 :: "int \<Rightarrow> rat" where
  "float64 n = fl64 (of_int n)"

definition int64_of :: "rat \<Rightarrow> int" where
  "int64_of x = (if 0 \<le> x then \<lfloor>x\<rfloor> else \<lceil>x\<rceil>)"

lemma float64_nonneg: "0 \<le> n \<Longrightarrow> 0 \<le> float64 n"
  by (simp add: float64_def f64.rnd_nonneg)

lemma float64_mono: "m \<le> n \<Longrightarrow> float64 m \<le> float64 n"
  by (simp add: float64_def fl64_mono)

lemma int64_of_float64: "\<bar>n\<bar> \<le> 2 ^ 53 \<Longrightarrow> int64_of (float64 n) = n"
  by (simp add: int64_of_def float64_def fl64_int_exact)

end
