(* ===== verification/Gateway_Types.thy ===== *)
theory Gateway_Types
  imports Go_Float "HOL-Library.Char_ord"
begin

text \<open>
  The data the gateway's components share: the policy structs of \<open>src/pkg/policy\<close> and
  \<open>src/pkg/matcher/condition.go\<close>, the endpoint view of \<open>src/pkg/core/types.go\<close>, and
  the part of \<open>GatewayContext\<close> (\<open>src/pkg/core/context.go\<close>) the modelled components read
  or write. A Go pointer that may be nil is an \<open>option\<close>; a slice is a list, so nil and
  empty slices coincide except where the source tells them apart (\<open>Permissions\<close>); a map is
  \<open>string \<rightharpoonup> _\<close>. The parsed HTTP request carries its header map, its query map
  and its cookies; a \<open>map[string]interface{}\<close> of parameters holds \<open>param\<close> values.
\<close>

subsection \<open>Strings\<close>

definition str_lower :: "string \<Rightarrow> string" where
  "str_lower s = map (\<lambda>c. if CHR ''A'' \<le> c \<and> c \<le> CHR ''Z'' then char_of (of_char c + (32::nat)) else c) s"

definition str_upper :: "string \<Rightarrow> string" where
  "str_upper s = map (\<lambda>c. if CHR ''a'' \<le> c \<and> c \<le> CHR ''z'' then char_of (of_char c - (32::nat)) else c) s"

fun str_join :: "string \<Rightarrow> string list \<Rightarrow> string" where
  "str_join sep [] = ''''"
| "str_join sep [s] = s"
| "str_join sep (s # t # ts) = s @ sep @ str_join sep (t # ts)"

fun str_split_colon :: "string \<Rightarrow> string list" where
  "str_split_colon [] = [[]]"
| "str_split_colon (c # cs) = (if c = CHR '':'' then [] # str_split_colon cs
     else case str_split_colon cs of [] \<Rightarrow> [[c]] | p # ps \<Rightarrow> (c # p) # ps)"

subsection \<open>Conditions and policies\<close>

datatype param = PNil | PBool bool | PFloat rat | PInt int | PStr string | POther

record TagCondition =
  tc_Type :: string
  tc_OpType :: string
  tc_Key :: string
  tc_Values :: "string list"

record ErrorParserPolicy =
  pp_Parser :: string
  pp_Expression :: string
  pp_Statuses :: "string list"
  pp_ContentTypes :: "string list option"

record DegradeConfig =
  dc_ResponseCode :: int
  dc_Attributes :: "(string \<times> string) list"
  dc_ResponseBody :: string

record CircuitBreakPolicy =
  cb_ID :: string
  cb_Name :: string
  cb_Level :: string
  cb_SlidingWindowType :: string
  cb_SlidingWindowSize :: int
  cb_MinCallsThreshold :: int
  cb_CodePolicy :: "ErrorParserPolicy option"
  cb_ErrorCodes :: "string list"
  cb_ErrorMessages :: "string list"
  cb_MessagePolicy :: "ErrorParserPolicy option"
  cb_FailureRateThreshold :: rat
  cb_SlowCallRateThreshold :: rat
  cb_SlowCallDurationThreshold :: int
  cb_WaitDurationInOpenState :: int
  cb_AllowedCallsInHalfOpenState :: int
  cb_ForceOpen :: int
  cb_OutlierMaxPercent :: int
  cb_DegradeConfig :: "DegradeConfig option"
  cb_Version :: int
  cb_SlowCallMetric :: string

record EstimatorConfig =
  es_Type :: string
  es_Ratio :: rat

record SlidingWindow =
  sw_Threshold :: int
  sw_TimeWindowInMs :: int
  sw_BurstRatio :: "rat option"

record LimitPolicy =
  lp_ID :: string
  lp_Name :: string
  lp_Version :: int
  lp_Type :: string
  lp_SlidingWindows :: "SlidingWindow list"
  lp_MaxWaitMs :: int
  lp_RelationType :: string
  lp_Conditions :: "TagCondition list"
  lp_Estimator :: "EstimatorConfig option"
  lp_LimitBy :: "string list"

record Destination =
  ds_Weight :: int
  ds_RelationType :: string
  ds_Conditions :: "TagCondition list"

record TagRule =
  tr_Order :: int
  tr_RelationType :: string
  tr_Conditions :: "TagCondition list"
  tr_Destinations :: "Destination list"

record RoutePolicy =
  rp_ID :: string
  rp_Name :: string
  rp_Version :: int
  rp_Order :: int
  rp_TagRules :: "TagRule list"

record TaggingAction =
  ta_Type :: string
  ta_Key :: string
  ta_Value :: string

record TaggingPolicy =
  tp_ID :: string
  tp_Name :: string
  tp_Version :: int
  tp_Order :: int
  tp_Relation :: string
  tp_Conditions :: "TagCondition list"
  tp_Actions :: "TaggingAction list"

record LoadBalancePolicy =
  lbp_ID :: string
  lbp_Name :: string
  lbp_Type :: string
  lbp_Version :: int
  lbp_Params :: "(string \<rightharpoonup> param) option"

record RetryPolicy =
  ry_Retry :: int
  ry_BackoffType :: string
  ry_BaseMs :: int
  ry_ErrorCodes :: "string list"
  ry_ErrorMessages :: "string list"
  ry_CodePolicy :: "ErrorParserPolicy option"
  ry_MessagePolicy :: "ErrorParserPolicy option"
  ry_ConnectTimeout :: int
  ry_TtftTimeout :: int
  ry_TotalTimeout :: int
  ry_IdleTimeout :: int
  ry_ExcludeFailedEndpoint :: "bool option"
  ry_Version :: int

record InvocationPolicy =
  ip_ID :: string
  ip_Name :: string
  ip_Type :: string
  ip_RetryPolicy :: "RetryPolicy option"
  ip_FallbackPolicy :: "string list option"

record BillingPolicy =
  bp_InputPrice :: rat
  bp_OutputPrice :: rat
  bp_CachedPrice :: rat
  bp_CacheCreationPrice :: rat

record Policy =
  pl_LoadBalancePolicy :: "LoadBalancePolicy option"
  pl_InvocationPolicy :: "InvocationPolicy option"
  pl_LimitPolicies :: "LimitPolicy list"
  pl_RoutePolicies :: "RoutePolicy list"
  pl_CircuitBreakPolicies :: "CircuitBreakPolicy list"
  pl_TaggingPolicies :: "TaggingPolicy list"
  pl_Permissions :: "string list option"
  pl_Billing :: "BillingPolicy option"
  pl_EnableMetricsReporting :: bool

subsection \<open>Endpoints\<close>

type_synonym RequestType = string
type_synonym ProtocolFamily = string

definition RequestTypeChatCompletion :: RequestType where "RequestTypeChatCompletion = ''chat_completion''"
definition RequestTypeEmbedding :: RequestType where "RequestTypeEmbedding = ''embedding''"
definition RequestTypeImageGeneration :: RequestType where "RequestTypeImageGeneration = ''image_generation''"
definition RequestTypeResponses :: RequestType where "RequestTypeResponses = ''responses''"
definition RequestTypeMessages :: RequestType where "RequestTypeMessages = ''messages''"
definition RequestTypeGeminiGenerateContent :: RequestType where
  "RequestTypeGeminiGenerateContent = ''gemini_generate_content''"

definition ProtocolOpenAI :: ProtocolFamily where "ProtocolOpenAI = ''openai''"
definition ProtocolAnthropic :: ProtocolFamily where "ProtocolAnthropic = ''anthropic''"
definition ProtocolGemini :: ProtocolFamily where "ProtocolGemini = ''gemini''"
definition ProtocolJoyCode :: ProtocolFamily where "ProtocolJoyCode = ''joycode''"

lemmas request_type_defs = RequestTypeChatCompletion_def RequestTypeEmbedding_def RequestTypeImageGeneration_def
  RequestTypeResponses_def RequestTypeMessages_def RequestTypeGeminiGenerateContent_def

lemmas protocol_defs = ProtocolOpenAI_def ProtocolAnthropic_def ProtocolGemini_def ProtocolJoyCode_def

text \<open>The provider implementation of an endpoint is opaque: a handle, or nil.\<close>

record Endpoint =
  ep_ID :: string
  ep_Code :: string
  ep_URL :: string
  ep_Provider :: string
  ep_ProviderCode :: string
  ep_Model :: string
  ep_UpstreamModel :: string
  ep_Metadata :: "string \<rightharpoonup> string"
  ep_Weight :: int
  ep_Priority :: int
  ep_RequestTypes :: "RequestType list"
  ep_Healthy :: bool
  ep_ProviderImpl :: "nat option"
  ep_APIKey :: string
  ep_AuthType :: string
  ep_ProviderProtocol :: string
  ep_ContextLength :: int
  ep_MaxOutputTokens :: int
  ep_InputPrice :: "rat option"
  ep_OutputPrice :: "rat option"
  ep_CachedPrice :: "rat option"
  ep_CacheCreationPrice :: "rat option"

definition declaresRequestType :: "RequestType \<Rightarrow> Endpoint \<Rightarrow> bool" where
  "declaresRequestType rt ep = list_ex (\<lambda>c. c = rt) (ep_RequestTypes ep)"

definition protocolSupportsRequestType :: "RequestType \<Rightarrow> Endpoint \<Rightarrow> bool" where
  "protocolSupportsRequestType rt ep = (let proto = ep_ProviderProtocol ep in
     if proto = ProtocolOpenAI
     then rt \<in> {RequestTypeChatCompletion, RequestTypeEmbedding, RequestTypeImageGeneration, RequestTypeResponses, RequestTypeMessages}
     else if proto = ProtocolAnthropic then rt = RequestTypeMessages \<or> rt = RequestTypeResponses
     else if proto = ProtocolGemini then rt = RequestTypeGeminiGenerateContent
     else if proto = ProtocolJoyCode
     then rt \<in> {RequestTypeChatCompletion, RequestTypeResponses, RequestTypeMessages}
     else proto = '''')"

definition SupportsRequestType :: "RequestType \<Rightarrow> Endpoint \<Rightarrow> bool" where
  "SupportsRequestType rt ep =
     (if \<not> protocolSupportsRequestType rt ep then False
      else if declaresRequestType rt ep then True
      else if declaresRequestType RequestTypeChatCompletion ep \<and> (rt = RequestTypeMessages \<or> rt = RequestTypeResponses) then True
      else declaresRequestType RequestTypeMessages ep \<and> rt = RequestTypeResponses)"

definition EffectiveModel :: "Endpoint \<Rightarrow> string" where
  "EffectiveModel ep = (if ep_UpstreamModel ep \<noteq> '''' then ep_UpstreamModel ep else ep_Model ep)"

definition service_key :: "Endpoint \<Rightarrow> string" where
  "service_key ep = ep_Provider ep @ '':'' @ ep_Model ep"

text \<open>\<open>CostPerToken\<close> reads the metadata entry with \<open>fmt.Sscanf\<close>; the scanner is the argument.\<close>

definition CostPerToken :: "(string \<Rightarrow> rat) \<Rightarrow> Endpoint \<Rightarrow> rat" where
  "CostPerToken scan ep = (case ep_Metadata ep ''cost_per_token'' of Some v \<Rightarrow> scan v | None \<Rightarrow> 0)"

subsection \<open>The request context\<close>

record HttpRequest =
  hr_Header :: "string \<Rightarrow> string list"
  hr_Query :: "(string \<Rightarrow> string list) option"
  hr_Cookie :: "string \<Rightarrow> string option"

record HttpResponse =
  hs_StatusCode :: int
  hs_ContentType :: string

record GatewayContext =
  g_Request :: "HttpRequest option"
  g_GovernanceRequest :: "HttpRequest option"
  g_RawBody :: string
  g_RequestType :: RequestType
  g_OriginalModel :: string
  g_IsStream :: bool
  g_UserID :: string
  g_Tenant :: string
  g_SessionID :: string
  g_Model :: string
  g_Policy :: "Policy option"
  g_SelectedEndpoint :: "Endpoint option"
  g_UpstreamConnect :: instant
  g_UpstreamResponse :: "HttpResponse option"
  g_UpstreamBody :: string
  g_UpstreamError :: "string option"
  g_TTFT :: duration
  g_FatalErr :: "string option"
  g_AttemptCount :: int
  g_FallbackChain :: "string list"
  g_Tags :: "string \<rightharpoonup> string"
  g_TraceHeader :: string

text \<open>\<open>Header.Get\<close> looks the canonical form of the key up: first letter and letters after a
  hyphen upper case, the others lower case; a key with a byte that may not occur in a header name
  is left alone.\<close>

definition token_char :: "char \<Rightarrow> bool" where
  "token_char c = (list_ex (\<lambda>(lo, hi). lo \<le> c \<and> c \<le> hi) [(CHR ''a'', CHR ''z''), (CHR ''A'', CHR ''Z''), (CHR ''0'', CHR ''9'')]
     \<or> c \<in> set ''!#$%&*+-.^_`|~'' \<or> c = CHR 0x27)"

fun canonical_from :: "bool \<Rightarrow> string \<Rightarrow> string" where
  "canonical_from up [] = []"
| "canonical_from up (c # cs) = (if up then str_upper [c] else str_lower [c]) @ canonical_from (c = CHR ''-'') cs"

definition CanonicalHeaderKey :: "string \<Rightarrow> string" where
  "CanonicalHeaderKey k = (if list_all token_char k then canonical_from True k else k)"

definition header_get :: "HttpRequest \<Rightarrow> string \<Rightarrow> string" where
  "header_get r k = (case hr_Header r (CanonicalHeaderKey k) of [] \<Rightarrow> '''' | v # _ \<Rightarrow> v)"

definition query_get :: "HttpRequest \<Rightarrow> string \<Rightarrow> string" where
  "query_get r k = (case hr_Query r of None \<Rightarrow> '''' | Some q \<Rightarrow> (case q k of [] \<Rightarrow> '''' | v # _ \<Rightarrow> v))"

definition requestForGovernance :: "GatewayContext \<Rightarrow> HttpRequest option" where
  "requestForGovernance c = (case g_GovernanceRequest c of Some r \<Rightarrow> Some r | None \<Rightarrow> g_Request c)"

definition GetHeader :: "GatewayContext \<Rightarrow> string \<Rightarrow> string list" where
  "GetHeader c key = (case requestForGovernance c of None \<Rightarrow> []
     | Some r \<Rightarrow> let actual = hr_Header r key in
         if actual = [] \<and> header_get r key \<noteq> '''' then [header_get r key] else actual)"

definition GetQuery :: "GatewayContext \<Rightarrow> string \<Rightarrow> string list" where
  "GetQuery c key = (case requestForGovernance c of None \<Rightarrow> []
     | Some r \<Rightarrow> (case hr_Query r of None \<Rightarrow> [] | Some q \<Rightarrow> q key))"

definition GetCookie :: "GatewayContext \<Rightarrow> string \<Rightarrow> string" where
  "GetCookie c key = (case requestForGovernance c of None \<Rightarrow> ''''
     | Some r \<Rightarrow> (case hr_Cookie r key of None \<Rightarrow> '''' | Some v \<Rightarrow> v))"

definition GetSystemValue :: "GatewayContext \<Rightarrow> string \<Rightarrow> string" where
  "GetSystemValue c key = (if key = ''model'' then g_Model c else if key = ''user'' then g_UserID c else '''')"

definition GetTagValue :: "GatewayContext \<Rightarrow> string \<Rightarrow> string" where
  "GetTagValue c key = (case g_Tags c key of None \<Rightarrow> '''' | Some v \<Rightarrow> v)"

definition getStatusCode :: "HttpResponse option \<Rightarrow> int" where
  "getStatusCode resp = (case resp of Some r \<Rightarrow> hs_StatusCode r | None \<Rightarrow> 0)"

definition lb_params :: "GatewayContext \<Rightarrow> (string \<rightharpoonup> param) option" where
  "lb_params g = (case g_Policy g of None \<Rightarrow> None
     | Some p \<Rightarrow> (case pl_LoadBalancePolicy p of None \<Rightarrow> None | Some l \<Rightarrow> lbp_Params l))"

definition retry_policy_of :: "GatewayContext \<Rightarrow> RetryPolicy option" where
  "retry_policy_of g = (case g_Policy g of None \<Rightarrow> None
     | Some p \<Rightarrow> (case pl_InvocationPolicy p of None \<Rightarrow> None | Some i \<Rightarrow> ip_RetryPolicy i))"

subsection \<open>Go's zero values\<close>

definition zero_endpoint :: Endpoint where
  "zero_endpoint = \<lparr>ep_ID = '''', ep_Code = '''', ep_URL = '''', ep_Provider = '''', ep_ProviderCode = '''', ep_Model = '''',
     ep_UpstreamModel = '''', ep_Metadata = Map.empty, ep_Weight = 0, ep_Priority = 0, ep_RequestTypes = [],
     ep_Healthy = False, ep_ProviderImpl = None, ep_APIKey = '''', ep_AuthType = '''', ep_ProviderProtocol = '''',
     ep_ContextLength = 0, ep_MaxOutputTokens = 0, ep_InputPrice = None, ep_OutputPrice = None,
     ep_CachedPrice = None, ep_CacheCreationPrice = None\<rparr>"

definition zero_policy :: Policy where
  "zero_policy = \<lparr>pl_LoadBalancePolicy = None, pl_InvocationPolicy = None, pl_LimitPolicies = [], pl_RoutePolicies = [],
     pl_CircuitBreakPolicies = [], pl_TaggingPolicies = [], pl_Permissions = None, pl_Billing = None,
     pl_EnableMetricsReporting = False\<rparr>"

definition zero_breaker_policy :: CircuitBreakPolicy where
  "zero_breaker_policy = \<lparr>cb_ID = '''', cb_Name = '''', cb_Level = '''', cb_SlidingWindowType = '''', cb_SlidingWindowSize = 0,
     cb_MinCallsThreshold = 0, cb_CodePolicy = None, cb_ErrorCodes = [], cb_ErrorMessages = [], cb_MessagePolicy = None,
     cb_FailureRateThreshold = 0, cb_SlowCallRateThreshold = 0, cb_SlowCallDurationThreshold = 0,
     cb_WaitDurationInOpenState = 0, cb_AllowedCallsInHalfOpenState = 0, cb_ForceOpen = 0, cb_OutlierMaxPercent = 0,
     cb_DegradeConfig = None, cb_Version = 0, cb_SlowCallMetric = ''''\<rparr>"

definition zero_limit_policy :: "string \<Rightarrow> LimitPolicy" where
  "zero_limit_policy n = \<lparr>lp_ID = '''', lp_Name = n, lp_Version = 0, lp_Type = '''', lp_SlidingWindows = [], lp_MaxWaitMs = 0,
     lp_RelationType = '''', lp_Conditions = [], lp_Estimator = None, lp_LimitBy = []\<rparr>"

definition zero_context :: GatewayContext where
  "zero_context = \<lparr>g_Request = None, g_GovernanceRequest = None, g_RawBody = '''', g_RequestType = '''', g_OriginalModel = '''',
     g_IsStream = False, g_UserID = '''', g_Tenant = '''', g_SessionID = '''', g_Model = '''', g_Policy = None,
     g_SelectedEndpoint = None, g_UpstreamConnect = 0, g_UpstreamResponse = None, g_UpstreamBody = '''',
     g_UpstreamError = None, g_TTFT = 0, g_FatalErr = None, g_AttemptCount = 0, g_FallbackChain = [],
     g_Tags = Map.empty, g_TraceHeader = ''''\<rparr>"

end
