(* ===== verification/Policy_Merge.thy ===== *)
theory Policy_Merge
  imports Gateway_Types
begin

text \<open>
  \<open>src/pkg/policy/policy.go\<close>: \<open>PolicyMatcher.Match\<close> and \<open>MergePolicies\<close>, which lay the policies of
  global, tenant, user and model scope over each other. The four list-valued fields go through the same name-based
  merge, \<open>merge_named\<close>, with their own item merge; the locale \<open>named_merge\<close> states what the item merge
  must satisfy and shows that the merged list holds, for each name, the merge of the items of that
  name in priority order. The elements of the lists are non-nil, as the source assumes when it reads
  their names.
\<close>

subsection \<open>Item merges\<close>

definition or_str :: "string \<Rightarrow> string \<Rightarrow> string" where
  "or_str source target = (if source \<noteq> '''' then source else target)"

definition or_pos :: "'a::linordered_ab_group_add \<Rightarrow> 'a \<Rightarrow> 'a" where
  "or_pos source target = (if source > 0 then source else target)"

definition or_list :: "'a list \<Rightarrow> 'a list \<Rightarrow> 'a list" where
  "or_list source target = (if source \<noteq> [] then source else target)"

definition or_some :: "'a option \<Rightarrow> 'a option \<Rightarrow> 'a option" where
  "or_some source target = (case source of Some x \<Rightarrow> Some x | None \<Rightarrow> target)"

lemmas or_defs = or_str_def or_pos_def or_list_def

definition mergeLimitPolicy :: "LimitPolicy \<Rightarrow> LimitPolicy \<Rightarrow> LimitPolicy" where
  "mergeLimitPolicy target source =
     \<lparr>lp_ID = or_str (lp_ID source) (lp_ID target), lp_Name = lp_Name target,
      lp_Version = or_pos (lp_Version source) (lp_Version target), lp_Type = or_str (lp_Type source) (lp_Type target),
      lp_SlidingWindows = or_list (lp_SlidingWindows source) (lp_SlidingWindows target),
      lp_MaxWaitMs = or_pos (lp_MaxWaitMs source) (lp_MaxWaitMs target),
      lp_RelationType = or_str (lp_RelationType source) (lp_RelationType target),
      lp_Conditions = or_list (lp_Conditions source) (lp_Conditions target),
      lp_Estimator = None,
      lp_LimitBy = or_list (lp_LimitBy source) (lp_LimitBy target)\<rparr>"

definition mergeRoutePolicy :: "RoutePolicy \<Rightarrow> RoutePolicy \<Rightarrow> RoutePolicy" where
  "mergeRoutePolicy target source =
     \<lparr>rp_ID = or_str (rp_ID source) (rp_ID target), rp_Name = rp_Name target,
      rp_Version = or_pos (rp_Version source) (rp_Version target), rp_Order = or_pos (rp_Order source) (rp_Order target),
      rp_TagRules = or_list (rp_TagRules source) (rp_TagRules target)\<rparr>"

definition mergeCircuitBreakPolicy :: "CircuitBreakPolicy \<Rightarrow> CircuitBreakPolicy \<Rightarrow> CircuitBreakPolicy" where
  "mergeCircuitBreakPolicy target source = target\<lparr>
     cb_ID := or_str (cb_ID source) (cb_ID target),
     cb_Level := or_str (cb_Level source) (cb_Level target),
     cb_SlidingWindowType := or_str (cb_SlidingWindowType source) (cb_SlidingWindowType target),
     cb_SlidingWindowSize := or_pos (cb_SlidingWindowSize source) (cb_SlidingWindowSize target),
     cb_MinCallsThreshold := or_pos (cb_MinCallsThreshold source) (cb_MinCallsThreshold target),
     cb_CodePolicy := or_some (cb_CodePolicy source) (cb_CodePolicy target),
     cb_ErrorCodes := or_list (cb_ErrorCodes source) (cb_ErrorCodes target),
     cb_FailureRateThreshold := or_pos (cb_FailureRateThreshold source) (cb_FailureRateThreshold target),
     cb_SlowCallRateThreshold := or_pos (cb_SlowCallRateThreshold source) (cb_SlowCallRateThreshold target),
     cb_SlowCallDurationThreshold := or_pos (cb_SlowCallDurationThreshold source) (cb_SlowCallDurationThreshold target),
     cb_WaitDurationInOpenState := or_pos (cb_WaitDurationInOpenState source) (cb_WaitDurationInOpenState target),
     cb_AllowedCallsInHalfOpenState := or_pos (cb_AllowedCallsInHalfOpenState source) (cb_AllowedCallsInHalfOpenState target),
     cb_ForceOpen := (if cb_ForceOpen source \<noteq> 0 then cb_ForceOpen source else cb_ForceOpen target),
     cb_OutlierMaxPercent := or_pos (cb_OutlierMaxPercent source) (cb_OutlierMaxPercent target),
     cb_DegradeConfig := or_some (cb_DegradeConfig source) (cb_DegradeConfig target),
     cb_Version := or_pos (cb_Version source) (cb_Version target)\<rparr>"

definition mergeTaggingPolicy :: "TaggingPolicy \<Rightarrow> TaggingPolicy \<Rightarrow> TaggingPolicy" where
  "mergeTaggingPolicy target source =
     \<lparr>tp_ID = or_str (tp_ID source) (tp_ID target), tp_Name = tp_Name target,
      tp_Version = or_pos (tp_Version source) (tp_Version target), tp_Order = or_pos (tp_Order source) (tp_Order target),
      tp_Relation = or_str (tp_Relation source) (tp_Relation target),
      tp_Conditions = or_list (tp_Conditions source) (tp_Conditions target),
      tp_Actions = or_list (tp_Actions source) (tp_Actions target)\<rparr>"

subsection \<open>The name-based merge of two lists\<close>

definition merge_map :: "('a \<Rightarrow> string) \<Rightarrow> ('a \<Rightarrow> 'a \<Rightarrow> 'a) \<Rightarrow> 'a list \<Rightarrow> 'a list \<Rightarrow> (string \<rightharpoonup> 'a)" where
  "merge_map nm mrg result items =
     fold (\<lambda>item m. m(nm item \<mapsto> (case m (nm item) of Some old \<Rightarrow> mrg old item | None \<Rightarrow> item))) items
       (fold (\<lambda>item m. m(nm item \<mapsto> item)) result Map.empty)"

definition merge_named :: "('a \<Rightarrow> string) \<Rightarrow> ('a \<Rightarrow> 'a \<Rightarrow> 'a) \<Rightarrow> 'a list \<Rightarrow> 'a list \<Rightarrow> 'a list" where
  "merge_named nm mrg result items =
     (if items = [] then result
      else let m = merge_map nm mrg result items;
               get = (\<lambda>item. case m (nm item) of Some x \<Rightarrow> x | None \<Rightarrow> item)
           in map get result @ map get (filter (\<lambda>item. nm item \<notin> nm ` set result) items))"

subsection \<open>Merging policies\<close>

definition merge_policy :: "Policy \<Rightarrow> Policy \<Rightarrow> Policy" where
  "merge_policy p result = \<lparr>
     pl_LoadBalancePolicy = or_some (pl_LoadBalancePolicy p) (pl_LoadBalancePolicy result),
     pl_InvocationPolicy = or_some (pl_InvocationPolicy p) (pl_InvocationPolicy result),
     pl_LimitPolicies = merge_named lp_Name mergeLimitPolicy (pl_LimitPolicies result) (pl_LimitPolicies p),
     pl_RoutePolicies = merge_named rp_Name mergeRoutePolicy (pl_RoutePolicies result) (pl_RoutePolicies p),
     pl_CircuitBreakPolicies = merge_named cb_Name mergeCircuitBreakPolicy (pl_CircuitBreakPolicies result) (pl_CircuitBreakPolicies p),
     pl_TaggingPolicies = merge_named tp_Name mergeTaggingPolicy (pl_TaggingPolicies result) (pl_TaggingPolicies p),
     pl_Permissions = or_some (pl_Permissions p) (pl_Permissions result),
     pl_Billing = or_some (pl_Billing p) (pl_Billing result),
     pl_EnableMetricsReporting = (if pl_EnableMetricsReporting p then True else pl_EnableMetricsReporting result)\<rparr>"

definition MergePolicies :: "Policy option list \<Rightarrow> Policy" where
  "MergePolicies policies =
     fold (\<lambda>p result. case p of None \<Rightarrow> result | Some q \<Rightarrow> merge_policy q result) policies zero_policy"

definition PolicyMatcher_Match :: "Policy option list \<Rightarrow> string + Policy" where
  "PolicyMatcher_Match policies = (let valid = filter (\<lambda>p. p \<noteq> None) policies in
     if valid = [] then Inl ''no dynamic policy matched'' else Inr (MergePolicies valid))"

subsection \<open>The contract of an item merge, and what it gives\<close>

definition lookup_name :: "('a \<Rightarrow> string) \<Rightarrow> string \<Rightarrow> 'a list \<Rightarrow> 'a option" where
  "lookup_name nm n xs = find (\<lambda>x. nm x = n) xs"

definition combine :: "('a \<Rightarrow> 'a \<Rightarrow> 'a) \<Rightarrow> 'a option \<Rightarrow> 'a option \<Rightarrow> 'a option" where
  "combine mrg a b = (case a of None \<Rightarrow> b | Some x \<Rightarrow> (case b of None \<Rightarrow> Some x | Some y \<Rightarrow> Some (mrg x y)))"

lemma fold_put: "fold (\<lambda>item m. m(nm item \<mapsto> item)) xs m n
   = (case find (\<lambda>x. nm x = n) (rev xs) of Some x \<Rightarrow> Some x | None \<Rightarrow> m n)"
  by (induction xs arbitrary: m) (auto simp: find_append split: option.splits)

lemma find_rev_distinct:
  "distinct (map nm xs) \<Longrightarrow> find (\<lambda>x. nm x = n) (rev xs) = find (\<lambda>x. nm x = n) xs"
proof (induction xs)
  case (Cons a xs)
  have "nm a = n \<Longrightarrow> find (\<lambda>x. nm x = n) xs = None" using Cons.prems by (auto simp: find_None_iff image_iff)
  with Cons show ?case by (auto simp: find_append split: option.splits)
qed simp

lemma lookup_name_in: "lookup_name nm n xs = Some x \<Longrightarrow> x \<in> set xs \<and> nm x = n"
  by (auto simp: lookup_name_def find_Some_iff)

lemma lookup_name_None: "lookup_name nm n xs = None \<longleftrightarrow> n \<notin> nm ` set xs"
  by (auto simp: lookup_name_def find_None_iff)

lemma lookup_name_self: "distinct (map nm xs) \<Longrightarrow> x \<in> set xs \<Longrightarrow> lookup_name nm (nm x) xs = Some x"
  by (induction xs) (auto simp: lookup_name_def)

lemma lookup_name_append: "lookup_name nm n (xs @ ys) = (case lookup_name nm n xs of Some x \<Rightarrow> Some x | None \<Rightarrow> lookup_name nm n ys)"
  by (simp add: lookup_name_def find_append split: option.split)

locale named_merge =
  fixes nm :: "'a \<Rightarrow> string" and mrg :: "'a \<Rightarrow> 'a \<Rightarrow> 'a"
  assumes merge_name: "nm (mrg target source) = nm target"
    and merge_assoc: "mrg (mrg a b) c = mrg a (mrg b c)"
begin

lemma merge_map_step:
  assumes "distinct (map nm items)"
  shows "fold (\<lambda>item m. m(nm item \<mapsto> (case m (nm item) of Some old \<Rightarrow> mrg old item | None \<Rightarrow> item))) items m n
     = combine mrg (m n) (lookup_name nm n items)"
  using assms
proof (induction items arbitrary: m)
  case (Cons i items)
  let ?m = "m(nm i \<mapsto> (case m (nm i) of Some old \<Rightarrow> mrg old i | None \<Rightarrow> i))"
  have "nm i = n \<Longrightarrow> lookup_name nm n items = None" using Cons.prems by (auto simp: lookup_name_None)
  with Cons.IH[of ?m] Cons.prems show ?case
    by (auto simp: lookup_name_def combine_def split: option.split)
qed (simp add: lookup_name_def combine_def split: option.split)

lemma merge_map_lookup:
  assumes "distinct (map nm result)" "distinct (map nm items)"
  shows "merge_map nm mrg result items n = combine mrg (lookup_name nm n result) (lookup_name nm n items)"
proof -
  have "fold (\<lambda>item m. m(nm item \<mapsto> item)) result Map.empty n = lookup_name nm n result"
    using assms(1) by (simp add: fold_put find_rev_distinct lookup_name_def split: option.split)
  then show ?thesis using assms(2) by (simp add: merge_map_def merge_map_step)
qed

lemma combine_name: "combine mrg (lookup_name nm n xs) (lookup_name nm n ys) = Some z \<Longrightarrow> nm z = n"
  by (auto simp: combine_def merge_name dest!: lookup_name_in split: option.splits)

lemma merge_named_names:
  assumes "distinct (map nm result)" "distinct (map nm items)"
  shows "map nm (merge_named nm mrg result items) = map nm result @ filter (\<lambda>n. n \<notin> nm ` set result) (map nm items)"
proof -
  let ?get = "\<lambda>item. case merge_map nm mrg result items (nm item) of Some x \<Rightarrow> x | None \<Rightarrow> item"
  have "nm (?get i) = nm i" for i
    using combine_name merge_map_lookup[OF assms] by (auto split: option.split)
  then show ?thesis by (auto simp: merge_named_def Let_def filter_map comp_def)
qed

lemma merge_named_distinct:
  assumes "distinct (map nm result)" "distinct (map nm items)"
  shows "distinct (map nm (merge_named nm mrg result items))"
  using assms by (auto simp: merge_named_names distinct_filter)

lemma merge_named_lookup:
  assumes d: "distinct (map nm result)" "distinct (map nm items)"
  shows "lookup_name nm n (merge_named nm mrg result items) = combine mrg (lookup_name nm n result) (lookup_name nm n items)"
proof (cases "combine mrg (lookup_name nm n result) (lookup_name nm n items)")
  case None
  then have "n \<notin> set (map nm result)" "n \<notin> set (map nm items)"
    by (auto simp: combine_def lookup_name_None split: option.splits)
  then have "n \<notin> set (map nm (merge_named nm mrg result items))" by (auto simp: merge_named_names[OF d])
  with None show ?thesis by (simp add: lookup_name_None)
next
  case (Some z)
  have z: "nm z = n" using combine_name Some by blast
  have "z \<in> set (merge_named nm mrg result items)"
  proof (cases "items = []")
    case True
    with Some show ?thesis by (auto simp: combine_def lookup_name_def merge_named_def find_Some_iff split: option.splits)
  next
    case False
    have "n \<in> nm ` set result \<or> n \<notin> nm ` set result \<and> n \<in> nm ` set items"
      using Some lookup_name_None[of nm n result] lookup_name_None[of nm n items] by (auto simp: combine_def split: option.splits)
    then obtain i where i: "i \<in> set result \<or> i \<in> set items \<and> nm i \<notin> nm ` set result" "nm i = n" by auto
    have "(case merge_map nm mrg result items (nm i) of Some x \<Rightarrow> x | None \<Rightarrow> i) = z"
      using Some i(2) by (simp add: merge_map_lookup[OF d])
    with i False show ?thesis by (auto simp: merge_named_def Let_def image_iff)
  qed
  from lookup_name_self[OF merge_named_distinct[OF d] this] z Some show ?thesis by simp
qed

lemma combine_assoc: "combine mrg (combine mrg a b) c = combine mrg a (combine mrg b c)"
  by (simp add: combine_def merge_assoc split: option.split)

lemma layers:
  assumes "\<forall>l\<in>set ls. distinct (map nm l)" "distinct (map nm acc)"
  shows "distinct (map nm (fold (\<lambda>l acc. merge_named nm mrg acc l) ls acc))
     \<and> lookup_name nm n (fold (\<lambda>l acc. merge_named nm mrg acc l) ls acc)
       = combine mrg (lookup_name nm n acc) (fold (\<lambda>l r. combine mrg r (lookup_name nm n l)) ls None)"
  using assms
proof (induction ls arbitrary: acc)
  case (Cons l ls)
  have pull: "fold (\<lambda>l r. combine mrg r (lookup_name nm n l)) ls r
      = combine mrg r (fold (\<lambda>l r. combine mrg r (lookup_name nm n l)) ls None)" for r
  proof (induction ls arbitrary: r)
    case (Cons l ls)
    show ?case using Cons[of "combine mrg r (lookup_name nm n l)"] Cons[of "combine mrg None (lookup_name nm n l)"]
      by (simp add: combine_assoc) (simp add: combine_def)
  qed (simp add: combine_def split: option.split)
  have d: "distinct (map nm (merge_named nm mrg acc l))" using Cons.prems merge_named_distinct by simp
  with Cons.IH[OF _ d] Cons.prems pull[of "combine mrg None (lookup_name nm n l)"] show ?case
    by (simp add: merge_named_lookup combine_assoc) (simp add: combine_def)
qed (simp add: combine_def split: option.split)

end

lemma or_assoc:
  "or_str c (or_str b a) = or_str (or_str c b) a" "or_list c' (or_list b' a') = or_list (or_list c' b') a'"
  "or_some c'' (or_some b'' a'') = or_some (or_some c'' b'') a''" "or_pos z (or_pos y x) = or_pos (or_pos z y) x"
  by (simp_all add: or_defs or_some_def split: option.split)

interpretation limit_merge: named_merge lp_Name mergeLimitPolicy
  by unfold_locales (simp_all add: mergeLimitPolicy_def or_assoc)

interpretation route_merge: named_merge rp_Name mergeRoutePolicy
  by unfold_locales (simp_all add: mergeRoutePolicy_def or_assoc)

interpretation breaker_merge: named_merge cb_Name mergeCircuitBreakPolicy
  by unfold_locales (simp_all add: mergeCircuitBreakPolicy_def or_assoc)

interpretation tagging_merge: named_merge tp_Name mergeTaggingPolicy
  by unfold_locales (simp_all add: mergeTaggingPolicy_def or_assoc)

subsection \<open>The merged policy\<close>

definition layers_of :: "Policy option list \<Rightarrow> Policy list" where
  "layers_of ps = map the (filter (\<lambda>p. p \<noteq> None) ps)"

lemma MergePolicies_fold: "MergePolicies ps = fold merge_policy (layers_of ps) zero_policy"
proof -
  have "fold (\<lambda>p result. case p of None \<Rightarrow> result | Some q \<Rightarrow> merge_policy q result) ps acc
      = fold merge_policy (layers_of ps) acc" for acc
    by (induction ps arbitrary: acc) (auto simp: layers_of_def)
  then show ?thesis by (simp add: MergePolicies_def)
qed

lemma merge_fields:
  "pl_LimitPolicies (fold merge_policy ls acc) = fold (\<lambda>l a. merge_named lp_Name mergeLimitPolicy a l) (map pl_LimitPolicies ls) (pl_LimitPolicies acc)"
  "pl_RoutePolicies (fold merge_policy ls acc) = fold (\<lambda>l a. merge_named rp_Name mergeRoutePolicy a l) (map pl_RoutePolicies ls) (pl_RoutePolicies acc)"
  "pl_CircuitBreakPolicies (fold merge_policy ls acc)
     = fold (\<lambda>l a. merge_named cb_Name mergeCircuitBreakPolicy a l) (map pl_CircuitBreakPolicies ls) (pl_CircuitBreakPolicies acc)"
  "pl_TaggingPolicies (fold merge_policy ls acc)
     = fold (\<lambda>l a. merge_named tp_Name mergeTaggingPolicy a l) (map pl_TaggingPolicies ls) (pl_TaggingPolicies acc)"
  by (induction ls arbitrary: acc) (simp_all add: merge_policy_def)

lemma combine_None [simp]: "combine mrg None b = b"
  by (simp add: combine_def)

lemma zero_policy_lists [simp]:
  "pl_LimitPolicies zero_policy = []" "pl_RoutePolicies zero_policy = []" "pl_CircuitBreakPolicies zero_policy = []"
  "pl_TaggingPolicies zero_policy = []"
  by (simp_all add: zero_policy_def)

lemma lookup_name_Nil [simp]: "lookup_name nm n [] = None"
  by (simp add: lookup_name_def)

text \<open>Refinement of the layered lookup: when every layer names its circuit break policies
  distinctly, the merged policy holds exactly one policy per name, and it is the merge, from the lowest
  to the highest priority, of the policies of that name in the layers.\<close>

theorem merged_breaker_policies:
  assumes "\<forall>q\<in>set (layers_of ps). distinct (map cb_Name (pl_CircuitBreakPolicies q))"
  shows "distinct (map cb_Name (pl_CircuitBreakPolicies (MergePolicies ps)))
     \<and> lookup_name cb_Name n (pl_CircuitBreakPolicies (MergePolicies ps))
       = fold (\<lambda>q r. combine mergeCircuitBreakPolicy r (lookup_name cb_Name n (pl_CircuitBreakPolicies q))) (layers_of ps) None"
  using breaker_merge.layers[of "map pl_CircuitBreakPolicies (layers_of ps)" "[]" n] assms
  by (simp add: MergePolicies_fold merge_fields fold_map comp_def)

text \<open>The same for the limit policies.\<close>

theorem merged_limit_policies:
  assumes "\<forall>q\<in>set (layers_of ps). distinct (map lp_Name (pl_LimitPolicies q))"
  shows "distinct (map lp_Name (pl_LimitPolicies (MergePolicies ps)))
     \<and> lookup_name lp_Name n (pl_LimitPolicies (MergePolicies ps))
       = fold (\<lambda>q r. combine mergeLimitPolicy r (lookup_name lp_Name n (pl_LimitPolicies q))) (layers_of ps) None"
  using limit_merge.layers[of "map pl_LimitPolicies (layers_of ps)" "[]" n] assms
  by (simp add: MergePolicies_fold merge_fields fold_map comp_def)

definition demo_layer :: "string \<Rightarrow> int \<Rightarrow> Policy option" where
  "demo_layer n v = Some (zero_policy\<lparr>pl_CircuitBreakPolicies := [zero_breaker_policy\<lparr>cb_Name := n, cb_SlidingWindowSize := v\<rparr>],
     pl_LimitPolicies := [(zero_limit_policy n)\<lparr>lp_MaxWaitMs := v\<rparr>]\<rparr>)"

lemma demo_layers: "layers_of [demo_layer ''a'' 10, None, demo_layer ''a'' 0, demo_layer ''a'' 7]
   = [the (demo_layer ''a'' 10), the (demo_layer ''a'' 0), the (demo_layer ''a'' 7)]"
  by (simp add: layers_of_def demo_layer_def)

theorem merged_breaker_policies_witness:
  "map_option cb_SlidingWindowSize (lookup_name cb_Name ''a''
     (pl_CircuitBreakPolicies (MergePolicies [demo_layer ''a'' 10, None, demo_layer ''a'' 0, demo_layer ''a'' 7]))) = Some 7"
  using merged_breaker_policies[of "[demo_layer ''a'' 10, None, demo_layer ''a'' 0, demo_layer ''a'' 7]" "''a''"]
  by (simp add: demo_layers) (simp add: demo_layer_def zero_breaker_policy_def lookup_name_def combine_def
      mergeCircuitBreakPolicy_def or_defs)

theorem merged_limit_policies_witness:
  "map_option lp_MaxWaitMs (lookup_name lp_Name ''a''
     (pl_LimitPolicies (MergePolicies [demo_layer ''a'' 10, None, demo_layer ''a'' 0, demo_layer ''a'' 7]))) = Some 7"
  using merged_limit_policies[of "[demo_layer ''a'' 10, None, demo_layer ''a'' 0, demo_layer ''a'' 7]" "''a''"]
  by (simp add: demo_layers) (simp add: demo_layer_def zero_limit_policy_def lookup_name_def combine_def
      mergeLimitPolicy_def or_defs)

text \<open>The fields that are not merged by name: the highest layer that sets one wins, and metrics
  reporting is on when any layer turns it on.\<close>

theorem merged_scalar_fields:
  "let P = MergePolicies ps; ls = rev (layers_of ps) in
   pl_Permissions P = (case find (\<lambda>q. pl_Permissions q \<noteq> None) ls of None \<Rightarrow> None | Some q \<Rightarrow> pl_Permissions q)
   \<and> pl_LoadBalancePolicy P = (case find (\<lambda>q. pl_LoadBalancePolicy q \<noteq> None) ls of None \<Rightarrow> None | Some q \<Rightarrow> pl_LoadBalancePolicy q)
   \<and> pl_InvocationPolicy P = (case find (\<lambda>q. pl_InvocationPolicy q \<noteq> None) ls of None \<Rightarrow> None | Some q \<Rightarrow> pl_InvocationPolicy q)
   \<and> pl_Billing P = (case find (\<lambda>q. pl_Billing q \<noteq> None) ls of None \<Rightarrow> None | Some q \<Rightarrow> pl_Billing q)
   \<and> pl_EnableMetricsReporting P = list_ex pl_EnableMetricsReporting ls"
proof -
  have scalar: "f (fold merge_policy ls acc) = (case find (\<lambda>q. f q \<noteq> None) (rev ls) of None \<Rightarrow> f acc | Some q \<Rightarrow> f q)"
    if "\<And>p r. f (merge_policy p r) = or_some (f p) (f r)" for f :: "Policy \<Rightarrow> 'b option" and ls acc
    by (induction ls arbitrary: acc) (auto simp: find_append that or_some_def split: option.splits)
  have flag: "pl_EnableMetricsReporting (fold merge_policy ls acc) = (pl_EnableMetricsReporting acc \<or> list_ex pl_EnableMetricsReporting ls)" for ls acc
    by (induction ls arbitrary: acc) (auto simp: merge_policy_def)
  show ?thesis unfolding Let_def MergePolicies_fold
    by (intro conjI; (subst scalar)?) (simp_all add: merge_policy_def zero_policy_def flag split: option.split)
qed

text \<open>The merge of two limit policies of one name has no estimator, whatever either of them
  configures: the estimator of a token limit is lost as soon as two layers share the policy's name.\<close>

theorem merge_drops_estimator:
  "\<exists>lo hi. lp_Estimator lo \<noteq> None \<and> lp_Estimator hi \<noteq> None \<and> lp_Name lo = lp_Name hi
     \<and> map lp_Estimator (pl_LimitPolicies (MergePolicies
         [Some (zero_policy\<lparr>pl_LimitPolicies := [lo]\<rparr>), Some (zero_policy\<lparr>pl_LimitPolicies := [hi]\<rparr>)])) = [None]"
proof -
  let ?p = "(zero_limit_policy ''t'')\<lparr>lp_Estimator := Some \<lparr>es_Type = ''char_ratio'', es_Ratio = 4\<rparr>\<rparr>"
  have "map lp_Estimator (pl_LimitPolicies (MergePolicies
         [Some (zero_policy\<lparr>pl_LimitPolicies := [?p]\<rparr>), Some (zero_policy\<lparr>pl_LimitPolicies := [?p]\<rparr>)])) = [None]"
    by code_simp
  then show ?thesis by (intro exI[of _ ?p]) simp
qed

end
