(* ===== verification/State_Store.thy ===== *)
theory State_Store
  imports Go_Float
begin

text \<open>
  The in-memory state store of \<open>src/pkg/store/memory.go\<close>: fixed-window counters, token buckets,
  latency rings and moving averages, and the store that keeps one of each per key. The mutex of an entry
  makes each operation one step; the clock reading is an argument. Counters are \<open>int\<close>: they stay far
  from the 64-bit bounds.
\<close>

subsection \<open>Fixed-window counters\<close>

record rateLimitEntry =
  rl_count :: int
  rl_window :: duration
  rl_resetAt :: instant

definition rl_incr :: "int \<Rightarrow> instant \<Rightarrow> rateLimitEntry \<Rightarrow> int \<times> rateLimitEntry" where
  "rl_incr tokens now e =
     (let e1 = (if now > rl_resetAt e \<or> time_is_zero (rl_resetAt e)
                then e\<lparr>rl_count := 0, rl_resetAt := time_add now (rl_window e)\<rparr> else e);
          e2 = e1\<lparr>rl_count := rl_count e1 + tokens\<rparr>
      in (rl_count e2, e2))"

definition rl_refund :: "int \<Rightarrow> rateLimitEntry \<Rightarrow> rateLimitEntry" where
  "rl_refund tokens e = (let c = rl_count e - tokens in e\<lparr>rl_count := if c < 0 then 0 else c\<rparr>)"

subsection \<open>Token buckets\<close>

record tokenBucketEntry =
  bk_tokens :: rat
  bk_lastUpdated :: instant

definition bk_refill :: "int \<Rightarrow> int \<Rightarrow> duration \<Rightarrow> instant \<Rightarrow> tokenBucketEntry \<Rightarrow> tokenBucketEntry" where
  "bk_refill rate capacity window now e =
     (let limitCap = float64 capacity in
      if time_is_zero (bk_lastUpdated e) then \<lparr>bk_tokens = limitCap, bk_lastUpdated = now\<rparr>
      else let delta = time_sub now (bk_lastUpdated e) in
        if delta > 0
        then let genTokens = fl64 (fl64 (float64 delta / float64 window) * float64 rate);
                 t = fl64 (bk_tokens e + genTokens)
             in \<lparr>bk_tokens = (if t > limitCap then limitCap else t), bk_lastUpdated = now\<rparr>
        else e)"

definition bk_apply :: "int \<Rightarrow> int \<Rightarrow> int \<Rightarrow> duration \<Rightarrow> instant \<Rightarrow> bool \<Rightarrow> tokenBucketEntry \<Rightarrow> (bool \<times> int) \<times> tokenBucketEntry" where
  "bk_apply requested rate capacity window now adjustment e =
     (let limitCap = float64 capacity; e1 = bk_refill rate capacity window now e; reqFloat = float64 requested in
      if adjustment \<or> requested < 0 \<or> bk_tokens e1 \<ge> reqFloat
      then let t = fl64 (bk_tokens e1 - reqFloat); e2 = e1\<lparr>bk_tokens := if t > limitCap then limitCap else t\<rparr>
           in ((True, int64_of (bk_tokens e2)), e2)
      else ((False, int64_of (bk_tokens e1)), e1))"

definition bk_take :: "int \<Rightarrow> int \<Rightarrow> int \<Rightarrow> duration \<Rightarrow> instant \<Rightarrow> tokenBucketEntry \<Rightarrow> (bool \<times> int) \<times> tokenBucketEntry" where
  "bk_take requested rate capacity window now e = bk_apply requested rate capacity window now False e"

subsection \<open>Latency rings\<close>

record latencySample =
  ls_latency :: duration
  ls_timestamp :: instant

record latencyRing =
  lr_samples :: "latencySample list"
  lr_writePos :: nat
  lr_count :: nat
  lr_capacity :: nat

definition latencyRingCapacity :: nat where
  "latencyRingCapacity = 1000"

definition newLatencyRing :: "nat \<Rightarrow> latencyRing" where
  "newLatencyRing capacity = \<lparr>lr_samples = replicate capacity \<lparr>ls_latency = 0, ls_timestamp = 0\<rparr>,
     lr_writePos = 0, lr_count = 0, lr_capacity = capacity\<rparr>"

definition lr_add :: "duration \<Rightarrow> instant \<Rightarrow> latencyRing \<Rightarrow> latencyRing" where
  "lr_add latency now r = r\<lparr>
     lr_samples := (lr_samples r)[lr_writePos r := \<lparr>ls_latency = latency, ls_timestamp = now\<rparr>],
     lr_writePos := (lr_writePos r + 1) mod lr_capacity r,
     lr_count := (if lr_count r < lr_capacity r then lr_count r + 1 else lr_count r)\<rparr>"

text \<open>The samples in the order the averaging loop reads them.\<close>

definition lr_read :: "latencyRing \<Rightarrow> latencySample list" where
  "lr_read r = (let start = (if lr_count r = lr_capacity r then lr_writePos r else 0)
     in map (\<lambda>i. lr_samples r ! ((start + i) mod lr_capacity r)) [0 ..< lr_count r])"

definition go_quot :: "int \<Rightarrow> int \<Rightarrow> int" where
  "go_quot a b = (if a \<ge> 0 then a div b else - ((- a) div b))"

definition lr_avg :: "duration \<Rightarrow> instant \<Rightarrow> latencyRing \<Rightarrow> duration option" where
  "lr_avg window now r =
     (if lr_count r = 0 then None
      else let since = time_add now (- window);
               used = filter (\<lambda>s. \<not> (window > 0 \<and> ls_timestamp s < since)) (lr_read r)
           in if used = [] then None
              else Some (go_quot (sum_list (map ls_latency used)) (int (length used))))"

subsection \<open>The store\<close>

record MemoryStateStore =
  ss_rateLimits :: "string \<rightharpoonup> rateLimitEntry"
  ss_tokenBuckets :: "string \<rightharpoonup> tokenBucketEntry"
  ss_latencies :: "string \<rightharpoonup> latencyRing"
  ss_ttfts :: "string \<rightharpoonup> latencyRing"
  ss_emas :: "string \<rightharpoonup> rat"

definition NewMemoryStateStore :: MemoryStateStore where
  "NewMemoryStateStore = \<lparr>ss_rateLimits = Map.empty, ss_tokenBuckets = Map.empty, ss_latencies = Map.empty,
     ss_ttfts = Map.empty, ss_emas = Map.empty\<rparr>"

definition getOrCreateRateLimitEntry :: "string \<Rightarrow> duration \<Rightarrow> MemoryStateStore \<Rightarrow> rateLimitEntry" where
  "getOrCreateRateLimitEntry key window s = (case ss_rateLimits s key of Some e \<Rightarrow> e
     | None \<Rightarrow> \<lparr>rl_count = 0, rl_window = window, rl_resetAt = 0\<rparr>)"

definition RateLimitIncr :: "string \<Rightarrow> int \<Rightarrow> duration \<Rightarrow> instant \<Rightarrow> MemoryStateStore \<Rightarrow> int \<times> MemoryStateStore" where
  "RateLimitIncr key tokens window now s = (let (c, e) = rl_incr tokens now (getOrCreateRateLimitEntry key window s)
     in (c, s\<lparr>ss_rateLimits := (ss_rateLimits s)(key \<mapsto> e)\<rparr>))"

definition RateLimitRefund :: "string \<Rightarrow> int \<Rightarrow> MemoryStateStore \<Rightarrow> MemoryStateStore" where
  "RateLimitRefund key tokens s =
     s\<lparr>ss_rateLimits := (ss_rateLimits s)(key \<mapsto> rl_refund tokens (getOrCreateRateLimitEntry key 0 s))\<rparr>"

definition getOrCreateTokenBucketEntry :: "string \<Rightarrow> MemoryStateStore \<Rightarrow> tokenBucketEntry" where
  "getOrCreateTokenBucketEntry key s = (case ss_tokenBuckets s key of Some e \<Rightarrow> e
     | None \<Rightarrow> \<lparr>bk_tokens = 0, bk_lastUpdated = 0\<rparr>)"

definition RateLimitTake :: "string \<Rightarrow> int \<Rightarrow> int \<Rightarrow> int \<Rightarrow> duration \<Rightarrow> instant \<Rightarrow> MemoryStateStore \<Rightarrow> (bool \<times> int) \<times> MemoryStateStore" where
  "RateLimitTake key tokens rate capacity window now s =
     (let (r, e) = bk_take tokens rate capacity window now (getOrCreateTokenBucketEntry key s)
      in (r, s\<lparr>ss_tokenBuckets := (ss_tokenBuckets s)(key \<mapsto> e)\<rparr>))"

definition RateLimitAdjust :: "string \<Rightarrow> int \<Rightarrow> int \<Rightarrow> int \<Rightarrow> duration \<Rightarrow> instant \<Rightarrow> MemoryStateStore \<Rightarrow> int \<times> MemoryStateStore" where
  "RateLimitAdjust key tokens rate capacity window now s =
     (let (r, e) = bk_apply tokens rate capacity window now True (getOrCreateTokenBucketEntry key s)
      in (snd r, s\<lparr>ss_tokenBuckets := (ss_tokenBuckets s)(key \<mapsto> e)\<rparr>))"

definition getOrCreateLatencyRing :: "(string \<rightharpoonup> latencyRing) \<Rightarrow> string \<Rightarrow> latencyRing" where
  "getOrCreateLatencyRing m endpointID = (case m endpointID of Some r \<Rightarrow> r | None \<Rightarrow> newLatencyRing latencyRingCapacity)"

definition RecordLatency :: "string \<Rightarrow> duration \<Rightarrow> instant \<Rightarrow> MemoryStateStore \<Rightarrow> MemoryStateStore" where
  "RecordLatency endpointID latency now s =
     s\<lparr>ss_latencies := (ss_latencies s)(endpointID \<mapsto> lr_add latency now (getOrCreateLatencyRing (ss_latencies s) endpointID))\<rparr>"

definition GetAvgLatency :: "string \<Rightarrow> duration \<Rightarrow> instant \<Rightarrow> MemoryStateStore \<Rightarrow> duration \<times> MemoryStateStore" where
  "GetAvgLatency endpointID window now s = (let r = getOrCreateLatencyRing (ss_latencies s) endpointID
     in (case lr_avg window now r of None \<Rightarrow> 0 | Some a \<Rightarrow> a, s\<lparr>ss_latencies := (ss_latencies s)(endpointID \<mapsto> r)\<rparr>))"

definition RecordTTFT :: "string \<Rightarrow> duration \<Rightarrow> instant \<Rightarrow> MemoryStateStore \<Rightarrow> MemoryStateStore" where
  "RecordTTFT endpointID ttft now s =
     s\<lparr>ss_ttfts := (ss_ttfts s)(endpointID \<mapsto> lr_add ttft now (getOrCreateLatencyRing (ss_ttfts s) endpointID))\<rparr>"

definition GetAvgTTFT :: "string \<Rightarrow> duration \<Rightarrow> instant \<Rightarrow> MemoryStateStore \<Rightarrow> duration \<times> MemoryStateStore" where
  "GetAvgTTFT endpointID window now s = (let r = getOrCreateLatencyRing (ss_ttfts s) endpointID
     in (case lr_avg window now r of None \<Rightarrow> 0 | Some a \<Rightarrow> a, s\<lparr>ss_ttfts := (ss_ttfts s)(endpointID \<mapsto> r)\<rparr>))"

definition UpdateEMA :: "string \<Rightarrow> int \<Rightarrow> rat \<Rightarrow> MemoryStateStore \<Rightarrow> rat \<times> MemoryStateStore" where
  "UpdateEMA key actual alpha s =
     (let old = (case ss_emas s key of Some v \<Rightarrow> v | None \<Rightarrow> 0);
          val = (if old = 0 then float64 actual
                 else fl64 (fl64 (float64 actual * alpha) + fl64 (old * fl64 (1 - alpha))))
      in (val, s\<lparr>ss_emas := (ss_emas s)(key \<mapsto> val)\<rparr>))"

definition GetEMA :: "string \<Rightarrow> MemoryStateStore \<Rightarrow> rat" where
  "GetEMA key s = (case ss_emas s key of Some v \<Rightarrow> v | None \<Rightarrow> 0)"

subsection \<open>The ring refines the list of the latest samples\<close>

definition ring_rel :: "latencySample list \<Rightarrow> latencyRing \<Rightarrow> bool" where
  "ring_rel hist r \<longleftrightarrow> 0 < lr_capacity r \<and> length (lr_samples r) = lr_capacity r
     \<and> lr_count r = min (lr_capacity r) (length hist) \<and> lr_writePos r = length hist mod lr_capacity r
     \<and> (\<forall>j. j < length hist \<longrightarrow> length hist - lr_capacity r \<le> j \<longrightarrow> lr_samples r ! (j mod lr_capacity r) = hist ! j)"

lemma ring_rel_new: "0 < c \<Longrightarrow> ring_rel [] (newLatencyRing c)"
  by (simp add: ring_rel_def newLatencyRing_def)

lemma mod_neq_window:
  fixes j n c :: nat
  assumes "j < n" "n < j + c"
  shows "j mod c \<noteq> n mod c"
proof
  assume "j mod c = n mod c"
  then have "c dvd n - j" using assms(1) by (metis less_imp_le mod_eq_dvd_iff_nat)
  then show False using assms by (auto dest: dvd_imp_le)
qed

lemma ring_rel_add:
  assumes "ring_rel hist r"
  shows "ring_rel (hist @ [\<lparr>ls_latency = l, ls_timestamp = t\<rparr>]) (lr_add l t r)"
proof -
  let ?c = "lr_capacity r" and ?n = "length hist"
  have c: "0 < ?c" "length (lr_samples r) = ?c" "lr_writePos r = ?n mod ?c" using assms by (simp_all add: ring_rel_def)
  have "lr_samples (lr_add l t r) ! (j mod ?c) = (hist @ [\<lparr>ls_latency = l, ls_timestamp = t\<rparr>]) ! j"
    if "j < Suc ?n" "Suc ?n - ?c \<le> j" for j
  proof (cases "j = ?n")
    case True
    then show ?thesis using c by (simp add: lr_add_def nth_append)
  next
    case False
    then have "j < ?n" "?n < j + ?c" using that by linarith+
    then have "j mod ?c \<noteq> ?n mod ?c" by (rule mod_neq_window)
    moreover have "lr_samples r ! (j mod ?c) = hist ! j" using assms \<open>j < ?n\<close> \<open>?n < j + ?c\<close> by (simp add: ring_rel_def)
    ultimately show ?thesis using \<open>j < ?n\<close> c(3) by (simp add: lr_add_def nth_append)
  qed
  then show ?thesis using assms by (auto simp: ring_rel_def lr_add_def mod_Suc_eq)
qed

lemma ring_rel_read:
  assumes "ring_rel hist r"
  shows "lr_read r = lastn (lr_capacity r) hist"
proof (rule nth_equalityI)
  let ?c = "lr_capacity r" and ?n = "length hist"
  have c: "0 < ?c" "lr_count r = min ?c ?n" "lr_writePos r = ?n mod ?c" using assms by (simp_all add: ring_rel_def)
  show "length (lr_read r) = length (lastn ?c hist)" using c by (simp add: lr_read_def length_lastn Let_def)
  fix i assume "i < length (lr_read r)"
  then have i: "i < min ?c ?n" using c by (simp add: lr_read_def Let_def)
  have last: "lastn ?c hist ! i = hist ! (?n - ?c + i)" using i by (simp add: lastn_def)
  have idx: "((if lr_count r = ?c then lr_writePos r else 0) + i) mod ?c = (?n - ?c + i) mod ?c"
  proof (cases "?c \<le> ?n")
    case True
    then have "lr_count r = ?c" using c by simp
    moreover have "(?n + i) mod ?c = (?n - ?c + i) mod ?c"
      using True by (metis add.commute add.left_commute le_add_diff_inverse2 mod_add_self2)
    ultimately show ?thesis by (simp add: c(3) mod_add_left_eq)
  next
    case False
    then have "lr_count r \<noteq> ?c" using c by simp
    then show ?thesis using False by simp
  qed
  have "?n - ?c + i < ?n" using i by linarith
  then have "lr_samples r ! ((?n - ?c + i) mod ?c) = hist ! (?n - ?c + i)" using assms unfolding ring_rel_def by simp
  with last idx i c(2) show "lr_read r ! i = lastn ?c hist ! i" by (simp add: lr_read_def Let_def)
qed

text \<open>(C40) Refinement of the latency ring: after any sequence of samples, the averaging loop reads
  exactly the latest \<open>capacity\<close> of them, oldest first, wherever the write position stands.\<close>

theorem ring_keeps_latest:
  assumes "0 < capacity"
  shows "lr_read (fold (\<lambda>s r. lr_add (ls_latency s) (ls_timestamp s) r) hist (newLatencyRing capacity)) = lastn capacity hist"
proof -
  let ?run = "\<lambda>h. fold (\<lambda>s r. lr_add (ls_latency s) (ls_timestamp s) r) h (newLatencyRing capacity)"
  have "ring_rel hist (?run hist) \<and> lr_capacity (?run hist) = capacity"
  proof (induction hist rule: rev_induct)
    case (snoc s hist)
    have "ring_rel (hist @ [\<lparr>ls_latency = ls_latency s, ls_timestamp = ls_timestamp s\<rparr>]) (?run (hist @ [s]))"
      using ring_rel_add snoc by simp
    moreover have "lr_capacity (lr_add l t r) = lr_capacity r" for l t r by (simp add: lr_add_def)
    moreover have "s = \<lparr>ls_latency = ls_latency s, ls_timestamp = ls_timestamp s\<rparr>" by (cases s) simp
    ultimately show ?case using snoc by simp
  qed (simp add: assms ring_rel_new, simp add: newLatencyRing_def)
  with ring_rel_read show ?thesis by metis
qed

theorem ring_keeps_latest_witness:
  "map ls_latency (lr_read (lr_add 3 3 (lr_add 2 2 (lr_add 1 1 (newLatencyRing 2))))) = [2, 3]"
  using ring_keeps_latest[of 2 "[\<lparr>ls_latency = 1, ls_timestamp = 1\<rparr>, \<lparr>ls_latency = 2, ls_timestamp = 2\<rparr>, \<lparr>ls_latency = 3, ls_timestamp = 3\<rparr>]"]
  by (simp add: lastn_def)

subsection \<open>Token buckets\<close>

definition bk_ok :: "int \<Rightarrow> tokenBucketEntry \<Rightarrow> bool" where
  "bk_ok capacity e \<longleftrightarrow> time_is_zero (bk_lastUpdated e) \<or> 0 \<le> bk_tokens e \<and> bk_tokens e \<le> float64 capacity"

lemma bk_refill_bounds:
  assumes "bk_ok capacity e" "0 \<le> rate" "0 \<le> capacity" "0 < window"
  shows "0 \<le> bk_tokens (bk_refill rate capacity window now e) \<and> bk_tokens (bk_refill rate capacity window now e) \<le> float64 capacity"
proof (cases "time_is_zero (bk_lastUpdated e)")
  case False
  let ?d = "time_sub now (bk_lastUpdated e)"
  have b: "0 \<le> bk_tokens e" "bk_tokens e \<le> float64 capacity" using assms(1) False by (simp_all add: bk_ok_def)
  have "0 \<le> fl64 (bk_tokens e + fl64 (fl64 (float64 ?d / float64 window) * float64 rate))" if "?d > 0"
    using that b(1) assms(2,4) by (intro f64.rnd_nonneg add_nonneg_nonneg mult_nonneg_nonneg divide_nonneg_nonneg float64_nonneg) simp_all
  then show ?thesis using False b by (simp add: bk_refill_def Let_def float64_nonneg assms(3))
qed (use assms(3) in \<open>simp add: bk_refill_def Let_def float64_nonneg\<close>)

text \<open>A token bucket never holds less than nothing or more than its capacity: every request it
  admits or refuses, and every refund, keeps the tokens between zero and the capacity, whatever the
  rounding of the refill.\<close>

theorem bucket_stays_in_bounds:
  assumes "bk_ok capacity e" "0 \<le> rate" "0 \<le> capacity" "0 < window"
    and "bk_take requested rate capacity window now e = (r, e')"
  shows "0 \<le> bk_tokens e' \<and> bk_tokens e' \<le> float64 capacity"
proof -
  let ?e1 = "bk_refill rate capacity window now e"
  have b: "0 \<le> bk_tokens ?e1" "bk_tokens ?e1 \<le> float64 capacity" using bk_refill_bounds[OF assms(1-4)] by simp_all
  have "0 \<le> fl64 (bk_tokens ?e1 - float64 requested)" if "requested < 0 \<or> bk_tokens ?e1 \<ge> float64 requested"
  proof (rule f64.rnd_nonneg)
    have "float64 requested \<le> 0" if "requested < 0"
      using that float64_mono[of requested 0] by (simp add: float64_def)
    with that b(1) show "0 \<le> bk_tokens ?e1 - float64 requested" by (auto simp: algebra_simps intro: order_trans)
  qed
  with assms(5) b show ?thesis
    by (auto simp: bk_take_def bk_apply_def Let_def float64_nonneg assms(3) split: if_splits)
qed

theorem bucket_stays_in_bounds_witness:
  "let e' = snd (bk_take 4 10 5 minute (7 * second) \<lparr>bk_tokens = 3, bk_lastUpdated = second\<rparr>)
   in 0 \<le> bk_tokens e' \<and> bk_tokens e' \<le> float64 5"
proof -
  have "float64 5 = 5" by (simp add: float64_def f64.rnd_int[of 5, simplified])
  then have "bk_ok 5 \<lparr>bk_tokens = 3, bk_lastUpdated = second\<rparr>" by (simp add: bk_ok_def)
  from bucket_stays_in_bounds[OF this _ _ _ prod.collapse[symmetric], of 10 minute] show ?thesis
    by (simp add: minute_def Let_def)
qed

text \<open>A burst: requests that arrive at one instant, and the total of what is admitted.\<close>

fun bk_burst :: "int \<Rightarrow> int \<Rightarrow> duration \<Rightarrow> instant \<Rightarrow> int list \<Rightarrow> tokenBucketEntry \<Rightarrow> int \<times> tokenBucketEntry" where
  "bk_burst rate capacity window now [] e = (0, e)"
| "bk_burst rate capacity window now (q # qs) e =
     (let (r, e1) = bk_take q rate capacity window now e; (granted, e2) = bk_burst rate capacity window now qs e1
      in ((if fst r then q else 0) + granted, e2))"

lemma bk_burst_conserves:
  assumes "0 < now" "0 \<le> k" "k \<le> capacity" "capacity \<le> 2 ^ 53" "list_all (\<lambda>q. 0 \<le> q \<and> q \<le> 2 ^ 53) qs"
    and "bk_tokens e = of_int k" "bk_lastUpdated e = now" "bk_burst rate capacity window now qs e = (granted, e')"
  shows "bk_tokens e' = of_int (k - granted) \<and> 0 \<le> granted \<and> granted \<le> k"
  using assms(2,3,5-)
proof (induction qs arbitrary: k e granted e')
  case (Cons q qs)
  have q: "0 \<le> q" "q \<le> 2 ^ 53" using Cons.prems(3) by simp_all
  have small: "\<bar>q\<bar> \<le> 2 ^ 53" "\<bar>capacity\<bar> \<le> 2 ^ 53" "\<bar>k - q\<bar> \<le> 2 ^ 53" using q Cons.prems(1,2) assms(4) by linarith+
  have refill: "bk_refill rate capacity window now e = e"
    using Cons.prems(5) assms(1) by (simp add: bk_refill_def time_is_zero_def time_sub_def Let_def)
  have fq: "float64 q = of_int q" "float64 capacity = of_int capacity" using small by (simp_all add: float64_def f64.rnd_int)
  have sub: "fl64 (of_int k - of_int q) = (of_int (k - q) :: rat)" using f64.rnd_int[OF small(3)] by simp
  obtain r e1 where t: "bk_take q rate capacity window now e = (r, e1)" by fastforce
  obtain tot e2 where b: "bk_burst rate capacity window now qs e1 = (tot, e2)" by fastforce
  have e': "e' = e2" "granted = (if fst r then q else 0) + tot" using Cons.prems(6) t b by (simp_all add: Let_def)
  show ?case
  proof (cases "q \<le> k")
    case True
    have cap: "\<not> (of_int (k - q) :: rat) > of_int capacity" using True q(1) Cons.prems(2) by linarith
    have "bk_take q rate capacity window now e
        = ((True, int64_of (of_int (k - q))), e\<lparr>bk_tokens := of_int (k - q)\<rparr>)"
      using True cap unfolding bk_take_def bk_apply_def refill fq Cons.prems(4) sub Let_def by simp
    then have r1: "fst r" and e1: "bk_tokens e1 = of_int (k - q)" "bk_lastUpdated e1 = now"
      using t Cons.prems(5) by auto
    have "bk_tokens e2 = of_int (k - q - tot) \<and> 0 \<le> tot \<and> tot \<le> k - q"
      using Cons.IH[OF _ _ _ e1 b] True Cons.prems(2,3) q(1) by simp
    then show ?thesis using q(1) r1 by (simp add: e' algebra_simps)
  next
    case False
    have "bk_take q rate capacity window now e = ((False, int64_of (of_int k)), e)"
      using False q(1) unfolding bk_take_def bk_apply_def refill fq Cons.prems(4) Let_def by simp
    then have r1: "\<not> fst r" and e1: "e1 = e" using t by auto
    have "bk_tokens e2 = of_int (k - tot) \<and> 0 \<le> tot \<and> tot \<le> k"
      using Cons.IH[OF Cons.prems(1,2) _ Cons.prems(4,5)] b e1 Cons.prems(3) by simp
    then show ?thesis using r1 by (simp add: e')
  qed
qed simp

text \<open>A burst is bounded by the capacity: of requests that arrive at one instant at a full (or
  new) bucket, the admitted ones ask for at most the capacity in total, and the bucket accounts for
  each of them exactly.\<close>

theorem burst_bounded_by_capacity:
  assumes "0 < now" "0 \<le> capacity" "capacity \<le> 2 ^ 53" "list_all (\<lambda>q. 0 \<le> q \<and> q \<le> 2 ^ 53) (q # qs)"
    and "bk_burst rate capacity window now (q # qs) \<lparr>bk_tokens = 0, bk_lastUpdated = 0\<rparr> = (granted, e')"
  shows "0 \<le> granted \<and> granted \<le> capacity \<and> bk_tokens e' = of_int (capacity - granted)"
proof -
  let ?new = "\<lparr>bk_tokens = 0, bk_lastUpdated = 0\<rparr> :: tokenBucketEntry"
  let ?full = "\<lparr>bk_tokens = float64 capacity, bk_lastUpdated = now\<rparr>"
  have "bk_refill rate capacity window now ?new = ?full" "bk_refill rate capacity window now ?full = ?full"
    using assms(1) by (simp_all add: bk_refill_def time_is_zero_def time_sub_def Let_def)
  then have "bk_take q rate capacity window now ?new = bk_take q rate capacity window now ?full"
    by (simp add: bk_take_def bk_apply_def)
  then have "bk_burst rate capacity window now (q # qs) ?full = (granted, e')" using assms(5) by simp
  moreover have "float64 capacity = of_int capacity" using assms(2,3) by (simp add: float64_def f64.rnd_int)
  ultimately show ?thesis
    using bk_burst_conserves[OF assms(1,2) order.refl assms(3,4), of ?full rate window granted e'] by simp
qed

theorem burst_bounded_by_capacity_witness:
  "fst (bk_burst 10 5 minute 1 [3, 4, 2] \<lparr>bk_tokens = 0, bk_lastUpdated = 0\<rparr>) \<le> 5"
  using burst_bounded_by_capacity[OF _ _ _ _ prod.collapse[symmetric], of 1 5 3 "[4, 2]" 10 minute] by simp

end
