(* ===== verification/Matcher.thy ===== *)
theory Matcher
  imports Gateway_Types
begin

text \<open>
  The request matchers of \<open>src/pkg/matcher\<close>: wildcard patterns, the value test of a
  \<open>TagCondition\<close>, the five registered matchers (the map that
  \<open>DefaultTagMatcherFactory\<close> holds after the package's \<open>init\<close> functions), and the
  three places that combine conditions: the tag router, the tagging engine and the limit filter.
  The request context is the \<open>GatewayContext\<close> of \<open>Gateway_Types\<close>.
\<close>

subsection \<open>Wildcards\<close>

definition IsWildcard :: "string \<Rightarrow> bool" where
  "IsWildcard pat \<longleftrightarrow> pat = '''' \<or> pat = ''*'' \<or> CHR ''*'' \<in> set pat"

definition MatchWildcard :: "string \<Rightarrow> string \<Rightarrow> bool" where
  "MatchWildcard pat val =
     (if pat = '''' \<or> pat = ''*'' then True
      else if CHR ''*'' \<in> set pat \<and> last pat = CHR ''*'' then prefix (butlast pat) val
      else if CHR ''*'' \<in> set pat \<and> hd pat = CHR ''*'' then suffix (tl pat) val
      else pat = val)"

definition any_match :: "string list \<Rightarrow> string list \<Rightarrow> bool" where
  "any_match actual vals = list_ex (\<lambda>a. list_ex (\<lambda>v. MatchWildcard v a) vals) actual"

definition MatchValues :: "TagCondition \<Rightarrow> string list \<Rightarrow> bool" where
  "MatchValues c actual =
     (if actual = [] then tc_OpType c = ''NOT_EQUAL'' \<or> tc_OpType c = ''NOT_IN''
      else if tc_OpType c = ''EQUAL'' \<or> tc_OpType c = ''IN'' then any_match actual (tc_Values c)
      else if tc_OpType c = ''NOT_EQUAL'' \<or> tc_OpType c = ''NOT_IN'' then \<not> any_match actual (tc_Values c)
      else any_match actual (tc_Values c))"

subsection \<open>The registered matchers\<close>

type_synonym TagMatcher = "GatewayContext \<Rightarrow> TagCondition \<Rightarrow> bool"

text \<open>The cookie, system and tag matchers treat an empty value as an absent one.\<close>

definition single_value :: "string \<Rightarrow> string list" where
  "single_value v = (if v = '''' then [] else [v])"

definition HeaderTagMatcher :: TagMatcher where
  "HeaderTagMatcher g cond = MatchValues cond (GetHeader g (tc_Key cond))"

definition QueryTagMatcher :: TagMatcher where
  "QueryTagMatcher g cond = MatchValues cond (GetQuery g (tc_Key cond))"

definition CookieTagMatcher :: TagMatcher where
  "CookieTagMatcher g cond = MatchValues cond (single_value (GetCookie g (tc_Key cond)))"

definition SystemTagMatcher :: TagMatcher where
  "SystemTagMatcher g cond = MatchValues cond (single_value (GetSystemValue g (tc_Key cond)))"

definition TagValueMatcher :: TagMatcher where
  "TagValueMatcher g cond = MatchValues cond (single_value (GetTagValue g (tc_Key cond)))"

definition DefaultTagMatcherFactory :: "string \<rightharpoonup> TagMatcher" where
  "DefaultTagMatcherFactory = [''header'' \<mapsto> HeaderTagMatcher, ''query'' \<mapsto> QueryTagMatcher,
     ''cookie'' \<mapsto> CookieTagMatcher, ''system'' \<mapsto> SystemTagMatcher, ''tag'' \<mapsto> TagValueMatcher]"

definition cond_matched :: "GatewayContext \<Rightarrow> TagCondition \<Rightarrow> bool" where
  "cond_matched g cond = (case DefaultTagMatcherFactory (str_lower (tc_Type cond)) of
     None \<Rightarrow> False | Some m \<Rightarrow> m g cond)"

subsection \<open>Combining conditions\<close>

text \<open>The loop with two early exits that the tag router and the tagging engine share.\<close>

fun relation_loop :: "bool \<Rightarrow> ('c \<Rightarrow> bool) \<Rightarrow> 'c list \<Rightarrow> bool" where
  "relation_loop isAnd test [] = isAnd"
| "relation_loop isAnd test (c # cs) =
     (if isAnd \<and> \<not> test c then False else if \<not> isAnd \<and> test c then True else relation_loop isAnd test cs)"

definition tag_router_matchConditions :: "GatewayContext \<Rightarrow> TagCondition list \<Rightarrow> string \<Rightarrow> bool" where
  "tag_router_matchConditions g conds relation =
     (let validConds = filter (\<lambda>c. tc_Type c \<noteq> '''') conds in
      if validConds = [] then True else relation_loop (relation \<noteq> ''OR'') (cond_matched g) validConds)"

definition tagging_matchConditions :: "GatewayContext \<Rightarrow> TaggingPolicy \<Rightarrow> bool" where
  "tagging_matchConditions g rule =
     (let validConds = filter (\<lambda>c. tc_Type c \<noteq> '''') (tp_Conditions rule);
          isOr = (str_lower (tp_Relation rule) = ''or'') in
      if validConds = [] then True else relation_loop (\<not> isOr) (cond_matched g) validConds)"

fun MatchLimitPolicyConditions_loop :: "GatewayContext \<Rightarrow> TagCondition list \<Rightarrow> bool" where
  "MatchLimitPolicyConditions_loop g [] = True"
| "MatchLimitPolicyConditions_loop g (cond # cs) =
     (if tc_Type cond = '''' then MatchLimitPolicyConditions_loop g cs
      else if \<not> cond_matched g cond then False else MatchLimitPolicyConditions_loop g cs)"

definition MatchLimitPolicyConditions :: "GatewayContext \<Rightarrow> LimitPolicy \<Rightarrow> bool" where
  "MatchLimitPolicyConditions g lp = MatchLimitPolicyConditions_loop g (lp_Conditions lp)"

definition matchEndpointMetadata :: "Endpoint \<Rightarrow> TagCondition list \<Rightarrow> string \<Rightarrow> bool" where
  "matchEndpointMetadata ep conds relation =
     (if conds = [] then True
      else relation_loop (relation \<noteq> ''OR'')
        (\<lambda>cond. MatchValues cond (single_value (case ep_Metadata ep (tc_Key cond) of None \<Rightarrow> '''' | Some v \<Rightarrow> v)))
        conds)"

subsection \<open>Facts\<close>

lemma relation_loop_and [simp]: "relation_loop True test cs = list_all test cs"
  by (induction cs) auto

lemma relation_loop_or [simp]: "relation_loop False test cs = list_ex test cs"
  by (induction cs) auto

lemma limit_loop_iff:
  "MatchLimitPolicyConditions_loop g cs = list_all (cond_matched g) (filter (\<lambda>c. tc_Type c \<noteq> '''') cs)"
  by (induction cs) auto

lemma any_match_iff: "any_match actual vals \<longleftrightarrow> (\<exists>a\<in>set actual. \<exists>v\<in>set vals. MatchWildcard v a)"
  by (simp add: any_match_def list_ex_iff)

lemma MatchWildcard_literal: "CHR ''*'' \<notin> set pat \<Longrightarrow> pat \<noteq> '''' \<Longrightarrow> MatchWildcard pat val \<longleftrightarrow> pat = val"
  by (auto simp: MatchWildcard_def)

lemma MatchWildcard_prefix: "MatchWildcard (p @ ''*'') val \<longleftrightarrow> prefix p val"
  by (simp add: MatchWildcard_def)

lemma MatchWildcard_suffix:
  assumes "s \<noteq> []" "last s \<noteq> CHR ''*''"
  shows "MatchWildcard (CHR ''*'' # s) val \<longleftrightarrow> suffix s val"
  using assms by (simp add: MatchWildcard_def)

text \<open>The negated operators are the exact complements of the positive ones, absent values
  included.\<close>

lemma MatchValues_complement:
  assumes "tc_OpType c = ''EQUAL'' \<or> tc_OpType c = ''IN''" "op = ''NOT_EQUAL'' \<or> op = ''NOT_IN''"
  shows "MatchValues (c\<lparr>tc_OpType := op\<rparr>) actual \<longleftrightarrow> \<not> MatchValues c actual"
  using assms by (elim disjE) (simp_all add: MatchValues_def)

text \<open>A condition satisfied by one of two alternatives of values is satisfied by the union.\<close>

lemma MatchValues_append:
  assumes "tc_OpType c = ''EQUAL'' \<or> tc_OpType c = ''IN''"
  shows "MatchValues (c\<lparr>tc_Values := xs @ ys\<rparr>) actual
     \<longleftrightarrow> MatchValues (c\<lparr>tc_Values := xs\<rparr>) actual \<or> MatchValues (c\<lparr>tc_Values := ys\<rparr>) actual"
  using assms by (elim disjE) (simp_all add: MatchValues_def any_match_iff bex_Un bex_disj_distrib)

lemma last_star_contra: "ys @ ''*'' = a # s \<Longrightarrow> s \<noteq> [] \<Longrightarrow> last s \<noteq> CHR ''*'' \<Longrightarrow> False"
  by (metis last.simps last_snoc)


text \<open>The tag router and the tagging engine agree on what a list of conditions means: all of
  the conditions with a type hold, or, under OR, one does; no typed condition means a match. The
  limit filter reads the same list as a conjunction whatever relation the policy names.\<close>

theorem conditions_meaning:
  "(tag_router_matchConditions g cs rel =
     (let v = filter (\<lambda>c. tc_Type c \<noteq> '''') cs in
      v = [] \<or> (if rel = ''OR'' then list_ex (cond_matched g) v else list_all (cond_matched g) v)))
   \<and> (tagging_matchConditions g tp =
     (let v = filter (\<lambda>c. tc_Type c \<noteq> '''') (tp_Conditions tp) in
      v = [] \<or> (if str_lower (tp_Relation tp) = ''or'' then list_ex (cond_matched g) v
                else list_all (cond_matched g) v)))
   \<and> (MatchLimitPolicyConditions g lp =
     list_all (cond_matched g) (filter (\<lambda>c. tc_Type c \<noteq> '''') (lp_Conditions lp)))"
  by (simp add: tag_router_matchConditions_def tagging_matchConditions_def
      MatchLimitPolicyConditions_def limit_loop_iff Let_def)

end
