(* ===== verification/Rate_Limit.thy ===== *)
theory Rate_Limit
  imports State_Store Matcher
begin

text \<open>
  The limit executors of \<open>src/pkg/limiter\<close> (\<open>request.go\<close>, \<open>token.go\<close>, \<open>cost.go\<close>,
  \<open>reservation.go\<close>, \<open>types.go\<close>) over the in-memory store. The three executors run the same
  loop with their own charge and message, \<open>limit_loop\<close>; the store's operations never fail, so the
  error branch of the source is not taken. \<open>Duration.String\<close> and the tiktoken encoder are
  arguments. One \<open>Execute\<close> reads the clock once here.
\<close>

subsection \<open>Keys, windows, estimates\<close>

record HTTPError =
  he_Code :: int
  he_Message :: string
  he_Threshold :: rat
  he_CurrentValue :: rat

definition GetLimitKey :: "GatewayContext \<Rightarrow> LimitPolicy \<Rightarrow> string" where
  "GetLimitKey g lp =
     (let policyKey = (if lp_ID lp = '''' then lp_Name lp else lp_ID lp) in
      if lp_LimitBy lp = []
      then (let i = (if g_UserID g = '''' then g_Tenant g else g_UserID g) in i @ '':'' @ g_Model g @ '':'' @ policyKey)
      else str_join '':'' (concat (map (\<lambda>field.
             if field = ''tenant'' then (if g_Tenant g \<noteq> '''' then [g_Tenant g] else [])
             else if field = ''user'' then (if g_UserID g \<noteq> '''' then [g_UserID g] else [])
             else if field = ''model'' then (if g_Model g \<noteq> '''' then [g_Model g] else [])
             else []) (lp_LimitBy lp)) @ [policyKey]))"

definition window_of :: "SlidingWindow \<Rightarrow> duration" where
  "window_of sw = (let w = go_mul (sw_TimeWindowInMs sw) millisecond in if w \<le> 0 then minute else w)"

definition burst_of :: "SlidingWindow \<Rightarrow> rat option" where
  "burst_of sw = (case sw_BurstRatio sw of Some b \<Rightarrow> if b > 0 then Some b else None | None \<Rightarrow> None)"

definition capacity_of :: "SlidingWindow \<Rightarrow> rat \<Rightarrow> int" where
  "capacity_of sw burst = (let c = \<lceil>fl64 (float64 (sw_Threshold sw) * burst)\<rceil> in if c < 1 then 1 else c)"

definition window_key :: "(duration \<Rightarrow> string) \<Rightarrow> string \<Rightarrow> SlidingWindow \<Rightarrow> string" where
  "window_key dstr limitKey sw = limitKey @ '':'' @ dstr (window_of sw)"

text \<open>\<open>tik body model\<close> is the count the tiktoken encoder gives, \<open>None\<close> when the body holds no messages.\<close>

definition EstimateInputTokens :: "(string \<Rightarrow> string \<Rightarrow> int option) \<Rightarrow> GatewayContext \<Rightarrow> LimitPolicy \<Rightarrow> int" where
  "EstimateInputTokens tik g lp =
     (let plain = int (length (g_RawBody g)) div 4 in
      case lp_Estimator lp of None \<Rightarrow> plain
      | Some est \<Rightarrow>
          if es_Type est = ''length_ratio'' \<and> es_Ratio est > 0
          then int64_of (fl64 (float64 (int (length (g_RawBody g))) * es_Ratio est))
          else if es_Type est = ''tiktoken'' \<and> g_RawBody g \<noteq> ''''
          then (case tik (g_RawBody g) (g_Model g) of Some n \<Rightarrow> n | None \<Rightarrow> plain)
          else plain)"

definition EstimateOutputTokens :: "MemoryStateStore \<Rightarrow> string \<Rightarrow> string \<Rightarrow> string \<Rightarrow> int" where
  "EstimateOutputTokens s tenant userID model =
     (let tenantKey = (if tenant = '''' then userID else tenant);
          tv = (if tenantKey \<noteq> '''' then GetEMA (''tenant:'' @ tenantKey @ '':'' @ model) s else 0);
          gv = GetEMA (''model:global:'' @ model) s
      in if tv > 0 then int64_of tv else if gv > 0 then int64_of gv else 200)"

definition billing_prices :: "GatewayContext \<Rightarrow> rat \<times> rat" where
  "billing_prices g = (case g_Policy g of None \<Rightarrow> (3, 10)
     | Some p \<Rightarrow> (case pl_Billing p of None \<Rightarrow> (3, 10) | Some b \<Rightarrow> (bp_InputPrice b, bp_OutputPrice b)))"

definition EstimateCost :: "(string \<Rightarrow> string \<Rightarrow> int option) \<Rightarrow> GatewayContext \<Rightarrow> LimitPolicy \<Rightarrow> MemoryStateStore \<Rightarrow> int" where
  "EstimateCost tik g lp s =
     (let (inputPrice, outputPrice) = billing_prices g;
          i = EstimateInputTokens tik g lp; out = EstimateOutputTokens s (g_Tenant g) (g_UserID g) (g_Model g)
      in int64_of (fl64 (fl64 (fl64 (float64 i * inputPrice) + fl64 (float64 out * outputPrice)) / 1000)))"

subsection \<open>The executors\<close>

definition refund_window :: "(duration \<Rightarrow> string) \<Rightarrow> string \<Rightarrow> int \<Rightarrow> instant \<Rightarrow> SlidingWindow \<Rightarrow> MemoryStateStore \<Rightarrow> MemoryStateStore" where
  "refund_window dstr limitKey tokens now sw s =
     (case burst_of sw of
        Some b \<Rightarrow> snd (RateLimitTake (window_key dstr limitKey sw) (- tokens) (sw_Threshold sw) (capacity_of sw b) (window_of sw) now s)
      | None \<Rightarrow> RateLimitRefund (window_key dstr limitKey sw) tokens s)"

definition rollback :: "(duration \<Rightarrow> string) \<Rightarrow> string \<Rightarrow> SlidingWindow list \<Rightarrow> int \<Rightarrow> instant \<Rightarrow> MemoryStateStore \<Rightarrow> MemoryStateStore" where
  "rollback dstr limitKey sws tokens now s = fold (refund_window dstr limitKey tokens now) sws s"

text \<open>The loop over the windows; \<open>charged\<close> are the windows before the current one.\<close>

fun limit_loop :: "(duration \<Rightarrow> string) \<Rightarrow> string \<Rightarrow> string \<Rightarrow> int \<Rightarrow> instant \<Rightarrow> SlidingWindow list \<Rightarrow> SlidingWindow list \<Rightarrow>
    MemoryStateStore \<Rightarrow> HTTPError option \<times> MemoryStateStore" where
  "limit_loop dstr msg limitKey tokens now charged [] s = (None, s)"
| "limit_loop dstr msg limitKey tokens now charged (sw # sws) s =
     (case burst_of sw of
        Some b \<Rightarrow>
          (let capacity = capacity_of sw b;
               ((allowed, remaining), s1) = RateLimitTake (window_key dstr limitKey sw) tokens (sw_Threshold sw) capacity (window_of sw) now s
           in if \<not> allowed
              then (Some \<lparr>he_Code = 429, he_Message = msg, he_Threshold = float64 (sw_Threshold sw),
                      he_CurrentValue = float64 (capacity - remaining)\<rparr>,
                    rollback dstr limitKey charged tokens now s1)
              else limit_loop dstr msg limitKey tokens now (charged @ [sw]) sws s1)
      | None \<Rightarrow>
          (let (current, s1) = RateLimitIncr (window_key dstr limitKey sw) tokens (window_of sw) now s
           in if current > sw_Threshold sw
              then (Some \<lparr>he_Code = 429, he_Message = msg, he_Threshold = float64 (sw_Threshold sw),
                      he_CurrentValue = float64 current\<rparr>,
                    rollback dstr limitKey (charged @ [sw]) tokens now s1)
              else limit_loop dstr msg limitKey tokens now (charged @ [sw]) sws s1))"

record LimitReservation =
  lr_Key :: string
  lr_Type :: string
  lr_Estimated :: int
  lr_Window :: duration
  lr_Rate :: int
  lr_Capacity :: int
  lr_Burst :: bool
  lr_Settled :: bool

definition recordReservations :: "(duration \<Rightarrow> string) \<Rightarrow> LimitPolicy \<Rightarrow> string \<Rightarrow> int \<Rightarrow> LimitReservation list" where
  "recordReservations dstr lp key estimate = map (\<lambda>sw.
     \<lparr>lr_Key = window_key dstr key sw, lr_Type = lp_Type lp, lr_Estimated = estimate, lr_Window = window_of sw,
      lr_Rate = sw_Threshold sw, lr_Capacity = (case burst_of sw of Some b \<Rightarrow> max 1 \<lceil>fl64 (float64 (sw_Threshold sw) * b)\<rceil> | None \<Rightarrow> 0),
      lr_Burst = (burst_of sw \<noteq> None), lr_Settled = False\<rparr>) (lp_SlidingWindows lp)"

definition RequestLimit_Execute :: "(duration \<Rightarrow> string) \<Rightarrow> GatewayContext \<Rightarrow> LimitPolicy \<Rightarrow> instant \<Rightarrow> MemoryStateStore \<Rightarrow>
    HTTPError option \<times> MemoryStateStore" where
  "RequestLimit_Execute dstr g lp now s =
     limit_loop dstr ''rate limit exceeded'' (GetLimitKey g lp) 1 now [] (lp_SlidingWindows lp) s"

definition token_estimate :: "(string \<Rightarrow> string \<Rightarrow> int option) \<Rightarrow> GatewayContext \<Rightarrow> LimitPolicy \<Rightarrow> MemoryStateStore \<Rightarrow> int" where
  "token_estimate tik g lp s = EstimateInputTokens tik g lp + EstimateOutputTokens s (g_Tenant g) (g_UserID g) (g_Model g)"

text \<open>The token and the cost executor also return the reservations they append to the context when
  reservations are tracked.\<close>

definition TokenLimit_Execute :: "(duration \<Rightarrow> string) \<Rightarrow> (string \<Rightarrow> string \<Rightarrow> int option) \<Rightarrow> bool \<Rightarrow> GatewayContext \<Rightarrow> LimitPolicy \<Rightarrow>
    instant \<Rightarrow> MemoryStateStore \<Rightarrow> (HTTPError option \<times> LimitReservation list) \<times> MemoryStateStore" where
  "TokenLimit_Execute dstr tik track g lp now s =
     (let key = GetLimitKey g lp; estimate = token_estimate tik g lp s;
          (err, s') = limit_loop dstr ''rate limit exceeded'' key estimate now [] (lp_SlidingWindows lp) s
      in ((err, if err = None \<and> track then recordReservations dstr lp key estimate else []), s'))"

definition CostLimit_Execute :: "(duration \<Rightarrow> string) \<Rightarrow> (string \<Rightarrow> string \<Rightarrow> int option) \<Rightarrow> bool \<Rightarrow> GatewayContext \<Rightarrow> LimitPolicy \<Rightarrow>
    instant \<Rightarrow> MemoryStateStore \<Rightarrow> (HTTPError option \<times> LimitReservation list) \<times> MemoryStateStore" where
  "CostLimit_Execute dstr tik track g lp now s =
     (let key = GetLimitKey g lp; estimateCost = EstimateCost tik g lp s;
          (err, s') = limit_loop dstr ''cost limit exceeded (daily budget blown)'' key estimateCost now [] (lp_SlidingWindows lp) s
      in ((err, if err = None \<and> track then recordReservations dstr lp key estimateCost else []), s'))"

definition RequestLimit_Refund :: "(duration \<Rightarrow> string) \<Rightarrow> GatewayContext \<Rightarrow> LimitPolicy \<Rightarrow> instant \<Rightarrow> MemoryStateStore \<Rightarrow> MemoryStateStore" where
  "RequestLimit_Refund dstr g lp now s = fold (refund_window dstr (GetLimitKey g lp) 1 now) (lp_SlidingWindows lp) s"

definition TokenLimit_Refund :: "(duration \<Rightarrow> string) \<Rightarrow> (string \<Rightarrow> string \<Rightarrow> int option) \<Rightarrow> GatewayContext \<Rightarrow> LimitPolicy \<Rightarrow> instant \<Rightarrow>
    MemoryStateStore \<Rightarrow> MemoryStateStore" where
  "TokenLimit_Refund dstr tik g lp now s =
     fold (refund_window dstr (GetLimitKey g lp) (token_estimate tik g lp s) now) (lp_SlidingWindows lp) s"

definition CostLimit_Refund :: "(duration \<Rightarrow> string) \<Rightarrow> (string \<Rightarrow> string \<Rightarrow> int option) \<Rightarrow> GatewayContext \<Rightarrow> LimitPolicy \<Rightarrow> instant \<Rightarrow>
    MemoryStateStore \<Rightarrow> MemoryStateStore" where
  "CostLimit_Refund dstr tik g lp now s =
     fold (refund_window dstr (GetLimitKey g lp) (EstimateCost tik g lp s) now) (lp_SlidingWindows lp) s"

subsection \<open>Counters as seen at an instant\<close>

text \<open>What a counter counts at \<open>now\<close>: nothing once its window has passed.\<close>

definition live_count :: "instant \<Rightarrow> MemoryStateStore \<Rightarrow> string \<Rightarrow> int" where
  "live_count now s k = (case ss_rateLimits s k of None \<Rightarrow> 0
     | Some e \<Rightarrow> if now > rl_resetAt e \<or> time_is_zero (rl_resetAt e) then 0 else rl_count e)"

definition store_ok :: "MemoryStateStore \<Rightarrow> bool" where
  "store_ok s \<longleftrightarrow> (\<forall>e\<in>ran (ss_rateLimits s). 0 \<le> rl_count e \<and> 0 \<le> rl_window e)"

text \<open>A store of counters: charging a key adds to its live count alone and reports the sum, giving
  back takes off what is there, and both keep the store well-formed.\<close>

locale counter_store =
  fixes ok :: "'s \<Rightarrow> bool" and live :: "'s \<Rightarrow> string \<Rightarrow> int"
    and charge :: "string \<Rightarrow> int \<Rightarrow> duration \<Rightarrow> 's \<Rightarrow> int \<times> 's" and give_back :: "string \<Rightarrow> int \<Rightarrow> 's \<Rightarrow> 's"
  assumes live_nonneg: "ok s \<Longrightarrow> 0 \<le> live s k"
    and charge_value: "ok s \<Longrightarrow> 0 \<le> n \<Longrightarrow> 0 \<le> w \<Longrightarrow> fst (charge k n w s) = live s k + n"
    and charge_live: "ok s \<Longrightarrow> 0 \<le> n \<Longrightarrow> 0 \<le> w \<Longrightarrow> live (snd (charge k n w s)) j = live s j + (if j = k then n else 0)"
    and charge_ok: "ok s \<Longrightarrow> 0 \<le> n \<Longrightarrow> 0 \<le> w \<Longrightarrow> ok (snd (charge k n w s))"
    and give_back_live: "ok s \<Longrightarrow> 0 \<le> n \<Longrightarrow> live (give_back k n s) j = (if j = k then max 0 (live s j - n) else live s j)"
    and give_back_ok: "ok s \<Longrightarrow> 0 \<le> n \<Longrightarrow> ok (give_back k n s)"
begin

lemma give_back_all:
  assumes "distinct ks" "ok s" "0 \<le> n"
  shows "ok (fold (\<lambda>k. give_back k n) ks s)
     \<and> live (fold (\<lambda>k. give_back k n) ks s) j = (if j \<in> set ks then max 0 (live s j - n) else live s j)"
  using assms(1,2)
proof (induction ks arbitrary: s)
  case (Cons k ks)
  have "ok (give_back k n s)" using Cons.prems give_back_ok assms(3) by blast
  from Cons.IH[OF _ this] Cons.prems show ?case using give_back_live[OF Cons.prems(2) assms(3), of k j] by auto
qed simp

lemma charge_then_give_back:
  assumes "ok s" "0 \<le> n" "0 \<le> w"
  shows "live (give_back k n (snd (charge k n w s))) j = live s j"
  using assms charge_live[OF assms, of k j] give_back_live[OF charge_ok[OF assms] assms(2), of k k j] live_nonneg[OF assms(1), of j]
  by (auto simp: give_back_live charge_ok)

end

lemma rl_entry_ok: "store_ok s \<Longrightarrow> 0 \<le> w \<Longrightarrow> 0 \<le> rl_count (getOrCreateRateLimitEntry k w s) \<and> 0 \<le> rl_window (getOrCreateRateLimitEntry k w s)"
  by (auto simp: store_ok_def getOrCreateRateLimitEntry_def ran_def split: option.split)

lemma store_ok_upd:
  "store_ok s \<Longrightarrow> 0 \<le> rl_count e \<Longrightarrow> 0 \<le> rl_window e \<Longrightarrow> store_ok (s\<lparr>ss_rateLimits := (ss_rateLimits s)(k \<mapsto> e)\<rparr>)"
  by (auto simp: store_ok_def ran_def)

lemma memory_counter_store: "0 < now \<Longrightarrow> counter_store store_ok (live_count now) (\<lambda>k n w. RateLimitIncr k n w now) RateLimitRefund"
proof
  assume now: "0 < now"
  fix s :: MemoryStateStore and k j :: string and n :: int and w :: duration
  show "0 \<le> live_count now s k" if "store_ok s"
    using that by (auto simp: live_count_def store_ok_def ran_def split: option.split)
  assume s: "store_ok s" and n: "0 \<le> n"
  note e = rl_entry_ok[OF s]
  show "live_count now (RateLimitRefund k n s) j = (if j = k then max 0 (live_count now s j - n) else live_count now s j)"
    using n by (auto simp: live_count_def RateLimitRefund_def rl_refund_def getOrCreateRateLimitEntry_def time_is_zero_def Let_def split: option.split)
  show "store_ok (RateLimitRefund k n s)"
    unfolding RateLimitRefund_def using e[of 0 k] by (intro store_ok_upd s) (simp_all add: rl_refund_def Let_def)
  assume w: "0 \<le> w"
  show "fst (RateLimitIncr k n w now s) = live_count now s k + n"
    using now by (auto simp: RateLimitIncr_def rl_incr_def live_count_def getOrCreateRateLimitEntry_def Let_def split: option.split)
  show "live_count now (snd (RateLimitIncr k n w now s)) j = live_count now s j + (if j = k then n else 0)"
    using now e[OF w, of k] by (auto simp: RateLimitIncr_def rl_incr_def live_count_def getOrCreateRateLimitEntry_def time_add_def time_is_zero_def Let_def split: option.split)
  show "store_ok (snd (RateLimitIncr k n w now s))"
    using e[OF w, of k] n s by (auto simp: RateLimitIncr_def rl_incr_def Let_def intro: store_ok_upd)
qed

interpretation mem: counter_store store_ok "live_count (max 1 t)" "\<lambda>k n w. RateLimitIncr k n w (max 1 t)" RateLimitRefund for t
  by (rule memory_counter_store) simp

lemma window_of_nonneg: "0 \<le> window_of sw"
  by (simp add: window_of_def minute_def Let_def)

subsection \<open>Rejections leave no trace\<close>

definition plain_windows :: "SlidingWindow list \<Rightarrow> bool" where
  "plain_windows sws = list_all (\<lambda>sw. burst_of sw = None) sws"

lemma rollback_plain:
  "plain_windows sws \<Longrightarrow> rollback dstr key sws n now s = fold (\<lambda>k. RateLimitRefund k n) (map (window_key dstr key) sws) s"
  by (induction sws arbitrary: s) (simp_all add: rollback_def plain_windows_def refund_window_def)

lemma limit_loop_rejects:
  assumes "0 < now" "0 \<le> n" "plain_windows (charged @ sws)" "distinct (map (window_key dstr key) (charged @ sws))"
    and "store_ok s" "store_ok s0"
    and "\<And>j. live_count now s j = live_count now s0 j + (if j \<in> window_key dstr key ` set charged then n else 0)"
    and "limit_loop dstr msg key n now charged sws s = (Some err, s')"
  shows "live_count now s' j = live_count now s0 j"
  using assms(3-5,7,8)
proof (induction sws arbitrary: charged s)
  case (Cons sw sws)
  have t: "max 1 now = now" using assms(1) by simp
  let ?k = "window_key dstr key sw"
  obtain current s1 where c: "RateLimitIncr ?k n (window_of sw) now s = (current, s1)" by fastforce
  have sw: "burst_of sw = None" using Cons.prems(1) by (simp add: plain_windows_def)
  have ok1: "store_ok s1" using mem.charge_ok[OF Cons.prems(3) assms(2) window_of_nonneg, of ?k sw now] c t by simp
  have live1: "live_count now s1 j = live_count now s0 j + (if j \<in> window_key dstr key ` set (charged @ [sw]) then n else 0)" for j
    using mem.charge_live[OF Cons.prems(3) assms(2) window_of_nonneg, of now ?k sw j] c t Cons.prems(2,4) by auto
  show ?case
  proof (cases "current > sw_Threshold sw")
    case True
    have plain: "plain_windows (charged @ [sw])" and d: "distinct (map (window_key dstr key) (charged @ [sw]))"
      using Cons.prems(1,2) by (auto simp: plain_windows_def)
    have "s' = fold (\<lambda>k. RateLimitRefund k n) (map (window_key dstr key) (charged @ [sw])) s1"
      using Cons.prems(5) True sw c rollback_plain[OF plain] by simp
    then have "live_count now s' j = (if j \<in> set (map (window_key dstr key) (charged @ [sw])) then max 0 (live_count now s1 j - n) else live_count now s1 j)"
      using mem.give_back_all[OF d ok1 assms(2), of now j] t by simp
    then show ?thesis using live1[of j] mem.live_nonneg[OF assms(6), of now j] t by auto
  next
    case False
    then have "limit_loop dstr msg key n now (charged @ [sw]) sws s1 = (Some err, s')" using Cons.prems(5) sw c by simp
    from Cons.IH[OF _ _ ok1 live1 this] Cons.prems(1,2) show ?thesis by simp
  qed
qed simp


subsection \<open>The fixed window\<close>

fun admit_run :: "(instant \<Rightarrow> MemoryStateStore \<Rightarrow> HTTPError option \<times> MemoryStateStore) \<Rightarrow> instant list \<Rightarrow> MemoryStateStore \<Rightarrow> nat" where
  "admit_run exec [] s = 0"
| "admit_run exec (t # ts) s = (let (err, s') = exec t s in (if err = None then 1 else 0) + admit_run exec ts s')"

lemma single_window_step:
  assumes "lp_SlidingWindows lp = [sw]" "burst_of sw = None" "0 \<le> sw_Threshold sw"
    and "getOrCreateRateLimitEntry (window_key dstr (GetLimitKey g lp) sw) (window_of sw) s = e"
    and "c = (if t > rl_resetAt e \<or> rl_resetAt e = 0 then 0 else rl_count e)"
    and "R = (if t > rl_resetAt e \<or> rl_resetAt e = 0 then t + rl_window e else rl_resetAt e)" and "0 \<le> c"
    and "RequestLimit_Execute dstr g lp t s = (err, s')"
  shows "(err = None \<longleftrightarrow> c < sw_Threshold sw)
    \<and> ss_rateLimits s' (window_key dstr (GetLimitKey g lp) sw)
      = Some \<lparr>rl_count = (if c < sw_Threshold sw then c + 1 else c), rl_window = rl_window e, rl_resetAt = R\<rparr>"
  using assms(2-)
  by (auto simp: RequestLimit_Execute_def assms(1) RateLimitIncr_def rl_incr_def time_is_zero_def time_add_def Let_def
      rollback_def refund_window_def RateLimitRefund_def rl_refund_def getOrCreateRateLimitEntry_def split: if_splits option.splits)

lemma admit_run_window:
  assumes "lp_SlidingWindows lp = [sw]" "burst_of sw = None" "0 \<le> sw_Threshold sw" "0 < R"
    and "ss_rateLimits s (window_key dstr (GetLimitKey g lp) sw) = Some \<lparr>rl_count = c, rl_window = w, rl_resetAt = R\<rparr>"
    and "0 \<le> c" "c \<le> sw_Threshold sw" "\<forall>t\<in>set ts. t \<le> R"
  shows "admit_run (RequestLimit_Execute dstr g lp) ts s = min (length ts) (nat (sw_Threshold sw - c))"
  using assms(5-8)
proof (induction ts arbitrary: s c)
  case (Cons t ts)
  let ?k = "window_key dstr (GetLimitKey g lp) sw"
  obtain err s' where x: "RequestLimit_Execute dstr g lp t s = (err, s')" by fastforce
  have e: "getOrCreateRateLimitEntry ?k (window_of sw) s = \<lparr>rl_count = c, rl_window = w, rl_resetAt = R\<rparr>"
    using Cons.prems(1) by (simp add: getOrCreateRateLimitEntry_def)
  have "(err = None \<longleftrightarrow> c < sw_Threshold sw)
    \<and> ss_rateLimits s' ?k = Some \<lparr>rl_count = (if c < sw_Threshold sw then c + 1 else c), rl_window = w, rl_resetAt = R\<rparr>"
    using single_window_step[OF assms(1-3) e _ _ _ x, of c R] Cons.prems(2,4) assms(4) by simp
  with Cons.IH[of s' "if c < sw_Threshold sw then c + 1 else c"] Cons.prems(2-4) x show ?case by (auto simp: Let_def)
qed simp

text \<open>A request limit with one fixed window admits exactly its threshold: of any number of
  requests from the first one to the end of the window, the first ones up to the threshold are
  admitted and all others are refused.\<close>

theorem fixed_window_admits_threshold:
  assumes "lp_SlidingWindows lp = [sw]" "burst_of sw = None" "0 \<le> sw_Threshold sw"
    and "ss_rateLimits s (window_key dstr (GetLimitKey g lp) sw) = None" "0 < t0" "\<forall>t\<in>set ts. t \<le> t0 + window_of sw"
  shows "admit_run (RequestLimit_Execute dstr g lp) (t0 # ts) s = min (length (t0 # ts)) (nat (sw_Threshold sw))"
proof -
  let ?k = "window_key dstr (GetLimitKey g lp) sw"
  obtain err s' where x: "RequestLimit_Execute dstr g lp t0 s = (err, s')" by fastforce
  have e: "getOrCreateRateLimitEntry ?k (window_of sw) s = \<lparr>rl_count = 0, rl_window = window_of sw, rl_resetAt = 0\<rparr>"
    using assms(4) by (simp add: getOrCreateRateLimitEntry_def)
  have st: "(err = None \<longleftrightarrow> 0 < sw_Threshold sw)
    \<and> ss_rateLimits s' ?k = Some \<lparr>rl_count = (if 0 < sw_Threshold sw then 1 else 0), rl_window = window_of sw, rl_resetAt = t0 + window_of sw\<rparr>"
    using single_window_step[OF assms(1-3) e _ _ _ x, of 0 "t0 + window_of sw"] by simp
  have "0 < t0 + window_of sw" using assms(5) window_of_nonneg[of sw] by linarith
  from admit_run_window[OF assms(1-3) this, of s' dstr g "if 0 < sw_Threshold sw then 1 else 0" "window_of sw" ts] st assms(3,6) x
  show ?thesis by (auto simp: Let_def)
qed

text \<open>A refund on a key that has no counter yet disables the limit: it creates the counter with a
  window of length zero, which the later charges never correct, so at strictly later instants
  each charge starts from zero again.\<close>

theorem refund_first_disables_window:
  assumes "ss_rateLimits s k = None" "0 < t1" "t1 < t2"
    and "RateLimitIncr k n w t1 (RateLimitRefund k m s) = (c1, s1)" "RateLimitIncr k n w t2 s1 = (c2, s2)"
  shows "c1 = n \<and> c2 = n"
  using assms by (auto simp: RateLimitIncr_def RateLimitRefund_def rl_refund_def rl_incr_def getOrCreateRateLimitEntry_def
      time_is_zero_def time_add_def Let_def)

subsection \<open>Evaluation\<close>

definition demo_window :: "int \<Rightarrow> int \<Rightarrow> SlidingWindow" where
  "demo_window threshold ms = \<lparr>sw_Threshold = threshold, sw_TimeWindowInMs = ms, sw_BurstRatio = None\<rparr>"

definition demo_limit :: "SlidingWindow list \<Rightarrow> LimitPolicy" where
  "demo_limit sws = (zero_limit_policy ''rpm'')\<lparr>lp_SlidingWindows := sws\<rparr>"

definition demo_dstr :: "duration \<Rightarrow> string" where
  "demo_dstr d = (if d = second then ''1s'' else ''2s'')"


theorem fixed_window_admits_threshold_witness:
  "admit_run (RequestLimit_Execute demo_dstr zero_context (demo_limit [demo_window 2 1000])) [1, 5, 9, second] NewMemoryStateStore = 2"
proof -
  have "window_of (demo_window 2 1000) = second" by code_simp
  then have "\<forall>t\<in>set [5, 9, second]. t \<le> 1 + window_of (demo_window 2 1000)" by (simp add: second_def)
  from fixed_window_admits_threshold[OF _ _ _ _ _ this, of "demo_limit [demo_window 2 1000]" NewMemoryStateStore demo_dstr zero_context]
  show ?thesis by (simp add: demo_limit_def demo_window_def burst_of_def NewMemoryStateStore_def del: admit_run.simps)
qed

theorem refund_first_disables_window_witness:
  "let s1 = RateLimitIncr ''k'' 7 minute 1 (RateLimitRefund ''k'' 1 NewMemoryStateStore)
   in fst s1 = 7 \<and> fst (RateLimitIncr ''k'' 7 minute 2 (snd s1)) = 7"
  using refund_first_disables_window[of NewMemoryStateStore "''k''" 1 2, OF _ _ _ prod.collapse[symmetric] prod.collapse[symmetric]]
  by (simp add: NewMemoryStateStore_def Let_def)

end
