(* ===== verification/Settlement.thy ===== *)
theory Settlement
  imports Rate_Limit
begin

text \<open>
  Settlement after the response: \<open>pkg/filters/outbound/token_settlement.go\<close>. The accounting fields of
  \<open>GatewayContext\<close> (token counts, cost, tracked reservations, the request's error) are the record \<open>Usage\<close>, beside
  the rest of the context. The deduction of credits is an argument; the asynchronous update of the moving averages runs either before
  or after the limits are settled (\<open>emaFirst\<close>). The clock readings of one pass are one instant.
\<close>

subsection \<open>Usage\<close>

datatype request_error = ErrClientDisconnected | ErrRequest string

record Usage =
  u_APIKey :: string
  u_InputTokens :: int
  u_OutputTokens :: int
  u_CachedTokens :: int
  u_CacheCreationTokens :: int
  u_TransmittedChars :: int
  u_Cost :: rat
  u_Err :: "request_error option"
  u_TrackLimitReservations :: bool
  u_LimitReservations :: "LimitReservation list"
  u_LimitKeys :: "string set"

definition zero_usage :: Usage where
  "zero_usage = \<lparr>u_APIKey = '''', u_InputTokens = 0, u_OutputTokens = 0, u_CachedTokens = 0, u_CacheCreationTokens = 0, u_TransmittedChars = 0,
     u_Cost = 0, u_Err = None, u_TrackLimitReservations = False, u_LimitReservations = [], u_LimitKeys = {}\<rparr>"

text \<open>What \<open>ResetAttempt\<close> does to these fields.\<close>

definition ResetAttempt_usage :: "Usage \<Rightarrow> Usage" where
  "ResetAttempt_usage u = u\<lparr>u_InputTokens := 0, u_OutputTokens := 0, u_CachedTokens := 0, u_CacheCreationTokens := 0,
     u_TransmittedChars := 0, u_Cost := 0, u_Err := None\<rparr>"

subsection \<open>Prices and cost\<close>

text \<open>Input, output, cached and cache-creation price.\<close>

definition resolvePrices :: "GatewayContext \<Rightarrow> rat \<times> rat \<times> rat \<times> rat" where
  "resolvePrices g =
     (let (i, o', c, cc) = (case Option.bind (g_Policy g) pl_Billing of None \<Rightarrow> (2, 2, 2, 2)
            | Some b \<Rightarrow> (bp_InputPrice b, bp_OutputPrice b,
                        if bp_CachedPrice b > 0 then bp_CachedPrice b else bp_InputPrice b,
                        if bp_CacheCreationPrice b > 0 then bp_CacheCreationPrice b else bp_InputPrice b))
      in case g_SelectedEndpoint g of None \<Rightarrow> (i, o', c, cc)
         | Some ep \<Rightarrow> (case ep_InputPrice ep of Some x \<Rightarrow> x | None \<Rightarrow> i, case ep_OutputPrice ep of Some x \<Rightarrow> x | None \<Rightarrow> o',
                      case ep_CachedPrice ep of Some x \<Rightarrow> x | None \<Rightarrow> c,
                      case ep_CacheCreationPrice ep of Some x \<Rightarrow> x | None \<Rightarrow> cc))"

text \<open>The clamp both the actual and the estimated cost use: cached and cache-creation tokens within \<open>total\<close>, and the rest.\<close>

definition clamp_split :: "int \<Rightarrow> int \<Rightarrow> int \<Rightarrow> int \<times> int \<times> int" where
  "clamp_split total' cached0 creation0 =
     (let cached1 = (if cached0 < 0 then 0 else cached0); creation1 = (if creation0 < 0 then 0 else creation0);
          (cached, creation) = (if cached1 + creation1 > total'
            then let c = (if cached1 > total' then total' else cached1); r = total' - c in (c, if r < 0 then 0 else r)
            else (cached1, creation1))
      in (cached, creation, total' - cached - creation))"

definition clampAndSplitTokens :: "Usage \<Rightarrow> int \<times> int \<times> int \<times> int" where
  "clampAndSplitTokens u =
     (let (cached, creation, nonCached) = clamp_split (u_InputTokens u) (u_CachedTokens u) (u_CacheCreationTokens u)
      in (cached, creation, nonCached, u_OutputTokens u))"

text \<open>A sum of four products in float64, left to right.\<close>

definition weighted_sum :: "int \<Rightarrow> rat \<Rightarrow> int \<Rightarrow> rat \<Rightarrow> int \<Rightarrow> rat \<Rightarrow> int \<Rightarrow> rat \<Rightarrow> rat" where
  "weighted_sum a pa b pb c pc d pd =
     fl64 (fl64 (fl64 (fl64 (float64 a * pa) + fl64 (float64 b * pb)) + fl64 (float64 c * pc)) + fl64 (float64 d * pd))"

definition computeActualCost :: "Usage \<Rightarrow> rat \<Rightarrow> rat \<Rightarrow> rat \<Rightarrow> rat \<Rightarrow> rat" where
  "computeActualCost u inputPrice cachedPrice cacheCreationPrice outputPrice =
     (let (cached, creation, nonCached, out) = clampAndSplitTokens u
      in fl64 (weighted_sum nonCached inputPrice cached cachedPrice creation cacheCreationPrice out outputPrice / 1000000))"

subsection \<open>Settling tracked reservations\<close>

definition settles_usage :: "Usage \<Rightarrow> bool" where
  "settles_usage u \<longleftrightarrow> u_Err u = None \<or> u_Err u = Some ErrClientDisconnected"

definition actual_of :: "GatewayContext \<Rightarrow> Usage \<Rightarrow> string \<Rightarrow> int" where
  "actual_of g u type =
     (if \<not> settles_usage u then 0
      else if type = ''token'' then u_InputTokens u + u_OutputTokens u
      else let (i, o', c, cc) = resolvePrices g in int64_of (fl64 (computeActualCost u i c cc o' * 1000)))"

definition settle_one :: "GatewayContext \<Rightarrow> Usage \<Rightarrow> instant \<Rightarrow> LimitReservation \<Rightarrow> MemoryStateStore \<Rightarrow> LimitReservation \<times> MemoryStateStore" where
  "settle_one g u now r s =
     (if lr_Settled r then (r, s)
      else let diff = actual_of g u (lr_Type r) - lr_Estimated r;
               s' = (if diff = 0 then s
                     else if lr_Burst r then snd (RateLimitAdjust (lr_Key r) diff (lr_Rate r) (lr_Capacity r) (lr_Window r) now s)
                     else if diff < 0 then RateLimitRefund (lr_Key r) (- diff) s
                     else snd (RateLimitIncr (lr_Key r) diff (lr_Window r) now s))
           in (r\<lparr>lr_Settled := True\<rparr>, s'))"

fun settle_loop :: "GatewayContext \<Rightarrow> Usage \<Rightarrow> instant \<Rightarrow> LimitReservation list \<Rightarrow> MemoryStateStore \<Rightarrow> LimitReservation list \<times> MemoryStateStore" where
  "settle_loop g u now [] s = ([], s)"
| "settle_loop g u now (r # rs) s = (let (r', s1) = settle_one g u now r s; (rs', s2) = settle_loop g u now rs s1 in (r' # rs', s2))"

definition SettleLimits :: "GatewayContext \<Rightarrow> instant \<Rightarrow> Usage \<Rightarrow> MemoryStateStore \<Rightarrow> Usage \<times> MemoryStateStore" where
  "SettleLimits g now u s = (let (rs, s') = settle_loop g u now (u_LimitReservations u) s in (u\<lparr>u_LimitReservations := rs\<rparr>, s'))"

subsection \<open>Settling by policy\<close>

definition estimated_cost :: "GatewayContext \<Rightarrow> Usage \<Rightarrow> int \<Rightarrow> int \<Rightarrow> int" where
  "estimated_cost g u estimatedInput estimatedOutput =
     (let (i, o', c, cc) = resolvePrices g;
          (cached, creation, nonCached) = clamp_split estimatedInput (u_CachedTokens u) (u_CacheCreationTokens u)
      in int64_of (fl64 (weighted_sum nonCached i cached c creation cc estimatedOutput o' / 1000)))"

definition policy_diff :: "(string \<Rightarrow> string \<Rightarrow> int option) \<Rightarrow> GatewayContext \<Rightarrow> Usage \<Rightarrow> LimitPolicy \<Rightarrow> MemoryStateStore \<Rightarrow> int" where
  "policy_diff tik g u lp s =
     (let estIn = EstimateInputTokens tik g lp; estOut = EstimateOutputTokens s (g_Tenant g) (g_UserID g) (g_Model g) in
      if lp_Type lp = ''token'' then u_InputTokens u + u_OutputTokens u - (estIn + estOut)
      else let (i, o', c, cc) = resolvePrices g
           in int64_of (fl64 (computeActualCost u i c cc o' * 1000)) - estimated_cost g u estIn estOut)"

definition settle_window :: "(duration \<Rightarrow> string) \<Rightarrow> string \<Rightarrow> int \<Rightarrow> instant \<Rightarrow> SlidingWindow \<Rightarrow> MemoryStateStore \<Rightarrow> MemoryStateStore" where
  "settle_window dstr limitKey diff now sw s =
     (if diff < 0 then RateLimitRefund (window_key dstr limitKey sw) (- diff) s
      else snd (RateLimitIncr (window_key dstr limitKey sw) diff (window_of sw) now s))"

definition settle_policy :: "(duration \<Rightarrow> string) \<Rightarrow> (string \<Rightarrow> string \<Rightarrow> int option) \<Rightarrow> GatewayContext \<Rightarrow> Usage \<Rightarrow> instant \<Rightarrow> LimitPolicy \<Rightarrow>
    MemoryStateStore \<Rightarrow> MemoryStateStore" where
  "settle_policy dstr tik g u now lp s =
     (if lp_Type lp \<noteq> ''token'' \<and> lp_Type lp \<noteq> ''cost'' then s
      else if \<not> MatchLimitPolicyConditions g lp then s
      else let diff = policy_diff tik g u lp s in
        if diff = 0 then s else fold (settle_window dstr (GetLimitKey g lp) diff now) (lp_SlidingWindows lp) s)"

subsection \<open>The filter\<close>

text \<open>The output estimate of a stream that was cut off without usage, and the input estimate that goes with it.\<close>

definition abort_ratio :: "GatewayContext \<Rightarrow> rat" where
  "abort_ratio g = (case g_Policy g of None \<Rightarrow> fl64 (3 / 5)
     | Some p \<Rightarrow> (case find (\<lambda>lp. case lp_Estimator lp of Some e \<Rightarrow> es_Type e = ''length_ratio'' \<and> es_Ratio e > 0 | None \<Rightarrow> False) (pl_LimitPolicies p) of
         Some lp \<Rightarrow> (case lp_Estimator lp of Some e \<Rightarrow> es_Ratio e | None \<Rightarrow> fl64 (3 / 5)) | None \<Rightarrow> fl64 (3 / 5)))"

definition estimate_aborted :: "(string \<Rightarrow> string \<Rightarrow> int option) \<Rightarrow> GatewayContext \<Rightarrow> Usage \<Rightarrow> GatewayContext \<times> Usage" where
  "estimate_aborted tik g u =
     (if g_IsStream g \<and> u_OutputTokens u = 0 \<and> u_TransmittedChars u > 0
      then let o0 = int64_of (fl64 (float64 (u_TransmittedChars u) * abort_ratio g));
               u1 = u\<lparr>u_OutputTokens := if o0 \<le> 0 then 1 else o0\<rparr>;
               g1 = g\<lparr>g_Tags := (g_Tags g)(''completion_token_estimated'' \<mapsto> ''true'')\<rparr>
           in if u_InputTokens u = 0 \<and> g_RawBody g \<noteq> ''''
              then let e0 = (case g_Policy g of None \<Rightarrow> 0
                         | Some p \<Rightarrow> (case find (\<lambda>lp. lp_Type lp = ''token'' \<or> lp_Type lp = ''cost'') (pl_LimitPolicies p) of
                             Some lp \<Rightarrow> EstimateInputTokens tik g lp | None \<Rightarrow> 0));
                       e1 = (if e0 \<le> 0 then int (length (g_RawBody g)) div 4 else e0)
                   in if e1 > 0 then (g1\<lparr>g_Tags := (g_Tags g1)(''input_token_estimated'' \<mapsto> ''true'')\<rparr>, u1\<lparr>u_InputTokens := e1\<rparr>) else (g1, u1)
              else (g1, u1)
      else (g, u))"

definition update_emas :: "GatewayContext \<Rightarrow> Usage \<Rightarrow> MemoryStateStore \<Rightarrow> MemoryStateStore" where
  "update_emas g u s =
     (if u_OutputTokens u > 0
      then let tenantKey = (if g_Tenant g = '''' then g_UserID g else g_Tenant g);
               s1 = (if tenantKey \<noteq> '''' then snd (UpdateEMA (''tenant:'' @ tenantKey @ '':'' @ g_Model g) (u_OutputTokens u) (fl64 (1 / 10)) s) else s)
           in snd (UpdateEMA (''model:global:'' @ g_Model g) (u_OutputTokens u) (fl64 (1 / 10)) s1)
      else s)"

text \<open>What the filter ends with: done, the error of the deduction, or the slice of a too short key in the error log.\<close>

datatype settle_result = Settled | DeductFailed string | KeySlicePanic

definition credits_due :: "GatewayContext \<Rightarrow> Usage \<Rightarrow> int" where
  "credits_due g u = (let (i, o', c, cc) = resolvePrices g
     in int64_of (fl64 (fl64 (computeActualCost u i c cc o' * 1000000) + 1 / 2)))"

definition deduct_credits :: "(string \<Rightarrow> int \<Rightarrow> string + int) option \<Rightarrow> bool \<Rightarrow> GatewayContext \<Rightarrow> Usage \<Rightarrow> settle_result" where
  "deduct_credits deductor hasLogger g u = (case deductor of None \<Rightarrow> Settled
     | Some deduct \<Rightarrow> if g_UserID g \<noteq> '''' \<and> settles_usage u \<and> credits_due g u > 0
         then (case deduct (u_APIKey u) (credits_due g u) of Inr _ \<Rightarrow> Settled
               | Inl e \<Rightarrow> if hasLogger \<and> length (u_APIKey u) < 8 then KeySlicePanic else DeductFailed e)
         else Settled)"

definition OnResponse :: "(string \<Rightarrow> int \<Rightarrow> string + int) option \<Rightarrow> bool \<Rightarrow> (duration \<Rightarrow> string) \<Rightarrow> (string \<Rightarrow> string \<Rightarrow> int option) \<Rightarrow> bool \<Rightarrow> instant \<Rightarrow>
    GatewayContext \<Rightarrow> Usage \<Rightarrow> MemoryStateStore \<Rightarrow> settle_result \<times> GatewayContext \<times> Usage \<times> MemoryStateStore" where
  "OnResponse deductor hasLogger dstr tik emaFirst now g u s =
     (case deduct_credits deductor hasLogger g u of
        Settled \<Rightarrow>
          (let (g1, u1) = estimate_aborted tik g u;
               s1 = (if emaFirst then update_emas g1 u1 s else s);
               (i, o', c, cc) = resolvePrices g;
               u2 = (if settles_usage u then u1\<lparr>u_Cost := computeActualCost u1 i c cc o'\<rparr> else u1);
               (u3, s2) = (if u_TrackLimitReservations u2 then SettleLimits g1 now u2 s1
                           else (u2, case g_Policy g1 of None \<Rightarrow> s1
                                 | Some p \<Rightarrow> fold (settle_policy dstr tik g1 u2 now) (pl_LimitPolicies p) s1))
           in (Settled, g1, u3, if emaFirst then s2 else update_emas g1 u1 s2))
      | r \<Rightarrow> (r, g, u, s))"


subsection \<open>Splitting the input tokens\<close>

lemma clamp_split_eq:
  "clamp_split n a b = (let c = (if n < max 0 a + max 0 b then min (max 0 a) n else max 0 a); d = (if n < max 0 a + max 0 b then n - c else max 0 b)
     in (c, d, n - c - d))"
  by (auto simp: clamp_split_def Let_def max_def min_def)

text \<open>The input tokens are billed once: cached, cache-creation and full-price tokens are non-negative, add up to the input tokens,
  the cached part never exceeds what was reported, and a report that fits is taken as it is.\<close>

theorem input_tokens_billed_once:
  assumes "0 \<le> u_InputTokens u" "clampAndSplitTokens u = (cached, creation, nonCached, out)"
  shows "0 \<le> cached \<and> 0 \<le> creation \<and> 0 \<le> nonCached \<and> cached + creation + nonCached = u_InputTokens u
    \<and> cached \<le> max 0 (u_CachedTokens u) \<and> creation \<le> max 0 (u_CacheCreationTokens u)
    \<and> (0 \<le> u_CachedTokens u \<and> 0 \<le> u_CacheCreationTokens u \<and> u_CachedTokens u + u_CacheCreationTokens u \<le> u_InputTokens u
       \<longrightarrow> cached = u_CachedTokens u \<and> creation = u_CacheCreationTokens u)
    \<and> out = u_OutputTokens u"
  using assms by (auto simp: clampAndSplitTokens_def clamp_split_eq Let_def max_def min_def split: if_splits prod.splits)

subsection \<open>Reserve, then settle\<close>

text \<open>A reservation that may be settled on a counter.\<close>

definition open_counter :: "LimitReservation \<Rightarrow> bool" where
  "open_counter r \<longleftrightarrow> \<not> lr_Settled r \<and> \<not> lr_Burst r \<and> 0 \<le> lr_Window r"

lemma settle_one_live:
  assumes "store_ok s" "0 < now" "open_counter r" "settle_one g u now r s = (r', s')"
  shows "store_ok s' \<and> r' = r\<lparr>lr_Settled := True\<rparr> \<and> live_count now s' k =
    (if k = lr_Key r then max 0 (live_count now s k + (actual_of g u (lr_Type r) - lr_Estimated r)) else live_count now s k)"
proof -
  have t: "max 1 now = now" using assms(2) by simp
  define d where "d = actual_of g u (lr_Type r) - lr_Estimated r"
  note live = mem.live_nonneg[OF assms(1), of now, unfolded t]
  have r: "\<not> lr_Settled r" "\<not> lr_Burst r" and w: "0 \<le> lr_Window r" using assms(3) by (simp_all add: open_counter_def)
  consider "d = 0" | "d < 0" | "0 < d" by linarith
  then show ?thesis
  proof cases
    case 1
    then show ?thesis using assms(1,4) r live[of k] by (auto simp: settle_one_def d_def Let_def)
  next
    case 2
    then have "s' = RateLimitRefund (lr_Key r) (- d) s" "r' = r\<lparr>lr_Settled := True\<rparr>" using assms(4) r by (auto simp: settle_one_def d_def Let_def)
    with 2 mem.give_back_live[OF assms(1), of "- d" now "lr_Key r" k] mem.give_back_ok[OF assms(1), of "- d" "lr_Key r"]
    show ?thesis unfolding d_def[symmetric] by (simp add: t)
  next
    case 3
    then have "s' = snd (RateLimitIncr (lr_Key r) d (lr_Window r) now s)" "r' = r\<lparr>lr_Settled := True\<rparr>"
      using assms(4) r by (auto simp: settle_one_def d_def Let_def)
    with 3 mem.charge_live[OF assms(1) _ w, of d now "lr_Key r" k] mem.charge_ok[OF assms(1) _ w, of d "lr_Key r" now] live[of "lr_Key r"]
    show ?thesis unfolding d_def[symmetric] by (simp add: t)
  qed
qed

lemma settle_loop_live:
  assumes "0 < now" "distinct (map lr_Key rs)" "list_all open_counter rs" "store_ok s" "settle_loop g u now rs s = (rs', s')"
  shows "store_ok s' \<and> list_all lr_Settled rs'
    \<and> (\<forall>r\<in>set rs. live_count now s' (lr_Key r) = max 0 (live_count now s (lr_Key r) + (actual_of g u (lr_Type r) - lr_Estimated r)))
    \<and> (\<forall>k. k \<notin> lr_Key ` set rs \<longrightarrow> live_count now s' k = live_count now s k)"
  using assms(2-)
proof (induction rs arbitrary: s rs' s')
  case (Cons r rs)
  obtain r1 s1 where one: "settle_one g u now r s = (r1, s1)" by fastforce
  obtain rs1 s2 where rest: "settle_loop g u now rs s1 = (rs1, s2)" by fastforce
  have eqs: "rs' = r1 # rs1" "s' = s2" using Cons.prems(4) one rest by simp_all
  have r: "open_counter r" "list_all open_counter rs" and d: "lr_Key r \<notin> lr_Key ` set rs" "distinct (map lr_Key rs)"
    using Cons.prems(1,2) by auto
  note live1 = settle_one_live[OF Cons.prems(3) assms(1) r(1) one]
  from Cons.IH[OF d(2) r(2) _ rest] live1
  have ih: "store_ok s2" "list_all lr_Settled rs1"
    "\<forall>r\<in>set rs. live_count now s2 (lr_Key r) = max 0 (live_count now s1 (lr_Key r) + (actual_of g u (lr_Type r) - lr_Estimated r))"
    "\<forall>k. k \<notin> lr_Key ` set rs \<longrightarrow> live_count now s2 k = live_count now s1 k" by auto
  have other: "live_count now s1 (lr_Key r') = live_count now s (lr_Key r')" if "r' \<in> set rs" for r'
    using live1[of "lr_Key r'"] d(1) that by (metis image_eqI)
  have "lr_Settled r1" using live1 by simp
  with ih other live1 d(1) show ?case unfolding eqs by auto
qed simp

text \<open>Every reservation is settled at most once: a second pass finds them all settled and leaves the counters alone.\<close>

lemma settle_loop_settled: "list_all lr_Settled rs \<Longrightarrow> settle_loop g u now rs s = (rs, s)"
  by (induction rs arbitrary: s) (simp_all add: settle_one_def)

lemma settle_loop_settles: "settle_loop g u now rs s = (rs', s') \<Longrightarrow> list_all lr_Settled rs'"
  by (induction rs arbitrary: s rs' s') (auto simp: settle_one_def Let_def split: prod.splits if_splits)

lemma settle_twice:
  assumes "SettleLimits g now u s = (u', s')"
  shows "SettleLimits g' now' u' s'' = (u', s'')"
  using assms settle_loop_settles[of g u now "u_LimitReservations u" s]
  by (auto simp: SettleLimits_def settle_loop_settled split: prod.splits)

lemma limit_loop_accepts:
  assumes "0 < now" "0 \<le> n" "plain_windows sws" "distinct (map (window_key dstr key) sws)" "store_ok s"
    and "limit_loop dstr msg key n now charged sws s = (None, s')"
  shows "store_ok s' \<and> live_count now s' j = live_count now s j + (if j \<in> window_key dstr key ` set sws then n else 0)"
  using assms(3-)
proof (induction sws arbitrary: charged s)
  case (Cons sw sws)
  have t: "max 1 now = now" using assms(1) by simp
  let ?k = "window_key dstr key sw"
  obtain current s1 where c: "RateLimitIncr ?k n (window_of sw) now s = (current, s1)" by fastforce
  have sw: "burst_of sw = None" using Cons.prems(1) by (simp add: plain_windows_def)
  have ok1: "store_ok s1" using mem.charge_ok[OF Cons.prems(3) assms(2) window_of_nonneg, of ?k sw now] c t by simp
  have live1: "live_count now s1 j = live_count now s j + (if j = ?k then n else 0)"
    using mem.charge_live[OF Cons.prems(3) assms(2) window_of_nonneg, of now ?k sw j] c t by simp
  have "limit_loop dstr msg key n now (charged @ [sw]) sws s1 = (None, s')" using Cons.prems(4) sw c by (auto split: if_splits)
  from Cons.IH[OF _ _ ok1 this] Cons.prems(1,2) live1 show ?case by (auto simp: plain_windows_def)
qed simp

lemma store_ok_cong: "ss_rateLimits s = ss_rateLimits s' \<Longrightarrow> store_ok s = store_ok s'"
  by (simp add: store_ok_def)

lemma live_count_cong: "ss_rateLimits s = ss_rateLimits s' \<Longrightarrow> live_count now s k = live_count now s' k"
  by (simp add: live_count_def)

lemma update_emas_counters [simp]: "ss_rateLimits (update_emas g u s) = ss_rateLimits s"
  by (simp add: update_emas_def UpdateEMA_def Let_def split: prod.split)

lemma estimate_aborted_frame:
  "estimate_aborted tik g u = (g1, u1) \<Longrightarrow> g_Policy g1 = g_Policy g \<and> g_SelectedEndpoint g1 = g_SelectedEndpoint g
     \<and> u_LimitReservations u1 = u_LimitReservations u \<and> u_TrackLimitReservations u1 = u_TrackLimitReservations u \<and> u_Err u1 = u_Err u"
  by (auto simp: estimate_aborted_def Let_def split: if_splits)

lemma actual_of_cost: "actual_of g (u\<lparr>u_Cost := c, u_LimitReservations := rs\<rparr>) = actual_of g u"
  "actual_of g (u\<lparr>u_Cost := c\<rparr>) = actual_of g u" "actual_of g (u\<lparr>u_LimitReservations := rs\<rparr>) = actual_of g u"
  by (simp_all add: fun_eq_iff actual_of_def computeActualCost_def clampAndSplitTokens_def settles_usage_def split_beta Let_def)

lemma settle_loop_cong: "actual_of g u = actual_of g u' \<Longrightarrow> settle_loop g u now rs s = settle_loop g u' now rs s"
  by (induction rs arbitrary: s) (simp_all add: settle_one_def)

text \<open>What the filter does to the counters of a tracked request.\<close>

lemma OnResponse_tracked:
  assumes "OnResponse deductor hasLogger dstr tik emaFirst now g u s = (Settled, g1, u1, s')" "u_TrackLimitReservations u"
  obtains sA sB where "settle_loop g1 u1 now (u_LimitReservations u) sA = (u_LimitReservations u1, sB)"
    "ss_rateLimits sA = ss_rateLimits s" "ss_rateLimits s' = ss_rateLimits sB"
proof -
  obtain g2 u2 where ea: "estimate_aborted tik g u = (g2, u2)" by fastforce
  define sA where "sA = (if emaFirst then update_emas g2 u2 s else s)"
  define u3 where "u3 = (if settles_usage u then u2\<lparr>u_Cost := (case resolvePrices g of (i, o', c, cc) \<Rightarrow> computeActualCost u2 i c cc o')\<rparr> else u2)"
  obtain rs sB where sl: "settle_loop g2 u3 now (u_LimitReservations u) sA = (rs, sB)" by fastforce
  have f: "u_LimitReservations u3 = u_LimitReservations u" "u_TrackLimitReservations u3"
    using estimate_aborted_frame[OF ea] assms(2) by (simp_all add: u3_def)
  have "OnResponse deductor hasLogger dstr tik emaFirst now g u s
      = (Settled, g2, u3\<lparr>u_LimitReservations := rs\<rparr>, if emaFirst then sB else update_emas g2 u2 sB)"
    using assms(1) f sl unfolding u3_def sA_def
    by (auto simp: OnResponse_def ea SettleLimits_def Let_def split_beta split: settle_result.splits prod.splits if_splits)
  with assms(1) have "g1 = g2" "u1 = u3\<lparr>u_LimitReservations := rs\<rparr>" "s' = (if emaFirst then sB else update_emas g2 u2 sB)" by auto
  then show thesis
    using that[of sA sB] sl settle_loop_cong[OF actual_of_cost(3)[symmetric], of g2 u3 now _ sA rs] by (simp add: sA_def)
qed

lemma recordReservations_open:
  assumes "plain_windows (lp_SlidingWindows lp)"
  shows "list_all open_counter (recordReservations dstr lp key n)"
    and "map lr_Key (recordReservations dstr lp key n) = map (window_key dstr key) (lp_SlidingWindows lp)"
    and "r \<in> set (recordReservations dstr lp key n) \<Longrightarrow> lr_Estimated r = n \<and> lr_Type r = lp_Type lp"
  using assms by (auto simp: recordReservations_def open_counter_def plain_windows_def list_all_iff window_of_nonneg)

lemma tracked_execute:
  assumes "exec = TokenLimit_Execute \<or> exec = CostLimit_Execute" "exec dstr tik True g lp now s = ((None, rs), s1)"
  obtains n msg where "rs = recordReservations dstr lp (GetLimitKey g lp) n"
    "limit_loop dstr msg (GetLimitKey g lp) n now [] (lp_SlidingWindows lp) s = (None, s1)"
  using assms by (auto simp: TokenLimit_Execute_def CostLimit_Execute_def Let_def split: prod.splits if_splits)

lemma tracked_execute_live:
  assumes "exec = TokenLimit_Execute \<or> exec = CostLimit_Execute"
    and "store_ok s" "0 < now" "plain_windows (lp_SlidingWindows lp)"
    and "distinct (map (window_key dstr (GetLimitKey g lp)) (lp_SlidingWindows lp))"
    and "exec dstr tik True g lp now s = ((None, rs), s1)" "list_all (\<lambda>r. 0 \<le> lr_Estimated r) rs"
  shows "store_ok s1" and "map lr_Key rs = map (window_key dstr (GetLimitKey g lp)) (lp_SlidingWindows lp)"
    and "list_all open_counter rs" and "r \<in> set rs \<Longrightarrow> lr_Type r = lp_Type lp"
    and "r \<in> set rs \<Longrightarrow> live_count now s1 (lr_Key r) = live_count now s (lr_Key r) + lr_Estimated r"
    and "k \<notin> lr_Key ` set rs \<Longrightarrow> live_count now s1 k = live_count now s k"
proof -
  let ?key = "GetLimitKey g lp" and ?sws = "lp_SlidingWindows lp"
  obtain n msg where n: "rs = recordReservations dstr lp ?key n" "limit_loop dstr msg ?key n now [] ?sws s = (None, s1)"
    using tracked_execute[OF assms(1,6)] by blast
  note opn = recordReservations_open(1,2)[OF assms(4), of dstr ?key n, folded n(1)]
  note opn3 = recordReservations_open(3)[OF assms(4), of _ dstr ?key n, folded n(1)]
  show keys: "map lr_Key rs = map (window_key dstr ?key) ?sws" and "list_all open_counter rs" by (rule opn)+
  show "r \<in> set rs \<Longrightarrow> lr_Type r = lp_Type lp" using opn3 by blast
  have ks: "lr_Key ` set rs = window_key dstr ?key ` set ?sws" using keys by (metis set_map)
  have "0 \<le> n \<or> ?sws = []" using assms(7) by (cases ?sws) (auto simp: n(1) recordReservations_def)
  then have live: "store_ok s1 \<and> live_count now s1 j = live_count now s j + (if j \<in> lr_Key ` set rs then n else 0)" for j
    using limit_loop_accepts[OF assms(3) _ assms(4,5,2) n(2), of j] n(2) assms(2) ks by (cases "?sws = []") auto
  show "store_ok s1" using live by blast
  show "r \<in> set rs \<Longrightarrow> live_count now s1 (lr_Key r) = live_count now s (lr_Key r) + lr_Estimated r"
    using live[of "lr_Key r"] opn3[of r] by simp
  show "k \<notin> lr_Key ` set rs \<Longrightarrow> live_count now s1 k = live_count now s k" using live[of k] by simp
qed


subsection \<open>What is not settled\<close>

text \<open>Without tracked reservations the filter never touches a token bucket: a window with a burst ratio,
  which the executor charges on its bucket, keeps the estimate, and the difference goes to a counter that nothing reads.\<close>

lemma settle_window_buckets [simp]: "ss_tokenBuckets (settle_window dstr key diff now sw s) = ss_tokenBuckets s"
  by (simp add: settle_window_def RateLimitIncr_def RateLimitRefund_def split_beta Let_def)

lemma fold_settle_window_buckets [simp]: "ss_tokenBuckets (fold (settle_window dstr key diff now) sws s) = ss_tokenBuckets s"
  by (induction sws arbitrary: s) simp_all

lemma fold_settle_policy_buckets [simp]: "ss_tokenBuckets (fold (settle_policy dstr tik g u now) lps s) = ss_tokenBuckets s"
  by (induction lps arbitrary: s) (simp_all add: settle_policy_def Let_def)

lemma update_emas_buckets [simp]: "ss_tokenBuckets (update_emas g u s) = ss_tokenBuckets s"
  by (simp add: update_emas_def UpdateEMA_def Let_def split: prod.split)

theorem untracked_bucket_not_settled:
  assumes "\<not> u_TrackLimitReservations u" "OnResponse deductor hasLogger dstr tik emaFirst now g u s = (r, g1, u1, s')"
  shows "ss_tokenBuckets s' = ss_tokenBuckets s"
proof -
  have "\<not> u_TrackLimitReservations (snd (estimate_aborted tik g u))"
    using estimate_aborted_frame[of tik g u] assms(1) by (cases "estimate_aborted tik g u") auto
  with assms(2) show ?thesis
    by (auto simp: OnResponse_def Let_def split_beta split: settle_result.splits if_splits option.splits)
qed

text \<open>Without a billing policy the cost executor reserves at 3 and 10 per million tokens and the settlement bills at 2 and 2.\<close>

lemma default_prices_differ:
  "g_Policy g = None \<Longrightarrow> g_SelectedEndpoint g = None \<Longrightarrow> billing_prices g = (3, 10) \<and> resolvePrices g = (2, 2, 2, 2)"
  by (simp add: billing_prices_def resolvePrices_def)

text \<open>A request that failed is neither billed nor deducted.\<close>

lemma failed_request_not_billed:
  assumes "\<not> settles_usage u"
  shows "deduct_credits deductor hasLogger g u = Settled \<and> actual_of g u type = 0
    \<and> u_Cost (fst (snd (snd (OnResponse deductor hasLogger dstr tik emaFirst now g u s)))) = u_Cost u"
proof -
  have "u_Cost (snd (estimate_aborted tik g u)) = u_Cost u" by (simp add: estimate_aborted_def Let_def)
  with assms show ?thesis
    by (auto simp: OnResponse_def deduct_credits_def actual_of_def SettleLimits_def Let_def split_beta split: settle_result.splits option.splits)
qed

subsection \<open>Evaluation\<close>

definition demo_usage :: "LimitReservation list \<Rightarrow> Usage" where
  "demo_usage rs = zero_usage\<lparr>u_InputTokens := 5, u_OutputTokens := 7, u_TrackLimitReservations := True, u_LimitReservations := rs\<rparr>"

definition demo_token_limit :: LimitPolicy where
  "demo_token_limit = (demo_limit [demo_window 1000 1000, demo_window 5000 2000])\<lparr>lp_Type := ''token''\<rparr>"


theorem input_tokens_billed_once_witness:
  "clampAndSplitTokens (zero_usage\<lparr>u_InputTokens := 10, u_CachedTokens := 8, u_CacheCreationTokens := 6\<rparr>) = (8, 2, 0, 0) \<and> (8::int) + 2 + 0 = 10"
proof -
  let ?u = "zero_usage\<lparr>u_InputTokens := 10, u_CachedTokens := 8, u_CacheCreationTokens := 6\<rparr>"
  have "clampAndSplitTokens ?u = (8, 2, 0, 0)" by code_simp
  with input_tokens_billed_once[OF _ this] show ?thesis by (simp add: zero_usage_def)
qed

end
