(* ===== verification/Inbound_Filters.thy ===== *)
theory Inbound_Filters
  imports Settlement
begin

text \<open>
  The filters a request passes before it is invoked, \<open>src/pkg/filters/inbound\<close>: authorization (\<open>auth.go\<close>), the credits
  check (\<open>credits_check.go\<close>), the session reader (\<open>session_reader.go\<close>), request validation (\<open>validate.go\<close>) and the rate
  limit filter with its waiting loop (\<open>limit.go\<close>). The credits and model services and the decoding of the JSON
  body are arguments. \<open>time.Sleep\<close> returns no earlier than asked: the scheduling delays are the argument \<open>lag\<close>.
\<close>

subsection \<open>Errors\<close>

text \<open>A filter returns nil, an error with a status code, the error of a done context, or dereferences nil.\<close>

datatype filter_error = InboundHTTP int string | LimitHTTP HTTPError | ContextDone string

subsection \<open>Authorization, credits, session\<close>

definition AuthFilter_OnRequest :: "GatewayContext \<Rightarrow> filter_error option" where
  "AuthFilter_OnRequest g =
     (if g_UserID g = '''' \<and> g_Tenant g = '''' then Some (InboundHTTP 401 ''missing authentication user or tenant'')
      else case g_Policy g of None \<Rightarrow> Some (InboundHTTP 403 ''no policy matched'')
      | Some p \<Rightarrow>
          if list_ex (\<lambda>perm. MatchWildcard perm (g_Model g)) (case pl_Permissions p of Some ps \<Rightarrow> ps | None \<Rightarrow> [])
          then None else Some (InboundHTTP 403 (''access denied to model: '' @ g_Model g)))"

definition CreditsCheckFilter_OnRequest :: "(string \<Rightarrow> string option) \<Rightarrow> string \<Rightarrow> GatewayContext \<Rightarrow> filter_error option" where
  "CreditsCheckFilter_OnRequest checkCredits apiKey g =
     (case Option.bind (g_Policy g) pl_Billing of
        None \<Rightarrow> Some (InboundHTTP 403 ''Model pricing not configured. Please contact your administrator.'')
      | Some _ \<Rightarrow>
          if g_UserID g = '''' then None
          else (case checkCredits apiKey of None \<Rightarrow> None
                | Some _ \<Rightarrow> Some (InboundHTTP 429 ''Credits exceeded. Please contact your administrator to recharge.'')))"

definition nonempty_str :: "param \<Rightarrow> string option" where
  "nonempty_str v = (case v of PStr s \<Rightarrow> if s \<noteq> '''' then Some s else None | _ \<Rightarrow> None)"

definition session_header :: "string \<Rightarrow> GatewayContext \<Rightarrow> string" where
  "session_header headerName g = (case lb_params g of None \<Rightarrow> headerName
     | Some params \<Rightarrow>
         (case params ''session_header'' of Some v \<Rightarrow> (case nonempty_str v of Some s \<Rightarrow> s | None \<Rightarrow> headerName)
          | None \<Rightarrow> (case params ''session_header_name'' of Some v \<Rightarrow> (case nonempty_str v of Some s \<Rightarrow> s | None \<Rightarrow> headerName)
             | None \<Rightarrow> headerName)))"

text \<open>\<open>None\<close> is the dereference of a nil request.\<close>

definition SessionReaderFilter_OnRequest :: "string \<Rightarrow> GatewayContext \<Rightarrow> GatewayContext option" where
  "SessionReaderFilter_OnRequest headerName g = (case g_Request g of None \<Rightarrow> None
     | Some r \<Rightarrow>
         let sessionID = header_get r (session_header headerName g) in
         Some (if sessionID \<noteq> '''' then g\<lparr>g_SessionID := sessionID\<rparr>
               else if g_UserID g \<noteq> '''' then g\<lparr>g_SessionID := g_UserID g\<rparr>
               else if g_Tenant g \<noteq> '''' then g\<lparr>g_SessionID := g_Tenant g\<rparr> else g))"

subsection \<open>Validation\<close>

text \<open>What decoding a body into the structs of \<open>validate.go\<close> gives: the lengths of the lists, an integer that may be missing.\<close>

record DecodedBody =
  db_Messages :: nat
  db_MaxTokens :: "int option"
  db_Contents :: nat

definition validateAnthropicMessages :: "DecodedBody option \<Rightarrow> filter_error option" where
  "validateAnthropicMessages req = (case req of None \<Rightarrow> Some (InboundHTTP 400 ''invalid JSON body'')
     | Some b \<Rightarrow>
         if db_Messages b = 0 then Some (InboundHTTP 400 ''messages is required and must not be empty'')
         else (case db_MaxTokens b of None \<Rightarrow> Some (InboundHTTP 400 ''max_tokens is required'')
               | Some m \<Rightarrow> if m \<le> 0 then Some (InboundHTTP 400 ''max_tokens must be positive'') else None))"

definition validateGeminiGenerateContent :: "DecodedBody option \<Rightarrow> filter_error option" where
  "validateGeminiGenerateContent req = (case req of None \<Rightarrow> Some (InboundHTTP 400 ''invalid JSON body'')
     | Some b \<Rightarrow> if db_Contents b = 0 then Some (InboundHTTP 400 ''contents is required and must not be empty'') else None)"

text \<open>\<open>decode rt body\<close> is \<open>json.Unmarshal\<close> into the struct the branch of \<open>rt\<close> declares.\<close>

definition ValidateFilter_OnRequest :: "(string \<Rightarrow> string \<Rightarrow> string \<Rightarrow> string + bool) \<Rightarrow> (RequestType \<Rightarrow> string \<Rightarrow> DecodedBody option) \<Rightarrow>
    string \<Rightarrow> GatewayContext \<Rightarrow> filter_error option" where
  "ValidateFilter_OnRequest validateModel decode userTenant g =
     (if g_Model g = '''' then Some (InboundHTTP 400 ''model is required'')
      else let tenant = (if g_Tenant g = '''' then userTenant else g_Tenant g) in
        case validateModel (g_Model g) tenant (g_UserID g) of
          Inl e \<Rightarrow> Some (InboundHTTP 400 (''failed to validate model: '' @ e))
        | Inr valid \<Rightarrow>
            if \<not> valid then Some (InboundHTTP 400 (''unknown model: '' @ g_Model g))
            else if g_RawBody g = '''' then None
            else let req = decode (g_RequestType g) (g_RawBody g) in
              if g_RequestType g = RequestTypeChatCompletion
              then (case req of None \<Rightarrow> Some (InboundHTTP 400 ''invalid JSON body'')
                    | Some b \<Rightarrow> if db_Messages b = 0 then Some (InboundHTTP 400 ''messages is required and must not be empty'') else None)
              else if g_RequestType g = RequestTypeMessages then validateAnthropicMessages req
              else if g_RequestType g = RequestTypeResponses
              then (if req = None then Some (InboundHTTP 400 ''invalid JSON body'') else None)
              else if g_RequestType g = RequestTypeGeminiGenerateContent then validateGeminiGenerateContent req
              else None)"

subsection \<open>The rate limit filter\<close>

type_synonym limit_state = "Usage \<times> MemoryStateStore"

text \<open>The registered executors; a tracked request keeps the reservations.\<close>

definition limit_executor :: "(duration \<Rightarrow> string) \<Rightarrow> (string \<Rightarrow> string \<Rightarrow> int option) \<Rightarrow> string \<Rightarrow>
    (GatewayContext \<Rightarrow> LimitPolicy \<Rightarrow> instant \<Rightarrow> limit_state \<Rightarrow> HTTPError option \<times> limit_state) option" where
  "limit_executor dstr tik type =
     (let reserve = (\<lambda>exec g lp now (u, s). let ((err, rs), s') = exec (u_TrackLimitReservations u) g lp now s
            in (err, u\<lparr>u_LimitReservations := u_LimitReservations u @ rs\<rparr>, s'))
      in if type = ''request'' then Some (\<lambda>g lp now (u, s). let (err, s') = RequestLimit_Execute dstr g lp now s in (err, u, s'))
         else if type = ''token'' then Some (reserve (TokenLimit_Execute dstr tik))
         else if type = ''cost'' then Some (reserve (CostLimit_Execute dstr tik))
         else None)"

text \<open>The waiting loop: the \<open>n\<close>-th try runs at \<open>t\<close>; \<open>lag n\<close> is the time that passes before the
  deadline is checked and the oversleep, \<open>done n\<close> the error of the context when it is done by then.\<close>

definition poll_interval :: duration where
  "poll_interval = 20 * millisecond"

function wait_loop :: "(nat \<Rightarrow> nat \<times> nat) \<Rightarrow> (nat \<Rightarrow> string option) \<Rightarrow> (instant \<Rightarrow> 's \<Rightarrow> HTTPError option \<times> 's) \<Rightarrow> instant \<Rightarrow> nat \<Rightarrow>
    instant \<Rightarrow> 's \<Rightarrow> filter_error option \<times> 's" where
  "wait_loop lag ctxDone exec deadline n t s =
     (case exec t s of
        (None, s') \<Rightarrow> (None, s')
      | (Some e, s') \<Rightarrow>
          if he_Code e \<noteq> 429 then (Some (LimitHTTP e), s')
          else (case ctxDone n of Some c \<Rightarrow> (Some (ContextDone c), s')
                | None \<Rightarrow>
                    let t1 = t + int (fst (lag n)) in
                    if t1 + poll_interval > deadline then (Some (LimitHTTP e), s')
                    else wait_loop lag ctxDone exec deadline (Suc n) (t1 + poll_interval + int (snd (lag n))) s'))"
  by pat_completeness auto

termination
  by (relation "measure (\<lambda>(lag, ctxDone, exec, deadline, n, t, s). nat (deadline - t + 1))")
    (auto simp: poll_interval_def millisecond_def)

declare wait_loop.simps [simp del]

definition limit_execute :: "(nat \<Rightarrow> nat \<times> nat) \<Rightarrow> (nat \<Rightarrow> string option) \<Rightarrow> (instant \<Rightarrow> 's \<Rightarrow> HTTPError option \<times> 's) \<Rightarrow> LimitPolicy \<Rightarrow>
    instant \<Rightarrow> 's \<Rightarrow> filter_error option \<times> 's" where
  "limit_execute lag ctxDone exec lp now s =
     (if lp_MaxWaitMs lp > 0
      then wait_loop lag ctxDone exec (time_add now (go_mul (lp_MaxWaitMs lp) millisecond)) 0 now s
      else (let (err, s') = exec now s in (map_option LimitHTTP err, s')))"

definition is_429 :: "filter_error \<Rightarrow> bool" where
  "is_429 e = (case e of LimitHTTP h \<Rightarrow> he_Code h = 429 | _ \<Rightarrow> False)"

text \<open>One policy of the loop of \<open>OnRequest\<close>; \<open>now lp\<close> is the clock when the policy is reached. The event handler is called
  exactly on the errors \<open>is_429\<close>.\<close>

definition limit_policy_step :: "(duration \<Rightarrow> string) \<Rightarrow> (string \<Rightarrow> string \<Rightarrow> int option) \<Rightarrow> (nat \<Rightarrow> nat \<times> nat) \<Rightarrow> (nat \<Rightarrow> string option) \<Rightarrow>
    (LimitPolicy \<Rightarrow> instant) \<Rightarrow> LimitPolicy \<Rightarrow> GatewayContext \<Rightarrow> limit_state \<Rightarrow> filter_error option \<times> GatewayContext \<times> limit_state" where
  "limit_policy_step dstr tik lag ctxDone now lp g us =
     (let (u, s) = us; key = GetLimitKey g lp in
      if g_RequestType g = RequestTypeImageGeneration \<and> (lp_Type lp = ''token'' \<or> lp_Type lp = ''cost'') then (None, g, us)
      else if \<not> MatchLimitPolicyConditions g lp then (None, g, us)
      else if u_TrackLimitReservations u \<and> key \<in> u_LimitKeys u then (None, g, us)
      else let u1 = (if (lp_Type lp = ''token'' \<or> lp_Type lp = ''cost'') \<and> u_InputTokens u = 0
                     then u\<lparr>u_InputTokens := EstimateInputTokens tik g lp\<rparr> else u)
           in case limit_executor dstr tik (lp_Type lp) of None \<Rightarrow> (None, g, (u1, s))
              | Some exec \<Rightarrow>
                  (case limit_execute lag ctxDone (exec g lp) lp (now lp) (u1, s) of
                     (Some e, us') \<Rightarrow>
                       (Some e, if is_429 e then g\<lparr>g_Tags := (g_Tags g)(''rate_limit_policy_name'' \<mapsto> lp_Name lp, ''rate_limit_policy_id'' \<mapsto> lp_ID lp)\<rparr> else g, us')
                   | (None, (u2, s2)) \<Rightarrow>
                       (None, g, (if u_TrackLimitReservations u2 then u2\<lparr>u_LimitKeys := insert key (u_LimitKeys u2)\<rparr> else u2, s2))))"

fun limit_policies :: "(LimitPolicy \<Rightarrow> GatewayContext \<Rightarrow> 's \<Rightarrow> 'e option \<times> GatewayContext \<times> 's) \<Rightarrow> LimitPolicy list \<Rightarrow> GatewayContext \<Rightarrow> 's \<Rightarrow>
    'e option \<times> GatewayContext \<times> 's" where
  "limit_policies step [] g us = (None, g, us)"
| "limit_policies step (lp # lps) g us = (case step lp g us of
     (Some e, g', us') \<Rightarrow> (Some e, g', us')
   | (None, g', us') \<Rightarrow> limit_policies step lps g' us')"

definition RateLimitFilter_OnRequest :: "(duration \<Rightarrow> string) \<Rightarrow> (string \<Rightarrow> string \<Rightarrow> int option) \<Rightarrow> (nat \<Rightarrow> nat \<times> nat) \<Rightarrow> (nat \<Rightarrow> string option) \<Rightarrow>
    (LimitPolicy \<Rightarrow> instant) \<Rightarrow> GatewayContext \<Rightarrow> limit_state \<Rightarrow> filter_error option \<times> GatewayContext \<times> limit_state" where
  "RateLimitFilter_OnRequest dstr tik lag ctxDone now g us = (case g_Policy g of None \<Rightarrow> (None, g, us)
     | Some p \<Rightarrow> limit_policies (limit_policy_step dstr tik lag ctxDone now) (pl_LimitPolicies p) g us)"


subsection \<open>Waiting is bounded\<close>

text \<open>The tries of a waiting request, at the given times.\<close>

fun replay :: "(instant \<Rightarrow> 's \<Rightarrow> HTTPError option \<times> 's) \<Rightarrow> instant list \<Rightarrow> 's \<Rightarrow> HTTPError option list \<times> 's" where
  "replay exec [] s = ([], s)"
| "replay exec (t # ts) s = (let (r, s1) = exec t s; (rs, s2) = replay exec ts s1 in (r # rs, s2))"

fun spaced :: "duration \<Rightarrow> instant list \<Rightarrow> bool" where
  "spaced d (t1 # t2 # ts) = (t1 + d \<le> t2 \<and> spaced d (t2 # ts))"
| "spaced d _ = True"

definition refusal :: "HTTPError option \<Rightarrow> bool" where
  "refusal r = (case r of Some h \<Rightarrow> he_Code h = 429 | None \<Rightarrow> False)"

lemma wait_loop_stop:
  assumes "exec t s = (r, s1)"
  obtains e where "wait_loop lag ctxDone exec deadline n t s = (e, s1)" "e = None \<longleftrightarrow> r = None"
  | h where "r = Some h" "he_Code h = 429" "t + int (fst (lag n)) + poll_interval \<le> deadline"
    "wait_loop lag ctxDone exec deadline n t s = wait_loop lag ctxDone exec deadline (Suc n) (t + int (fst (lag n)) + poll_interval + int (snd (lag n))) s1"
proof (cases r)
  case None
  then show thesis using that(1) assms by (subst (asm) (1) wait_loop.simps) (simp add: wait_loop.simps)
next
  case (Some h)
  show thesis
  proof (cases "he_Code h = 429 \<and> ctxDone n = None \<and> t + int (fst (lag n)) + poll_interval \<le> deadline")
    case True
    then show thesis using that(2)[of h] Some assms by (auto simp: wait_loop.simps[of lag ctxDone exec deadline n t s])
  next
    case False
    then have "\<exists>e. wait_loop lag ctxDone exec deadline n t s = (Some e, s1)" using Some assms
      by (cases "ctxDone n") (auto simp: wait_loop.simps[of lag ctxDone exec deadline n t s] Let_def)
    then show thesis using that(1) Some by auto
  qed
qed

lemma wait_loop_tries:
  assumes "wait_loop lag ctxDone exec deadline n t s = (e, s')"
  shows "\<exists>ts rs. replay exec (t # ts) s = (rs, s') \<and> list_all refusal (butlast rs) \<and> (e = None \<longleftrightarrow> last rs = None)
    \<and> spaced poll_interval (t # ts) \<and> (ts \<noteq> [] \<longrightarrow> t + int (length ts) * poll_interval \<le> deadline)"
  using assms
proof (induction "nat (deadline - t + 1)" arbitrary: n t s rule: less_induct)
  case less
  obtain r s1 where x: "exec t s = (r, s1)" by fastforce
  from x show ?case
  proof (cases rule: wait_loop_stop[where lag = lag and ctxDone = ctxDone and deadline = deadline and n = n])
    case (1 e')
    then show ?thesis using less.prems x by (intro exI[of _ "[]"] exI[of _ "[r]"]) simp
  next
    case (2 h)
    let ?t = "t + int (fst (lag n)) + poll_interval + int (snd (lag n))"
    have p: "0 < poll_interval" by (simp add: poll_interval_def millisecond_def)
    with 2(3) have "nat (deadline - ?t + 1) < nat (deadline - t + 1)" by auto
    from less.hyps[OF this, of "Suc n" s1, OF less.prems[unfolded 2(4)]] obtain ts rs where ih: "replay exec (?t # ts) s1 = (rs, s')"
      "list_all refusal (butlast rs)" "e = None \<longleftrightarrow> last rs = None" "spaced poll_interval (?t # ts)"
      "ts \<noteq> [] \<longrightarrow> ?t + int (length ts) * poll_interval \<le> deadline" by (elim exE conjE)
    have rs: "rs \<noteq> []" using ih(1) by (auto simp: Let_def split: prod.splits)
    have "t + int (length (?t # ts)) * poll_interval \<le> deadline"
      using ih(5) 2(3) by (cases "ts = []") (auto simp: algebra_simps)
    then show ?thesis using ih x 2(1,2) rs p
      by (intro exI[of _ "?t # ts"] exI[of _ "r # rs"]) (auto simp: refusal_def)
  qed
qed

text \<open>A request waits for a limit only as long as its policy allows: with \<open>MaxWaitMs\<close> the filter tries at
  instants at least twenty milliseconds apart, stops at the first try that is not refused with 429, admits the request exactly when the
  last try does, and tries at most \<open>MaxWaitMs / 20 + 1\<close> times; it always comes back.\<close>

theorem waiting_is_bounded:
  assumes "0 < lp_MaxWaitMs lp" "lp_MaxWaitMs lp * millisecond < 2 ^ 63"
    and "limit_execute lag ctxDone exec lp now s = (e, s')"
  shows "\<exists>ts rs. replay exec (now # ts) s = (rs, s') \<and> list_all refusal (butlast rs) \<and> (e = None \<longleftrightarrow> last rs = None)
    \<and> spaced poll_interval (now # ts) \<and> int (length (now # ts)) \<le> lp_MaxWaitMs lp div 20 + 1"
proof -
  have d: "go_mul (lp_MaxWaitMs lp) millisecond = lp_MaxWaitMs lp * millisecond" using assms(1,2) by (simp add: go_mul_def wrap64_id millisecond_def)
  from assms(1,3) have "wait_loop lag ctxDone exec (time_add now (go_mul (lp_MaxWaitMs lp) millisecond)) 0 now s = (e, s')"
    by (simp add: limit_execute_def)
  from wait_loop_tries[OF this[unfolded time_add_def d]] obtain ts rs where ts: "replay exec (now # ts) s = (rs, s')" "list_all refusal (butlast rs)"
    "e = None \<longleftrightarrow> last rs = None" "spaced poll_interval (now # ts)"
    "ts \<noteq> [] \<longrightarrow> now + int (length ts) * poll_interval \<le> now + lp_MaxWaitMs lp * millisecond" by (elim exE conjE)
  then have "int (length ts) \<le> lp_MaxWaitMs lp div 20"
    using assms(1) by (cases "ts = []") (auto simp: poll_interval_def millisecond_def)
  with ts show ?thesis by (intro exI[of _ ts] exI[of _ rs]) simp
qed

subsection \<open>Tracked limits are charged once\<close>

text \<open>A policy that a tracked request has passed leaves its key behind, and such a policy is skipped from then on.\<close>

lemma limit_executor_keys:
  assumes "limit_executor dstr tik type = Some exec" "exec g lp t (u, s) = (r, (u', s'))"
  shows "u_LimitKeys u' = u_LimitKeys u \<and> u_TrackLimitReservations u' = u_TrackLimitReservations u \<and> u_InputTokens u' = u_InputTokens u"
  using assms by (auto simp: limit_executor_def Let_def split: if_splits prod.splits)

lemma replay_keys:
  assumes "\<And>t u s r u' s'. exec t (u, s) = (r, (u', s')) \<Longrightarrow> P u \<Longrightarrow> P u'" "replay exec ts (u, s) = (rs, (u', s'))" "P (u :: Usage)"
  shows "P u'"
  using assms(2,3)
proof (induction ts arbitrary: u s rs)
  case (Cons t ts)
  obtain r u1 s1 where x: "exec t (u, s) = (r, (u1, s1))" by (rule prod_cases3)
  then have "P u1" using assms(1) Cons.prems(2) by blast
  with Cons x show ?case by (auto simp: Let_def split: prod.splits)
qed simp

lemma limit_execute_keys:
  assumes "limit_executor dstr tik type = Some exec" "limit_execute lag ctxDone (exec g lp) lp now (u, s) = (e, (u', s'))"
  shows "u_LimitKeys u' = u_LimitKeys u \<and> u_TrackLimitReservations u' = u_TrackLimitReservations u \<and> u_InputTokens u' = u_InputTokens u"
proof (cases "lp_MaxWaitMs lp > 0")
  case True
  with assms(2) have "wait_loop lag ctxDone (exec g lp) (time_add now (go_mul (lp_MaxWaitMs lp) millisecond)) 0 now (u, s) = (e, (u', s'))"
    by (simp add: limit_execute_def)
  then obtain ts rs where "replay (exec g lp) (now # ts) (u, s) = (rs, (u', s'))" using wait_loop_tries by (metis (no_types, lifting))
  from replay_keys[OF _ this, of "\<lambda>v. u_LimitKeys v = u_LimitKeys u \<and> u_TrackLimitReservations v = u_TrackLimitReservations u \<and> u_InputTokens v = u_InputTokens u"]
  show ?thesis using limit_executor_keys[OF assms(1)] by metis
next
  case False
  with assms(2) show ?thesis using limit_executor_keys[OF assms(1)] by (auto simp: limit_execute_def Let_def split: prod.splits)
qed

definition settled_for :: "GatewayContext \<Rightarrow> Usage \<Rightarrow> LimitPolicy \<Rightarrow> bool" where
  "settled_for g u lp \<longleftrightarrow> g_RequestType g = RequestTypeImageGeneration \<and> (lp_Type lp = ''token'' \<or> lp_Type lp = ''cost'')
     \<or> \<not> MatchLimitPolicyConditions g lp \<or> GetLimitKey g lp \<in> u_LimitKeys u \<or> lp_Type lp \<notin> {''request'', ''token'', ''cost''}"

lemma limit_policy_step_settled:
  "settled_for g u lp \<Longrightarrow> u_TrackLimitReservations u \<Longrightarrow> limit_policy_step dstr tik lag ctxDone now lp g (u, s) = (None, g, (u, s))"
  by (auto simp: limit_policy_step_def settled_for_def limit_executor_def Let_def)

lemma limit_policy_step_ok:
  assumes "limit_policy_step dstr tik lag ctxDone now lp g (u, s) = (None, g', (u', s'))" "u_TrackLimitReservations u"
  shows "g' = g \<and> u_TrackLimitReservations u' \<and> settled_for g u' lp \<and> u_LimitKeys u \<subseteq> u_LimitKeys u'"
proof (cases "settled_for g u lp")
  case True
  then show ?thesis using assms limit_policy_step_settled[OF True assms(2)] by auto
next
  case False
  then have type: "lp_Type lp \<in> {''request'', ''token'', ''cost''}" and m: "MatchLimitPolicyConditions g lp" "GetLimitKey g lp \<notin> u_LimitKeys u"
    "\<not> (g_RequestType g = RequestTypeImageGeneration \<and> (lp_Type lp = ''token'' \<or> lp_Type lp = ''cost''))"
    by (simp_all add: settled_for_def)
  obtain exec where ex: "limit_executor dstr tik (lp_Type lp) = Some exec" using type by (auto simp: limit_executor_def Let_def)
  let ?u = "if (lp_Type lp = ''token'' \<or> lp_Type lp = ''cost'') \<and> u_InputTokens u = 0 then u\<lparr>u_InputTokens := EstimateInputTokens tik g lp\<rparr> else u"
  obtain e u2 s2 where x: "limit_execute lag ctxDone (exec g lp) lp (now lp) (?u, s) = (e, (u2, s2))" by (rule prod_cases3)
  note keys = limit_execute_keys[OF ex x]
  have "limit_policy_step dstr tik lag ctxDone now lp g (u, s) = (case e of
      Some e \<Rightarrow> (Some e, if is_429 e then g\<lparr>g_Tags := (g_Tags g)(''rate_limit_policy_name'' \<mapsto> lp_Name lp, ''rate_limit_policy_id'' \<mapsto> lp_ID lp)\<rparr> else g, (u2, s2))
    | None \<Rightarrow> (None, g, (if u_TrackLimitReservations u2 then u2\<lparr>u_LimitKeys := insert (GetLimitKey g lp) (u_LimitKeys u2)\<rparr> else u2, s2)))"
    unfolding limit_policy_step_def Let_def prod.case using m ex x by (simp only: if_False simp_thms option.case prod.case split: option.split)
  moreover have "u_LimitKeys u2 = u_LimitKeys u" "u_TrackLimitReservations u2" using keys assms(2) by auto
  ultimately show ?thesis using assms(1) by (cases e) (auto simp: settled_for_def)
qed

lemma limit_policies_ok:
  assumes "limit_policies (limit_policy_step dstr tik lag ctxDone now) lps g (u, s) = (None, g', (u', s'))" "u_TrackLimitReservations u"
  shows "g' = g \<and> u_TrackLimitReservations u' \<and> list_all (settled_for g u') lps \<and> u_LimitKeys u \<subseteq> u_LimitKeys u'"
  using assms
proof (induction lps arbitrary: u s)
  case (Cons lp lps)
  obtain e g1 us1 where x: "limit_policy_step dstr tik lag ctxDone now lp g (u, s) = (e, g1, us1)" by (rule prod_cases3)
  obtain u1 s1 where us1: "us1 = (u1, s1)" by fastforce
  have e: "e = None" using Cons.prems(1) x by (cases e) auto
  note st = limit_policy_step_ok[OF x[unfolded us1 e] Cons.prems(2)]
  from Cons.IH[of u1 s1] st x us1 e Cons.prems(1) have
    "g' = g \<and> u_TrackLimitReservations u' \<and> list_all (settled_for g u') lps \<and> u_LimitKeys u1 \<subseteq> u_LimitKeys u'" by auto
  moreover have "settled_for g u' lp" using st calculation by (auto simp: settled_for_def)
  ultimately show ?case using st by auto
qed simp

lemma limit_policies_settled:
  assumes "list_all (settled_for g u) lps" "u_TrackLimitReservations u"
  shows "limit_policies (limit_policy_step dstr tik lag ctxDone now) lps g (u, s) = (None, g, (u, s))"
  using assms
proof (induction lps)
  case (Cons lp lps)
  then have "limit_policy_step dstr tik lag ctxDone now lp g (u, s) = (None, g, (u, s))" by (simp add: limit_policy_step_settled)
  with Cons show ?case by simp
qed simp

text \<open>A tracked request is charged once per limit: when the filter has let it pass, running the filter again for the same context, as
  the calls a smart request makes do, admits it without touching the store, whatever the store holds by then.\<close>

theorem tracked_limits_charged_once:
  assumes "RateLimitFilter_OnRequest dstr tik lag ctxDone now g (u, s) = (None, g', (u', s'))" "u_TrackLimitReservations u"
  shows "g' = g \<and> RateLimitFilter_OnRequest dstr tik lag' ctxDone' now' g (u', s'') = (None, g, (u', s''))"
proof (cases "g_Policy g")
  case None
  then show ?thesis using assms by (simp add: RateLimitFilter_OnRequest_def)
next
  case (Some p)
  with assms(1) have "limit_policies (limit_policy_step dstr tik lag ctxDone now) (pl_LimitPolicies p) g (u, s) = (None, g', (u', s'))"
    by (simp add: RateLimitFilter_OnRequest_def)
  from limit_policies_ok[OF this assms(2)] limit_policies_settled[of g u' "pl_LimitPolicies p"] show ?thesis
    by (simp add: RateLimitFilter_OnRequest_def Some)
qed

subsection \<open>Authorization\<close>

text \<open>The filter lets a request through exactly when a user or tenant is known and a permission of the policy covers
  the model, as a wildcard pattern; the permissions of a policy that has none cover nothing.\<close>

theorem auth_admits_iff:
  "AuthFilter_OnRequest g = None \<longleftrightarrow> (g_UserID g \<noteq> '''' \<or> g_Tenant g \<noteq> '''')
    \<and> (\<exists>p perms. g_Policy g = Some p \<and> pl_Permissions p = Some perms \<and> (\<exists>perm\<in>set perms. MatchWildcard perm (g_Model g)))"
  by (auto simp: AuthFilter_OnRequest_def list_ex_iff dest!: sym[of "Some _"] split: option.splits)

subsection \<open>Evaluation\<close>

text \<open>Two request limits, the second with threshold zero: the request is refused and the first limit keeps its charge.\<close>

definition two_limits :: GatewayContext where
  "two_limits = zero_context\<lparr>g_Policy := Some (zero_policy\<lparr>pl_LimitPolicies :=
     [(demo_limit [demo_window 5 1000])\<lparr>lp_Type := ''request''\<rparr>, (zero_limit_policy ''tpm'')\<lparr>lp_Type := ''request'', lp_SlidingWindows := [demo_window 0 1000]\<rparr>]\<rparr>)\<rparr>"

lemma earlier_limit_stays_charged:
  "let r = RateLimitFilter_OnRequest demo_dstr (\<lambda>_ _. None) (\<lambda>_. (0, 0)) (\<lambda>_. None) (\<lambda>_. second) two_limits (zero_usage, NewMemoryStateStore)
   in fst r \<noteq> None \<and> live_count second (snd (snd (snd r))) ''::rpm:1s'' = 1 \<and> live_count second (snd (snd (snd r))) ''::tpm:1s'' = 0"
  by code_simp

text \<open>The input estimate the filter puts into the context does not survive the first attempt.\<close>

lemma ResetAttempt_drops_estimate: "u_InputTokens (ResetAttempt_usage u) = 0"
  by (simp add: ResetAttempt_usage_def)

theorem waiting_is_bounded_witness:
  "\<exists>ts rs. fst (replay (RequestLimit_Execute demo_dstr zero_context (demo_limit [demo_window 0 1000])) (second # ts) NewMemoryStateStore) = rs
     \<and> int (length (second # ts)) \<le> 6"
proof -
  let ?lp = "(demo_limit [demo_window 0 1000])\<lparr>lp_MaxWaitMs := 100\<rparr>"
  let ?x = "RequestLimit_Execute demo_dstr zero_context (demo_limit [demo_window 0 1000])"
  obtain e s' where x: "limit_execute (\<lambda>_. (0, 0)) (\<lambda>_. None) ?x ?lp second NewMemoryStateStore = (e, s')" by fastforce
  from waiting_is_bounded[OF _ _ x] obtain ts rs where "replay ?x (second # ts) NewMemoryStateStore = (rs, s')" "int (length (second # ts)) \<le> 100 div 20 + 1"
    by (auto simp: millisecond_def simp del: replay.simps)
  then show ?thesis by (intro exI[of _ ts] exI[of _ rs]) simp
qed

definition tracked_context :: GatewayContext where
  "tracked_context = zero_context\<lparr>g_Policy := Some (zero_policy\<lparr>pl_LimitPolicies := [demo_token_limit]\<rparr>)\<rparr>"

theorem tracked_limits_charged_once_witness:
  "let r = RateLimitFilter_OnRequest demo_dstr (\<lambda>_ _. None) (\<lambda>_. (0, 0)) (\<lambda>_. None) (\<lambda>_. second) tracked_context (demo_usage [], NewMemoryStateStore)
   in fst r = None \<and> live_count second (snd (snd (snd r))) ''::rpm:1s'' = 200
     \<and> RateLimitFilter_OnRequest demo_dstr (\<lambda>_ _. None) (\<lambda>_. (0, 0)) (\<lambda>_. None) (\<lambda>_. 2 * second) tracked_context (snd (snd r)) = (None, tracked_context, snd (snd r))"
proof -
  let ?F = "RateLimitFilter_OnRequest demo_dstr (\<lambda>_ _. None) (\<lambda>_. (0, 0)) (\<lambda>_. None)"
  define r where "r = ?F (\<lambda>_. second) tracked_context (demo_usage [], NewMemoryStateStore)"
  have c: "fst r = None" "live_count second (snd (snd (snd r))) ''::rpm:1s'' = 200" unfolding r_def by code_simp+
  obtain g' u' s' where x: "r = (None, g', (u', s'))" using c(1) by (metis prod.collapse)
  have "u_TrackLimitReservations (demo_usage [])" by (simp add: demo_usage_def)
  from tracked_limits_charged_once[OF x[unfolded r_def] this, of "\<lambda>_. (0, 0)" "\<lambda>_. None" "\<lambda>_. 2 * second" s'] c x
  show ?thesis unfolding Let_def r_def[symmetric] by simp
qed

end
