(* ===== verification/Compensation.thy ===== *)
theory Compensation
  imports Gateway_Types
begin

text \<open>
  The compensation of critical outbound filters that failed: \<open>src/pkg/compensation\<close> (\<open>task.go\<close>, \<open>queue.go\<close>,
  \<open>worker.go\<close>). Redis is not modelled: an operation gives the commands it sends, in order. \<open>json.Marshal\<close> and \<open>json.Unmarshal\<close> of
  tasks are arguments, and so are the registered compensators.
\<close>

record CompensationTask =
  ct_ID :: string
  ct_FilterName :: string
  ct_Payload :: "string \<rightharpoonup> string"
  ct_EnqueueAt :: instant
  ct_NextRetryAt :: instant
  ct_AttemptCount :: int
  ct_LastError :: string

record RedisQueue =
  rq_stream :: string
  rq_delayed :: string
  rq_dlq :: string
  rq_consumer :: string
  rq_group :: string
  rq_maxRetry :: int

definition or_default :: "string \<Rightarrow> string \<Rightarrow> string" where
  "or_default d s = (if s = '''' then d else s)"

definition NewRedisQueue :: "RedisQueue \<Rightarrow> RedisQueue" where
  "NewRedisQueue cfg =
     \<lparr>rq_stream = or_default ''aigw:compensation:stream'' (rq_stream cfg), rq_delayed = or_default ''aigw:compensation:delayed'' (rq_delayed cfg),
      rq_dlq = or_default ''aigw:compensation:dlq'' (rq_dlq cfg), rq_consumer = or_default ''compensation-worker-1'' (rq_consumer cfg),
      rq_group = or_default ''compensation-group'' (rq_group cfg), rq_maxRetry = (if rq_maxRetry cfg = 0 then 5 else rq_maxRetry cfg)\<rparr>"

text \<open>\<open>'d\<close> is the serialized form of a task.\<close>

datatype 'd redis_cmd = XAdd string 'd | ZAdd string int 'd | ZRem string 'd | XAck string string string

text \<open>\<open>None\<close>: the task cannot be marshalled, and nothing is sent.\<close>

definition Enqueue :: "(CompensationTask \<Rightarrow> 'd option) \<Rightarrow> RedisQueue \<Rightarrow> CompensationTask \<Rightarrow> 'd redis_cmd list" where
  "Enqueue marshal q task = (case marshal task of None \<Rightarrow> [] | Some data \<Rightarrow> [XAdd (rq_stream q) data])"

text \<open>The members due, each moved to the stream before it leaves the delayed set. \<open>fails c\<close>: Redis answers the command
  with an error, which ends the pass. Returns the number claimed and whether the pass failed.\<close>

fun claim_members :: "('d redis_cmd \<Rightarrow> bool) \<Rightarrow> RedisQueue \<Rightarrow> 'd list \<Rightarrow> int \<Rightarrow> (int \<times> bool) \<times> 'd redis_cmd list" where
  "claim_members fails q [] claimed = ((claimed, False), [])"
| "claim_members fails q (m # ms) claimed =
     (let add = XAdd (rq_stream q) m; rem = ZRem (rq_delayed q) m in
      if fails add then ((claimed, True), [add])
      else if fails rem then ((claimed, True), [add, rem])
      else let (r, cs) = claim_members fails q ms (claimed + 1) in (r, add # rem # cs))"

text \<open>\<open>ZRANGEBYSCORE\<close> gives the members scored up to now.\<close>

definition ClaimDelayed :: "('d redis_cmd \<Rightarrow> bool) \<Rightarrow> RedisQueue \<Rightarrow> ('d \<times> int) list \<Rightarrow> int \<Rightarrow> (int \<times> bool) \<times> 'd redis_cmd list" where
  "ClaimDelayed fails q delayed nowMilli = claim_members fails q (map fst (filter (\<lambda>(m, score). score \<le> nowMilli) delayed)) 0"

subsection \<open>The worker\<close>

definition ack :: "RedisQueue \<Rightarrow> string \<Rightarrow> 'd redis_cmd list" where
  "ack q msgID = [XAck (rq_stream q) (rq_group q) msgID]"

definition scheduleDelayed :: "(CompensationTask \<Rightarrow> 'd option) \<Rightarrow> RedisQueue \<Rightarrow> CompensationTask \<Rightarrow> 'd redis_cmd list" where
  "scheduleDelayed marshal q task = (case marshal task of None \<Rightarrow> []
     | Some data \<Rightarrow> [ZAdd (rq_delayed q) (ct_NextRetryAt task div millisecond) data])"

definition moveToDLQ :: "(CompensationTask \<Rightarrow> 'd option) \<Rightarrow> RedisQueue \<Rightarrow> CompensationTask \<Rightarrow> 'd redis_cmd list" where
  "moveToDLQ marshal q task = (case marshal task of None \<Rightarrow> [] | Some data \<Rightarrow> [XAdd (rq_dlq q) data])"

definition handleFailure :: "(CompensationTask \<Rightarrow> 'd option) \<Rightarrow> RedisQueue \<Rightarrow> instant \<Rightarrow> string \<Rightarrow> CompensationTask \<Rightarrow> string \<Rightarrow>
    CompensationTask \<times> 'd redis_cmd list" where
  "handleFailure marshal q now msgID task0 err =
     (let task = task0\<lparr>ct_AttemptCount := ct_AttemptCount task0 + 1, ct_LastError := err\<rparr> in
      if ct_AttemptCount task \<ge> rq_maxRetry q then (task, moveToDLQ marshal q task @ ack q msgID)
      else let delay = go_mul (ct_AttemptCount task * ct_AttemptCount task) second;
               task' = task\<lparr>ct_NextRetryAt := time_add now delay\<rparr>
           in (task', scheduleDelayed marshal q task' @ ack q msgID))"

definition HandleMessage :: "(CompensationTask \<Rightarrow> 'd option) \<Rightarrow> ('d \<Rightarrow> CompensationTask option) \<Rightarrow>
    (string \<rightharpoonup> ((string \<rightharpoonup> string) \<Rightarrow> string option)) \<Rightarrow> RedisQueue \<Rightarrow> instant \<Rightarrow> string \<Rightarrow> 'd option \<Rightarrow> 'd redis_cmd list" where
  "HandleMessage marshal unmarshal compensators q now msgID data =
     (case Option.bind data unmarshal of None \<Rightarrow> ack q msgID
      | Some task \<Rightarrow> (case compensators (ct_FilterName task) of None \<Rightarrow> ack q msgID
        | Some compensate \<Rightarrow> (case compensate (ct_Payload task) of None \<Rightarrow> ack q msgID
           | Some err \<Rightarrow> snd (handleFailure marshal q now msgID task err))))"


subsection \<open>The life of a task\<close>

text \<open>The passes a task goes through: what one pass puts into the delayed set comes back as the next message. \<open>handle i\<close> is the
  handling of the \<open>i\<close>-th message.\<close>

definition rescheduled :: "'d redis_cmd list \<Rightarrow> 'd option" where
  "rescheduled cs = (case find (\<lambda>c. case c of ZAdd _ _ _ \<Rightarrow> True | _ \<Rightarrow> False) cs of Some (ZAdd _ _ d) \<Rightarrow> Some d | _ \<Rightarrow> None)"

fun passes :: "(nat \<Rightarrow> 'd \<Rightarrow> 'd redis_cmd list) \<Rightarrow> nat \<Rightarrow> nat \<Rightarrow> 'd \<Rightarrow> 'd redis_cmd list list" where
  "passes handle 0 i data = []"
| "passes handle (Suc fuel) i data =
     (let cs = handle i data in cs # (case rescheduled cs of Some d \<Rightarrow> passes handle fuel (Suc i) d | None \<Rightarrow> []))"

text \<open>Every message is acknowledged once, after anything else it causes.\<close>

lemma acked_once:
  "\<exists>cs. HandleMessage marshal unmarshal compensators q now msgID data = cs @ ack q msgID \<and> length cs \<le> 1 \<and> XAck (rq_stream q) (rq_group q) msgID \<notin> set cs"
  by (auto simp: HandleMessage_def handleFailure_def moveToDLQ_def scheduleDelayed_def Let_def split: option.split)

lemma failed_pass:
  assumes "unmarshal d = Some t" "\<And>t. marshal t \<noteq> None" "compensators (ct_FilterName t) = Some f" "f (ct_Payload t) = Some err"
  shows "if ct_AttemptCount t + 1 \<ge> rq_maxRetry q
    then \<exists>d'. HandleMessage marshal unmarshal compensators q now msgID (Some d) = [XAdd (rq_dlq q) d', XAck (rq_stream q) (rq_group q) msgID]
    else \<exists>t' d'. HandleMessage marshal unmarshal compensators q now msgID (Some d)
           = [ZAdd (rq_delayed q) (ct_NextRetryAt t' div millisecond) d', XAck (rq_stream q) (rq_group q) msgID]
         \<and> marshal t' = Some d' \<and> ct_AttemptCount t' = ct_AttemptCount t + 1 \<and> ct_FilterName t' = ct_FilterName t \<and> ct_Payload t' = ct_Payload t
         \<and> ct_NextRetryAt t' = now + go_mul ((ct_AttemptCount t + 1) * (ct_AttemptCount t + 1)) second"
proof -
  define t1 where "t1 = t\<lparr>ct_AttemptCount := ct_AttemptCount t + 1, ct_LastError := err\<rparr>"
  define t2 where "t2 = t1\<lparr>ct_NextRetryAt := time_add now (go_mul (ct_AttemptCount t1 * ct_AttemptCount t1) second)\<rparr>"
  have h: "HandleMessage marshal unmarshal compensators q now msgID (Some d) = snd (handleFailure marshal q now msgID t err)"
    using assms(1,3,4) by (simp add: HandleMessage_def)
  obtain d1 d2 where "marshal t1 = Some d1" "marshal t2 = Some d2" using assms(2) by blast
  then show ?thesis unfolding h handleFailure_def t1_def[symmetric] Let_def t2_def[symmetric]
    by (auto simp: moveToDLQ_def scheduleDelayed_def ack_def t1_def time_add_def intro!: exI[of _ t2]) (simp_all add: t2_def t1_def time_add_def)
qed

text \<open>(C36) A task is never retried without end: when its compensator keeps failing, a task that has been tried \<open>a\<close> times is
  tried exactly \<open>MaxRetries - a\<close> more times, each pass but the last puts it into the delayed set, and the last one into the dead-letter
  stream; more passes than that never happen.\<close>

theorem failing_task_ends_in_dlq:
  assumes "\<And>t. \<exists>d. marshal t = Some d \<and> unmarshal d = Some t" "compensators name = Some f" "\<And>p. f p \<noteq> None"
    and "handle = (\<lambda>i d. HandleMessage marshal unmarshal compensators q (now i) (msgID i) (Some d))"
    and "marshal t = Some d" "ct_FilterName t = name" "ct_AttemptCount t < rq_maxRetry q" "nat (rq_maxRetry q - ct_AttemptCount t) \<le> fuel"
  shows "length (passes handle fuel i d) = nat (rq_maxRetry q - ct_AttemptCount t)
    \<and> (\<exists>d'. last (passes handle fuel i d) = [XAdd (rq_dlq q) d', XAck (rq_stream q) (rq_group q) (msgID (i + nat (rq_maxRetry q - ct_AttemptCount t) - 1))])
    \<and> list_all (\<lambda>cs. rescheduled cs \<noteq> None) (butlast (passes handle fuel i d))"
  using assms(5-8)
proof (induction fuel arbitrary: i t d)
  case (Suc fuel)
  have um: "unmarshal d = Some t" using assms(1)[of t] Suc.prems(1) by auto
  have ma: "marshal t \<noteq> None" for t using assms(1)[of t] by auto
  obtain err where e: "f (ct_Payload t) = Some err" using assms(3) by blast
  note fp = failed_pass[where unmarshal = unmarshal and d = d and t = t and f = f and err = err and marshal = marshal and compensators = compensators and q = q and now = "now i" and msgID = "msgID i", OF um]
  show ?case
  proof (cases "ct_AttemptCount t + 1 \<ge> rq_maxRetry q")
    case True
    then obtain d' where h: "handle i d = [XAdd (rq_dlq q) d', XAck (rq_stream q) (rq_group q) (msgID i)]"
      using fp[OF ma _ e] assms(2,4) Suc.prems(2) by auto
    have "rescheduled (handle i d) = None" by (simp add: h rescheduled_def)
    moreover have "nat (rq_maxRetry q - ct_AttemptCount t) = 1" using True Suc.prems(3) by linarith
    ultimately show ?thesis using h by simp
  next
    case False
    then obtain t' d' where h: "handle i d = [ZAdd (rq_delayed q) (ct_NextRetryAt t' div millisecond) d', XAck (rq_stream q) (rq_group q) (msgID i)]"
      and t': "marshal t' = Some d'" "ct_AttemptCount t' = ct_AttemptCount t + 1" "ct_FilterName t' = name"
      using fp[OF ma _ e] assms(2,4) Suc.prems(2) by auto
    have r: "rescheduled (handle i d) = Some d'" by (simp add: h rescheduled_def)
    have n: "nat (rq_maxRetry q - ct_AttemptCount t) = Suc (nat (rq_maxRetry q - ct_AttemptCount t'))" using t'(2) False by linarith
    have ih: "length (passes handle fuel (Suc i) d') = nat (rq_maxRetry q - ct_AttemptCount t')"
      "\<exists>x. last (passes handle fuel (Suc i) d') = [XAdd (rq_dlq q) x, XAck (rq_stream q) (rq_group q) (msgID (Suc i + nat (rq_maxRetry q - ct_AttemptCount t') - 1))]"
      "list_all (\<lambda>cs. rescheduled cs \<noteq> None) (butlast (passes handle fuel (Suc i) d'))"
      using Suc.IH[OF t'(1,3), of "Suc i"] t'(2) False Suc.prems(4) n by auto
    have ne: "passes handle fuel (Suc i) d' \<noteq> []" using ih(1) t'(2) False by auto
    have "passes handle (Suc fuel) i d = handle i d # passes handle fuel (Suc i) d'" by (simp add: Let_def r)
    with ih ne n r show ?thesis by auto
  qed
qed simp

text \<open>A task of a filter without a compensator is acknowledged and forgotten.\<close>

lemma unknown_filter_dropped:
  "unmarshal d = Some t \<Longrightarrow> compensators (ct_FilterName t) = None \<Longrightarrow> HandleMessage marshal unmarshal compensators q now msgID (Some d) = ack q msgID"
  by (simp add: HandleMessage_def)

subsection \<open>Evaluation\<close>

definition demo_queue :: RedisQueue where
  "demo_queue = NewRedisQueue \<lparr>rq_stream = '''', rq_delayed = '''', rq_dlq = '''', rq_consumer = '''', rq_group = '''', rq_maxRetry = 3\<rparr>"

definition demo_task :: "string \<Rightarrow> CompensationTask" where
  "demo_task name = \<lparr>ct_ID = ''t1'', ct_FilterName = name, ct_Payload = Map.empty, ct_EnqueueAt = 0, ct_NextRetryAt = 0, ct_AttemptCount = 0, ct_LastError = ''''\<rparr>"

theorem failing_task_ends_in_dlq_witness:
  "length (passes (\<lambda>i d. HandleMessage Some Some [''access_log'' \<mapsto> (\<lambda>_. Some ''down'')] demo_queue (int i) ''1-0'' (Some d)) 10 0 (demo_task ''access_log'')) = 3"
  using failing_task_ends_in_dlq[of Some Some "[''access_log'' \<mapsto> (\<lambda>_. Some ''down'')]" "''access_log''" "\<lambda>_. Some ''down''"
      "\<lambda>i d. HandleMessage Some Some [''access_log'' \<mapsto> (\<lambda>_. Some ''down'')] demo_queue (int i) ''1-0'' (Some d)" demo_queue int "\<lambda>_. ''1-0''"
      "demo_task ''access_log''" "demo_task ''access_log''" 10 0]
  by (simp add: demo_task_def demo_queue_def NewRedisQueue_def del: passes.simps)

end
