(* ===== verification/Error_Policy.thy ===== *)
theory Error_Policy
  imports Gateway_Types
begin

text \<open>
  The error classification that retries and circuit breaking share: \<open>src/pkg/policy/error_policy.go\<close>
  and the matching half of \<open>src/pkg/policy/error_parser.go\<close>. The regular expression engine, the JSON
  decoder with the JSONPath reader and the media type parser are the fields of an \<open>Externals\<close>
  argument. The process-wide \<open>regexCache\<close> is explicit state in \<open>FindMatchedErrorMessage\<close>; the
  theory shows when the cached routine agrees with the uncached reference \<open>find_rule\<close>, which the
  other components use, and what a colliding cache key does.
\<close>

subsection \<open>Library code the matcher calls\<close>

text \<open>The outcome of decoding a body and reading a JSONPath from it: an error, a nil value, a string,
  or another value in its \<open>%v\<close> rendering.\<close>

datatype json_read = JsonError string | JsonNil | JsonString string | JsonOther string

record Externals =
  x_compile :: "string \<Rightarrow> string option"
  x_match :: "string \<Rightarrow> string \<Rightarrow> bool"
  x_submatch :: "string \<Rightarrow> string \<Rightarrow> string list"
  x_jsonpath :: "string \<Rightarrow> string \<Rightarrow> json_read"
  x_mediatype :: "string \<Rightarrow> string option"

text \<open>\<open>x_compile e\<close> is the error of \<open>regexp.Compile\<close>, \<open>None\<close> on success. \<open>strings.Contains\<close>
  and \<open>strconv.Itoa\<close> are computed.\<close>

definition str_contains :: "string \<Rightarrow> string \<Rightarrow> bool" where
  "str_contains s sub = sublist sub s"

fun nat_digits :: "nat \<Rightarrow> string" where
  "nat_digits n = (if n < 10 then [char_of (48 + n)] else nat_digits (n div 10) @ [char_of (48 + n mod 10)])"

declare nat_digits.simps [simp del]

definition itoa :: "int \<Rightarrow> string" where
  "itoa i = (if i < 0 then CHR ''-'' # nat_digits (nat (- i)) else nat_digits (nat i))"

subsection \<open>The error policy interface\<close>

text \<open>The four getters of the \<open>ErrorPolicy\<close> interface as one record, and its two implementations.\<close>

record ErrorPolicy =
  GetErrorCodes :: "string list"
  GetErrorMessages :: "string list"
  GetCodePolicy :: "ErrorParserPolicy option"
  GetMessagePolicy :: "ErrorParserPolicy option"

definition retry_error_policy :: "RetryPolicy \<Rightarrow> ErrorPolicy" where
  "retry_error_policy r = \<lparr>GetErrorCodes = ry_ErrorCodes r, GetErrorMessages = ry_ErrorMessages r,
     GetCodePolicy = ry_CodePolicy r, GetMessagePolicy = ry_MessagePolicy r\<rparr>"

definition breaker_error_policy :: "CircuitBreakPolicy \<Rightarrow> ErrorPolicy" where
  "breaker_error_policy c = \<lparr>GetErrorCodes = cb_ErrorCodes c, GetErrorMessages = cb_ErrorMessages c,
     GetCodePolicy = cb_CodePolicy c, GetMessagePolicy = cb_MessagePolicy c\<rparr>"

definition ContainsErrorCode :: "ErrorPolicy \<Rightarrow> string \<Rightarrow> bool" where
  "ContainsErrorCode p errorCode = list_ex (\<lambda>ec. ec = errorCode) (GetErrorCodes p)"

subsection \<open>Parser policies\<close>

definition set_contains :: "string list option \<Rightarrow> string \<Rightarrow> bool" where
  "set_contains s v = (case s of None \<Rightarrow> False | Some d \<Rightarrow> list_ex (\<lambda>x. x = str_lower v) d)"

definition set_is_empty :: "string list option \<Rightarrow> bool" where
  "set_is_empty s = (case s of None \<Rightarrow> True | Some d \<Rightarrow> d = [])"

definition parser_Match :: "Externals \<Rightarrow> ErrorParserPolicy \<Rightarrow> string \<Rightarrow> string \<Rightarrow> string \<Rightarrow> bool" where
  "parser_Match x p status contentType okStatus =
     (let statusMatch =
            (if status \<noteq> '''' \<and> status = okStatus then True
             else if pp_Statuses p = [] then True
             else if status \<noteq> '''' then list_ex (\<lambda>s. s = status) (pp_Statuses p)
             else False);
          contentTypeMatch =
            (if set_is_empty (pp_ContentTypes p) then True
             else if contentType \<noteq> ''''
             then (case x_mediatype x contentType of
                     Some mediaType \<Rightarrow> if mediaType \<noteq> '''' then set_contains (pp_ContentTypes p) mediaType
                                       else set_contains (pp_ContentTypes p) contentType
                   | None \<Rightarrow> set_contains (pp_ContentTypes p) contentType)
             else False)
      in statusMatch \<and> contentTypeMatch)"

definition ParseValue :: "Externals \<Rightarrow> ErrorParserPolicy \<Rightarrow> string \<Rightarrow> string + string" where
  "ParseValue x p body =
     (if pp_Parser p = '''' \<or> pp_Expression p = '''' \<or> body = '''' then Inr ''''
      else let k = str_lower (pp_Parser p) in
        if k = ''jsonpath'' \<or> k = ''json_path''
        then (case x_jsonpath x body (pp_Expression p) of
                JsonError e \<Rightarrow> Inl e | JsonNil \<Rightarrow> Inr '''' | JsonString v \<Rightarrow> Inr v | JsonOther v \<Rightarrow> Inr v)
        else if k = ''regexp'' \<or> k = ''regex''
        then (case x_compile x (pp_Expression p) of
                Some e \<Rightarrow> Inl e
              | None \<Rightarrow> (let matches = x_submatch x (pp_Expression p) body in
                  if length matches > 1 then Inr (matches ! 1)
                  else if length matches > 0 then Inr (matches ! 0) else Inr ''''))
        else Inl (''unsupported parser: '' @ pp_Parser p))"

subsection \<open>Message rules and the regex cache\<close>

text \<open>A cache entry is the compiled list: \<open>Some em\<close> for a compiled rule, \<open>None\<close> for one that did
  not compile. The loop over it indexes the messages of the policy at hand; \<open>None\<close> as a result is
  the panic of an index out of range.\<close>

type_synonym regexCache = "string \<rightharpoonup> string option list"

definition compile_all :: "Externals \<Rightarrow> string list \<Rightarrow> string option list" where
  "compile_all x = map (\<lambda>em. case x_compile x em of None \<Rightarrow> Some em | Some _ \<Rightarrow> None)"

fun regex_loop :: "Externals \<Rightarrow> string list \<Rightarrow> string \<Rightarrow> nat \<Rightarrow> string option list \<Rightarrow> (bool \<times> string) option" where
  "regex_loop x messages errMsg i [] = Some (False, '''')"
| "regex_loop x messages errMsg i (Some re # res) =
     (if x_match x re errMsg
      then (if i < length messages then Some (True, messages ! i) else None)
      else regex_loop x messages errMsg (Suc i) res)"
| "regex_loop x messages errMsg i (None # res) =
     (if i < length messages
      then (if str_contains errMsg (messages ! i) then Some (True, messages ! i)
            else regex_loop x messages errMsg (Suc i) res)
      else None)"

definition FindMatchedErrorMessage ::
    "Externals \<Rightarrow> ErrorPolicy \<Rightarrow> string \<Rightarrow> regexCache \<Rightarrow> (bool \<times> string) option \<times> regexCache" where
  "FindMatchedErrorMessage x p errMsg cache =
     (let messages = GetErrorMessages p in
      if errMsg = '''' \<or> messages = [] then (Some (False, ''''), cache)
      else case find (str_contains errMsg) messages of
        Some em \<Rightarrow> (Some (True, em), cache)
      | None \<Rightarrow>
          (let cacheKey = str_join [CHR 0x0A] messages;
               compiled = (case cache cacheKey of Some c \<Rightarrow> c | None \<Rightarrow> compile_all x messages);
               cache' = (case cache cacheKey of Some _ \<Rightarrow> cache | None \<Rightarrow> cache(cacheKey \<mapsto> compiled))
           in (regex_loop x messages errMsg 0 compiled, cache')))"

text \<open>The reference: the first rule that is a substring, else the first that compiles and matches.\<close>

definition find_rule :: "Externals \<Rightarrow> ErrorPolicy \<Rightarrow> string \<Rightarrow> string option" where
  "find_rule x p errMsg =
     (if errMsg = '''' then None
      else case find (str_contains errMsg) (GetErrorMessages p) of
        Some em \<Rightarrow> Some em
      | None \<Rightarrow> find (\<lambda>em. x_compile x em = None \<and> x_match x em errMsg) (GetErrorMessages p))"

subsection \<open>The decision\<close>

definition no_parser :: "ErrorParserPolicy option \<Rightarrow> bool" where
  "no_parser pp = (case pp of None \<Rightarrow> True | Some q \<Rightarrow> pp_Parser q = '''')"

definition parses :: "ErrorParserPolicy option \<Rightarrow> bool" where
  "parses pp = (case pp of None \<Rightarrow> False | Some q \<Rightarrow> pp_Parser q \<noteq> '''' \<and> pp_Expression q \<noteq> '''')"

definition IsBodyRequired :: "ErrorPolicy \<Rightarrow> bool" where
  "IsBodyRequired p \<longleftrightarrow> parses (GetCodePolicy p) \<or> parses (GetMessagePolicy p)"

definition policy_Match :: "Externals \<Rightarrow> ErrorPolicy \<Rightarrow> int \<Rightarrow> string \<Rightarrow> bool" where
  "policy_Match x p status contentType =
     (let hit = (\<lambda>pp. case pp of None \<Rightarrow> False
          | Some q \<Rightarrow> pp_Parser q \<noteq> '''' \<and> parser_Match x q (itoa status) contentType ''200'')
      in hit (GetCodePolicy p) \<or> hit (GetMessagePolicy p))"

text \<open>The value a parser policy extracts when it applies: non-empty, and no error.\<close>

definition parsed_value :: "Externals \<Rightarrow> ErrorParserPolicy option \<Rightarrow> string \<Rightarrow> string \<Rightarrow> string \<Rightarrow> string option" where
  "parsed_value x pp statusStr contentType body =
     (case pp of None \<Rightarrow> None
      | Some q \<Rightarrow> if pp_Parser q \<noteq> '''' \<and> pp_Expression q \<noteq> '''' \<and> parser_Match x q statusStr contentType ''200''
                  then (case ParseValue x q body of Inl _ \<Rightarrow> None | Inr v \<Rightarrow> if v = '''' then None else Some v)
                  else None)"

definition MatchErrorWithReason ::
    "Externals \<Rightarrow> ErrorPolicy \<Rightarrow> int \<Rightarrow> string \<Rightarrow> string \<Rightarrow> string \<Rightarrow> bool \<times> string" where
  "MatchErrorWithReason x p statusCode contentType errMsg body =
     (if GetErrorCodes p = [] \<and> GetErrorMessages p = [] \<and> no_parser (GetCodePolicy p) \<and> no_parser (GetMessagePolicy p)
      then (True, ''no rules configured, matching all errors by default'')
      else
        let statusStr = itoa statusCode;
            byCode =
              (if parses (GetCodePolicy p)
               then (case parsed_value x (GetCodePolicy p) statusStr contentType body of
                       None \<Rightarrow> None
                     | Some parsedCode \<Rightarrow> if ContainsErrorCode p parsedCode
                         then Some (''matched parsed error code '' @ [CHR 0x27] @ parsedCode @ [CHR 0x27] @ '' via code policy'')
                         else None)
               else if GetErrorCodes p \<noteq> [] \<and> ContainsErrorCode p statusStr
               then Some (''matched status code '' @ [CHR 0x27] @ statusStr @ [CHR 0x27] @ '' in error codes list'')
               else None);
            byParsedMessage =
              (case parsed_value x (GetMessagePolicy p) statusStr contentType body of
                 None \<Rightarrow> None
               | Some parsedMsg \<Rightarrow> (case find_rule x p parsedMsg of None \<Rightarrow> None
                   | Some pat \<Rightarrow> Some (''matched parsed error message '' @ [CHR 0x27] @ parsedMsg @ [CHR 0x27] @
                       '' via message policy (pattern: '' @ [CHR 0x27] @ pat @ [CHR 0x27] @ '')'')));
            byMessage =
              (case find_rule x p errMsg of None \<Rightarrow> None
               | Some pat \<Rightarrow> Some (''matched error message pattern '' @ [CHR 0x27] @ pat @ [CHR 0x27] @
                   '' (error: '' @ [CHR 0x27] @ errMsg @ [CHR 0x27] @ '')''))
        in case byCode of Some r \<Rightarrow> (True, r)
         | None \<Rightarrow> (case byParsedMessage of Some r \<Rightarrow> (True, r)
             | None \<Rightarrow> (case byMessage of Some r \<Rightarrow> (True, r)
                 | None \<Rightarrow> (False, ''no dynamic rule matched''))))"

definition MatchError :: "Externals \<Rightarrow> ErrorPolicy \<Rightarrow> int \<Rightarrow> string \<Rightarrow> string \<Rightarrow> string \<Rightarrow> bool" where
  "MatchError x p statusCode contentType errMsg body = fst (MatchErrorWithReason x p statusCode contentType errMsg body)"

subsection \<open>Printing integers\<close>

lemma char_digit_inj: "d < 10 \<Longrightarrow> d' < 10 \<Longrightarrow> (char_of (48 + d) :: char) = char_of (48 + d') \<longleftrightarrow> d = (d' :: nat)"
  using char_of_eq_iff[of "48 + d" "char_of (48 + d')"] by (auto simp: char_of_mod_256 of_char_of)

lemma nat_digits_nonempty [simp]: "nat_digits n \<noteq> []"
  by (subst nat_digits.simps) simp

lemma nat_digits_inj: "nat_digits m = nat_digits n \<Longrightarrow> m = n"
proof (induction m arbitrary: n rule: less_induct)
  case (less m)
  have d: "m mod 10 < 10" "n mod 10 < 10" by simp_all
  consider "m < 10" "n < 10" | "m \<ge> 10" "n < 10" | "m < 10" "n \<ge> 10" | "m \<ge> 10" "n \<ge> 10" by linarith
  then show ?case
  proof cases
    case 4
    then have "nat_digits (m div 10) = nat_digits (n div 10)" "m mod 10 = n mod 10"
      using less.prems d char_digit_inj[OF d] by (simp_all add: nat_digits.simps[of m] nat_digits.simps[of n])
    moreover have "m div 10 < m" using 4 by simp
    ultimately have "m div 10 = n div 10" using less.IH by blast
    with \<open>m mod 10 = n mod 10\<close> show ?thesis by (metis div_mult_mod_eq)
  qed (use less.prems char_digit_inj[of m n] in \<open>auto simp: nat_digits.simps[of m] nat_digits.simps[of n] append_eq_Cons_conv Cons_eq_append_conv\<close>)
qed

lemma hd_nat_digits: "\<exists>d<10. hd (nat_digits n) = char_of (48 + d :: nat)"
proof (induction n rule: less_induct)
  case (less n)
  show ?case
  proof (cases "n < 10")
    case False
    then have "n div 10 < n" by simp
    from less.IH[OF this] False show ?thesis by (subst nat_digits.simps) simp
  qed (auto simp: nat_digits.simps[of n])
qed

lemma minus_not_digit: "d < 10 \<Longrightarrow> CHR ''-'' \<noteq> char_of (48 + d :: nat)"
  using char_of_eq_iff[of "48 + d" "CHR ''-''"] by (auto simp: take_bit_eq_mod)

lemma itoa_inj [simp]: "itoa a = itoa b \<longleftrightarrow> a = b"
proof
  have no: "CHR ''-'' # s \<noteq> nat_digits n" for s n
    using hd_nat_digits[of n] minus_not_digit by (metis list.sel(1))
  assume "itoa a = itoa b"
  then show "a = b"
    using no no[symmetric] nat_digits_inj by (fastforce simp: itoa_def split: if_splits)
qed simp

subsection \<open>The cache\<close>

definition newline_free :: "string list \<Rightarrow> bool" where
  "newline_free ms = list_all (\<lambda>m. CHR 0x0A \<notin> set m) ms"

definition cache_coherent :: "Externals \<Rightarrow> regexCache \<Rightarrow> bool" where
  "cache_coherent x cache \<longleftrightarrow> (\<forall>k c. cache k = Some c \<longrightarrow>
     (\<exists>ms. ms \<noteq> [] \<and> newline_free ms \<and> k = str_join [CHR 0x0A] ms \<and> c = compile_all x ms))"

lemma newline_split:
  assumes "a @ CHR 0x0A # r = b @ CHR 0x0A # q" "CHR 0x0A \<notin> set a" "CHR 0x0A \<notin> set b"
  shows "a = b \<and> r = q"
  using assms by (induction a arbitrary: b) (case_tac b; auto)+

lemma str_join_Cons: "ms \<noteq> [] \<Longrightarrow> str_join sep (m # ms) = m @ sep @ str_join sep ms"
  by (cases ms) simp_all

lemma str_join_inj:
  assumes "newline_free ms" "newline_free ns" "ms \<noteq> []" "ns \<noteq> []"
    and "str_join [CHR 0x0A] ms = str_join [CHR 0x0A] ns"
  shows "ms = ns"
  using assms
proof (induction ms arbitrary: ns)
  case (Cons m ms)
  obtain n ns' where ns: "ns = n # ns'" using Cons.prems by (cases ns) auto
  have mn: "CHR 0x0A \<notin> set m" "CHR 0x0A \<notin> set n" using Cons.prems by (simp_all add: newline_free_def ns)
  consider "ms = []" "ns' = []" | "ms = []" "ns' \<noteq> []" | "ms \<noteq> []" "ns' = []" | "ms \<noteq> []" "ns' \<noteq> []" by blast
  then show ?case
  proof cases
    case 2
    then have "CHR 0x0A \<in> set m" using Cons.prems(5) by (simp add: ns str_join_Cons)
    with mn show ?thesis by simp
  next
    case 3
    then have "CHR 0x0A \<in> set n" using Cons.prems(5) by (simp add: ns str_join_Cons, metis in_set_conv_decomp)
    with mn show ?thesis by simp
  next
    case 4
    then have "m = n \<and> str_join [CHR 0x0A] ms = str_join [CHR 0x0A] ns'"
      using newline_split[of m _ n] mn Cons.prems(5) by (simp add: ns str_join_Cons)
    with Cons.IH[of ns'] 4 Cons.prems show ?thesis by (simp add: ns newline_free_def)
  qed (use Cons.prems ns in simp)
qed simp

lemma regex_loop_compiled:
  assumes "\<forall>m\<in>set ms. \<not> str_contains errMsg m"
  shows "regex_loop x (pre @ ms) errMsg (length pre) (compile_all x ms)
     = Some (case find (\<lambda>em. x_compile x em = None \<and> x_match x em errMsg) ms of
         None \<Rightarrow> (False, '''') | Some em \<Rightarrow> (True, em))"
  using assms
proof (induction ms arbitrary: pre)
  case (Cons m ms)
  from Cons.IH[of "pre @ [m]"] Cons.prems show ?case
    by (cases "x_compile x m") (simp_all add: compile_all_def nth_append)
qed (simp add: compile_all_def)

text \<open>The regex cache is transparent: for a policy whose rules have no line break, over any
  cache filled by such policies, the cached search finds the rule the reference finds (it never
  panics), and it leaves the cache in the same condition.\<close>

theorem regex_cache_transparent:
  assumes "cache_coherent x cache" "newline_free (GetErrorMessages p)"
  shows "fst (FindMatchedErrorMessage x p errMsg cache)
       = Some (case find_rule x p errMsg of None \<Rightarrow> (False, '''') | Some em \<Rightarrow> (True, em))
     \<and> cache_coherent x (snd (FindMatchedErrorMessage x p errMsg cache))"
proof (cases "errMsg = '''' \<or> GetErrorMessages p = [] \<or> find (str_contains errMsg) (GetErrorMessages p) \<noteq> None")
  case True
  with assms(1) show ?thesis
    by (auto simp: FindMatchedErrorMessage_def find_rule_def Let_def split: option.splits)
next
  case False
  let ?ms = "GetErrorMessages p" and ?k = "str_join [CHR 0x0A] (GetErrorMessages p)"
  have miss: "\<forall>m\<in>set ?ms. \<not> str_contains errMsg m" using False by (auto simp: find_None_iff)
  have hit: "c = compile_all x ?ms" if "cache ?k = Some c" for c
  proof -
    from assms(1) that obtain ns where "ns \<noteq> []" "newline_free ns" "?k = str_join [CHR 0x0A] ns" "c = compile_all x ns"
      unfolding cache_coherent_def by blast
    with str_join_inj[OF assms(2)] False show ?thesis by metis
  qed
  have "cache_coherent x (cache(?k \<mapsto> compile_all x ?ms))"
    using assms False by (auto simp: cache_coherent_def)
  with False assms(1) hit regex_loop_compiled[OF miss, of x "[]"] show ?thesis
    by (auto simp: FindMatchedErrorMessage_def find_rule_def Let_def split: option.split)
qed

text \<open>An instance of the libraries for evaluation: every expression compiles and matches the texts
  that contain it; bodies are plain strings.\<close>

definition literal_externals :: Externals where
  "literal_externals = \<lparr>x_compile = (\<lambda>_. None), x_match = (\<lambda>re s. str_contains s re),
     x_submatch = (\<lambda>re s. if str_contains s re then [re] else []),
     x_jsonpath = (\<lambda>body _. JsonString body), x_mediatype = Some\<rparr>"

definition message_policy :: "string list \<Rightarrow> ErrorPolicy" where
  "message_policy ms = \<lparr>GetErrorCodes = [], GetErrorMessages = ms, GetCodePolicy = None, GetMessagePolicy = None\<rparr>"

lemma empty_cache_coherent: "cache_coherent x Map.empty"
  by (simp add: cache_coherent_def)

theorem regex_cache_transparent_witness:
  "cache_coherent literal_externals Map.empty \<and> newline_free [''timeout'', ''overload'']
   \<and> fst (FindMatchedErrorMessage literal_externals (message_policy [''timeout'', ''overload'']) ''upstream overload'' Map.empty)
     = Some (True, ''overload'')"
proof -
  have nf: "newline_free (GetErrorMessages (message_policy [''timeout'', ''overload'']))" by code_simp
  have "find_rule literal_externals (message_policy [''timeout'', ''overload'']) ''upstream overload'' = Some ''overload''"
    by code_simp
  with regex_cache_transparent[OF empty_cache_coherent nf, of literal_externals "''upstream overload''"] nf show ?thesis
    by (simp add: empty_cache_coherent message_policy_def)
qed

text \<open>The cache key does not separate every pair of rule lists: once the rules \<open>a\<close> and \<open>b\<close>
  have been cached, a policy whose single rule is \<open>a\<close>, line break, \<open>b\<close> finds their compiled list under
  its own key, and a message that only the second expression matches makes the loop index the
  one-element rule list at 1, which panics.\<close>

theorem regex_cache_collision_panics:
  "let ab = message_policy [''a'', ''b''];
       a_b = message_policy [[CHR ''a'', CHR 0x0A, CHR ''b'']];
       cache = snd (FindMatchedErrorMessage literal_externals ab ''c'' Map.empty)
   in fst (FindMatchedErrorMessage literal_externals a_b ''xb'' cache) = None
      \<and> find_rule literal_externals a_b ''xb'' = None"
  by code_simp

subsection \<open>The decision\<close>

definition no_rules :: "ErrorPolicy \<Rightarrow> bool" where
  "no_rules p \<longleftrightarrow> GetErrorCodes p = [] \<and> GetErrorMessages p = [] \<and> no_parser (GetCodePolicy p) \<and> no_parser (GetMessagePolicy p)"

lemma parsed_value_None: "\<not> parses pp \<Longrightarrow> parsed_value x pp s c b = None"
  by (auto simp: parses_def parsed_value_def split: option.splits)

lemma MatchError_iff:
  "MatchError x p st ct em body \<longleftrightarrow> no_rules p
     \<or> (if parses (GetCodePolicy p)
        then \<exists>v. parsed_value x (GetCodePolicy p) (itoa st) ct body = Some v \<and> ContainsErrorCode p v
        else ContainsErrorCode p (itoa st))
     \<or> (\<exists>v. parsed_value x (GetMessagePolicy p) (itoa st) ct body = Some v \<and> find_rule x p v \<noteq> None)
     \<or> find_rule x p em \<noteq> None"
proof -
  have "GetErrorCodes p = [] \<Longrightarrow> \<not> ContainsErrorCode p c" for c by (simp add: ContainsErrorCode_def)
  then show ?thesis
    by (simp add: MatchError_def MatchErrorWithReason_def no_rules_def Let_def split: option.split) blast
qed

text \<open>A policy that lists status codes and has no parser matches exactly the responses whose
  status it lists: the decimal printing the comparison goes through loses nothing. With message
  rules in addition it matches those and the errors some rule finds.\<close>

theorem MatchError_status_codes:
  assumes "GetErrorCodes p = map itoa (c # cs)" "\<not> parses (GetCodePolicy p)" "\<not> parses (GetMessagePolicy p)"
  shows "MatchError x p st ct em body \<longleftrightarrow> st \<in> set (c # cs) \<or> find_rule x p em \<noteq> None"
  using assms by (auto simp: MatchError_iff no_rules_def parsed_value_None ContainsErrorCode_def list_ex_iff)

theorem MatchError_status_codes_witness:
  "let p = (message_policy [''timeout''])\<lparr>GetErrorCodes := [''500'', ''503'']\<rparr> in
   MatchError literal_externals p 503 '''' ''bad gateway'' '''' \<and> \<not> MatchError literal_externals p 50 '''' ''bad'' ''''"
proof -
  let ?p = "(message_policy [''timeout''])\<lparr>GetErrorCodes := [''500'', ''503'']\<rparr>"
  have "map itoa (500 # [503]) = [''500'', ''503'']" by code_simp
  then have p: "GetErrorCodes ?p = map itoa (500 # [503])" "\<not> parses (GetCodePolicy ?p)" "\<not> parses (GetMessagePolicy ?p)"
    by (simp_all add: message_policy_def parses_def)
  have "find_rule literal_externals ?p ''bad'' = None" by code_simp
  then show ?thesis
    using MatchError_status_codes[OF p, of literal_externals 503 "''''" "''bad gateway''" "''''"]
      MatchError_status_codes[OF p, of literal_externals 50 "''''" "''bad''" "''''"] by simp
qed

end
