(* ===== verification/Engine.thy ===== *)
theory Engine
  imports Inbound_Filters Compensation Error_Policy
begin

text \<open>
  The entry point of a request: \<open>HandleRequest\<close> of \<open>src/pkg/core/engine.go\<close> with the parsing of \<open>engine_request.go\<close>, the
  error responses of \<open>engine_response.go\<close> and \<open>error_format.go\<close>, and the assembly of pipelines in \<open>engine_builder.go\<close>.
  Filters, invokers, the alias service, the smart router and the policy provider are what the engine is assembled from, so they are fields of
  \<open>EngineEnv\<close> and \<open>EPipeline\<close>. What is written to the client is the list \<open>q_out\<close>; what the components share
  (store, breakers, balancers) is the parameter \<open>'w\<close>. JSON decoding, \<open>fmt.Sscanf\<close> and \<open>%q\<close> are arguments.
\<close>

subsection \<open>Errors and their status\<close>

text \<open>An error value as the engine looks at it: a \<open>Code()\<close> method, a \<open>Code\<close> field, its text, and whether it wraps
  \<open>ErrClientDisconnected\<close>.\<close>

record GoError =
  ge_CodeMethod :: "int option"
  ge_CodeField :: "int option"
  ge_Message :: string
  ge_ClientGone :: bool

definition plain_error :: "string \<Rightarrow> GoError" where
  "plain_error m = \<lparr>ge_CodeMethod = None, ge_CodeField = None, ge_Message = m, ge_ClientGone = False\<rparr>"

definition error_status :: "int option \<Rightarrow> int option" where
  "error_status c = (case c of Some n \<Rightarrow> if 400 \<le> n \<and> n < 600 then Some n else None | None \<Rightarrow> None)"

definition getErrorCode :: "(string \<Rightarrow> int option) \<Rightarrow> GoError \<Rightarrow> int" where
  "getErrorCode sscanf e =
     (case error_status (ge_CodeMethod e) of Some c \<Rightarrow> c
      | None \<Rightarrow> (case error_status (ge_CodeField e) of Some c \<Rightarrow> c
        | None \<Rightarrow>
            if str_contains (ge_Message e) ''upstream error: status ''
            then (case error_status (sscanf (ge_Message e)) of Some c \<Rightarrow> c | None \<Rightarrow> 500)
            else if str_contains (ge_Message e) ''no available endpoint'' then 503
            else if str_contains (ge_Message e) ''all fallback'' then 503
            else 500))"

subsection \<open>Responses\<close>

datatype json = JStr string | JInt int | JObj "(string \<times> json) list"

datatype out_event = SetHeader string string | WriteHeader int | WriteJSON json | WriteText string | Flush

definition anthropicErrorType :: "int \<Rightarrow> string" where
  "anthropicErrorType code =
     (if code = 400 then ''invalid_request_error'' else if code = 401 then ''authentication_error''
      else if code = 403 then ''permission_error'' else if code = 404 then ''not_found_error''
      else if code = 413 then ''request_too_large'' else if code = 429 then ''rate_limit_error''
      else if code = 529 then ''overloaded_error''
      else if code \<ge> 500 then ''api_error'' else ''invalid_request_error'')"

definition format_error :: "RequestType \<Rightarrow> int \<Rightarrow> GoError \<Rightarrow> json" where
  "format_error rt code e =
     (if rt = RequestTypeMessages
      then JObj [(''type'', JStr ''error''), (''error'', JObj [(''type'', JStr (anthropicErrorType code)), (''message'', JStr (ge_Message e))])]
      else JObj [(''error'', JObj [(''message'', JStr (ge_Message e)), (''type'', JStr ''gateway_error''), (''code'', JInt code)])])"

definition newline :: string where "newline = [CHR 0x0A]"
definition dq :: string where "dq = [CHR 0x22]"

definition FormatSSE :: "(string \<Rightarrow> string) \<Rightarrow> RequestType \<Rightarrow> GoError \<Rightarrow> string" where
  "FormatSSE quote rt e =
     (if rt = RequestTypeMessages
      then ''event: error'' @ newline @ ''data: {'' @ dq @ ''type'' @ dq @ '': '' @ dq @ ''error'' @ dq @ '', '' @ dq @ ''error'' @ dq @ '': {''
         @ dq @ ''type'' @ dq @ '': '' @ dq @ ''upstream_error'' @ dq @ '', '' @ dq @ ''message'' @ dq @ '': '' @ quote (ge_Message e) @ ''}}'' @ newline @ newline
      else ''data: {'' @ dq @ ''error'' @ dq @ '': {'' @ dq @ ''message'' @ dq @ '': '' @ quote (ge_Message e) @ '', '' @ dq @ ''type'' @ dq @ '': ''
         @ dq @ ''upstream_error'' @ dq @ ''}}'' @ newline @ newline)"

text \<open>What \<open>writeError\<close> writes: the degrade answer of the first breaker policy when there is one, else the formatted error.\<close>

definition degrade_answer :: "GatewayContext \<Rightarrow> DegradeConfig option" where
  "degrade_answer g = (case g_Policy g of None \<Rightarrow> None
     | Some p \<Rightarrow> (case pl_CircuitBreakPolicies p of [] \<Rightarrow> None
        | cb # _ \<Rightarrow> (case cb_DegradeConfig cb of Some d \<Rightarrow> if dc_ResponseBody d \<noteq> '''' then Some d else None | None \<Rightarrow> None)))"

definition writeError :: "int \<Rightarrow> GoError \<Rightarrow> GatewayContext option \<Rightarrow> out_event list" where
  "writeError code0 e g =
     (let code = (if code0 = 0 then 500 else code0) in
      case Option.bind g degrade_answer of
        Some d \<Rightarrow> [SetHeader ''Content-Type'' ''application/json'',
                   WriteHeader (if dc_ResponseCode d > 0 then dc_ResponseCode d else 503), WriteText (dc_ResponseBody d)]
      | None \<Rightarrow> [SetHeader ''Content-Type'' ''application/json'', WriteHeader code,
                 WriteJSON (format_error (case g of Some c \<Rightarrow> g_RequestType c | None \<Rightarrow> '''') code e)])"

text \<open>The body \<open>json.Marshal\<close> gives, or its error.\<close>

definition writeJSON :: "GoError + string \<Rightarrow> out_event list" where
  "writeJSON data = (case data of Inl e \<Rightarrow> writeError 500 e None
     | Inr d \<Rightarrow> [SetHeader ''Content-Type'' ''application/json'', SetHeader ''Content-Length'' (itoa (int (length d))), WriteHeader 200, WriteText d])"

subsection \<open>The request and its state\<close>

record 'w Req =
  q_g :: GatewayContext
  q_u :: Usage
  q_Err :: "GoError option"
  q_Response :: "nat option"
  q_BodySet :: bool
  q_APIKeyID :: string
  q_APIKeyHash :: string
  q_WorkspaceID :: string
  q_UserTenant :: string
  q_out :: "out_event list"
  q_tasks :: "CompensationTask list"
  q_w :: 'w

text \<open>Setting \<open>gctx.Err\<close>; the settlement sees it as a \<open>request_error\<close>.\<close>

definition set_err :: "GoError option \<Rightarrow> 'w Req \<Rightarrow> 'w Req" where
  "set_err e q = q\<lparr>q_Err := e, q_u := (q_u q)\<lparr>u_Err := map_option (\<lambda>x. if ge_ClientGone x then ErrClientDisconnected else ErrRequest (ge_Message x)) e\<rparr>\<rparr>"

definition emit :: "out_event list \<Rightarrow> 'w Req \<Rightarrow> 'w Req" where
  "emit es q = q\<lparr>q_out := q_out q @ es\<rparr>"

datatype reply = Ok | Fail GoError | Crash

record 'w in_filter =
  fi_Name :: string
  fi_Order :: int
  fi_OnRequest :: "'w Req \<Rightarrow> reply \<times> 'w Req"

record 'w out_filter =
  fo_Name :: string
  fo_Order :: int
  fo_InboundSafe :: bool
  fo_OnResponse :: "'w Req \<Rightarrow> reply \<times> 'w Req"

record 'w EPipeline =
  pi_Inbound :: "'w in_filter list"
  pi_Outbound :: "'w out_filter list"
  pi_Critical :: "string set"
  pi_Invoke :: "'w Req \<Rightarrow> reply \<times> 'w Req"

text \<open>\<open>en_smart\<close>: \<open>Prepare\<close> and \<open>Invoke\<close> of the smart router, the latter telling whether it handled the request.\<close>

record 'w EngineEnv =
  en_alias :: "(string \<Rightarrow> string + string) option"
  en_smart :: "(('w Req \<Rightarrow> reply \<times> 'w Req) \<times> ('w EPipeline \<Rightarrow> 'w Req \<Rightarrow> bool \<times> reply \<times> 'w Req)) option"
  en_pipelines :: "string \<rightharpoonup> 'w EPipeline"
  en_policy :: "(string \<Rightarrow> string \<Rightarrow> string \<Rightarrow> string + Policy option) option"
  en_settle :: "('w Req \<Rightarrow> 'w Req) option"
  en_compQueue :: bool
  en_sscanf :: "string \<Rightarrow> int option"
  en_quote :: "string \<Rightarrow> string"
  en_marshal :: "nat \<Rightarrow> GoError + string"
  en_now :: instant


subsection \<open>Parsing\<close>

definition isGeminiGenerateContentPath :: "string \<Rightarrow> bool" where
  "isGeminiGenerateContentPath path = (str_contains path ''/models/'' \<and> (suffix '':generateContent'' path \<or> suffix '':streamGenerateContent'' path))"

definition isGeminiStreamPath :: "string \<Rightarrow> bool" where
  "isGeminiStreamPath path = (str_contains path ''/models/'' \<and> suffix '':streamGenerateContent'' path)"

definition resolveRequestType :: "string \<Rightarrow> RequestType" where
  "resolveRequestType path =
     (if isGeminiGenerateContentPath path then RequestTypeGeminiGenerateContent
      else if suffix ''/chat/completions'' path then RequestTypeChatCompletion
      else if suffix ''/messages'' path then RequestTypeMessages
      else if suffix ''/embeddings'' path then RequestTypeEmbedding
      else if suffix ''/images/generations'' path then RequestTypeImageGeneration
      else if suffix ''/responses'' path then RequestTypeResponses
      else RequestTypeChatCompletion)"

text \<open>What follows the last occurrence of a marker.\<close>

fun after_last :: "string \<Rightarrow> string \<Rightarrow> string option" where
  "after_last m [] = (if m = [] then Some [] else None)"
| "after_last m (c # cs) = (case after_last m cs of Some r \<Rightarrow> Some r
     | None \<Rightarrow> if prefix m (c # cs) then Some (drop (length m) (c # cs)) else None)"

definition hex_digit :: "char \<Rightarrow> nat option" where
  "hex_digit c = (let n = of_char c in
     if 48 \<le> n \<and> n \<le> 57 then Some (n - 48) else if 65 \<le> n \<and> n \<le> 70 then Some (n - 55)
     else if 97 \<le> n \<and> n \<le> 102 then Some (n - 87) else None)"

text \<open>\<open>url.PathUnescape\<close>; \<open>None\<close> is its error.\<close>

fun PathUnescape :: "string \<Rightarrow> string option" where
  "PathUnescape [] = Some []"
| "PathUnescape (c # cs) =
     (if c = CHR ''%''
      then (case cs of h # l # rest \<Rightarrow>
              (case (hex_digit h, hex_digit l) of
                 (Some a, Some b) \<Rightarrow> map_option ((#) (char_of (16 * a + b))) (PathUnescape rest) | _ \<Rightarrow> None)
            | _ \<Rightarrow> None)
      else map_option ((#) c) (PathUnescape cs))"

definition trim_suffix :: "string \<Rightarrow> string \<Rightarrow> string option" where
  "trim_suffix m s = (if suffix m s then Some (take (length s - length m) s) else None)"

definition extractGeminiModelFromPath :: "string \<Rightarrow> string" where
  "extractGeminiModelFromPath path = (case after_last ''/models/'' path of None \<Rightarrow> ''''
     | Some m \<Rightarrow>
         (case (case trim_suffix '':generateContent'' m of Some x \<Rightarrow> Some x | None \<Rightarrow> trim_suffix '':streamGenerateContent'' m) of
            None \<Rightarrow> '''' | Some x \<Rightarrow> (case PathUnescape x of Some y \<Rightarrow> y | None \<Rightarrow> x)))"

text \<open>An incoming request: path, parsed request, and what reading the body gives (\<open>None\<close> without a body).\<close>

record RawRequest =
  rr_Path :: string
  rr_Request :: HttpRequest
  rr_Body :: "(string + string) option"

definition bearer_token :: "string \<Rightarrow> string" where
  "bearer_token auth = (let scheme = takeWhile (\<lambda>c. c \<noteq> CHR '' '') auth in
     if length scheme < length auth \<and> str_lower scheme = ''bearer'' then drop (length scheme + 1) auth else '''')"

definition extract_api_key :: "HttpRequest \<Rightarrow> string" where
  "extract_api_key r =
     (let k1 = header_get r ''X-API-Key''; k2 = bearer_token (header_get r ''Authorization'');
          k3 = header_get r ''api-key''; k4 = header_get r ''x-api-key''
      in if k1 \<noteq> '''' then k1 else if k2 \<noteq> '''' then k2 else if k3 \<noteq> '''' then k3 else if k4 \<noteq> '''' then k4 else query_get r ''api_key'')"

text \<open>\<open>decodeModel\<close> and \<open>decodeStream\<close> decode the one field; an error gives the zero value. The context is new, so
  its body is empty until it is read.\<close>

definition parseRequest :: "(string \<Rightarrow> string option) \<Rightarrow> (string \<Rightarrow> bool option) \<Rightarrow> RawRequest \<Rightarrow> 'w Req \<Rightarrow> (GoError \<times> 'w Req) + 'w Req" where
  "parseRequest decodeModel decodeStream raw q =
     (let r = rr_Request raw; path = rr_Path raw;
          g0 = (q_g q)\<lparr>g_Request := Some r, g_RequestType := resolveRequestType path,
                 g_Tenant := header_get r ''X-Tenant-ID'', g_UserID := header_get r ''X-User-ID''\<rparr>;
          q0 = q\<lparr>q_g := g0, q_u := (q_u q)\<lparr>u_APIKey := extract_api_key r\<rparr>, q_APIKeyID := header_get r ''X-API-Key-ID'',
                 q_APIKeyHash := header_get r ''X-API-Key-Hash'', q_WorkspaceID := header_get r ''X-Workspace-ID'',
                 q_UserTenant := header_get r ''X-User-Tenant''\<rparr>
      in case (case rr_Body raw of None \<Rightarrow> Inr (g_RawBody g0) | Some b \<Rightarrow> b) of
           Inl e \<Rightarrow> Inl (plain_error (''read body: '' @ e), q0)
         | Inr body \<Rightarrow>
             let g1 = g0\<lparr>g_RawBody := body\<rparr>;
                 g2 = (if g_RequestType g1 = RequestTypeGeminiGenerateContent
                       then let m = extractGeminiModelFromPath path in g1\<lparr>g_Model := m, g_OriginalModel := m, g_IsStream := isGeminiStreamPath path\<rparr>
                       else if body \<noteq> ''''
                       then let m = (case decodeModel body of Some x \<Rightarrow> x | None \<Rightarrow> '''')
                            in g1\<lparr>g_Model := m, g_OriginalModel := m, g_IsStream := (case decodeStream body of Some b \<Rightarrow> b | None \<Rightarrow> False)\<rparr>
                       else g1)
             in Inr (q0\<lparr>q_g := g2\<rparr>))"

definition matchPipeline :: "(string \<rightharpoonup> 'p) \<Rightarrow> RequestType \<Rightarrow> 'p option" where
  "matchPipeline pipelines rt =
     (case pipelines rt of Some p \<Rightarrow> Some p
      | None \<Rightarrow> (case (if rt = RequestTypeImageGeneration then pipelines RequestTypeChatCompletion else None) of Some p \<Rightarrow> Some p
         | None \<Rightarrow> pipelines ''default''))"

subsection \<open>Filters and invocation\<close>

fun run_inbound :: "'w in_filter list \<Rightarrow> 'w Req \<Rightarrow> reply \<times> 'w Req" where
  "run_inbound [] q = (Ok, q)"
| "run_inbound (f # fs) q = (case fi_OnRequest f q of (Ok, q') \<Rightarrow> run_inbound fs q' | (r, q') \<Rightarrow> (r, q'))"

text \<open>After a rejection the filters marked \<open>InboundSafe\<close> run, and their errors are dropped.\<close>

fun run_safe :: "'w out_filter list \<Rightarrow> 'w Req \<Rightarrow> bool \<times> 'w Req" where
  "run_safe [] q = (True, q)"
| "run_safe (f # fs) q = (if fo_InboundSafe f then (case fo_OnResponse f q of (Crash, q') \<Rightarrow> (False, q') | (_, q') \<Rightarrow> run_safe fs q')
     else run_safe fs q)"

definition enqueueCompensation :: "instant \<Rightarrow> string \<Rightarrow> GoError \<Rightarrow> 'w Req \<Rightarrow> 'w Req" where
  "enqueueCompensation now filterName e q =
     (let g = q_g q in q\<lparr>q_tasks := q_tasks q @
        [\<lparr>ct_ID = filterName @ ''-'' @ g_Model g @ ''-'' @ itoa now, ct_FilterName = filterName,
          ct_Payload = [''model'' \<mapsto> g_Model g, ''api_key'' \<mapsto> u_APIKey (q_u q),
            ''endpoint_id'' \<mapsto> (case g_SelectedEndpoint g of Some ep \<Rightarrow> ep_ID ep | None \<Rightarrow> ''''), ''error'' \<mapsto> ge_Message e],
          ct_EnqueueAt = now, ct_NextRetryAt = 0, ct_AttemptCount = 0, ct_LastError = ge_Message e\<rparr>]\<rparr>)"

fun run_outbound :: "instant \<Rightarrow> bool \<Rightarrow> string set \<Rightarrow> 'w out_filter list \<Rightarrow> 'w Req \<Rightarrow> bool \<times> 'w Req" where
  "run_outbound now hasQueue critical [] q = (True, q)"
| "run_outbound now hasQueue critical (f # fs) q = (case fo_OnResponse f q of
     (Ok, q') \<Rightarrow> run_outbound now hasQueue critical fs q'
   | (Fail e, q') \<Rightarrow> run_outbound now hasQueue critical fs
       (if hasQueue \<and> fo_Name f \<in> critical then enqueueCompensation now (fo_Name f) e q' else q')
   | (Crash, q') \<Rightarrow> (False, q'))"

subsection \<open>The response\<close>

definition premature_end :: "GatewayContext \<Rightarrow> bool" where
  "premature_end g = (g_IsStream g \<and> g_TTFT g > 0 \<and>
     (g_RequestType g = RequestTypeResponses \<and> GetTagValue g ''response_completed_sent'' \<noteq> ''true''
      \<or> g_RequestType g = RequestTypeMessages \<and> GetTagValue g ''message_stop_sent'' \<noteq> ''true''))"

definition interrupted_event :: "string \<Rightarrow> int \<Rightarrow> GoError \<Rightarrow> GatewayContext \<Rightarrow> json" where
  "interrupted_event type now e g = JObj [(''type'', JStr type), (''response'', JObj
     [(''id'', JStr (or_default ''resp_err_interrupted'' (GetTagValue g ''response_id''))), (''object'', JStr ''response''), (''created_at'', JInt now),
      (''status'', JStr ''failed''), (''model'', JStr (or_default (g_Model g) (GetTagValue g ''response_model''))),
      (''error'', JObj [(''message'', JStr (ge_Message e)), (''type'', JStr ''upstream_error'')])])]"

text \<open>A frame of an event stream whose data is a JSON value.\<close>

definition sse_json :: "string \<Rightarrow> json \<Rightarrow> out_event list" where
  "sse_json event j = [WriteText (newline @ ''event: '' @ event @ newline @ ''data: ''), WriteJSON j, WriteText (newline @ newline)]"

definition interrupted :: "'w EngineEnv \<Rightarrow> GoError \<Rightarrow> GatewayContext \<Rightarrow> out_event list" where
  "interrupted env e g =
     (if g_RequestType g = RequestTypeResponses
      then let now = en_now env div second in
        sse_json ''response.done'' (interrupted_event ''response.done'' now e g) @ sse_json ''response.completed'' (interrupted_event ''response.completed'' now e g)
      else [WriteText (newline @ FormatSSE (en_quote env) (g_RequestType g) e)]) @ [Flush]"

definition client_gone :: "GoError option \<Rightarrow> bool" where
  "client_gone e = (case e of Some x \<Rightarrow> ge_ClientGone x | None \<Rightarrow> False)"

definition respond :: "'w EngineEnv \<Rightarrow> 'w Req \<Rightarrow> 'w Req" where
  "respond env q =
     (if client_gone (q_Err q) then q
      else let q1 = (if q_Err q = None \<and> premature_end (q_g q)
                     then set_err (Some (plain_error ''upstream stream closed prematurely without completion event'')) q else q);
               g = q_g q1
           in case q_Err q1 of
                Some e \<Rightarrow> if g_TTFT g > 0 then emit (interrupted env e g) q1
                          else emit (writeError (getErrorCode (en_sscanf env) e) e (Some g)) q1
              | None \<Rightarrow>
                  if g_IsStream g then q1
                  else (case q_Response q1 of Some v \<Rightarrow> emit (writeJSON (en_marshal env v)) q1
                        | None \<Rightarrow> if q_BodySet q1
                            then emit [SetHeader ''Content-Type'' ''application/json'', SetHeader ''Content-Length'' (itoa (int (length (g_UpstreamBody g)))),
                                       WriteHeader 200, WriteText (g_UpstreamBody g)] q1
                            else q1))"

subsection \<open>The handler\<close>

definition reject :: "'w EngineEnv \<Rightarrow> 'w EPipeline \<Rightarrow> GoError \<Rightarrow> 'w Req \<Rightarrow> bool \<times> 'w Req" where
  "reject env pipe e q =
     (let q1 = set_err (Some e) q;
          q2 = (case en_settle env of Some settle \<Rightarrow> if u_TrackLimitReservations (q_u q1) then settle q1 else q1 | None \<Rightarrow> q1)
      in case run_safe (pi_Outbound pipe) q2 of
           (False, q3) \<Rightarrow> (False, q3)
         | (True, q3) \<Rightarrow> (True, emit (writeError (getErrorCode (en_sscanf env) e) e (Some (q_g q3))) q3))"

definition invoke_pipeline :: "'w EngineEnv \<Rightarrow> 'w EPipeline \<Rightarrow> 'w Req \<Rightarrow> reply \<times> 'w Req" where
  "invoke_pipeline env pipe q = (case en_smart env of None \<Rightarrow> pi_Invoke pipe q
     | Some (_, smartInvoke) \<Rightarrow> (case smartInvoke pipe q of (handled, r, q') \<Rightarrow> if handled \<or> r = Crash then (r, q') else pi_Invoke pipe q'))"

definition run_pipeline :: "'w EngineEnv \<Rightarrow> 'w EPipeline \<Rightarrow> 'w Req \<Rightarrow> bool \<times> 'w Req" where
  "run_pipeline env pipe q = (case run_inbound (pi_Inbound pipe) q of
     (Crash, q1) \<Rightarrow> (False, q1)
   | (Fail e, q1) \<Rightarrow> reject env pipe e q1
   | (Ok, q1) \<Rightarrow>
       (case invoke_pipeline env pipe q1 of
          (Crash, q2) \<Rightarrow> (False, q2)
        | (r, q2) \<Rightarrow>
            (case run_outbound (en_now env) (en_compQueue env) (pi_Critical pipe) (pi_Outbound pipe)
                (set_err (case r of Fail e \<Rightarrow> Some e | _ \<Rightarrow> None) q2) of
               (False, q3) \<Rightarrow> (False, q3)
             | (True, q3) \<Rightarrow> (True, respond env q3))))"

text \<open>The steps before the pipeline; each may answer the request itself.\<close>

definition resolve_alias :: "'w EngineEnv \<Rightarrow> 'w Req \<Rightarrow> GoError + 'w Req" where
  "resolve_alias env q = (case en_alias env of None \<Rightarrow> Inr q
     | Some resolve \<Rightarrow> if g_Model (q_g q) = '''' then Inr q
         else (case resolve (g_Model (q_g q)) of Inl e \<Rightarrow> Inl (plain_error (''alias resolution error: '' @ e))
               | Inr m \<Rightarrow> Inr (q\<lparr>q_g := (q_g q)\<lparr>g_Model := m\<rparr>\<rparr>)))"

definition resolve_policy :: "'w EngineEnv \<Rightarrow> 'w Req \<Rightarrow> GoError + 'w Req" where
  "resolve_policy env q = (case en_policy env of None \<Rightarrow> Inr q
     | Some getPolicy \<Rightarrow> (case getPolicy (g_Tenant (q_g q)) (g_UserID (q_g q)) (g_Model (q_g q)) of
         Inl e \<Rightarrow> Inl (plain_error (''policy resolution error: '' @ e)) | Inr p \<Rightarrow> Inr (q\<lparr>q_g := (q_g q)\<lparr>g_Policy := p\<rparr>\<rparr>)))"

definition smart_prepare :: "'w EngineEnv \<Rightarrow> 'w Req \<Rightarrow> reply \<times> 'w Req" where
  "smart_prepare env q = (case en_smart env of None \<Rightarrow> (Ok, q) | Some (prepare, _) \<Rightarrow> prepare q)"

text \<open>\<open>True\<close> with the final state, or \<open>False\<close> when a component panicked.\<close>

definition HandleRequest :: "(string \<Rightarrow> string option) \<Rightarrow> (string \<Rightarrow> bool option) \<Rightarrow> 'w EngineEnv \<Rightarrow> RawRequest \<Rightarrow> 'w Req \<Rightarrow> bool \<times> 'w Req" where
  "HandleRequest decodeModel decodeStream env raw q =
     (let answer = (\<lambda>code e q. (True, emit (writeError code e (Some (q_g q))) q)) in
      case parseRequest decodeModel decodeStream raw q of
        Inl (e, q1) \<Rightarrow> answer 400 e q1
      | Inr q1 \<Rightarrow> (case resolve_alias env q1 of Inl e \<Rightarrow> answer 502 e q1
      | Inr q2 \<Rightarrow> (case smart_prepare env q2 of (Crash, q3) \<Rightarrow> (False, q3) | (Fail e, q3) \<Rightarrow> answer (getErrorCode (en_sscanf env) e) e q3
      | (Ok, q3) \<Rightarrow> (case matchPipeline (en_pipelines env) (g_RequestType (q_g q3)) of
          None \<Rightarrow> answer 500 (plain_error (''no pipeline matched for request type: '' @ g_RequestType (q_g q3))) q3
      | Some pipe \<Rightarrow> (case resolve_policy env q3 of Inl e \<Rightarrow> answer 403 e q3
      | Inr q4 \<Rightarrow> run_pipeline env pipe q4)))))"

subsection \<open>Assembling pipelines\<close>

text \<open>The filters of a pipeline by name, sorted by their order; \<open>Inl\<close> names the first one that is not registered. The lists have at
  most a dozen entries, for which \<open>sort.Slice\<close> is an insertion sort.\<close>

fun lookup_filters :: "(string \<rightharpoonup> 'f) \<Rightarrow> string list \<Rightarrow> string + 'f list" where
  "lookup_filters registry [] = Inr []"
| "lookup_filters registry (n # ns) = (case registry n of None \<Rightarrow> Inl n
     | Some f \<Rightarrow> (case lookup_filters registry ns of Inl m \<Rightarrow> Inl m | Inr fs \<Rightarrow> Inr (f # fs)))"

definition buildPipeline :: "(string \<rightharpoonup> 'w in_filter) \<Rightarrow> (string \<rightharpoonup> 'w out_filter) \<Rightarrow> string list \<Rightarrow> string list \<Rightarrow> string list \<Rightarrow>
    string + ('w Req \<Rightarrow> reply \<times> 'w Req) \<Rightarrow> string + 'w EPipeline" where
  "buildPipeline inReg outReg inbound outbound critical builtInvoker =
     (case lookup_filters inReg inbound of
        Inl n \<Rightarrow> Inl (''inbound filter '' @ dq @ n @ dq @ '' not found in registry'')
      | Inr ifs \<Rightarrow> (case lookup_filters outReg outbound of
          Inl n \<Rightarrow> Inl (''outbound filter '' @ dq @ n @ dq @ '' not found in registry'')
        | Inr ofs \<Rightarrow> (case builtInvoker of Inl e \<Rightarrow> Inl (''build invoker: '' @ e)
           | Inr invoke \<Rightarrow> Inr \<lparr>pi_Inbound = sort_key fi_Order ifs, pi_Outbound = sort_key fo_Order ofs, pi_Critical = set critical, pi_Invoke = invoke\<rparr>)))"

subsection \<open>Status lines\<close>

text \<open>The status lines the engine writes: the bytes of a stream are written by the provider and are not in \<open>q_out\<close>.\<close>

definition status_lines :: "out_event list \<Rightarrow> int list" where
  "status_lines es = List.map_filter (\<lambda>e. case e of WriteHeader c \<Rightarrow> Some c | _ \<Rightarrow> None) es"

lemma status_lines_simps [simp]:
  "status_lines [] = []" "status_lines (SetHeader k v # es) = status_lines es" "status_lines (WriteHeader c # es) = c # status_lines es"
  "status_lines (WriteJSON j # es) = status_lines es" "status_lines (WriteText s # es) = status_lines es" "status_lines (Flush # es) = status_lines es"
  "status_lines (xs @ ys) = status_lines xs @ status_lines ys"
  by (simp_all add: status_lines_def map_filter_def)

lemma getErrorCode_range: "400 \<le> getErrorCode sscanf e \<and> getErrorCode sscanf e < 600"
  by (auto simp: getErrorCode_def error_status_def split: option.split)

text \<open>The status of an error answer.\<close>

definition answer_status :: "int \<Rightarrow> GatewayContext option \<Rightarrow> int" where
  "answer_status code g = (case Option.bind g degrade_answer of
     Some d \<Rightarrow> if dc_ResponseCode d > 0 then dc_ResponseCode d else 503 | None \<Rightarrow> if code = 0 then 500 else code)"

text \<open>The degrade answer of a breaker policy replaces the status of every error, a refusal by a filter included.\<close>

lemma degrade_hides_status: "degrade_answer g = Some d \<Longrightarrow> 0 < dc_ResponseCode d \<Longrightarrow> answer_status code (Some g) = dc_ResponseCode d"
  by (simp add: answer_status_def)

lemma status_writeError [simp]: "status_lines (writeError code e g) = [answer_status code g]"
  by (simp add: writeError_def answer_status_def Let_def split: option.split)

lemma status_writeJSON [simp]: "length (status_lines (writeJSON d)) = 1"
  by (simp add: writeJSON_def split: sum.split)

lemma status_interrupted [simp]: "status_lines (interrupted env e g) = []"
  by (simp add: interrupted_def sse_json_def Let_def)

lemma emit_simps [simp]: "q_out (emit es q) = q_out q @ es" "q_w (emit es q) = q_w q" "q_g (emit es q) = q_g q" "q_Err (emit es q) = q_Err q"
  "q_tasks (emit es q) = q_tasks q" "q_u (emit es q) = q_u q"
  by (simp_all add: emit_def)

lemma set_err_simps [simp]: "q_out (set_err e q) = q_out q" "q_w (set_err e q) = q_w q" "q_g (set_err e q) = q_g q" "q_Err (set_err e q) = e"
  "q_tasks (set_err e q) = q_tasks q" "u_TrackLimitReservations (q_u (set_err e q)) = u_TrackLimitReservations (q_u q)"
  by (simp_all add: set_err_def)

lemma respond_world [simp]: "q_w (respond env q) = q_w q"
  by (simp add: respond_def Let_def split: option.split)

text \<open>What the last step adds.\<close>

lemma respond_status:
  "\<exists>es. q_out (respond env q) = q_out q @ es \<and> length (status_lines es) \<le> 1
     \<and> (g_TTFT (q_g q) > 0 \<and> q_Err (respond env q) \<noteq> None \<or> client_gone (q_Err q) \<longrightarrow> status_lines es = [])
     \<and> (\<forall>e. q_Err (respond env q) = Some e \<and> \<not> ge_ClientGone e \<and> \<not> g_TTFT (q_g (respond env q)) > 0
          \<longrightarrow> status_lines es = [answer_status (getErrorCode (en_sscanf env) e) (Some (q_g q))])"
  by (auto simp: respond_def client_gone_def premature_end_def Let_def split: option.split)

subsection \<open>Before the pipeline\<close>

text \<open>What the steps before the pipeline leave alone.\<close>

definition untouched :: "'w Req \<Rightarrow> 'w Req \<Rightarrow> bool" where
  "untouched q q' \<longleftrightarrow> q_out q' = q_out q \<and> q_w q' = q_w q \<and> q_tasks q' = q_tasks q \<and> u_TrackLimitReservations (q_u q') = u_TrackLimitReservations (q_u q)"

lemma untouched_trans: "untouched p q \<Longrightarrow> untouched q r \<Longrightarrow> untouched p r"
  by (simp add: untouched_def)

lemma parse_untouched: "parseRequest dm ds raw q = Inr q' \<Longrightarrow> untouched q q'" "parseRequest dm ds raw q = Inl (e, q') \<Longrightarrow> untouched q q'"
  by (auto simp: parseRequest_def untouched_def Let_def split: sum.splits option.splits if_splits)

lemma resolve_untouched: "resolve_alias env q = Inr q' \<Longrightarrow> untouched q q'" "resolve_policy env q = Inr q' \<Longrightarrow> untouched q q'"
  by (auto simp: resolve_alias_def resolve_policy_def untouched_def split: option.splits sum.splits if_splits)

lemma matched_pipeline: "matchPipeline pipelines rt = Some pipe \<Longrightarrow> pipe \<in> ran pipelines"
  by (auto simp: matchPipeline_def ran_def split: option.splits if_splits)

lemma parse_identity:
  assumes "parseRequest dm ds raw q = Inr q1"
  shows "g_UserID (q_g q1) = header_get (rr_Request raw) ''X-User-ID'' \<and> g_Tenant (q_g q1) = header_get (rr_Request raw) ''X-Tenant-ID''"
  using assms by (auto simp: parseRequest_def Let_def split: sum.splits option.splits if_splits)

lemma resolve_identity:
  "resolve_alias env q = Inr q1 \<Longrightarrow> g_UserID (q_g q1) = g_UserID (q_g q) \<and> g_Tenant (q_g q1) = g_Tenant (q_g q)"
  "resolve_policy env q = Inr q1 \<Longrightarrow> g_UserID (q_g q1) = g_UserID (q_g q) \<and> g_Tenant (q_g q1) = g_Tenant (q_g q)"
  by (auto simp: resolve_alias_def resolve_policy_def split: option.splits sum.splits if_splits)

lemma handle_cases:
  assumes "HandleRequest dm ds env raw q = (fin, q')" "en_smart env = None"
  obtains (answered) c e p where "fin" "q' = emit (writeError c e (Some (q_g p))) p" "untouched q p" "c \<in> {400, 403, 500, 502}"
  | (matched) pipe p where "pipe \<in> ran (en_pipelines env)" "run_pipeline env pipe p = (fin, q')" "untouched q p"
    "g_UserID (q_g p) = header_get (rr_Request raw) ''X-User-ID''" "g_Tenant (q_g p) = header_get (rr_Request raw) ''X-Tenant-ID''"
proof (cases "parseRequest dm ds raw q")
  case (Inl ep)
  obtain e p where ep: "ep = (e, p)" by fastforce
  show thesis using answered[of 400 e p] parse_untouched(2)[OF Inl[unfolded ep]] assms(1) Inl ep by (simp add: HandleRequest_def Let_def)
next
  case q1: (Inr q1)
  note o1 = parse_untouched(1)[OF q1]
  show thesis
  proof (cases "resolve_alias env q1")
    case (Inl e)
    then show thesis using answered[of 502 e q1] o1 assms(1) q1 by (simp add: HandleRequest_def Let_def)
  next
    case (Inr q2)
    note o2 = untouched_trans[OF o1 resolve_untouched(1)[OF Inr]]
    have h: "(fin, q') = (case matchPipeline (en_pipelines env) (g_RequestType (q_g q2)) of
        None \<Rightarrow> (True, emit (writeError 500 (plain_error (''no pipeline matched for request type: '' @ g_RequestType (q_g q2))) (Some (q_g q2))) q2)
      | Some pipe \<Rightarrow> (case resolve_policy env q2 of Inl e \<Rightarrow> (True, emit (writeError 403 e (Some (q_g q2))) q2) | Inr q4 \<Rightarrow> run_pipeline env pipe q4))"
      using Inr q1 assms by (simp add: HandleRequest_def smart_prepare_def Let_def)
    show thesis
    proof (cases "matchPipeline (en_pipelines env) (g_RequestType (q_g q2))")
      case None
      with h show thesis using answered[OF _ _ o2] by simp
    next
      case (Some pipe)
      show thesis
      proof (cases "resolve_policy env q2")
        case (Inl e)
        with h Some show thesis using answered[OF _ _ o2] by simp
      next
        case q4: (Inr q4)
        from h Some q4 have "run_pipeline env pipe q4 = (fin, q')" by simp
        from matched[OF matched_pipeline[OF Some] this untouched_trans[OF o2 resolve_untouched(2)[OF q4]]]
        show thesis using parse_identity[OF q1] resolve_identity(1)[OF Inr] resolve_identity(2)[OF q4] by simp
      qed
    qed
  qed
qed

subsection \<open>Components that do not answer\<close>

text \<open>What the engine relies on for one answer per request: neither filters nor invokers nor the services in front of the pipeline
  write a status line.\<close>

definition quiet :: "('w Req \<Rightarrow> 'r \<times> 'w Req) \<Rightarrow> bool" where
  "quiet f \<longleftrightarrow> (\<forall>q r q'. f q = (r, q') \<longrightarrow> q_out q' = q_out q)"

locale engine_parts =
  fixes env :: "'w EngineEnv"
  assumes no_smart: "en_smart env = None"
    and settle_quiet: "en_settle env = Some settle \<Longrightarrow> q_out (settle q) = q_out q"
    and in_quiet: "pipe \<in> ran (en_pipelines env) \<Longrightarrow> f \<in> set (pi_Inbound pipe) \<Longrightarrow> quiet (fi_OnRequest f)"
    and out_quiet: "pipe \<in> ran (en_pipelines env) \<Longrightarrow> h \<in> set (pi_Outbound pipe) \<Longrightarrow> quiet (fo_OnResponse h)"
    and invoke_quiet: "pipe \<in> ran (en_pipelines env) \<Longrightarrow> quiet (pi_Invoke pipe)"
begin

lemma run_inbound_quiet:
  "\<forall>f\<in>set fs. quiet (fi_OnRequest f) \<Longrightarrow> run_inbound fs q = (r, q') \<Longrightarrow> q_out q' = q_out q"
proof (induction fs arbitrary: q)
  case (Cons f fs)
  obtain r1 q1 where x: "fi_OnRequest f q = (r1, q1)" by fastforce
  then have "q_out q1 = q_out q" using Cons.prems(1) by (simp add: quiet_def)
  with Cons x show ?case by (cases r1) auto
qed simp

lemma run_safe_quiet:
  "\<forall>f\<in>set fs. quiet (fo_OnResponse f) \<Longrightarrow> run_safe fs q = (r, q') \<Longrightarrow> q_out q' = q_out q"
proof (induction fs arbitrary: q)
  case (Cons f fs)
  obtain r1 q1 where x: "fo_OnResponse f q = (r1, q1)" by fastforce
  then have "q_out q1 = q_out q" using Cons.prems(1) by (simp add: quiet_def)
  with Cons x show ?case by (cases r1) (auto split: if_splits)
qed simp

lemma run_outbound_quiet:
  "\<forall>f\<in>set fs. quiet (fo_OnResponse f) \<Longrightarrow> run_outbound now hq crit fs q = (r, q') \<Longrightarrow> q_out q' = q_out q"
proof (induction fs arbitrary: q)
  case (Cons f fs)
  obtain r1 q1 where x: "fo_OnResponse f q = (r1, q1)" by fastforce
  then have "q_out q1 = q_out q" using Cons.prems(1) by (simp add: quiet_def)
  with Cons x show ?case by (cases r1) (auto simp: enqueueCompensation_def Let_def split: if_splits)
qed simp

lemma reject_status:
  assumes "pipe \<in> ran (en_pipelines env)" "reject env pipe e q = (True, q')"
  shows "\<exists>es. q_out q' = q_out q @ es \<and> status_lines es = [answer_status (getErrorCode (en_sscanf env) e) (Some (q_g q'))]"
proof -
  let ?q2 = "case en_settle env of Some settle \<Rightarrow> if u_TrackLimitReservations (q_u (set_err (Some e) q)) then settle (set_err (Some e) q) else set_err (Some e) q
    | None \<Rightarrow> set_err (Some e) q"
  have q2: "q_out ?q2 = q_out q" using settle_quiet by (simp split: option.split)
  obtain b q3 where s: "run_safe (pi_Outbound pipe) ?q2 = (b, q3)" by fastforce
  with run_safe_quiet out_quiet[OF assms(1)] q2 have "q_out q3 = q_out q" by metis
  moreover from s assms(2) have "q' = emit (writeError (getErrorCode (en_sscanf env) e) e (Some (q_g q3))) q3"
    by (cases b) (auto simp: reject_def Let_def)
  ultimately show ?thesis by simp
qed

lemma run_pipeline_status:
  assumes "pipe \<in> ran (en_pipelines env)" "run_pipeline env pipe q = (True, q')"
  shows "\<exists>es. q_out q' = q_out q @ es \<and> length (status_lines es) \<le> 1
     \<and> (\<forall>e. q_Err q' = Some e \<and> \<not> ge_ClientGone e \<and> \<not> g_TTFT (q_g q') > 0 \<longrightarrow> length (status_lines es) = 1)"
proof -
  obtain r q1 where i: "run_inbound (pi_Inbound pipe) q = (r, q1)" by fastforce
  have q1: "q_out q1 = q_out q" using run_inbound_quiet[OF _ i] in_quiet[OF assms(1)] by blast
  show ?thesis
  proof (cases r)
    case Ok
    obtain r2 q2 where v: "pi_Invoke pipe q1 = (r2, q2)" by fastforce
    have q2: "q_out q2 = q_out q1" using invoke_quiet[OF assms(1)] v by (simp add: quiet_def)
    let ?q2 = "set_err (case r2 of Fail e \<Rightarrow> Some e | _ \<Rightarrow> None) q2"
    obtain b q3 where o: "run_outbound (en_now env) (en_compQueue env) (pi_Critical pipe) (pi_Outbound pipe) ?q2 = (b, q3)" by fastforce
    have q3: "q_out q3 = q_out q" using run_outbound_quiet[OF _ o] out_quiet[OF assms(1)] q1 q2 by simp
    have "q' = respond env q3" using assms(2) i Ok v o no_smart
      by (cases r2; cases b) (auto simp: run_pipeline_def invoke_pipeline_def)
    with respond_status[of env q3] q3 show ?thesis by (metis One_nat_def length_Cons list.size(3))
  next
    case (Fail e)
    with assms i have "reject env pipe e q1 = (True, q')" by (simp add: run_pipeline_def)
    from reject_status[OF assms(1) this] q1 show ?thesis by (metis One_nat_def le_refl length_Cons list.size(3))
  next
    case Crash
    with assms i show ?thesis by (simp add: run_pipeline_def)
  qed
qed

lemma handle_status:
  assumes "HandleRequest dm ds env raw q = (True, q')"
  shows "\<exists>es. q_out q' = q_out q @ es \<and> length (status_lines es) \<le> 1
     \<and> (\<forall>e. q_Err q' = Some e \<and> \<not> ge_ClientGone e \<and> \<not> g_TTFT (q_g q') > 0 \<longrightarrow> length (status_lines es) = 1)"
  using assms no_smart
proof (cases rule: handle_cases)
  case (answered c e p)
  then show ?thesis by (simp add: untouched_def)
next
  case (matched pipe p)
  then show ?thesis using run_pipeline_status[of pipe p q'] by (simp add: untouched_def)
qed

end

end
