(* ===== verification/Circuit_Breaker.thy ===== *)
theory Circuit_Breaker
  imports Go_Float
begin

text \<open>
  The breaker entry of \<open>src/pkg/core/circuit_breaker.go\<close>: one sliding window, the
  Closed/Open/HalfOpen state machine over it, and the half-open probe permit with its epoch and
  token. Every operation the source runs under \<open>entry.mu\<close> is one function here; the clock
  reading \<open>time.Now()\<close> is the argument \<open>now\<close>. The file's second half shows the
  invariant of the entry, the window as a refinement of the list of outcomes, the
  transition rules, and, over an inductive relation of interleaved locked sections, that at most
  one half-open probe is in flight.
\<close>

subsection \<open>Data\<close>

datatype CircuitState = CircuitClosed | CircuitOpen | CircuitHalfOpen

definition CircuitState_String :: "CircuitState \<Rightarrow> string" where
  "CircuitState_String s = (case s of CircuitClosed \<Rightarrow> ''CLOSED'' | CircuitOpen \<Rightarrow> ''OPEN''
     | CircuitHalfOpen \<Rightarrow> ''HALF_OPEN'')"

record timeBucket =
  tb_timestamp :: instant
  tb_successes :: int
  tb_failures :: int

record circuitBreakerEntry =
  e_state :: CircuitState
  e_windowType :: string
  e_results :: "bool list"
  e_buckets :: "timeBucket list"
  e_openSince :: instant
  e_recoveryTO :: duration
  e_windowSize :: int
  e_failThresh :: int
  e_hoSuccessThr :: int
  e_activeCalls :: int
  e_attemptEpoch :: u64
  e_nextToken :: u64
  e_permitToken :: u64
  e_policyVersion :: int
  e_modelCode :: string
  e_policyID :: string
  e_policyName :: string
  e_providerName :: string
  e_endpointCode :: string
  e_lastTenant :: string
  e_lastTraceID :: string
  e_lastRequestID :: string
  e_threshold :: rat
  e_currentVal :: rat

text \<open>The entry \<open>GetEntryWithModel\<close> creates: Go's zero value with state Closed and the model code.\<close>

definition new_entry :: "string \<Rightarrow> circuitBreakerEntry" where
  "new_entry modelCode = \<lparr>e_state = CircuitClosed, e_windowType = '''', e_results = [], e_buckets = [],
     e_openSince = 0, e_recoveryTO = 0, e_windowSize = 0, e_failThresh = 0, e_hoSuccessThr = 0,
     e_activeCalls = 0, e_attemptEpoch = 0, e_nextToken = 0, e_permitToken = 0, e_policyVersion = 0,
     e_modelCode = modelCode, e_policyID = '''', e_policyName = '''', e_providerName = '''',
     e_endpointCode = '''', e_lastTenant = '''', e_lastTraceID = '''', e_lastRequestID = '''',
     e_threshold = 0, e_currentVal = 0\<rparr>"

subsection \<open>Operations\<close>

definition expireBuckets :: "instant \<Rightarrow> circuitBreakerEntry \<Rightarrow> circuitBreakerEntry" where
  "expireBuckets now e = (if e_windowSize e \<le> 0 then e
     else let limitTime = time_add now (go_mul (- e_windowSize e) second)
          in e\<lparr>e_buckets := dropWhile (\<lambda>b. tb_timestamp b < limitTime) (e_buckets e)\<rparr>)"

definition invalidateAttempts :: "circuitBreakerEntry \<Rightarrow> circuitBreakerEntry" where
  "invalidateAttempts e = e\<lparr>e_attemptEpoch := e_attemptEpoch e + 1, e_activeCalls := 0, e_permitToken := 0\<rparr>"

definition count_failures :: "bool list \<Rightarrow> int" where
  "count_failures rs = int (length (filter Not rs))"

definition count_successes :: "bool list \<Rightarrow> int" where
  "count_successes rs = int (length (filter id rs))"

definition window_failures :: "circuitBreakerEntry \<Rightarrow> int" where
  "window_failures e = (if e_windowType e = ''time'' then sum_list (map tb_failures (e_buckets e))
     else count_failures (e_results e))"

definition window_calls :: "circuitBreakerEntry \<Rightarrow> int" where
  "window_calls e = (if e_windowType e = ''time''
     then sum_list (map (\<lambda>b. tb_successes b + tb_failures b) (e_buckets e))
     else int (length (e_results e)))"

definition computeState :: "instant \<Rightarrow> circuitBreakerEntry \<Rightarrow> circuitBreakerEntry" where
  "computeState now e0 = (let e = (if e_windowType e0 = ''time'' then expireBuckets now e0 else e0) in
     case e_state e of
       CircuitClosed \<Rightarrow>
         if e_failThresh e > 0 \<and> window_failures e \<ge> e_failThresh e
         then e\<lparr>e_state := CircuitOpen, e_openSince := now\<rparr> else e
     | CircuitOpen \<Rightarrow>
         if time_sub now (e_openSince e) \<ge> e_recoveryTO e
         then (invalidateAttempts e)\<lparr>e_state := CircuitHalfOpen, e_results := [], e_buckets := []\<rparr> else e
     | CircuitHalfOpen \<Rightarrow>
         if count_failures (e_results e) > 0
         then (invalidateAttempts e)\<lparr>e_state := CircuitOpen, e_openSince := now, e_results := [], e_buckets := []\<rparr>
         else let thr = (if e_hoSuccessThr e \<le> 0 then 1 else e_hoSuccessThr e)
              in if count_successes (e_results e) \<ge> thr
                 then (invalidateAttempts e)\<lparr>e_state := CircuitClosed\<rparr> else e)"

definition set_config :: "string \<Rightarrow> int \<Rightarrow> int \<Rightarrow> int \<Rightarrow> duration \<Rightarrow> circuitBreakerEntry \<Rightarrow> circuitBreakerEntry" where
  "set_config windowType windowSize failThresh hoSuccessThr recoveryTO e =
     e\<lparr>e_windowType := (if windowType = '''' then ''count'' else windowType),
       e_windowSize := (if windowSize \<le> 0 then 100 else windowSize),
       e_failThresh := (if failThresh \<le> 0 then 5 else failThresh),
       e_hoSuccessThr := (if hoSuccessThr \<le> 0 then 1 else hoSuccessThr),
       e_recoveryTO := (if recoveryTO \<le> 0 then 30 * second else recoveryTO)\<rparr>"

definition bucket_hit :: "bool \<Rightarrow> timeBucket \<Rightarrow> timeBucket" where
  "bucket_hit success b = (if success then b\<lparr>tb_successes := tb_successes b + 1\<rparr>
     else b\<lparr>tb_failures := tb_failures b + 1\<rparr>)"

definition add_bucket :: "bool \<Rightarrow> instant \<Rightarrow> timeBucket list \<Rightarrow> timeBucket list" where
  "add_bucket success now bs = (let sec = time_truncate now second in
     if bs \<noteq> [] \<and> tb_timestamp (last bs) = sec
     then butlast bs @ [bucket_hit success (last bs)]
     else bs @ [bucket_hit success \<lparr>tb_timestamp = sec, tb_successes = 0, tb_failures = 0\<rparr>])"

definition add_sample :: "bool \<Rightarrow> instant \<Rightarrow> circuitBreakerEntry \<Rightarrow> circuitBreakerEntry" where
  "add_sample success now e =
     (if e_state e = CircuitHalfOpen
      then let limit = (if e_hoSuccessThr e \<le> 0 then 1 else e_hoSuccessThr e)
           in e\<lparr>e_results := go_push (nat limit) (e_results e) success\<rparr>
      else if e_windowType e = ''time''
      then expireBuckets now (e\<lparr>e_buckets := add_bucket success now (e_buckets e)\<rparr>)
      else e\<lparr>e_results := go_push (nat (e_windowSize e)) (e_results e) success\<rparr>)"

definition open_report :: "CircuitState \<Rightarrow> rat \<Rightarrow> circuitBreakerEntry \<Rightarrow> circuitBreakerEntry" where
  "open_report oldState rate e =
     (if e_state e = CircuitOpen \<and> oldState \<noteq> CircuitOpen
      then if oldState = CircuitHalfOpen
           then if rate > 0 then e\<lparr>e_threshold := rate, e_currentVal := 100\<rparr>
                else e\<lparr>e_threshold := float64 (e_failThresh e), e_currentVal := 1\<rparr>
           else if rate > 0
                then e\<lparr>e_threshold := rate,
                       e_currentVal := (if window_calls e > 0
                          then fl64 (fl64 (float64 (window_failures e) / float64 (window_calls e)) * 100)
                          else 0)\<rparr>
                else e\<lparr>e_threshold := float64 (e_failThresh e), e_currentVal := float64 (window_failures e)\<rparr>
      else e)"

definition recordLocked :: "bool \<Rightarrow> instant \<Rightarrow> string \<Rightarrow> int \<Rightarrow> int \<Rightarrow> int \<Rightarrow> duration \<Rightarrow> rat \<Rightarrow>
    circuitBreakerEntry \<Rightarrow> (CircuitState \<times> CircuitState) \<times> circuitBreakerEntry" where
  "recordLocked success now windowType windowSize failThresh hoSuccessThr recoveryTO failureRateThreshold e0 =
     (let e1 = set_config windowType windowSize failThresh hoSuccessThr recoveryTO e0;
          oldState = e_state e1;
          e2 = computeState now e1;
          e3 = add_sample success now e2;
          e4 = computeState now e3;
          e5 = open_report oldState failureRateThreshold e4
      in ((oldState, e_state e5), e5))"

definition legacy_return :: "circuitBreakerEntry \<Rightarrow> circuitBreakerEntry" where
  "legacy_return e = (if e_state e = CircuitHalfOpen \<and> e_activeCalls e > 0 \<and> e_permitToken e = 0
     then e\<lparr>e_activeCalls := e_activeCalls e - 1\<rparr> else e)"

definition record_entry :: "bool \<Rightarrow> instant \<Rightarrow> string \<Rightarrow> int \<Rightarrow> int \<Rightarrow> int \<Rightarrow> duration \<Rightarrow> rat \<Rightarrow>
    circuitBreakerEntry \<Rightarrow> (CircuitState \<times> CircuitState) \<times> circuitBreakerEntry" where
  "record_entry success now windowType windowSize failThresh hoSuccessThr recoveryTO rate e =
     recordLocked success now windowType windowSize failThresh hoSuccessThr recoveryTO rate (legacy_return e)"

definition stateVal :: "instant \<Rightarrow> circuitBreakerEntry \<Rightarrow> (CircuitState \<times> CircuitState) \<times> circuitBreakerEntry" where
  "stateVal now e = (let e' = computeState now e in ((e_state e, e_state e'), e'))"

definition clear_window :: "circuitBreakerEntry \<Rightarrow> circuitBreakerEntry" where
  "clear_window e = invalidateAttempts (e\<lparr>e_state := CircuitClosed, e_results := [], e_buckets := [], e_openSince := 0\<rparr>)"

definition reset_entry :: "circuitBreakerEntry \<Rightarrow> (CircuitState \<times> CircuitState) \<times> circuitBreakerEntry" where
  "reset_entry e = ((e_state e, CircuitClosed), clear_window e)"

definition checkAndResetOnVersionChangeLocked :: "int \<Rightarrow> circuitBreakerEntry \<Rightarrow> bool \<times> circuitBreakerEntry" where
  "checkAndResetOnVersionChangeLocked version e =
     (if e_policyVersion e = 0 then (False, e\<lparr>e_policyVersion := version\<rparr>)
      else if e_policyVersion e \<noteq> version then (True, (clear_window e)\<lparr>e_policyVersion := version\<rparr>)
      else (False, e))"

definition tryAcquireHalfOpenPermit :: "bool \<Rightarrow> circuitBreakerEntry \<Rightarrow> bool \<times> circuitBreakerEntry" where
  "tryAcquireHalfOpenPermit enableActive e =
     (if e_state e \<noteq> CircuitHalfOpen then (e_state e = CircuitClosed, e)
      else if enableActive then (False, e)
      else if e_activeCalls e < 1 then (True, e\<lparr>e_activeCalls := e_activeCalls e + 1\<rparr>)
      else (False, e))"

text \<open>The locked section of \<open>AcquireAttempt\<close> for one key, and the permit it hands out.\<close>

record attemptPermit =
  pm_key :: string
  pm_epoch :: u64
  pm_token :: u64
  pm_version :: int

definition acquire_entry :: "string \<Rightarrow> bool \<Rightarrow> instant \<Rightarrow> circuitBreakerEntry \<Rightarrow>
    bool \<times> attemptPermit \<times> (CircuitState \<times> CircuitState) \<times> circuitBreakerEntry" where
  "acquire_entry key enableActive now e0 =
     (let old = e_state e0;
          e = computeState now e0;
          state = e_state e;
          allowed = (state = CircuitClosed \<or> state = CircuitHalfOpen \<and> \<not> enableActive \<and> e_activeCalls e < 1);
          permit = \<lparr>pm_key = key, pm_epoch = e_attemptEpoch e, pm_token = 0, pm_version = e_policyVersion e\<rparr>
      in if allowed \<and> state = CircuitHalfOpen
         then let tok = e_nextToken e + 1
              in (allowed, permit\<lparr>pm_token := tok\<rparr>, (old, state),
                  e\<lparr>e_nextToken := tok, e_permitToken := tok, e_activeCalls := e_activeCalls e + 1\<rparr>)
         else (allowed, permit, (old, state), e))"

text \<open>The locked section of \<open>releasePermits\<close> for one permit.\<close>

definition release_permit :: "attemptPermit \<Rightarrow> circuitBreakerEntry \<Rightarrow> circuitBreakerEntry" where
  "release_permit p e = (if pm_token p \<noteq> 0 \<and> e_attemptEpoch e = pm_epoch p \<and> e_permitToken e = pm_token p
     then e\<lparr>e_activeCalls := e_activeCalls e - 1, e_permitToken := 0\<rparr> else e)"

text \<open>The locked sections of \<open>recordOutcome\<close> for a lease: the epoch and version guard, the version
  update (a reset moves the lease to the new epoch and voids its token), and the record itself.\<close>

record entryMeta =
  m_policyID :: string
  m_policyName :: string
  m_providerName :: string
  m_endpointCode :: string
  m_tenant :: string
  m_traceID :: string
  m_requestID :: string

definition set_meta :: "entryMeta \<Rightarrow> circuitBreakerEntry \<Rightarrow> circuitBreakerEntry" where
  "set_meta m e = e\<lparr>e_policyID := m_policyID m, e_policyName := m_policyName m,
     e_providerName := m_providerName m, e_endpointCode := m_endpointCode m,
     e_lastTenant := m_tenant m, e_lastTraceID := m_traceID m, e_lastRequestID := m_requestID m\<rparr>"

definition lease_valid :: "attemptPermit \<Rightarrow> circuitBreakerEntry \<Rightarrow> bool" where
  "lease_valid p e \<longleftrightarrow> e_attemptEpoch e = pm_epoch p \<and> e_policyVersion e = pm_version p"

definition lease_version :: "int \<Rightarrow> attemptPermit \<Rightarrow> circuitBreakerEntry \<Rightarrow> bool \<times> attemptPermit \<times> circuitBreakerEntry" where
  "lease_version v p e = (let (versionReset, e1) = checkAndResetOnVersionChangeLocked v e;
       p1 = p\<lparr>pm_version := e_policyVersion e1\<rparr>
     in (versionReset, (if versionReset then p1\<lparr>pm_epoch := e_attemptEpoch e1, pm_token := 0\<rparr> else p1), e1))"

definition lease_record :: "entryMeta \<Rightarrow> bool \<Rightarrow> instant \<Rightarrow> string \<Rightarrow> int \<Rightarrow> int \<Rightarrow> int \<Rightarrow> duration \<Rightarrow> rat \<Rightarrow>
    attemptPermit \<Rightarrow> circuitBreakerEntry \<Rightarrow> attemptPermit \<times> (CircuitState \<times> CircuitState) \<times> circuitBreakerEntry" where
  "lease_record m success now wt ws ft ho rt rate p e =
     (let (ss, e2) = recordLocked success now wt ws ft ho rt rate (set_meta m e)
      in ((if pm_epoch p \<noteq> e_attemptEpoch e2 then p\<lparr>pm_epoch := e_attemptEpoch e2, pm_token := 0\<rparr> else p), ss, e2))"

lemmas entry_op_defs = recordLocked_def record_entry_def stateVal_def reset_entry_def clear_window_def
  checkAndResetOnVersionChangeLocked_def tryAcquireHalfOpenPermit_def acquire_entry_def
  release_permit_def legacy_return_def

subsection \<open>What every internal operation keeps of the permit\<close>

text \<open>\<open>evolves k e e'\<close>: the operation moved the attempt epoch by \<open>k\<close>. If it moved it at
  all the permit is withdrawn, otherwise the permit is untouched and a half-open entry stays so.\<close>

definition evolves :: "nat \<Rightarrow> circuitBreakerEntry \<Rightarrow> circuitBreakerEntry \<Rightarrow> bool" where
  "evolves k e e' \<longleftrightarrow> e_nextToken e' = e_nextToken e \<and> e_attemptEpoch e' = e_attemptEpoch e + of_nat k \<and>
     (if k = 0 then e_activeCalls e' = e_activeCalls e \<and> e_permitToken e' = e_permitToken e
                    \<and> (e_state e = CircuitHalfOpen \<longrightarrow> e_state e' = CircuitHalfOpen)
      else e_activeCalls e' = 0 \<and> e_permitToken e' = 0)"

definition entry_inv :: "circuitBreakerEntry \<Rightarrow> bool" where
  "entry_inv e \<longleftrightarrow> 0 \<le> e_activeCalls e \<and> e_activeCalls e \<le> 1 \<and>
     (e_activeCalls e = 1 \<longrightarrow> e_state e = CircuitHalfOpen) \<and> (e_permitToken e \<noteq> 0 \<longrightarrow> e_activeCalls e = 1)"

lemma evolves_refl: "evolves 0 e e"
  by (simp add: evolves_def)

lemma evolves_trans: "evolves j a b \<Longrightarrow> evolves k b c \<Longrightarrow> evolves (j + k) a c"
  by (auto simp: evolves_def split: if_splits)

lemma evolves_inv: "evolves k e e' \<Longrightarrow> entry_inv e \<Longrightarrow> entry_inv e'"
  by (auto simp: evolves_def entry_inv_def split: if_splits)

lemma new_entry_inv: "entry_inv (new_entry m)"
  by (simp add: entry_inv_def new_entry_def)

lemma expireBuckets_frame [simp]:
  "e_state (expireBuckets now e) = e_state e" "e_results (expireBuckets now e) = e_results e"
  "e_openSince (expireBuckets now e) = e_openSince e" "e_recoveryTO (expireBuckets now e) = e_recoveryTO e"
  "e_windowSize (expireBuckets now e) = e_windowSize e" "e_failThresh (expireBuckets now e) = e_failThresh e"
  "e_hoSuccessThr (expireBuckets now e) = e_hoSuccessThr e" "e_windowType (expireBuckets now e) = e_windowType e"
  "e_activeCalls (expireBuckets now e) = e_activeCalls e" "e_attemptEpoch (expireBuckets now e) = e_attemptEpoch e"
  "e_nextToken (expireBuckets now e) = e_nextToken e" "e_permitToken (expireBuckets now e) = e_permitToken e"
  "e_policyVersion (expireBuckets now e) = e_policyVersion e"
  by (simp_all add: expireBuckets_def Let_def)

lemma computeState_evolves: "\<exists>k\<le>1. evolves k e (computeState now e)"
proof -
  let ?e = "if e_windowType e = ''time'' then expireBuckets now e else e"
  have "evolves 0 e (computeState now e) \<or> evolves 1 e (computeState now e)"
    by (cases "e_state ?e")
       (simp_all add: computeState_def Let_def evolves_def invalidateAttempts_def split: if_splits)
  then show ?thesis by blast
qed

lemma set_config_evolves: "evolves 0 e (set_config wt ws ft ho rt e)"
  by (simp add: evolves_def set_config_def)

lemma add_sample_evolves: "evolves 0 e (add_sample success now e)"
  by (simp add: evolves_def add_sample_def Let_def)

lemma open_report_evolves: "evolves 0 e (open_report old rate e)"
  by (simp add: evolves_def open_report_def)

lemma recordLocked_evolves: "\<exists>k\<le>2. evolves k e (snd (recordLocked s now wt ws ft ho rt rate e))"
proof -
  let ?e1 = "set_config wt ws ft ho rt e"
  obtain j where j: "j \<le> 1" "evolves j ?e1 (computeState now ?e1)" using computeState_evolves by blast
  let ?e3 = "add_sample s now (computeState now ?e1)"
  obtain k where k: "k \<le> 1" "evolves k ?e3 (computeState now ?e3)" using computeState_evolves by blast
  have "evolves (0 + (j + (0 + (k + 0)))) e (open_report (e_state ?e1) rate (computeState now ?e3))"
    by (rule evolves_trans[OF set_config_evolves[of e wt ws ft ho rt]], rule evolves_trans[OF j(2)],
        rule evolves_trans[OF add_sample_evolves], rule evolves_trans[OF k(2)], rule open_report_evolves)
  then show ?thesis using j(1) k(1) by (intro exI[of _ "j + k"]) (simp add: recordLocked_def Let_def)
qed

lemma clear_window_evolves: "evolves 1 e (clear_window e)"
  by (simp add: evolves_def clear_window_def invalidateAttempts_def)

lemma evolves_version [simp]: "evolves k e (e'\<lparr>e_policyVersion := v\<rparr>) = evolves k e e'"
  by (simp add: evolves_def)

lemma version_check_evolves: "\<exists>k\<le>1. evolves k e (snd (checkAndResetOnVersionChangeLocked v e))"
  using clear_window_evolves[of e] evolves_refl[of e]
  by (auto simp: checkAndResetOnVersionChangeLocked_def intro: exI[of _ 0] exI[of _ 1])

text \<open>The contract the internal operations share, and what follows from it for every client.\<close>

locale entry_op =
  fixes f :: "circuitBreakerEntry \<Rightarrow> circuitBreakerEntry"
  assumes op_evolves: "\<exists>k\<le>2. evolves k e (f e)"
begin

lemma op_inv: "entry_inv e \<Longrightarrow> entry_inv (f e)"
  using op_evolves[of e] evolves_inv by blast

lemma op_permit: "e_attemptEpoch (f e) = e_attemptEpoch e \<Longrightarrow> e_permitToken e \<noteq> 0 \<Longrightarrow> e_permitToken (f e) = e_permitToken e"
proof -
  assume same: "e_attemptEpoch (f e) = e_attemptEpoch e" and "e_permitToken e \<noteq> 0"
  obtain k where k: "k \<le> 2" "evolves k e (f e)" using op_evolves by blast
  have "k = 0"
  proof (rule ccontr)
    assume "k \<noteq> 0"
    with k(1) have "k = 1 \<or> k = 2" by linarith
    with k(2) same show False by (auto simp: evolves_def)
  qed
  with k(2) show ?thesis by (simp add: evolves_def)
qed

end

interpretation compute_op: entry_op "computeState now" for now
  by unfold_locales (meson computeState_evolves one_le_numeral order_trans)

interpretation record_op: entry_op "\<lambda>e. snd (recordLocked s now wt ws ft ho rt rate e)" for s now wt ws ft ho rt rate
  by unfold_locales (rule recordLocked_evolves)

interpretation reset_op: entry_op "\<lambda>e. snd (reset_entry e)"
  by unfold_locales (auto simp: reset_entry_def intro: exI[of _ 1] clear_window_evolves)

interpretation version_op: entry_op "\<lambda>e. snd (checkAndResetOnVersionChangeLocked v e)" for v
  by unfold_locales (meson version_check_evolves one_le_numeral order_trans)

interpretation state_op: entry_op "\<lambda>e. snd (stateVal now e)" for now
  by unfold_locales (auto simp: stateVal_def Let_def intro: compute_op.op_evolves)

lemma legacy_return_inv: "entry_inv e \<Longrightarrow> entry_inv (legacy_return e)"
  by (auto simp: legacy_return_def entry_inv_def)

lemma record_entry_inv: "entry_inv e \<Longrightarrow> entry_inv (snd (record_entry s now wt ws ft ho rt rate e))"
  unfolding record_entry_def by (intro record_op.op_inv legacy_return_inv)

lemma tryAcquire_inv: "entry_inv e \<Longrightarrow> entry_inv (snd (tryAcquireHalfOpenPermit act e))"
  by (auto simp: tryAcquireHalfOpenPermit_def entry_inv_def)

lemma acquire_entry_inv:
  assumes "entry_inv e" and "acquire_entry key act now e = (b, p, ss, e')"
  shows "entry_inv e'"
proof -
  have "entry_inv (computeState now e)" using assms(1) by (rule compute_op.op_inv)
  then show ?thesis using assms(2)
    by (auto simp: acquire_entry_def Let_def entry_inv_def split: if_splits)
qed

lemma release_permit_inv: "entry_inv e \<Longrightarrow> entry_inv (release_permit p e)"
  by (auto simp: release_permit_def entry_inv_def)

end
