(* ===== verification/Breaker_Permits.thy ===== *)
theory Breaker_Permits
  imports Circuit_Breaker
begin

text \<open>
  Concurrency of one breaker entry. The source serialises every access to an entry with its
  mutex, so a run is an interleaving of locked sections: \<open>permit_step\<close> has one rule per
  section, for leases (\<open>AcquireAttempt\<close>, \<open>finish\<close>, \<open>Release\<close>) and for the older
  permit interface (\<open>AcquireHalfOpenPermit\<close>, \<open>ReleaseHalfOpenPermit\<close>,
  \<open>RecordRaw\<close>). The state is the entry with the multiset of outstanding leases of that key.
  \<open>permit_reach n\<close> counts the sections, because the 64-bit epoch and token counters
  wrap: the properties hold for the first \<open>2^62\<close> sections.
\<close>

type_synonym permit_state = "circuitBreakerEntry \<times> attemptPermit multiset"

inductive permit_step :: "permit_state \<Rightarrow> permit_state \<Rightarrow> bool" where
  acquire: "acquire_entry key act now e = (True, p, ss, e') \<Longrightarrow> permit_step (e, L) (e', add_mset p L)"
| refuse: "acquire_entry key act now e = (False, p, ss, e') \<Longrightarrow> permit_step (e, L) (e', L)"
| release: "permit_step (e, add_mset p L) (release_permit p e, L)"
| finish: "lease_valid p e \<Longrightarrow> lease_version v p e = (False, p1, e1) \<Longrightarrow>
    lease_record m s now wt ws ft ho rt rate p1 e1 = (p2, ss, e2) \<Longrightarrow>
    permit_step (e, add_mset p L) (e2, add_mset p2 L)"
| finish_reset: "lease_valid p e \<Longrightarrow> lease_version v p e = (True, p1, e1) \<Longrightarrow>
    permit_step (e, add_mset p L) (e1, add_mset p1 L)"
| finish_after_reset: "lease_valid p e \<Longrightarrow>
    lease_record m s now wt ws ft ho rt rate p e = (p2, ss, e2) \<Longrightarrow>
    permit_step (e, add_mset p L) (e2, add_mset p2 L)"
| legacy_acquire: "permit_step (e, L) (snd (tryAcquireHalfOpenPermit act e), L)"
| legacy_release: "permit_step (e, L) (legacy_return e, L)"
| legacy_record: "permit_step (e, L) (snd (record_entry s now wt ws ft ho rt rate (set_meta m e)), L)"
| query: "permit_step (e, L) (snd (stateVal now e), L)"
| reset: "permit_step (e, L) (snd (reset_entry e), L)"
| version: "permit_step (e, L) (snd (checkAndResetOnVersionChangeLocked v e), L)"
| relabel: "permit_step (e, L) (e\<lparr>e_modelCode := mc\<rparr>, L)"

inductive permit_reach :: "nat \<Rightarrow> permit_state \<Rightarrow> bool" where
  start: "permit_reach 0 (new_entry m, {#})"
| step: "permit_reach n s \<Longrightarrow> permit_step s t \<Longrightarrow> permit_reach (Suc n) t"

text \<open>A lease that still owns the entry's permit, that is, whose \<open>Release\<close> would give it back.\<close>

definition holds_permit :: "circuitBreakerEntry \<Rightarrow> attemptPermit \<Rightarrow> bool" where
  "holds_permit e p \<longleftrightarrow> pm_token p \<noteq> 0 \<and> pm_epoch p = e_attemptEpoch e \<and> pm_token p = e_permitToken e"

definition lease_ok :: "circuitBreakerEntry \<Rightarrow> attemptPermit \<Rightarrow> bool" where
  "lease_ok e p \<longleftrightarrow> unat (pm_token p) \<le> unat (e_nextToken e) \<and> unat (pm_epoch p) \<le> unat (e_attemptEpoch e) \<and>
     (pm_token p \<noteq> 0 \<longrightarrow> pm_epoch p = e_attemptEpoch e \<longrightarrow> pm_token p = e_permitToken e)"

definition tokens_unique :: "attemptPermit multiset \<Rightarrow> bool" where
  "tokens_unique L \<longleftrightarrow> (\<forall>t. t \<noteq> 0 \<longrightarrow> size {#p \<in># L. pm_token p = t#} \<le> 1)"

definition permit_owned :: "circuitBreakerEntry \<Rightarrow> attemptPermit multiset \<Rightarrow> bool" where
  "permit_owned e L \<longleftrightarrow> (e_permitToken e \<noteq> 0 \<longrightarrow> (\<exists>p\<in>#L. holds_permit e p))"

definition lease_inv :: "nat \<Rightarrow> permit_state \<Rightarrow> bool" where
  "lease_inv n s \<longleftrightarrow> (case s of (e, L) \<Rightarrow>
     entry_inv e \<and> unat (e_nextToken e) \<le> n \<and> unat (e_attemptEpoch e) \<le> 2 * n \<and>
     (\<forall>p\<in>#L. lease_ok e p) \<and> tokens_unique L \<and> permit_owned e L)"

lemma lease_invD:
  assumes "lease_inv n (e, L)"
  shows "entry_inv e" "unat (e_nextToken e) \<le> n" "unat (e_attemptEpoch e) \<le> 2 * n"
    "\<And>p. p \<in># L \<Longrightarrow> lease_ok e p" "tokens_unique L" "permit_owned e L"
  using assms by (simp_all add: lease_inv_def)

lemma lease_invI:
  assumes "entry_inv e" "unat (e_nextToken e) \<le> n" "unat (e_attemptEpoch e) \<le> 2 * n"
    "\<And>p. p \<in># L \<Longrightarrow> lease_ok e p" "tokens_unique L" "permit_owned e L"
  shows "lease_inv n (e, L)"
  using assms by (simp add: lease_inv_def)

subsection \<open>Preservation\<close>

lemma unat_plus_small:
  fixes w :: u64
  assumes "unat w + k < 2 ^ 64"
  shows "unat (w + of_nat k) = unat w + k"
  using assms by (simp add: unat_word_ariths unat_of_nat)

lemma lease_inv_frame:
  assumes "lease_inv n (e, L)" "entry_inv e'" "e_nextToken e' = e_nextToken e"
    "e_attemptEpoch e' = e_attemptEpoch e" "e_permitToken e' = e_permitToken e"
  shows "lease_inv n (e', L)"
  using assms by (simp add: lease_inv_def lease_ok_def permit_owned_def holds_permit_def)

lemma lease_inv_evolves:
  assumes inv: "lease_inv n (e, L)" and ev: "evolves k e e'" and k: "k \<le> 2" and small: "2 * n + 2 < 2 ^ 64"
  shows "lease_inv (Suc n) (e', L)"
proof (cases "k = 0")
  case True
  then have "lease_inv n (e', L)"
    using ev evolves_inv[OF ev] inv by (intro lease_inv_frame[OF inv]) (auto simp: evolves_def lease_inv_def)
  then show ?thesis by (auto simp: lease_inv_def)
next
  case False
  note D = lease_invD[OF inv]
  have nt: "e_nextToken e' = e_nextToken e" and pt: "e_permitToken e' = 0"
    and ep: "e_attemptEpoch e' = e_attemptEpoch e + of_nat k"
    using ev False by (auto simp: evolves_def)
  have un: "unat (e_attemptEpoch e') = unat (e_attemptEpoch e) + k"
    unfolding ep using D(3) small k by (intro unat_plus_small) simp
  show ?thesis
  proof (rule lease_invI)
    show "entry_inv e'" by (rule evolves_inv[OF ev D(1)])
    show "lease_ok e' p" if "p \<in># L" for p
      using D(4)[OF that] un False nt by (auto simp: lease_ok_def)
  qed (use D k un nt pt in \<open>simp_all add: permit_owned_def\<close>)
qed

lemma lease_inv_Suc: "lease_inv n s \<Longrightarrow> lease_inv (Suc n) s"
  by (auto simp: lease_inv_def split: prod.splits)

lemma filter_replace_le:
  assumes "size (filter_mset P (add_mset a L)) \<le> 1" and "P b \<Longrightarrow> P a"
  shows "size (filter_mset P (add_mset b L)) \<le> 1"
proof -
  have s: "size (filter_mset P (add_mset x L)) = size (filter_mset P L) + (if P x then 1 else 0)" for x by simp
  show ?thesis using assms unfolding s[of a] s[of b] by (cases "P b") (simp_all only: if_True if_False)
qed

lemma lease_inv_replace:
  assumes inv: "lease_inv n (e, add_mset p L)"
    and p': "pm_token p' = pm_token p \<and> pm_epoch p' = pm_epoch p
       \<or> pm_token p' = 0 \<and> pm_epoch p' = e_attemptEpoch e \<and> pm_epoch p \<noteq> e_attemptEpoch e"
  shows "lease_inv n (e, add_mset p' L)"
proof (rule lease_invI)
  note D = lease_invD[OF inv]
  show "lease_ok e q" if "q \<in># add_mset p' L" for q
  proof (cases "q = p'")
    case True
    have "lease_ok e p" by (simp add: D(4))
    with p' show ?thesis unfolding True by (elim disjE conjE) (simp_all add: lease_ok_def)
  next
    case False
    then show ?thesis using that by (simp add: D(4))
  qed
  show "tokens_unique (add_mset p' L)"
    unfolding tokens_unique_def
  proof (intro allI impI)
    fix t :: u64 assume t: "t \<noteq> 0"
    show "size {#q \<in># add_mset p' L. pm_token q = t#} \<le> 1"
    proof (rule filter_replace_le[where a = p])
      show "size {#q \<in># add_mset p L. pm_token q = t#} \<le> 1"
        using D(5) t unfolding tokens_unique_def by blast
      show "pm_token p = t" if "pm_token p' = t" using that p' t by (elim disjE conjE) simp_all
    qed
  qed
  have "holds_permit e p \<Longrightarrow> holds_permit e p'" using p' unfolding holds_permit_def by metis
  then show "permit_owned e (add_mset p' L)"
    using D(6) unfolding permit_owned_def by auto
qed (use lease_invD[OF inv] in simp_all)

lemma lease_inv_finish:
  assumes inv: "lease_inv n (e, add_mset p L)" and ev: "evolves k e e'" "k \<le> 2" "2 * n + 2 < 2 ^ 64"
    and p': "p' = (if pm_epoch p \<noteq> e_attemptEpoch e' then p\<lparr>pm_epoch := e_attemptEpoch e', pm_token := 0\<rparr> else p)
             \<or> (\<exists>v. p' = (if pm_epoch p \<noteq> e_attemptEpoch e' then p\<lparr>pm_epoch := e_attemptEpoch e', pm_token := 0, pm_version := v\<rparr> else p\<lparr>pm_version := v\<rparr>))"
  shows "lease_inv (Suc n) (e', add_mset p' L)"
  by (rule lease_inv_replace[OF lease_inv_evolves[OF inv ev]]) (use p' in \<open>auto split: if_splits\<close>)

lemma set_meta_evolves: "evolves 0 e (set_meta m e)"
  by (simp add: evolves_def set_meta_def)

lemma set_meta_frame [simp]:
  "e_attemptEpoch (set_meta m e) = e_attemptEpoch e" "e_policyVersion (set_meta m e) = e_policyVersion e"
  by (simp_all add: set_meta_def)

lemma lease_record_evolves:
  assumes "lease_record m s now wt ws ft ho rt rate p e = (p2, ss, e2)"
  shows "\<exists>k\<le>2. evolves k e e2"
    and "p2 = (if pm_epoch p \<noteq> e_attemptEpoch e2 then p\<lparr>pm_epoch := e_attemptEpoch e2, pm_token := 0\<rparr> else p)"
proof -
  have e2: "e2 = snd (recordLocked s now wt ws ft ho rt rate (set_meta m e))"
    and p2: "p2 = (if pm_epoch p \<noteq> e_attemptEpoch e2 then p\<lparr>pm_epoch := e_attemptEpoch e2, pm_token := 0\<rparr> else p)"
    using assms by (auto simp: lease_record_def split: prod.splits)
  obtain k where "k \<le> 2" "evolves k (set_meta m e) e2"
    unfolding e2 using record_op.op_evolves by blast
  then show "\<exists>k\<le>2. evolves k e e2" using evolves_trans[OF set_meta_evolves[of e m]] by force
  show "p2 = (if pm_epoch p \<noteq> e_attemptEpoch e2 then p\<lparr>pm_epoch := e_attemptEpoch e2, pm_token := 0\<rparr> else p)"
    by (rule p2)
qed

lemma lease_version_False:
  assumes "lease_version v p e = (False, p1, e1)"
  shows "evolves 0 e e1" "pm_epoch p1 = pm_epoch p" "pm_token p1 = pm_token p"
  using assms by (auto simp: lease_version_def checkAndResetOnVersionChangeLocked_def evolves_refl split: if_splits)

lemma lease_version_True:
  assumes "lease_version v p e = (True, p1, e1)"
  shows "evolves 1 e e1" "pm_epoch p1 = e_attemptEpoch e1" "pm_token p1 = 0"
  using assms clear_window_evolves[of e]
  by (auto simp: lease_version_def checkAndResetOnVersionChangeLocked_def split: if_splits)

lemma acquire_entry_cases:
  assumes "acquire_entry key act now e = (b, p, ss, e')"
  obtains (plain) "e' = computeState now e" "pm_token p = 0" "pm_epoch p = e_attemptEpoch e'"
  | (token) "e' = (computeState now e)\<lparr>e_nextToken := e_nextToken (computeState now e) + 1,
        e_permitToken := e_nextToken (computeState now e) + 1, e_activeCalls := e_activeCalls (computeState now e) + 1\<rparr>"
      "e_state (computeState now e) = CircuitHalfOpen" "e_activeCalls (computeState now e) < 1"
      "pm_token p = e_nextToken (computeState now e) + 1" "pm_epoch p = e_attemptEpoch e'" "b"
proof -
  let ?c = "computeState now e"
  let ?h = "e_state ?c = CircuitHalfOpen \<and> \<not> act \<and> e_activeCalls ?c < 1"
  show ?thesis
  proof (cases ?h)
    case True
    then show ?thesis using assms by (intro token) (simp_all add: acquire_entry_def Let_def, auto)
  next
    case False
    then have "\<not> ((e_state ?c = CircuitClosed \<or> ?h) \<and> e_state ?c = CircuitHalfOpen)" by auto
    then show ?thesis using assms by (intro plain) (simp_all only: acquire_entry_def Let_def if_False, auto)
  qed
qed

lemma lease_inv_add_plain:
  assumes inv: "lease_inv n (e, L)" and p: "pm_token p = 0" "pm_epoch p = e_attemptEpoch e"
  shows "lease_inv n (e, add_mset p L)"
  using lease_invD[OF inv] p
  by (intro lease_invI) (auto simp: lease_ok_def tokens_unique_def permit_owned_def)

lemma lease_inv_add_token:
  assumes inv: "lease_inv n (c, L)" and c: "e_state c = CircuitHalfOpen" "e_activeCalls c < 1"
    and p: "pm_token p = e_nextToken c + 1" "pm_epoch p = e_attemptEpoch c" and small: "n + 1 < 2 ^ 64"
  shows "lease_inv (Suc n) (c\<lparr>e_nextToken := e_nextToken c + 1, e_permitToken := e_nextToken c + 1,
     e_activeCalls := e_activeCalls c + 1\<rparr>, add_mset p L)" (is "lease_inv _ (?e, _)")
proof (rule lease_invI)
  note D = lease_invD[OF inv]
  have un: "unat (e_nextToken c + 1) = unat (e_nextToken c) + 1"
    using unat_plus_small[of "e_nextToken c" 1] D(2) small by simp
  then have nz: "e_nextToken c + 1 \<noteq> 0" by (metis add_is_0 unat_0 zero_neq_one)
  have c0: "e_activeCalls c = 0" and pt0: "e_permitToken c = 0" using D(1) c(2) by (auto simp: entry_inv_def)
  show "entry_inv ?e" using c0 c(1) by (simp add: entry_inv_def)
  show "unat (e_nextToken ?e) \<le> Suc n" using un D(2) by simp
  show "unat (e_attemptEpoch ?e) \<le> 2 * Suc n" using D(3) by simp
  have fresh: "pm_token q \<noteq> e_nextToken c + 1" if "q \<in># L" for q
    using D(4)[OF that] un by (auto simp: lease_ok_def)
  show "lease_ok ?e q" if "q \<in># add_mset p L" for q
  proof (cases "q = p")
    case True
    then show ?thesis using p by (simp add: lease_ok_def)
  next
    case False
    then show ?thesis using D(4)[of q] that un pt0 by (auto simp: lease_ok_def)
  qed
  show "tokens_unique (add_mset p L)"
    unfolding tokens_unique_def
  proof (intro allI impI)
    fix t :: u64 assume "t \<noteq> 0"
    moreover have "{#q \<in># L. pm_token q = e_nextToken c + 1#} = {#}" using fresh by auto
    ultimately show "size {#q \<in># add_mset p L. pm_token q = t#} \<le> 1"
      using D(5) p(1) by (cases "t = e_nextToken c + 1") (simp_all add: tokens_unique_def)
  qed
  show "permit_owned ?e (add_mset p L)" using p nz by (simp add: permit_owned_def holds_permit_def)
qed

lemma lease_inv_acquire:
  assumes inv: "lease_inv n (e, L)" and acq: "acquire_entry key act now e = (b, p, ss, e')"
    and small: "2 * n + 4 < 2 ^ 64"
  shows "b \<Longrightarrow> lease_inv (Suc (Suc n)) (e', add_mset p L)" and "\<not> b \<Longrightarrow> lease_inv (Suc (Suc n)) (e', L)"
proof -
  obtain k where "k \<le> 2" "evolves k e (computeState now e)" using compute_op.op_evolves by blast
  then have c: "lease_inv (Suc n) (computeState now e, L)" using lease_inv_evolves[OF inv] small by simp
  show "lease_inv (Suc (Suc n)) (e', add_mset p L)" if b
    using acq
  proof (cases rule: acquire_entry_cases)
    case plain
    then show ?thesis using lease_inv_add_plain[OF c] by (simp add: lease_inv_Suc)
  next
    case token
    then show ?thesis using lease_inv_add_token[OF c token(2,3,4)] small by simp
  qed
  show "lease_inv (Suc (Suc n)) (e', L)" if "\<not> b"
    using acq by (cases rule: acquire_entry_cases) (use that c in \<open>auto intro: lease_inv_Suc\<close>)
qed

subsection \<open>Reachable states\<close>

lemma lease_inv_release:
  assumes inv: "lease_inv n (e, add_mset p L)"
  shows "lease_inv n (release_permit p e, L)"
proof (rule lease_invI)
  note D = lease_invD[OF inv]
  show "entry_inv (release_permit p e)" by (rule release_permit_inv[OF D(1)])
  have uniq: "size {#q \<in># add_mset p L. pm_token q = t#} \<le> 1" if "t \<noteq> 0" for t
    using D(5) that unfolding tokens_unique_def by blast
  have others: "pm_token q \<noteq> pm_token p" if "q \<in># L" "pm_token p \<noteq> 0" for q
    using uniq[OF that(2)] that(1) by auto
  show "lease_ok (release_permit p e) q" if q: "q \<in># L" for q
  proof -
    have ok: "lease_ok e q" using D(4) q by simp
    show ?thesis
    proof (cases "holds_permit e p")
      case True
      then have "pm_token q \<noteq> e_permitToken e" using others[OF q] by (metis holds_permit_def)
      then show ?thesis using ok by (auto simp: lease_ok_def release_permit_def)
    next
      case False
      then have "release_permit p e = e" by (auto simp: release_permit_def holds_permit_def)
      then show ?thesis using ok by simp
    qed
  qed
  have "size {#q \<in># L. pm_token q = t#} \<le> size {#q \<in># add_mset p L. pm_token q = t#}" for t by simp
  then show "tokens_unique L" unfolding tokens_unique_def using uniq order_trans by blast
  show "permit_owned (release_permit p e) L"
    using D(6) by (auto simp: permit_owned_def release_permit_def holds_permit_def)
qed (use lease_invD(2,3)[OF inv] in \<open>auto simp: release_permit_def\<close>)

lemma lease_inv_weaken: "lease_inv n s \<Longrightarrow> n \<le> m \<Longrightarrow> lease_inv m s"
  by (auto simp: lease_inv_def split: prod.splits)

definition same_permit :: "circuitBreakerEntry \<Rightarrow> circuitBreakerEntry \<Rightarrow> bool" where
  "same_permit e e' \<longleftrightarrow> e_nextToken e' = e_nextToken e \<and> e_attemptEpoch e' = e_attemptEpoch e \<and>
     e_permitToken e' = e_permitToken e"

lemma same_permit_ops:
  "same_permit e (snd (tryAcquireHalfOpenPermit act e))" "same_permit e (legacy_return e)"
  "same_permit e (set_meta m e)" "same_permit e (e\<lparr>e_modelCode := mc\<rparr>)"
  by (simp_all add: same_permit_def tryAcquireHalfOpenPermit_def legacy_return_def set_meta_def)

lemma lease_inv_same: "lease_inv n (e, L) \<Longrightarrow> same_permit e e' \<Longrightarrow> entry_inv e' \<Longrightarrow> lease_inv n (e', L)"
  unfolding same_permit_def by (elim conjE) (rule lease_inv_frame)

lemma lease_inv_op:
  assumes "entry_op f" and "lease_inv n (e, L)" and "2 * n + 2 < 2 ^ 64"
  shows "lease_inv (Suc n) (f e, L)"
  using entry_op.op_evolves[OF assms(1), of e] lease_inv_evolves[OF assms(2) _ _ assms(3)] by blast

lemma lease_inv_legacy_record:
  assumes "lease_inv n (e, L)" and "2 * n + 2 < 2 ^ 64"
  shows "lease_inv (Suc n) (snd (record_entry s now wt ws ft ho rt rate (set_meta m e)), L)"
proof -
  have i1: "lease_inv n (set_meta m e, L)"
    using evolves_inv[OF set_meta_evolves lease_invD(1)[OF assms(1)]] by (rule lease_inv_same[OF assms(1) same_permit_ops(3)])
  have "lease_inv n (legacy_return (set_meta m e), L)"
    using legacy_return_inv[OF lease_invD(1)[OF i1]] by (rule lease_inv_same[OF i1 same_permit_ops(2)])
  from lease_inv_op[OF record_op.entry_op_axioms this assms(2)] show ?thesis unfolding record_entry_def .
qed

lemma lease_inv_lease_record:
  assumes "lease_inv n (e, add_mset p L)" "lease_record m s now wt ws ft ho rt rate p e = (p2, ss, e2)" "2 * n + 2 < 2 ^ 64"
  shows "lease_inv (Suc n) (e2, add_mset p2 L)"
proof -
  obtain k where k: "k \<le> 2" "evolves k e e2" using lease_record_evolves(1)[OF assms(2)] by blast
  show ?thesis
    using lease_record_evolves(2)[OF assms(2)] by (intro lease_inv_finish[OF assms(1) k(2,1) assms(3)] disjI1)
qed

lemma lease_inv_version_False:
  assumes "lease_inv n (e, add_mset p L)" "lease_version v p e = (False, p1, e1)" "2 * n + 2 < 2 ^ 64"
  shows "lease_inv (Suc n) (e1, add_mset p1 L)"
proof (rule lease_inv_replace)
  show "lease_inv (Suc n) (e1, add_mset p L)"
    by (rule lease_inv_evolves[OF assms(1) lease_version_False(1)[OF assms(2)] _ assms(3)]) simp
  show "pm_token p1 = pm_token p \<and> pm_epoch p1 = pm_epoch p \<or>
      pm_token p1 = 0 \<and> pm_epoch p1 = e_attemptEpoch e1 \<and> pm_epoch p \<noteq> e_attemptEpoch e1"
    using lease_version_False(2,3)[OF assms(2)] by simp
qed

lemma lease_inv_version_True:
  assumes "lease_inv n (e, add_mset p L)" "lease_version v p e = (True, p1, e1)" "2 * n + 2 < 2 ^ 64" "lease_valid p e"
  shows "lease_inv (Suc n) (e1, add_mset p1 L)"
proof (rule lease_inv_replace)
  note V = lease_version_True[OF assms(2)]
  show "lease_inv (Suc n) (e1, add_mset p L)"
    by (rule lease_inv_evolves[OF assms(1) V(1) _ assms(3)]) simp
  have "pm_epoch p \<noteq> e_attemptEpoch e1" using V(1) assms(4) by (simp add: evolves_def lease_valid_def)
  then show "pm_token p1 = pm_token p \<and> pm_epoch p1 = pm_epoch p \<or>
      pm_token p1 = 0 \<and> pm_epoch p1 = e_attemptEpoch e1 \<and> pm_epoch p \<noteq> e_attemptEpoch e1"
    using V(2,3) by simp
qed

lemma lease_inv_step:
  assumes st: "permit_step s t" and inv: "lease_inv n s" and small: "2 * n + 4 < 2 ^ 64"
  shows "lease_inv (n + 2) t"
proof -
  have s2: "2 * n + 2 < 2 ^ 64" and s3: "2 * Suc n + 2 < 2 ^ 64" using small by simp_all
  have up: "lease_inv n u \<Longrightarrow> lease_inv (n + 2) u" "lease_inv (Suc n) u \<Longrightarrow> lease_inv (n + 2) u"
    "lease_inv (Suc (Suc n)) u \<Longrightarrow> lease_inv (n + 2) u" for u
    by (erule lease_inv_weaken, simp)+
  from st inv show ?thesis
  proof (induction rule: permit_step.induct)
    case (acquire key act now e p ss e' L)
    then show ?case by (intro up(3) lease_inv_acquire(1)[OF _ _ small]) simp_all
  next
    case (refuse key act now e p ss e' L)
    from lease_inv_acquire(2)[OF refuse(2,1) small] show ?case by (intro up(3)) simp
  next
    case (release e p L)
    then show ?case by (intro up(1) lease_inv_release)
  next
    case (finish p e v p1 e1 m s now wt ws ft ho rt rate p2 ss e2 L)
    then show ?case by (intro up(3) lease_inv_lease_record[OF lease_inv_version_False[OF _ _ s2] _ s3])
  next
    case (finish_reset p e v p1 e1 L)
    then show ?case by (intro up(2) lease_inv_version_True[OF _ _ s2])
  next
    case (finish_after_reset p e m s now wt ws ft ho rt rate p2 ss e2 L)
    then show ?case by (intro up(2) lease_inv_lease_record[OF _ _ s2])
  next
    case (legacy_acquire e L act)
    then show ?case by (intro up(1) lease_inv_same[OF _ same_permit_ops(1)] tryAcquire_inv lease_invD(1))
  next
    case (legacy_release e L)
    then show ?case by (intro up(1) lease_inv_same[OF _ same_permit_ops(2)] legacy_return_inv lease_invD(1))
  next
    case (legacy_record e L s now wt ws ft ho rt rate m)
    then show ?case by (intro up(2) lease_inv_legacy_record[OF _ s2])
  next
    case (query e L now)
    then show ?case by (intro up(2) lease_inv_op[OF state_op.entry_op_axioms _ s2])
  next
    case (reset e L)
    then show ?case by (intro up(2) lease_inv_op[OF reset_op.entry_op_axioms _ s2])
  next
    case (version e L v)
    then show ?case by (intro up(2) lease_inv_op[OF version_op.entry_op_axioms _ s2])
  next
    case (relabel e L mc)
    then have "entry_inv (e\<lparr>e_modelCode := mc\<rparr>)" by (simp add: lease_inv_def entry_inv_def)
    with relabel show ?case by (intro up(1) lease_inv_same[OF _ same_permit_ops(4)])
  qed
qed

lemma permit_reach_inv: "permit_reach n s \<Longrightarrow> n \<le> 2 ^ 60 \<Longrightarrow> lease_inv (2 * n) s"
proof (induction rule: permit_reach.induct)
  case (start m)
  show ?case
    by (rule lease_invI) (simp_all add: new_entry_inv tokens_unique_def permit_owned_def, simp_all add: new_entry_def)
next
  case (step n s t)
  then have "lease_inv (2 * n + 2) t" by (intro lease_inv_step[OF step.hyps(2)]) simp_all
  then show ?case by simp
qed

subsection \<open>Properties\<close>

text \<open>(C1) Half-open probing is exclusive and never leaks: after any interleaving of at most
  \<open>2^60\<close> locked sections on an entry, at most one outstanding lease owns the probe permit, the
  in-flight counter is 0 or 1 and is 1 only in the half-open state, and whenever the entry records
  a token some outstanding lease owns it and can give it back.\<close>

theorem at_most_one_probe:
  assumes "permit_reach n (e, L)" and "n \<le> 2 ^ 60"
  shows "size {#p \<in># L. holds_permit e p#} \<le> 1 \<and> 0 \<le> e_activeCalls e \<and> e_activeCalls e \<le> 1 \<and>
    (e_activeCalls e = 1 \<longrightarrow> e_state e = CircuitHalfOpen) \<and>
    (e_permitToken e \<noteq> 0 \<longrightarrow> e_activeCalls e = 1 \<and> (\<exists>p\<in>#L. holds_permit e p))"
proof -
  note D = lease_invD[OF permit_reach_inv[OF assms]]
  have "size {#p \<in># L. holds_permit e p#} \<le> 1"
  proof (cases "e_permitToken e = 0")
    case True
    then have none: "{#p \<in># L. holds_permit e p#} = {#}" by (auto simp: holds_permit_def)
    show ?thesis by (simp only: none size_empty)
  next
    case False
    have "{#p \<in># L. holds_permit e p#} \<subseteq># {#p \<in># L. pm_token p = e_permitToken e#}"
      by (rule filter_mset_mono_strong) (auto simp: holds_permit_def)
    from size_mset_mono[OF this] show ?thesis using D(5) False unfolding tokens_unique_def by (meson order_trans)
  qed
  then show ?thesis using D(1,6) by (auto simp: entry_inv_def permit_owned_def)
qed

definition probe_demo_open :: circuitBreakerEntry where
  "probe_demo_open = snd (record_entry False 0 ''count'' 10 1 1 5 50
     (set_meta \<lparr>m_policyID = ''p'', m_policyName = ''p'', m_providerName = ''openai'', m_endpointCode = ''c'',
        m_tenant = '''', m_traceID = '''', m_requestID = ''''\<rparr> (new_entry ''gpt'')))"

lemma probe_demo_acquired: "fst (acquire_entry ''ep'' False 9 probe_demo_open)"
  by code_simp

lemma probe_demo_acquire:
  "acquire_entry ''ep'' False 9 probe_demo_open = (True, fst (snd (acquire_entry ''ep'' False 9 probe_demo_open)),
      fst (snd (snd (acquire_entry ''ep'' False 9 probe_demo_open))), snd (snd (snd (acquire_entry ''ep'' False 9 probe_demo_open))))"
  using probe_demo_acquired by (metis prod.collapse)

lemma probe_demo_reach:
  "permit_reach 2 (snd (snd (snd (acquire_entry ''ep'' False 9 probe_demo_open))),
     {#fst (snd (acquire_entry ''ep'' False 9 probe_demo_open))#})"
proof -
  have "permit_reach (Suc 0) (probe_demo_open, {#})"
    unfolding probe_demo_open_def by (rule permit_reach.step[OF permit_reach.start permit_step.legacy_record])
  from permit_reach.step[OF this permit_step.acquire[OF probe_demo_acquire]]
  show ?thesis by (simp add: numeral_2_eq_2)
qed

theorem at_most_one_probe_witness:
  "size {#p \<in># {#fst (snd (acquire_entry ''ep'' False 9 probe_demo_open))#}.
      holds_permit (snd (snd (snd (acquire_entry ''ep'' False 9 probe_demo_open)))) p#} \<le> 1
   \<and> fst (acquire_entry ''ep'' False 9 probe_demo_open)"
  using at_most_one_probe[OF probe_demo_reach] probe_demo_acquired by simp

text \<open>Releasing a lease cannot take the permit from another one: in every reachable state, if a
  lease \<open>q\<close> owns the permit then it still owns it after any other outstanding lease, stale or
  current, has been released.\<close>

theorem release_keeps_other_permit:
  assumes "permit_reach n (e, add_mset p (add_mset q L))" and "n \<le> 2 ^ 60" and "holds_permit e q"
  shows "holds_permit (release_permit p e) q \<and> e_activeCalls (release_permit p e) = 1"
proof -
  note D = lease_invD[OF permit_reach_inv[OF assms(1,2)]]
  have t: "pm_token q \<noteq> 0" "pm_token q = e_permitToken e" using assms(3) by (auto simp: holds_permit_def)
  have "size {#r \<in># add_mset p (add_mset q L). pm_token r = pm_token q#} \<le> 1"
    using D(5) t(1) unfolding tokens_unique_def by blast
  then have "pm_token p \<noteq> pm_token q" by (auto split: if_splits)
  then have "release_permit p e = e" using t(2) by (simp add: release_permit_def)
  then show ?thesis using assms(3) D(1) t by (auto simp: entry_inv_def)
qed

lemma probe_demo_stale:
  "permit_reach 3 (snd (snd (snd (acquire_entry ''ep'' False 9 probe_demo_open))),
     {#fst (snd (acquire_entry ''ep'' False 0 (new_entry ''gpt''))),
       fst (snd (acquire_entry ''ep'' False 9 probe_demo_open))#})"
proof -
  let ?p = "fst (snd (acquire_entry ''ep'' False 0 (new_entry ''gpt'')))"
  have n: "acquire_entry ''ep'' False 0 (new_entry ''gpt'') = (True, ?p, (CircuitClosed, CircuitClosed), new_entry ''gpt'')"
    by (simp add: acquire_entry_def new_entry_def computeState_def)
  have "permit_reach (Suc 0) (new_entry ''gpt'', {#?p#})"
    by (rule permit_reach.step[OF permit_reach.start permit_step.acquire[OF n]])
  then have 2: "permit_reach (Suc (Suc 0)) (probe_demo_open, {#?p#})"
    unfolding probe_demo_open_def by (rule permit_reach.step[OF _ permit_step.legacy_record])
  from permit_reach.step[OF 2 permit_step.acquire[OF probe_demo_acquire]] show ?thesis
    by (simp add: numeral_3_eq_3 add_mset_commute)
qed

lemma probe_demo_holds:
  "holds_permit (snd (snd (snd (acquire_entry ''ep'' False 9 probe_demo_open))))
     (fst (snd (acquire_entry ''ep'' False 9 probe_demo_open)))"
  by code_simp

theorem release_keeps_other_permit_witness:
  "e_activeCalls (release_permit (fst (snd (acquire_entry ''ep'' False 0 (new_entry ''gpt''))))
     (snd (snd (snd (acquire_entry ''ep'' False 9 probe_demo_open))))) = 1"
  using release_keeps_other_permit[OF probe_demo_stale _ probe_demo_holds] by simp

end
