(* ===== verification/Breaker_Windows.thy ===== *)
theory Breaker_Windows
  imports Circuit_Breaker
begin

text \<open>
  The sliding windows of the breaker against their specification. \<open>record_run\<close> feeds a list of
  timestamped outcomes to \<open>recordLocked\<close>; \<open>trips\<close> and \<open>time_trips\<close> say, on the bare
  list of outcomes, when a breaker with that configuration has to open. The theory also shows the
  way back: half-open probing closes the breaker after the configured number of successes and
  reopens it on the first failure.
\<close>

definition record_run :: "string \<Rightarrow> int \<Rightarrow> int \<Rightarrow> int \<Rightarrow> duration \<Rightarrow> rat \<Rightarrow> (bool \<times> instant) list \<Rightarrow>
    circuitBreakerEntry \<Rightarrow> circuitBreakerEntry" where
  "record_run wt ws ft ho rt rate os e =
     foldl (\<lambda>e (s, now). snd (recordLocked s now wt ws ft ho rt rate e)) e os"

lemma record_run_Nil [simp]: "record_run wt ws ft ho rt rate [] e = e"
  by (simp add: record_run_def)

lemma record_run_snoc [simp]:
  "record_run wt ws ft ho rt rate (os @ [(s, now)]) e =
     snd (recordLocked s now wt ws ft ho rt rate (record_run wt ws ft ho rt rate os e))"
  by (simp add: record_run_def)

subsection \<open>Field equations\<close>

lemma set_config_frame [simp]:
  "e_state (set_config wt ws ft ho rt e) = e_state e" "e_results (set_config wt ws ft ho rt e) = e_results e"
  "e_buckets (set_config wt ws ft ho rt e) = e_buckets e" "e_openSince (set_config wt ws ft ho rt e) = e_openSince e"
  by (simp_all add: set_config_def)

lemma set_config_pos [simp]:
  "wt \<noteq> '''' \<Longrightarrow> e_windowType (set_config wt ws ft ho rt e) = wt"
  "0 < ws \<Longrightarrow> e_windowSize (set_config wt ws ft ho rt e) = ws"
  "0 < ft \<Longrightarrow> e_failThresh (set_config wt ws ft ho rt e) = ft"
  "0 < ho \<Longrightarrow> e_hoSuccessThr (set_config wt ws ft ho rt e) = ho"
  "0 < rt \<Longrightarrow> e_recoveryTO (set_config wt ws ft ho rt e) = rt"
  by (simp_all add: set_config_def)

lemma open_report_frame [simp]:
  "e_state (open_report old rate e) = e_state e" "e_results (open_report old rate e) = e_results e"
  "e_buckets (open_report old rate e) = e_buckets e" "e_openSince (open_report old rate e) = e_openSince e"
  "e_windowType (open_report old rate e) = e_windowType e"
  by (simp_all add: open_report_def)

text \<open>The three cases of \<open>computeState\<close>, for an entry whose buckets need no expiry.\<close>

lemma computeState_closed:
  assumes "e_state e = CircuitClosed" "e_windowType e \<noteq> ''time''"
  shows "computeState now e = (if 0 < e_failThresh e \<and> e_failThresh e \<le> count_failures (e_results e)
     then e\<lparr>e_state := CircuitOpen, e_openSince := now\<rparr> else e)"
  using assms by (simp add: computeState_def window_failures_def)

lemma computeState_open_waits:
  assumes "e_state e = CircuitOpen" "e_windowType e \<noteq> ''time''" "time_sub now (e_openSince e) < e_recoveryTO e"
  shows "computeState now e = e"
  using assms by (simp add: computeState_def)

lemma computeState_open_keeps:
  assumes "e_state e = CircuitOpen" "time_sub now (e_openSince e) < e_recoveryTO e"
  shows "e_state (computeState now e) = CircuitOpen" "e_openSince (computeState now e) = e_openSince e"
    "e_recoveryTO (computeState now e) = e_recoveryTO e" "e_windowType (computeState now e) = e_windowType e"
  using assms by (simp_all add: computeState_def Let_def)

lemma add_sample_not_half_open:
  assumes "e_state e \<noteq> CircuitHalfOpen"
  shows "e_state (add_sample s now e) = e_state e" "e_openSince (add_sample s now e) = e_openSince e"
    "e_recoveryTO (add_sample s now e) = e_recoveryTO e" "e_windowType (add_sample s now e) = e_windowType e"
    "e_failThresh (add_sample s now e) = e_failThresh e" "e_windowSize (add_sample s now e) = e_windowSize e"
  using assms by (simp_all add: add_sample_def Let_def)

lemma recordLocked_open_keeps:
  assumes "e_state e = CircuitOpen" "time_sub now (e_openSince e) < rt" "0 < rt"
  shows "e_state (snd (recordLocked s now wt ws ft ho rt rate e)) = CircuitOpen"
    and "e_openSince (snd (recordLocked s now wt ws ft ho rt rate e)) = e_openSince e"
proof -
  let ?e1 = "set_config wt ws ft ho rt e"
  have 1: "e_state ?e1 = CircuitOpen" "time_sub now (e_openSince ?e1) < e_recoveryTO ?e1" using assms by simp_all
  note c = computeState_open_keeps[OF 1]
  have h: "e_state (computeState now ?e1) \<noteq> CircuitHalfOpen" using c(1) by simp
  note a = add_sample_not_half_open[OF h, of s now]
  have 3: "e_state (add_sample s now (computeState now ?e1)) = CircuitOpen"
    "time_sub now (e_openSince (add_sample s now (computeState now ?e1))) < e_recoveryTO (add_sample s now (computeState now ?e1))"
    using a c 1 by simp_all
  note c' = computeState_open_keeps[OF 3]
  show "e_state (snd (recordLocked s now wt ws ft ho rt rate e)) = CircuitOpen"
    "e_openSince (snd (recordLocked s now wt ws ft ho rt rate e)) = e_openSince e"
    using c' a c by (simp_all add: recordLocked_def Let_def)
qed

subsection \<open>The count window\<close>

definition trips :: "nat \<Rightarrow> int \<Rightarrow> bool list \<Rightarrow> bool" where
  "trips w thr outs = list_ex (\<lambda>n. thr \<le> count_failures (lastn w (take n outs))) [0..<Suc (length outs)]"

lemma trips_iff: "trips w thr outs \<longleftrightarrow> (\<exists>n\<le>length outs. thr \<le> count_failures (lastn w (take n outs)))"
  by (auto simp: trips_def list_ex_iff less_Suc_eq_le simp del: upt_Suc)

lemma trips_snoc: "trips w thr (outs @ [s]) \<longleftrightarrow> trips w thr outs \<or> thr \<le> count_failures (lastn w (outs @ [s]))"
proof -
  have "trips w thr (outs @ [s]) \<longleftrightarrow> (\<exists>n\<le>Suc (length outs). thr \<le> count_failures (lastn w (take n (outs @ [s]))))"
    by (simp add: trips_iff)
  also have "\<dots> \<longleftrightarrow> (\<exists>n\<le>length outs. thr \<le> count_failures (lastn w (take n (outs @ [s])))) \<or>
      thr \<le> count_failures (lastn w (outs @ [s]))"
    by (auto simp: le_Suc_eq)
  also have "(\<exists>n\<le>length outs. thr \<le> count_failures (lastn w (take n (outs @ [s])))) \<longleftrightarrow> trips w thr outs"
    by (auto simp: trips_iff)
  finally show ?thesis .
qed

lemma recordLocked_closed_count:
  assumes e: "e_state e = CircuitClosed" "count_failures (e_results e) < ft"
    and cfg: "wt \<noteq> ''time''" "wt \<noteq> ''''" "0 < ws" "0 < ft"
  shows "e_results (snd (recordLocked s now wt ws ft ho rt rate e)) = go_push (nat ws) (e_results e) s"
    and "e_state (snd (recordLocked s now wt ws ft ho rt rate e)) =
       (if ft \<le> count_failures (go_push (nat ws) (e_results e) s) then CircuitOpen else CircuitClosed)"
    and "e_state (snd (recordLocked s now wt ws ft ho rt rate e)) = CircuitOpen \<Longrightarrow>
       e_openSince (snd (recordLocked s now wt ws ft ho rt rate e)) = now"
proof -
  let ?e1 = "set_config wt ws ft ho rt e"
  have 2: "computeState now ?e1 = ?e1" using e cfg by (simp add: computeState_closed)
  have 3: "add_sample s now ?e1 = ?e1\<lparr>e_results := go_push (nat ws) (e_results e) s\<rparr>"
    using e cfg by (simp add: add_sample_def)
  have 4: "computeState now (add_sample s now (computeState now ?e1)) =
      (if ft \<le> count_failures (go_push (nat ws) (e_results e) s)
       then ?e1\<lparr>e_results := go_push (nat ws) (e_results e) s, e_state := CircuitOpen, e_openSince := now\<rparr>
       else ?e1\<lparr>e_results := go_push (nat ws) (e_results e) s\<rparr>)"
    unfolding 2 3 using e cfg by (subst computeState_closed) simp_all
  show "e_results (snd (recordLocked s now wt ws ft ho rt rate e)) = go_push (nat ws) (e_results e) s"
    "e_state (snd (recordLocked s now wt ws ft ho rt rate e)) =
       (if ft \<le> count_failures (go_push (nat ws) (e_results e) s) then CircuitOpen else CircuitClosed)"
    "e_state (snd (recordLocked s now wt ws ft ho rt rate e)) = CircuitOpen \<Longrightarrow>
       e_openSince (snd (recordLocked s now wt ws ft ho rt rate e)) = now"
    using e(1) by (simp_all add: recordLocked_def Let_def 4 split: if_splits)
qed

lemma record_run_count:
  assumes cfg: "wt \<noteq> ''time''" "wt \<noteq> ''''" "0 < ws" "0 < ft" "0 < rt" "rt < 2 ^ 63"
    and times: "\<forall>x\<in>set os. \<forall>y\<in>set os. snd x - snd y < rt"
  shows "if trips (nat ws) ft (map fst os)
     then e_state (record_run wt ws ft ho rt rate os (new_entry m)) = CircuitOpen \<and>
       e_openSince (record_run wt ws ft ho rt rate os (new_entry m)) \<in> snd ` set os
     else e_state (record_run wt ws ft ho rt rate os (new_entry m)) = CircuitClosed \<and>
       e_results (record_run wt ws ft ho rt rate os (new_entry m)) = lastn (nat ws) (map fst os) \<and>
       count_failures (lastn (nat ws) (map fst os)) < ft"
  using times
proof (induction os rule: rev_induct)
  case Nil
  then show ?case using cfg by (simp add: trips_def new_entry_def count_failures_def)
next
  case (snoc x os)
  obtain s now where x: "x = (s, now)" by (cases x)
  let ?r = "record_run wt ws ft ho rt rate os (new_entry m)"
  from snoc.prems have "\<forall>x\<in>set os. \<forall>y\<in>set os. snd x - snd y < rt" by simp
  note IH = snoc.IH[OF this]
  show ?case
  proof (cases "trips (nat ws) ft (map fst os)")
    case True
    with IH have o: "e_state ?r = CircuitOpen" "e_openSince ?r \<in> snd ` set os" by simp_all
    have "now - e_openSince ?r < rt" using snoc.prems o(2) x by auto
    then have "time_sub now (e_openSince ?r) < rt" using cfg by (simp add: time_sub_def)
    note k = recordLocked_open_keeps[OF o(1) this cfg(5)]
    show ?thesis using True k o(2) by (simp add: x trips_snoc)
  next
    case False
    with IH have c: "e_state ?r = CircuitClosed" "e_results ?r = lastn (nat ws) (map fst os)"
      "count_failures (e_results ?r) < ft" by simp_all
    note k = recordLocked_closed_count[OF c(1,3) cfg(1-4), of s now ho rt rate]
    have p: "go_push (nat ws) (e_results ?r) s = lastn (nat ws) (map fst os @ [s])"
      using c(2) cfg(3) by (simp add: go_push_lastn)
    show ?thesis
    proof (cases "ft \<le> count_failures (lastn (nat ws) (map fst os @ [s]))")
      case True
      then show ?thesis using k p by (simp add: x trips_snoc)
    next
      case F: False
      then show ?thesis using k p False by (simp add: x trips_snoc)
    qed
  qed
qed



subsection \<open>Recovery through the half-open state\<close>

lemma count_all_True: "count_failures (replicate n True) = 0" "count_successes (replicate n True) = int n"
  by (simp_all add: count_failures_def count_successes_def)

lemma go_push_replicate: "n < k \<Longrightarrow> go_push k (replicate n True) True = replicate (Suc n) True"
  by (simp add: go_push_def Let_def replicate_append_same)

lemma go_push_all_True: "set xs \<subseteq> {True} \<Longrightarrow> set (go_push k xs True) \<subseteq> {True}"
  using set_go_push[of k xs True] by auto

lemma count_failures_0_iff: "count_failures xs = 0 \<longleftrightarrow> set xs \<subseteq> {True}"
  by (auto simp: count_failures_def filter_empty_conv)

definition no_failures :: "circuitBreakerEntry \<Rightarrow> bool" where
  "no_failures e \<longleftrightarrow> set (e_results e) \<subseteq> {True} \<and> (\<forall>b\<in>set (e_buckets e). tb_failures b = 0)"

lemma no_failures_window: "no_failures e \<Longrightarrow> window_failures e = 0"
proof -
  assume nf: "no_failures e"
  then have "sum_list (map tb_failures (e_buckets e)) = 0"
    by (intro sum_list_all_0) (simp add: no_failures_def)
  then show ?thesis using nf by (simp add: window_failures_def count_failures_0_iff no_failures_def)
qed

lemma no_failures_expire: "no_failures e \<Longrightarrow> no_failures (expireBuckets now e)"
  by (auto simp: no_failures_def expireBuckets_def Let_def dest: set_dropWhileD)

lemma computeState_closed_no_failures:
  assumes "e_state e = CircuitClosed" "no_failures e"
  shows "computeState now e = (if e_windowType e = ''time'' then expireBuckets now e else e)"
proof -
  let ?e = "if e_windowType e = ''time'' then expireBuckets now e else e"
  have "window_failures (expireBuckets now e) = 0" "window_failures e = 0"
    using assms(2) by (auto intro: no_failures_window no_failures_expire)
  then show ?thesis using assms(1) by (simp add: computeState_def Let_def)
qed

lemma no_failures_add_bucket:
  "\<forall>b\<in>set bs. tb_failures b = 0 \<Longrightarrow> \<forall>b\<in>set (add_bucket True now bs). tb_failures b = 0"
  by (auto simp: add_bucket_def bucket_hit_def Let_def dest: in_set_butlastD)

lemma no_failures_add_sample:
  assumes "no_failures e" "e_state e \<noteq> CircuitHalfOpen"
  shows "no_failures (add_sample True now e)"
proof (cases "e_windowType e = ''time''")
  case True
  have "no_failures (e\<lparr>e_buckets := add_bucket True now (e_buckets e)\<rparr>)"
    using assms(1) no_failures_add_bucket[of "e_buckets e" now] by (auto simp: no_failures_def)
  then show ?thesis using assms(2) True by (simp add: add_sample_def no_failures_expire)
next
  case False
  then show ?thesis using assms go_push_all_True[of "e_results e"] by (simp add: add_sample_def no_failures_def)
qed

lemma record_success_closed:
  assumes "e_state e = CircuitClosed" "no_failures e"
  shows "e_state (snd (recordLocked True now wt ws ft ho rt rate e)) = CircuitClosed"
    and "no_failures (snd (recordLocked True now wt ws ft ho rt rate e))"
proof -
  let ?e1 = "set_config wt ws ft ho rt e"
  have 1: "e_state ?e1 = CircuitClosed" "no_failures ?e1" using assms by (simp_all add: no_failures_def)
  have 2: "e_state (computeState now ?e1) = CircuitClosed" "no_failures (computeState now ?e1)"
    using computeState_closed_no_failures[OF 1, of now] 1 by (simp_all add: no_failures_expire)
  let ?e3 = "add_sample True now (computeState now ?e1)"
  have 3: "e_state ?e3 = CircuitClosed" "no_failures ?e3"
    using 2 add_sample_not_half_open(1) no_failures_add_sample by simp_all
  have 4: "e_state (computeState now ?e3) = CircuitClosed" "no_failures (computeState now ?e3)"
    using computeState_closed_no_failures[OF 3, of now] 3 by (simp_all add: no_failures_expire)
  show "e_state (snd (recordLocked True now wt ws ft ho rt rate e)) = CircuitClosed"
    "no_failures (snd (recordLocked True now wt ws ft ho rt rate e))"
    using 4 by (simp_all add: recordLocked_def Let_def no_failures_def)
qed

text \<open>An entry that is half-open, or open with its timeout elapsed at \<open>now\<close>, and holds
  \<open>n\<close> successful probes so far.\<close>

definition probing :: "nat \<Rightarrow> instant \<Rightarrow> duration \<Rightarrow> circuitBreakerEntry \<Rightarrow> bool" where
  "probing n now rt e \<longleftrightarrow>
     (e_state e = CircuitHalfOpen \<and> e_results e = replicate n True \<and> e_buckets e = []) \<or>
     (e_state e = CircuitOpen \<and> n = 0 \<and> rt \<le> time_sub now (e_openSince e))"

lemma expire_empty: "e_buckets e = [] \<Longrightarrow> expireBuckets now e = e"
  by (cases e) (simp add: expireBuckets_def)

lemma computeState_probing:
  assumes "probing n now rt e" "0 < ho" "int n < ho" "0 < rt"
  shows "e_state (computeState now (set_config wt ws ft ho rt e)) = CircuitHalfOpen \<and>
    e_results (computeState now (set_config wt ws ft ho rt e)) = replicate n True \<and>
    e_buckets (computeState now (set_config wt ws ft ho rt e)) = [] \<and>
    e_hoSuccessThr (computeState now (set_config wt ws ft ho rt e)) = ho"
  using assms(1) unfolding probing_def
proof (elim disjE conjE)
  assume "e_state e = CircuitHalfOpen" "e_results e = replicate n True" "e_buckets e = []"
  then show ?thesis
    using assms(2-4) by (simp add: computeState_def Let_def count_all_True expire_empty)
next
  assume "e_state e = CircuitOpen" "n = 0" "rt \<le> time_sub now (e_openSince e)"
  then show ?thesis
    using assms(2-4) by (simp add: computeState_def Let_def invalidateAttempts_def)
qed

lemma computeState_half_open:
  assumes "e_state e = CircuitHalfOpen" "e_buckets e = []"
  shows "e_state (computeState now e) = (if count_failures (e_results e) > 0 then CircuitOpen
      else if count_successes (e_results e) \<ge> (if e_hoSuccessThr e \<le> 0 then 1 else e_hoSuccessThr e) then CircuitClosed
      else CircuitHalfOpen)"
    and "e_buckets (computeState now e) = []"
    and "count_failures (e_results e) = 0 \<Longrightarrow> e_results (computeState now e) = e_results e"
    and "count_failures (e_results e) > 0 \<Longrightarrow> e_openSince (computeState now e) = now"
    and "count_failures (e_results e) > 0 \<Longrightarrow> e_results (computeState now e) = []"
  using assms by (simp_all add: computeState_def Let_def invalidateAttempts_def expire_empty)

lemma record_probe:
  assumes pr: "probing n now rt e" and cfg: "0 < ho" "int n < ho" "0 < rt"
  shows "e_state (snd (recordLocked True now wt ws ft ho rt rate e)) =
      (if int (Suc n) = ho then CircuitClosed else CircuitHalfOpen)"
    and "e_results (snd (recordLocked True now wt ws ft ho rt rate e)) = replicate (Suc n) True"
    and "e_buckets (snd (recordLocked s now wt ws ft ho rt rate e)) = []"
    and "e_state (snd (recordLocked False now wt ws ft ho rt rate e)) = CircuitOpen"
    and "e_openSince (snd (recordLocked False now wt ws ft ho rt rate e)) = now"
    and "e_results (snd (recordLocked False now wt ws ft ho rt rate e)) = []"
proof -
  let ?e2 = "computeState now (set_config wt ws ft ho rt e)"
  note c = computeState_probing[OF pr cfg, of wt ws ft]
  let ?e3 = "\<lambda>s. add_sample s now ?e2"
  have 3: "e_state (?e3 s) = CircuitHalfOpen" "e_buckets (?e3 s) = []" "e_hoSuccessThr (?e3 s) = ho"
    "e_results (?e3 s) = go_push (nat ho) (replicate n True) s" for s
    using c cfg by (simp_all add: add_sample_def)
  have r: "e_results (?e3 True) = replicate (Suc n) True" using 3(4)[of True] cfg go_push_replicate[of n "nat ho"] by simp
  have "go_push (nat ho) (replicate n True) False = replicate n True @ [False]" using cfg by (auto simp: go_push_def Let_def)
  then have f: "count_failures (e_results (?e3 False)) > 0" using 3(4)[of False] by (simp add: count_failures_def)
  have z: "count_failures (e_results (?e3 True)) = 0" "count_successes (e_results (?e3 True)) = int (Suc n)"
    unfolding r by (rule count_all_True)+
  note T = computeState_half_open[OF 3(1,2)[of True], of now] and F = computeState_half_open[OF 3(1,2)[of False], of now]
  show "e_state (snd (recordLocked True now wt ws ft ho rt rate e)) = (if int (Suc n) = ho then CircuitClosed else CircuitHalfOpen)"
    using T(1) z 3(3)[of True] cfg by (simp add: recordLocked_def Let_def)
  show "e_results (snd (recordLocked True now wt ws ft ho rt rate e)) = replicate (Suc n) True"
    using T(3) z(1) r by (simp add: recordLocked_def Let_def)
  show "e_buckets (snd (recordLocked s now wt ws ft ho rt rate e)) = []"
    using computeState_half_open(2)[OF 3(1,2)[of s], of now] by (simp add: recordLocked_def Let_def)
  show "e_state (snd (recordLocked False now wt ws ft ho rt rate e)) = CircuitOpen"
    "e_openSince (snd (recordLocked False now wt ws ft ho rt rate e)) = now"
    "e_results (snd (recordLocked False now wt ws ft ho rt rate e)) = []"
    using F(1,4,5) f by (simp_all add: recordLocked_def Let_def)
qed

lemma record_run_probes:
  assumes e: "e_state e = CircuitOpen" "rt \<le> time_sub t0 (e_openSince e)" and cfg: "0 < ho" "0 < rt"
  shows "0 < length ts \<Longrightarrow> ts ! 0 = t0 \<Longrightarrow>
    (if int (length ts) < ho
     then probing (length ts) t rt (record_run wt ws ft ho rt rate (map (Pair True) ts) e) \<and>
       e_state (record_run wt ws ft ho rt rate (map (Pair True) ts) e) = CircuitHalfOpen
     else e_state (record_run wt ws ft ho rt rate (map (Pair True) ts) e) = CircuitClosed \<and>
       no_failures (record_run wt ws ft ho rt rate (map (Pair True) ts) e))"
proof (induction ts arbitrary: t rule: rev_induct)
  case Nil
  then show ?case by simp
next
  case (snoc now ts)
  let ?r = "record_run wt ws ft ho rt rate (map (Pair True) ts) e"
  let ?n = "length ts"
  show ?case
  proof (cases "int ?n < ho")
    case True
    have pr: "probing ?n now rt ?r"
    proof (cases ts)
      case Nil
      then show ?thesis using e snoc.prems(2) by (simp add: probing_def)
    next
      case (Cons a as)
      then show ?thesis using snoc.IH[of now] snoc.prems(2) True by simp
    qed
    note k = record_probe(1,2)[OF pr cfg(1) True cfg(2), of wt ws ft rate]
    have b: "e_buckets (snd (recordLocked True now wt ws ft ho rt rate ?r)) = []"
      by (rule record_probe(3)[OF pr cfg(1) True cfg(2)])
    have nf: "no_failures (snd (recordLocked True now wt ws ft ho rt rate ?r))"
      using k(2) b by (auto simp: no_failures_def)
    show ?thesis
      using k(1,2) b nf True by (auto simp: probing_def)
  next
    case False
    then have "0 < ?n" using cfg by auto
    with snoc.IH[of now] snoc.prems(2) False have "e_state ?r = CircuitClosed" "no_failures ?r"
      by (auto simp: nth_append split: if_splits)
    note k = record_success_closed[OF this, of now wt ws ft ho rt rate]
    then show ?thesis using False by simp
  qed
qed

text \<open>(C34) Recovery: once the recovery timeout has elapsed, recording successes takes an open breaker
  to half-open, keeps it there for fewer than \<open>ho\<close> probes and closes it from the \<open>ho\<close>-th on;
  one failed probe instead reopens it at once, with the timeout restarted and the window empty.\<close>

theorem open_breaker_recovers:
  assumes "e_state e = CircuitOpen" and "rt \<le> time_sub t0 (e_openSince e)" and "0 < ho" and "0 < rt"
  shows "e_state (record_run wt ws ft ho rt rate (map (Pair True) (t0 # ts)) e) =
       (if int (length (t0 # ts)) < ho then CircuitHalfOpen else CircuitClosed) \<and>
     (int (length (t0 # ts)) < ho \<longrightarrow>
       (let e' = snd (recordLocked False now wt ws ft ho rt rate
                        (record_run wt ws ft ho rt rate (map (Pair True) (t0 # ts)) e))
        in e_state e' = CircuitOpen \<and> e_openSince e' = now \<and> e_results e' = []))"
proof -
  note R = record_run_probes[OF assms, of "t0 # ts" now wt ws ft rate]
  have "e_state e' = CircuitOpen \<and> e_openSince e' = now \<and> e_results e' = []"
    if "int (length (t0 # ts)) < ho"
      and "e' = snd (recordLocked False now wt ws ft ho rt rate (record_run wt ws ft ho rt rate (map (Pair True) (t0 # ts)) e))" for e'
  proof -
    have "probing (length (t0 # ts)) now rt (record_run wt ws ft ho rt rate (map (Pair True) (t0 # ts)) e)"
      using R that(1) by (simp del: list.map)
    from record_probe(4-6)[OF this assms(3) that(1) assms(4)] show ?thesis unfolding that(2) by blast
  qed
  then show ?thesis using R by (simp add: Let_def del: list.map)
qed

theorem open_breaker_recovers_witness:
  "e_state (record_run ''count'' 3 1 2 10 0 (map (Pair True) [20, 21]) ((new_entry ''m'')\<lparr>e_state := CircuitOpen, e_openSince := 5\<rparr>)) = CircuitClosed"
  using open_breaker_recovers[of "(new_entry ''m'')\<lparr>e_state := CircuitOpen, e_openSince := 5\<rparr>" 10 20 2 "''count''" 3 1 0 "[21]" 0]
  by (simp add: time_sub_def)

subsection \<open>The time window\<close>

definition failures_since :: "instant \<Rightarrow> (bool \<times> instant) list \<Rightarrow> int" where
  "failures_since hz evs = int (length (filter (\<lambda>(s, t). \<not> s \<and> hz \<le> time_truncate t second) evs))"

text \<open>Specification of the time window: at some recorded outcome, the failures whose second lies
  within the last \<open>ws\<close> seconds number at least \<open>thr\<close>.\<close>

definition time_trips :: "int \<Rightarrow> int \<Rightarrow> (bool \<times> instant) list \<Rightarrow> bool" where
  "time_trips ws thr evs = list_ex (\<lambda>n. thr \<le> failures_since (snd (evs ! n) - ws * second) (take (Suc n) evs)) [0..<length evs]"

lemma time_trips_snoc:
  "time_trips ws thr (evs @ [(s, t)]) \<longleftrightarrow> time_trips ws thr evs \<or> thr \<le> failures_since (t - ws * second) (evs @ [(s, t)])"
  by (auto simp: time_trips_def list_ex_iff nth_append less_Suc_eq)

lemma failures_since_snoc:
  "failures_since hz (evs @ [(s, t)]) = failures_since hz evs + (if \<not> s \<and> hz \<le> time_truncate t second then 1 else 0)"
  by (simp add: failures_since_def)

lemma failures_since_antimono: "l \<le> l' \<Longrightarrow> failures_since l' evs \<le> failures_since l evs"
  unfolding failures_since_def of_nat_le_iff by (induction evs) auto

definition bucket_failures_since :: "instant \<Rightarrow> timeBucket list \<Rightarrow> int" where
  "bucket_failures_since hz bs = sum_list (map tb_failures (filter (\<lambda>b. hz \<le> tb_timestamp b) bs))"

text \<open>The buckets agree with the evs for every horizon not older than \<open>hz\<close>.\<close>

definition buckets_refine :: "instant \<Rightarrow> (bool \<times> instant) list \<Rightarrow> timeBucket list \<Rightarrow> bool" where
  "buckets_refine hz evs bs \<longleftrightarrow> sorted (map tb_timestamp bs) \<and>
     (\<forall>b\<in>set bs. \<exists>x\<in>set evs. tb_timestamp b = time_truncate (snd x) second) \<and>
     (\<forall>l\<ge>hz. bucket_failures_since l bs = failures_since l evs)"

lemma bucket_failures_add:
  "bucket_failures_since l (add_bucket s now bs) = bucket_failures_since l bs + (if \<not> s \<and> l \<le> time_truncate now second then 1 else 0)"
proof (cases "bs \<noteq> [] \<and> tb_timestamp (last bs) = time_truncate now second")
  case True
  then obtain ys b where "bs = ys @ [b]" by (metis append_butlast_last_id)
  then show ?thesis using True by (auto simp: add_bucket_def bucket_failures_since_def bucket_hit_def Let_def)
next
  case False
  then show ?thesis by (auto simp: add_bucket_def bucket_failures_since_def bucket_hit_def Let_def)
qed

lemma timestamps_add_bucket:
  "map tb_timestamp (add_bucket s now bs) =
     (if bs \<noteq> [] \<and> tb_timestamp (last bs) = time_truncate now second then map tb_timestamp bs
      else map tb_timestamp bs @ [time_truncate now second])"
proof (cases "bs \<noteq> [] \<and> tb_timestamp (last bs) = time_truncate now second")
  case True
  then obtain ys b where "bs = ys @ [b]" by (metis append_butlast_last_id)
  then show ?thesis using True by (simp add: add_bucket_def bucket_hit_def Let_def)
next
  case False
  then show ?thesis by (auto simp: add_bucket_def bucket_hit_def Let_def)
qed

lemma dropWhile_sorted_filter:
  "sorted (map tb_timestamp bs) \<Longrightarrow> dropWhile (\<lambda>b. tb_timestamp b < l) bs = filter (\<lambda>b. l \<le> tb_timestamp b) bs"
proof (induction bs)
  case Nil
  then show ?case by simp
next
  case (Cons b bs)
  have "\<forall>x\<in>set bs. tb_timestamp b \<le> tb_timestamp x" using Cons.prems by simp
  then have "l \<le> tb_timestamp b \<Longrightarrow> filter (\<lambda>b. l \<le> tb_timestamp b) bs = bs"
    by (intro filter_True) (auto intro: order_trans)
  then show ?case using Cons by auto
qed

lemma buckets_refine_expire:
  assumes "buckets_refine hz evs bs" "hz \<le> l"
  shows "buckets_refine l evs (dropWhile (\<lambda>b. tb_timestamp b < l) bs)"
    and "sum_list (map tb_failures (dropWhile (\<lambda>b. tb_timestamp b < l) bs)) = failures_since l evs"
proof -
  have s: "sorted (map tb_timestamp bs)" using assms(1) by (simp add: buckets_refine_def)
  note d = dropWhile_sorted_filter[OF s, of l]
  have "sorted (map tb_timestamp (filter (\<lambda>b. l \<le> tb_timestamp b) bs))" using s by (rule sorted_filter)
  moreover have "filter (\<lambda>b. k \<le> tb_timestamp b) (filter (\<lambda>b. l \<le> tb_timestamp b) bs) = filter (\<lambda>b. k \<le> tb_timestamp b) bs"
    if "l \<le> k" for k using that by (induction bs) auto
  ultimately show "buckets_refine l evs (dropWhile (\<lambda>b. tb_timestamp b < l) bs)"
    using assms unfolding d by (auto simp: buckets_refine_def bucket_failures_since_def)
  show "sum_list (map tb_failures (dropWhile (\<lambda>b. tb_timestamp b < l) bs)) = failures_since l evs"
    using assms unfolding d by (simp add: buckets_refine_def bucket_failures_since_def)
qed

lemma time_truncate_mono: "a \<le> b \<Longrightarrow> time_truncate a second \<le> time_truncate b second"
proof -
  assume "a \<le> b"
  then have "a div second \<le> b div second" by (intro zdiv_mono1) (simp_all add: second_def)
  then have "(a div second) * second \<le> (b div second) * second" by (intro mult_right_mono) (simp_all add: second_def)
  moreover have "0 < second" by (simp add: second_def)
  ultimately show ?thesis by (simp add: time_truncate_def minus_mod_eq_div_mult)
qed

lemma buckets_refine_add:
  assumes "buckets_refine hz evs bs" "\<forall>x\<in>set evs. snd x \<le> now"
  shows "buckets_refine hz (evs @ [(s, now)]) (add_bucket s now bs)"
proof -
  have le: "\<forall>b\<in>set bs. tb_timestamp b \<le> time_truncate now second"
    using assms time_truncate_mono by (fastforce simp: buckets_refine_def)
  have sorted: "sorted (map tb_timestamp (add_bucket s now bs))"
    using assms(1) le unfolding timestamps_add_bucket by (auto simp: buckets_refine_def sorted_append)
  have "tb_timestamp ` set (add_bucket s now bs) \<subseteq> tb_timestamp ` set bs \<union> {time_truncate now second}"
    using arg_cong[OF timestamps_add_bucket[of s now bs], of set] by (auto split: if_splits)
  then have mem: "\<forall>b\<in>set (add_bucket s now bs). \<exists>x\<in>set (evs @ [(s, now)]). tb_timestamp b = time_truncate (snd x) second"
    using assms(1) by (fastforce simp: buckets_refine_def)
  show ?thesis
    using assms(1) sorted mem by (simp add: buckets_refine_def bucket_failures_add failures_since_snoc)
qed

lemma expire_time:
  assumes "0 < ws" "ws * second < 2 ^ 63" "e_windowSize e = ws"
  shows "expireBuckets now e = e\<lparr>e_buckets := dropWhile (\<lambda>b. tb_timestamp b < now - ws * second) (e_buckets e)\<rparr>"
proof -
  have "go_mul (- ws) second = - (ws * second)"
    unfolding go_mul_def using assms(1,2) by (subst wrap64_id) (simp_all add: second_def)
  then show ?thesis using assms(1,3) by (simp add: expireBuckets_def time_add_def)
qed

lemma computeState_closed_time:
  assumes "e_state e = CircuitClosed" "e_windowType e = ''time''" "e_windowSize e = ws" "0 < ws" "ws * second < 2 ^ 63"
    "e_failThresh e = ft" "0 < ft" and refine: "buckets_refine hz evs (e_buckets e)" "hz \<le> now - ws * second"
  shows "buckets_refine (now - ws * second) evs (e_buckets (computeState now e))"
    and "e_state (computeState now e) = (if ft \<le> failures_since (now - ws * second) evs then CircuitOpen else CircuitClosed)"
    and "e_state (computeState now e) = CircuitOpen \<Longrightarrow> e_openSince (computeState now e) = now"
    and "e_windowType (computeState now e) = ''time''" "e_windowSize (computeState now e) = ws" "e_failThresh (computeState now e) = ft"
proof -
  note x = expire_time[OF assms(4,5,3), of now] and r = buckets_refine_expire[OF refine]
  have w: "window_failures (expireBuckets now e) = failures_since (now - ws * second) evs"
    using assms(2) r(2) by (simp add: window_failures_def x)
  have c: "computeState now e = (if ft \<le> failures_since (now - ws * second) evs
      then (expireBuckets now e)\<lparr>e_state := CircuitOpen, e_openSince := now\<rparr> else expireBuckets now e)"
    using assms(1,2,6,7) by (simp add: computeState_def Let_def w)
  show "buckets_refine (now - ws * second) evs (e_buckets (computeState now e))" using r(1) by (simp add: c x)
  show "e_state (computeState now e) = (if ft \<le> failures_since (now - ws * second) evs then CircuitOpen else CircuitClosed)"
    using assms(1) by (simp add: c)
  show "e_state (computeState now e) = CircuitOpen \<Longrightarrow> e_openSince (computeState now e) = now"
    using assms(1) by (simp add: c split: if_splits)
  show "e_windowType (computeState now e) = ''time''" "e_windowSize (computeState now e) = ws" "e_failThresh (computeState now e) = ft"
    using assms(2,3,6) by (simp_all add: c)
qed

lemma recordLocked_closed_time:
  assumes e: "e_state e = CircuitClosed" "buckets_refine hz evs (e_buckets e)" "failures_since hz evs < ft"
    and now: "hz \<le> now - ws * second" "\<forall>x\<in>set evs. snd x \<le> now"
    and cfg: "0 < ws" "ws * second < 2 ^ 63" "0 < ft"
  shows "buckets_refine (now - ws * second) (evs @ [(s, now)]) (e_buckets (snd (recordLocked s now ''time'' ws ft ho rt rate e)))"
    and "e_state (snd (recordLocked s now ''time'' ws ft ho rt rate e)) =
      (if ft \<le> failures_since (now - ws * second) (evs @ [(s, now)]) then CircuitOpen else CircuitClosed)"
    and "e_state (snd (recordLocked s now ''time'' ws ft ho rt rate e)) = CircuitOpen \<Longrightarrow>
      e_openSince (snd (recordLocked s now ''time'' ws ft ho rt rate e)) = now"
proof -
  let ?l = "now - ws * second"
  let ?e1 = "set_config ''time'' ws ft ho rt e"
  have 1: "e_state ?e1 = CircuitClosed" "e_windowType ?e1 = ''time''" "e_windowSize ?e1 = ws" "e_failThresh ?e1 = ft"
    "buckets_refine hz evs (e_buckets ?e1)" using e cfg by simp_all
  note c = computeState_closed_time[OF 1(1,2,3) cfg(1,2) 1(4) cfg(3) 1(5) now(1)]
  have "\<not> ft \<le> failures_since ?l evs" using failures_since_antimono[OF now(1), of evs] e(3) by simp
  then have 2: "e_state (computeState now ?e1) = CircuitClosed" using c(2) by simp
  let ?e3 = "add_sample s now (computeState now ?e1)"
  note a = add_sample_not_half_open[of "computeState now ?e1" s now]
  have b: "e_buckets ?e3 = dropWhile (\<lambda>b. tb_timestamp b < ?l) (add_bucket s now (e_buckets (computeState now ?e1)))"
    using 2 c(4) expire_time[OF cfg(1,2), of "(computeState now ?e1)\<lparr>e_buckets := add_bucket s now (e_buckets (computeState now ?e1))\<rparr>" now] c(5)
    by (simp add: add_sample_def)
  have r3: "buckets_refine ?l (evs @ [(s, now)]) (e_buckets ?e3)"
    unfolding b by (rule buckets_refine_expire(1)[OF buckets_refine_add[OF c(1) now(2)] order_refl])
  have 3: "e_state ?e3 = CircuitClosed" "e_windowType ?e3 = ''time''" "e_windowSize ?e3 = ws" "e_failThresh ?e3 = ft"
    using a 2 c(4-6) by simp_all
  note d = computeState_closed_time[OF 3(1,2,3) cfg(1,2) 3(4) cfg(3) r3 order_refl]
  show "buckets_refine ?l (evs @ [(s, now)]) (e_buckets (snd (recordLocked s now ''time'' ws ft ho rt rate e)))"
    "e_state (snd (recordLocked s now ''time'' ws ft ho rt rate e)) =
      (if ft \<le> failures_since ?l (evs @ [(s, now)]) then CircuitOpen else CircuitClosed)"
    "e_state (snd (recordLocked s now ''time'' ws ft ho rt rate e)) = CircuitOpen \<Longrightarrow>
      e_openSince (snd (recordLocked s now ''time'' ws ft ho rt rate e)) = now"
    using d(1-3) by (simp_all add: recordLocked_def Let_def)
qed

lemma buckets_refine_Nil: "buckets_refine hz [] []"
  by (simp add: buckets_refine_def bucket_failures_since_def failures_since_def)

lemma record_run_time:
  assumes cfg: "0 < ws" "ws * second < 2 ^ 63" "0 < ft" "0 < rt" "rt < 2 ^ 63"
    and times: "sorted (map snd os)" "\<forall>x\<in>set os. \<forall>y\<in>set os. snd x - snd y < rt"
  shows "if time_trips ws ft os
     then e_state (record_run ''time'' ws ft ho rt rate os (new_entry m)) = CircuitOpen \<and>
       e_openSince (record_run ''time'' ws ft ho rt rate os (new_entry m)) \<in> snd ` set os
     else e_state (record_run ''time'' ws ft ho rt rate os (new_entry m)) = CircuitClosed \<and>
       (\<forall>now. (\<forall>x\<in>set os. snd x \<le> now) \<longrightarrow> (\<exists>hz\<le>now - ws * second. failures_since hz os < ft \<and>
          buckets_refine hz os (e_buckets (record_run ''time'' ws ft ho rt rate os (new_entry m)))))"
  using times
proof (induction os rule: rev_induct)
  case Nil
  have "failures_since hz [] < ft" for hz using cfg by (simp add: failures_since_def)
  then show ?case using buckets_refine_Nil by (auto simp: time_trips_def new_entry_def)
next
  case (snoc x os)
  obtain s now where x: "x = (s, now)" by (cases x)
  let ?r = "record_run ''time'' ws ft ho rt rate os (new_entry m)"
  have le: "\<forall>x\<in>set os. snd x \<le> now" using snoc.prems(1) x by (auto simp: sorted_append)
  have IH: "if time_trips ws ft os
     then e_state ?r = CircuitOpen \<and> e_openSince ?r \<in> snd ` set os
     else e_state ?r = CircuitClosed \<and>
       (\<forall>now. (\<forall>x\<in>set os. snd x \<le> now) \<longrightarrow> (\<exists>hz\<le>now - ws * second. failures_since hz os < ft \<and> buckets_refine hz os (e_buckets ?r)))"
    using snoc.prems by (intro snoc.IH) (auto simp: sorted_append)
  show ?case
  proof (cases "time_trips ws ft os")
    case True
    with IH have o: "e_state ?r = CircuitOpen" "e_openSince ?r \<in> snd ` set os" by simp_all
    have "now - e_openSince ?r < rt" using snoc.prems(2) o(2) x by auto
    then have "time_sub now (e_openSince ?r) < rt" using cfg by (simp add: time_sub_def)
    note k = recordLocked_open_keeps[OF o(1) this cfg(4)]
    show ?thesis using True k o(2) by (simp add: x time_trips_snoc)
  next
    case False
    with IH le obtain hz where c: "e_state ?r = CircuitClosed" "hz \<le> now - ws * second" "failures_since hz os < ft"
      "buckets_refine hz os (e_buckets ?r)" by auto
    note k = recordLocked_closed_time[OF c(1,4,3,2) le cfg(1-3), of s ho rt rate]
    show ?thesis
    proof (cases "ft \<le> failures_since (now - ws * second) (os @ [(s, now)])")
      case True
      then show ?thesis using k(2,3) by (simp add: x time_trips_snoc)
    next
      case F: False
      then have "failures_since (now - ws * second) (os @ [(s, now)]) < ft" by simp
      then show ?thesis
        using k(1,2) F False by (auto simp: x time_trips_snoc intro!: exI[of _ "now - ws * second"])
    qed
  qed
qed

text \<open>The time window implements its specification: for outcomes in time order, closer together
  than the recovery timeout, the breaker is open exactly when at some outcome the failures of the
  last \<open>ws\<close> seconds (counted by whole seconds) reached \<open>ft\<close>; the per-second buckets and
  their expiry lose nothing.\<close>

theorem time_window_opens_iff:
  assumes "0 < ws" "ws * second < 2 ^ 63" "0 < ft" "0 < rt" "rt < 2 ^ 63"
    and "sorted (map snd os)" "\<forall>x\<in>set os. \<forall>y\<in>set os. snd x - snd y < rt"
  shows "e_state (record_run ''time'' ws ft ho rt rate os (new_entry m)) =
     (if time_trips ws ft os then CircuitOpen else CircuitClosed)"
  using record_run_time[OF assms, of ho rate m] by (simp split: if_splits)

theorem time_window_opens_iff_witness:
  "e_state (record_run ''time'' 2 2 1 (30 * second) 0 [(False, 1), (False, 5 * second), (False, 6 * second)] (new_entry ''m'')) = CircuitOpen
   \<and> e_state (record_run ''time'' 2 2 1 (30 * second) 0 [(False, 1), (True, 2), (False, 5 * second)] (new_entry ''m'')) = CircuitClosed"
proof -
  have t: "time_trips 2 2 [(False, 1), (False, 5 * second), (False, 6 * second)]"
    "\<not> time_trips 2 2 [(False, 1), (True, 2), (False, 5 * second)]" by code_simp+
  have s: "0 < 30 * second" "30 * second < 2 ^ 63" "2 * second < 2 ^ 63" by (simp_all add: second_def)
  show ?thesis
    using time_window_opens_iff[of 2 2 "30 * second" "[(False, 1), (False, 5 * second), (False, 6 * second)]" 1 0 "''m''"]
      time_window_opens_iff[of 2 2 "30 * second" "[(False, 1), (True, 2), (False, 5 * second)]" 1 0 "''m''"] t s
    by (simp add: second_def)
qed

end
