(* ===== verification/Breaker_Manager.thy ===== *)
theory Breaker_Manager
  imports Breaker_Permits Breaker_Windows Error_Policy
begin

text \<open>
  The \<open>CircuitBreakerManager\<close> of \<open>src/pkg/core/circuit_breaker.go\<close>: the map of entries, the two-level
  (service, then endpoint) attempt with its lease, the recording of outcomes against the policies of
  the request, and the queries the router and the metrics loop make. Entries are never removed from
  the map, so the pointer a permit keeps to its entry is its key. \<open>time.Now()\<close> readings are
  arguments. What \<open>onStateChange\<close> hands to the metrics emitter and to the event callback is a log of
  effects in the state.
\<close>

subsection \<open>State\<close>

record CBEvent =
  ev_Key :: string
  ev_ModelCode :: string
  ev_PolicyID :: string
  ev_PolicyName :: string
  ev_TenantCode :: string
  ev_ProviderName :: string
  ev_EndpointCode :: string
  ev_RequestID :: string
  ev_TraceID :: string
  ev_Threshold :: "rat option"
  ev_CurrentValue :: "rat option"
  ev_OldState :: string
  ev_NewState :: string

datatype cb_effect = RecordState string string CircuitState | HandleEvent CBEvent

record CircuitBreakerManager =
  cbm_entries :: "string \<rightharpoonup> circuitBreakerEntry"
  cbm_metrics :: bool
  cbm_eventHandler :: bool
  cbm_effects :: "cb_effect list"

definition NewCircuitBreakerManager :: CircuitBreakerManager where
  "NewCircuitBreakerManager = \<lparr>cbm_entries = Map.empty, cbm_metrics = False, cbm_eventHandler = False, cbm_effects = []\<rparr>"

definition SetMetrics :: "CircuitBreakerManager \<Rightarrow> CircuitBreakerManager" where
  "SetMetrics m = m\<lparr>cbm_metrics := True\<rparr>"

definition SetEventHandler :: "CircuitBreakerManager \<Rightarrow> CircuitBreakerManager" where
  "SetEventHandler m = m\<lparr>cbm_eventHandler := True\<rparr>"

definition put_entry :: "string \<Rightarrow> circuitBreakerEntry \<Rightarrow> CircuitBreakerManager \<Rightarrow> CircuitBreakerManager" where
  "put_entry key e m = m\<lparr>cbm_entries := (cbm_entries m)(key \<mapsto> e)\<rparr>"

definition onStateChange :: "string \<Rightarrow> CircuitState \<Rightarrow> CircuitState \<Rightarrow> CircuitBreakerManager \<Rightarrow> CircuitBreakerManager" where
  "onStateChange key oldState newState m =
     (let base = \<lparr>ev_Key = key, ev_ModelCode = '''', ev_PolicyID = '''', ev_PolicyName = '''', ev_TenantCode = '''',
            ev_ProviderName = '''', ev_EndpointCode = '''', ev_RequestID = '''', ev_TraceID = '''',
            ev_Threshold = None, ev_CurrentValue = None,
            ev_OldState = CircuitState_String oldState, ev_NewState = CircuitState_String newState\<rparr>;
          ev = (case cbm_entries m key of None \<Rightarrow> base
            | Some e \<Rightarrow> base\<lparr>ev_ModelCode := e_modelCode e, ev_PolicyID := e_policyID e, ev_PolicyName := e_policyName e,
                ev_TenantCode := e_lastTenant e, ev_ProviderName := e_providerName e, ev_EndpointCode := e_endpointCode e,
                ev_RequestID := e_lastRequestID e, ev_TraceID := e_lastTraceID e,
                ev_Threshold := Some (e_threshold e), ev_CurrentValue := Some (e_currentVal e)\<rparr>);
          parts = str_split_colon key;
          modelCode = (if ev_ModelCode ev = '''' \<and> CHR '':'' \<in> set key \<and> length parts > 1 then parts ! 1 else ev_ModelCode ev)
      in m\<lparr>cbm_effects := cbm_effects m
             @ (if cbm_metrics m then [RecordState key modelCode newState] else [])
             @ (if newState = CircuitOpen \<and> cbm_eventHandler m then [HandleEvent (ev\<lparr>ev_ModelCode := modelCode\<rparr>)] else [])\<rparr>)"

definition notify :: "string \<Rightarrow> CircuitState \<times> CircuitState \<Rightarrow> CircuitBreakerManager \<Rightarrow> CircuitBreakerManager" where
  "notify key ss m = (if fst ss \<noteq> snd ss then onStateChange key (fst ss) (snd ss) m else m)"

definition GetEntryWithModel :: "string \<Rightarrow> string \<Rightarrow> CircuitBreakerManager \<Rightarrow> circuitBreakerEntry \<times> CircuitBreakerManager" where
  "GetEntryWithModel key modelCode m =
     (let e = (case cbm_entries m key of
                 Some e0 \<Rightarrow> if modelCode \<noteq> '''' then e0\<lparr>e_modelCode := modelCode\<rparr> else e0
               | None \<Rightarrow> new_entry modelCode)
      in (e, put_entry key e m))"

definition getEntry :: "string \<Rightarrow> CircuitBreakerManager \<Rightarrow> circuitBreakerEntry \<times> CircuitBreakerManager" where
  "getEntry key = GetEntryWithModel key ''''"

subsection \<open>Queries and the older permit interface\<close>

definition query_state :: "string \<Rightarrow> instant \<Rightarrow> CircuitBreakerManager \<Rightarrow> CircuitState option \<times> CircuitBreakerManager" where
  "query_state key now m = (case cbm_entries m key of None \<Rightarrow> (None, m)
     | Some e \<Rightarrow> (let (ss, e') = stateVal now e in (Some (snd ss), notify key ss (put_entry key e' m))))"

definition IsServiceOpen :: "string \<Rightarrow> instant \<Rightarrow> CircuitBreakerManager \<Rightarrow> bool \<times> CircuitBreakerManager" where
  "IsServiceOpen key now m = (let (s, m') = query_state key now m in (s = Some CircuitOpen, m'))"

definition IsInstanceOpen :: "string \<Rightarrow> instant \<Rightarrow> CircuitBreakerManager \<Rightarrow> bool \<times> CircuitBreakerManager" where
  "IsInstanceOpen endpointID now m = (let (s, m') = query_state endpointID now m in (s = Some CircuitOpen, m'))"

definition GetState :: "string \<Rightarrow> instant \<Rightarrow> CircuitBreakerManager \<Rightarrow> CircuitState \<times> CircuitBreakerManager" where
  "GetState key now m = (let (s, m') = query_state key now m
     in (case s of None \<Rightarrow> CircuitClosed | Some st \<Rightarrow> st, m'))"

definition AllowRequest :: "string \<Rightarrow> bool \<Rightarrow> instant \<Rightarrow> CircuitBreakerManager \<Rightarrow> bool \<times> CircuitBreakerManager" where
  "AllowRequest key enableActive now m = (let (s, m') = query_state key now m in
     case s of None \<Rightarrow> (True, m')
     | Some CircuitClosed \<Rightarrow> (True, m')
     | Some CircuitOpen \<Rightarrow> (False, m')
     | Some CircuitHalfOpen \<Rightarrow>
         (if enableActive then False
          else case cbm_entries m' key of None \<Rightarrow> True
            | Some e \<Rightarrow> e_state e \<noteq> CircuitHalfOpen \<or> e_activeCalls e < 1, m'))"

definition cbm_Reset :: "string \<Rightarrow> CircuitBreakerManager \<Rightarrow> CircuitBreakerManager" where
  "cbm_Reset key m = (let (e, m1) = getEntry key m; (ss, e') = reset_entry e in notify key ss (put_entry key e' m1))"

definition CheckAndResetOnVersionChange :: "string \<Rightarrow> int \<Rightarrow> CircuitBreakerManager \<Rightarrow> bool \<times> CircuitBreakerManager" where
  "CheckAndResetOnVersionChange key version m =
     (let (e, m1) = getEntry key m; (changed, e') = checkAndResetOnVersionChangeLocked version e; m2 = put_entry key e' m1
      in if changed then (True, onStateChange key CircuitOpen CircuitClosed m2) else (False, m2))"

definition RecordRaw :: "string \<Rightarrow> bool \<Rightarrow> int \<Rightarrow> int \<Rightarrow> int \<Rightarrow> duration \<Rightarrow> instant \<Rightarrow> CircuitBreakerManager \<Rightarrow> CircuitBreakerManager" where
  "RecordRaw key success windowSize minCalls allowedCallsInHalfOpen recoveryTimeout now m =
     (let (e, m1) = getEntry key m;
          (ss, e') = record_entry success now ''count'' windowSize minCalls allowedCallsInHalfOpen recoveryTimeout 0 e
      in notify key ss (put_entry key e' m1))"

definition AcquireHalfOpenPermit :: "string \<Rightarrow> bool \<Rightarrow> CircuitBreakerManager \<Rightarrow> bool \<times> CircuitBreakerManager" where
  "AcquireHalfOpenPermit key enableActive m = (case cbm_entries m key of None \<Rightarrow> (True, m)
     | Some e \<Rightarrow> (let (ok, e') = tryAcquireHalfOpenPermit enableActive e in (ok, put_entry key e' m)))"

definition ReleaseHalfOpenPermit :: "string \<Rightarrow> CircuitBreakerManager \<Rightarrow> CircuitBreakerManager" where
  "ReleaseHalfOpenPermit key m = (case cbm_entries m key of None \<Rightarrow> m
     | Some e \<Rightarrow> put_entry key (legacy_return e) m)"

definition GetOpenSince :: "string \<Rightarrow> CircuitBreakerManager \<Rightarrow> instant" where
  "GetOpenSince key m = (case cbm_entries m key of None \<Rightarrow> 0
     | Some e \<Rightarrow> if e_state e = CircuitClosed then 0 else e_openSince e)"

text \<open>\<open>range\<close> visits the keys of the map in an unspecified order: the order is an argument.\<close>

fun GetOpenBreakers :: "string list \<Rightarrow> instant \<Rightarrow> CircuitBreakerManager \<Rightarrow>
    (string list \<times> string list) \<times> CircuitBreakerManager" where
  "GetOpenBreakers [] now m = (([], []), m)"
| "GetOpenBreakers (key # keys) now m = (case cbm_entries m key of None \<Rightarrow> GetOpenBreakers keys now m
     | Some e \<Rightarrow> (let (ss, e') = stateVal now e; ((eps, svs), m') = GetOpenBreakers keys now (put_entry key e' m) in
         if snd ss = CircuitOpen
         then if e_endpointCode e' \<noteq> '''' \<or> e_providerName e' \<noteq> '''' then ((key # eps, svs), m') else ((eps, key # svs), m')
         else ((eps, svs), m')))"

subsection \<open>Attempts\<close>

record CircuitBreakerAttempt =
  at_endpoint :: "Endpoint option"
  at_permits :: "attemptPermit list"
  at_once :: bool

definition releasePermits :: "attemptPermit list \<Rightarrow> CircuitBreakerManager \<Rightarrow> CircuitBreakerManager" where
  "releasePermits ps m = fold (\<lambda>p m. case cbm_entries m (pm_key p) of None \<Rightarrow> m
     | Some e \<Rightarrow> put_entry (pm_key p) (release_permit p e) m) ps m"

text \<open>One iteration of the loop of \<open>AcquireAttempt\<close> per key, with the level named in the error and
  the clock reading; a refusal releases what the attempt holds.\<close>

fun acquire_loop :: "bool \<Rightarrow> string \<Rightarrow> (string \<times> string \<times> instant) list \<Rightarrow> attemptPermit list \<Rightarrow>
    CircuitBreakerManager \<Rightarrow> (string + attemptPermit list) \<times> CircuitBreakerManager" where
  "acquire_loop enableActive model [] permits m = (Inr permits, m)"
| "acquire_loop enableActive model ((level, key, now) # rest) permits m =
     (let (entry, m1) = GetEntryWithModel key model m;
          (allowed, permit, ss, entry') = acquire_entry key enableActive now entry;
          m2 = notify key ss (put_entry key entry' m1)
      in if \<not> allowed
         then (Inl (level @ '' breaker half-open permit acquisition failed: '' @ key), releasePermits permits m2)
         else acquire_loop enableActive model rest (permits @ [permit]) m2)"

definition AcquireAttempt :: "Endpoint option \<Rightarrow> bool \<Rightarrow> instant \<Rightarrow> instant \<Rightarrow> CircuitBreakerManager \<Rightarrow>
    (string + CircuitBreakerAttempt) \<times> CircuitBreakerManager" where
  "AcquireAttempt ep enableActive now1 now2 m = (case ep of
     None \<Rightarrow> (Inr \<lparr>at_endpoint = None, at_permits = [], at_once = False\<rparr>, m)
   | Some e \<Rightarrow> (let (r, m') = acquire_loop enableActive (ep_Model e)
         [(''service'', service_key e, now1), (''instance'', ep_ID e, now2)] [] m
       in (case r of Inl err \<Rightarrow> Inl err
           | Inr ps \<Rightarrow> Inr \<lparr>at_endpoint = Some e, at_permits = ps, at_once = False\<rparr>, m')))"

definition attempt_Release :: "CircuitBreakerAttempt \<Rightarrow> CircuitBreakerManager \<Rightarrow> CircuitBreakerAttempt \<times> CircuitBreakerManager" where
  "attempt_Release a m = (if at_once a then (a, m) else (a\<lparr>at_once := True\<rparr>, releasePermits (at_permits a) m))"

definition circuitPolicyApplies :: "string \<Rightarrow> bool \<Rightarrow> bool" where
  "circuitPolicyApplies level service = (let l = str_upper level in
     if service then l = '''' \<or> l = ''SERVICE'' else l = '''' \<or> l = ''INSTANCE'' \<or> l = ''ENDPOINT'')"

definition releasePermitsWithoutPolicy :: "Endpoint \<Rightarrow> CircuitBreakerManager \<Rightarrow> CircuitBreakerManager" where
  "releasePermitsWithoutPolicy ep m = ReleaseHalfOpenPermit (ep_ID ep) (ReleaseHalfOpenPermit (service_key ep) m)"

subsection \<open>Recording an outcome\<close>

definition record_policy :: "CircuitBreakPolicy \<Rightarrow> bool \<Rightarrow> instant \<Rightarrow> circuitBreakerEntry \<Rightarrow>
    (CircuitState \<times> CircuitState) \<times> circuitBreakerEntry" where
  "record_policy p success now e = recordLocked success now (cb_SlidingWindowType p) (cb_SlidingWindowSize p)
     (cb_MinCallsThreshold p) (cb_AllowedCallsInHalfOpenState p)
     (go_mul (cb_WaitDurationInOpenState p) millisecond) (cb_FailureRateThreshold p) e"

text \<open>The body of the inner loop without an attempt, and with the permit the attempt holds for the
  key. The lease version returns the permit as it is updated.\<close>

definition record_key_plain :: "CircuitBreakPolicy \<Rightarrow> entryMeta \<Rightarrow> string \<Rightarrow> bool \<Rightarrow> instant \<Rightarrow> string \<Rightarrow>
    CircuitBreakerManager \<Rightarrow> CircuitBreakerManager" where
  "record_key_plain p meta model success now key m =
     (let (_, m1) = CheckAndResetOnVersionChange key (cb_Version p) m;
          (entry, m2) = GetEntryWithModel key model m1;
          (ss, entry') = record_policy p success now (legacy_return (set_meta meta entry))
      in notify key ss (put_entry key entry' m2))"

definition record_key_lease :: "CircuitBreakPolicy \<Rightarrow> entryMeta \<Rightarrow> bool \<Rightarrow> instant \<Rightarrow> attemptPermit \<Rightarrow>
    CircuitBreakerManager \<Rightarrow> attemptPermit \<times> CircuitBreakerManager" where
  "record_key_lease p meta success now permit m = (case cbm_entries m (pm_key permit) of None \<Rightarrow> (permit, m)
     | Some entry \<Rightarrow>
         if \<not> lease_valid permit entry then (permit, m)
         else let (versionReset, permit1, entry1) = lease_version (cb_Version p) permit entry;
                  m1 = put_entry (pm_key permit) entry1 m;
                  m2 = (if versionReset then onStateChange (pm_key permit) CircuitOpen CircuitClosed m1 else m1);
                  (ss, entry2) = record_policy p success now (set_meta meta entry1);
                  permit2 = (if pm_epoch permit1 \<noteq> e_attemptEpoch entry2
                     then permit1\<lparr>pm_epoch := e_attemptEpoch entry2, pm_token := 0\<rparr> else permit1)
              in (permit2, notify (pm_key permit) ss (put_entry (pm_key permit) entry2 m2)))"

text \<open>The first permit with the key, updated in place; without one the key is skipped.\<close>

fun record_with_permits :: "CircuitBreakPolicy \<Rightarrow> entryMeta \<Rightarrow> bool \<Rightarrow> instant \<Rightarrow> string \<Rightarrow> attemptPermit list \<Rightarrow>
    CircuitBreakerManager \<Rightarrow> attemptPermit list \<times> CircuitBreakerManager" where
  "record_with_permits p meta success now key [] m = ([], m)"
| "record_with_permits p meta success now key (pm # pms) m =
     (if pm_key pm = key
      then (let (pm', m') = record_key_lease p meta success now pm m in (pm' # pms, m'))
      else (let (pms', m') = record_with_permits p meta success now key pms m in (pm # pms', m')))"

definition record_step :: "Endpoint \<Rightarrow> entryMeta \<Rightarrow> bool \<Rightarrow> instant \<Rightarrow> CircuitBreakPolicy \<Rightarrow> string \<Rightarrow>
    attemptPermit list option \<times> CircuitBreakerManager \<Rightarrow> attemptPermit list option \<times> CircuitBreakerManager" where
  "record_step ep meta success now p key s = (case s of
     (None, m) \<Rightarrow> (None, record_key_plain p meta (ep_Model ep) success now key m)
   | (Some pms, m) \<Rightarrow> (let (pms', m') = record_with_permits p meta success now key pms m in (Some pms', m')))"

definition record_policy_keys :: "Endpoint \<Rightarrow> entryMeta \<Rightarrow> bool \<Rightarrow> instant \<Rightarrow> CircuitBreakPolicy \<Rightarrow>
    attemptPermit list option \<times> CircuitBreakerManager \<Rightarrow> attemptPermit list option \<times> CircuitBreakerManager" where
  "record_policy_keys ep meta success now p s =
     (let s1 = (if circuitPolicyApplies (cb_Level p) True then record_step ep meta success now p (service_key ep) s else s)
      in if circuitPolicyApplies (cb_Level p) False then record_step ep meta success now p (ep_ID ep) s1 else s1)"

definition outcome_meta :: "GatewayContext \<Rightarrow> Endpoint \<Rightarrow> CircuitBreakPolicy \<Rightarrow> entryMeta" where
  "outcome_meta g ep p =
     (let traceID0 = (case g_Request g of None \<Rightarrow> '''' | Some r \<Rightarrow> header_get r ''X-Trace-ID'');
          requestID0 = (case g_Request g of None \<Rightarrow> '''' | Some r \<Rightarrow> header_get r ''X-Request-ID'');
          traceID = (if traceID0 = '''' then g_TraceHeader g else traceID0);
          requestID = (if requestID0 = '''' then traceID else requestID0)
      in \<lparr>m_policyID = cb_ID p, m_policyName = cb_Name p, m_providerName = ep_Provider ep, m_endpointCode = ep_Code ep,
          m_tenant = g_Tenant g, m_traceID = traceID, m_requestID = requestID\<rparr>)"

definition outcome_matches :: "Externals \<Rightarrow> GatewayContext \<Rightarrow> bool \<Rightarrow> string option \<Rightarrow> CircuitBreakPolicy \<Rightarrow> bool" where
  "outcome_matches x g success err p \<longleftrightarrow> success
     \<or> MatchError x (breaker_error_policy p) (getStatusCode (g_UpstreamResponse g))
         (case g_UpstreamResponse g of None \<Rightarrow> '''' | Some r \<Rightarrow> hs_ContentType r)
         (case err of None \<Rightarrow> '''' | Some e \<Rightarrow> e) (g_UpstreamBody g)"

definition breaker_policies :: "GatewayContext option \<Rightarrow> CircuitBreakPolicy list" where
  "breaker_policies g = (case g of None \<Rightarrow> [] | Some c \<Rightarrow>
     (case g_Policy c of None \<Rightarrow> [] | Some p \<Rightarrow> pl_CircuitBreakPolicies p))"

definition recordOutcome :: "Externals \<Rightarrow> GatewayContext option \<Rightarrow> Endpoint option \<Rightarrow> bool \<Rightarrow> string option \<Rightarrow> instant \<Rightarrow>
    attemptPermit list option \<Rightarrow> CircuitBreakerManager \<Rightarrow> attemptPermit list option \<times> CircuitBreakerManager" where
  "recordOutcome x gctx ep success err now attempt m = (case ep of None \<Rightarrow> (attempt, m)
     | Some e \<Rightarrow> (case gctx of
         None \<Rightarrow> (attempt, if attempt = None then releasePermitsWithoutPolicy e m else m)
       | Some g \<Rightarrow>
         if breaker_policies gctx = []
         then (attempt, if attempt = None then releasePermitsWithoutPolicy e m else m)
         else fold (\<lambda>p s. if outcome_matches x g success err p
                          then record_policy_keys e (outcome_meta g e p) success now p s else s)
                (breaker_policies gctx) (attempt, m)))"

definition cbm_RecordSuccess :: "Externals \<Rightarrow> GatewayContext option \<Rightarrow> Endpoint option \<Rightarrow> instant \<Rightarrow> CircuitBreakerManager \<Rightarrow> CircuitBreakerManager" where
  "cbm_RecordSuccess x g ep now m = snd (recordOutcome x g ep True None now None m)"

definition cbm_RecordFailure :: "Externals \<Rightarrow> GatewayContext option \<Rightarrow> Endpoint option \<Rightarrow> string option \<Rightarrow> instant \<Rightarrow> CircuitBreakerManager \<Rightarrow> CircuitBreakerManager" where
  "cbm_RecordFailure x g ep err now m = snd (recordOutcome x g ep False err now None m)"

definition attempt_finish :: "Externals \<Rightarrow> GatewayContext option \<Rightarrow> bool \<Rightarrow> string option \<Rightarrow> instant \<Rightarrow>
    CircuitBreakerAttempt \<Rightarrow> CircuitBreakerManager \<Rightarrow> CircuitBreakerAttempt \<times> CircuitBreakerManager" where
  "attempt_finish x g success err now a m =
     (if at_once a then (a, m)
      else let (pms, m') = recordOutcome x g (at_endpoint a) success err now (Some (at_permits a)) m;
               ps = (case pms of None \<Rightarrow> at_permits a | Some qs \<Rightarrow> qs)
           in (a\<lparr>at_permits := ps, at_once := True\<rparr>, releasePermits ps m'))"

subsection \<open>The manager's invariant\<close>

text \<open>Every entry satisfies the entry invariant, and every event handed to the callback reports a
  transition to Open.\<close>

definition opens :: "cb_effect \<Rightarrow> bool" where
  "opens f = (case f of RecordState _ _ _ \<Rightarrow> True | HandleEvent ev \<Rightarrow> ev_NewState ev = ''OPEN'')"

definition cbm_inv :: "CircuitBreakerManager \<Rightarrow> bool" where
  "cbm_inv m \<longleftrightarrow> (\<forall>e\<in>ran (cbm_entries m). entry_inv e) \<and> list_all opens (cbm_effects m)"

lemma cbm_invD: "cbm_inv m \<Longrightarrow> cbm_entries m k = Some e \<Longrightarrow> entry_inv e"
  by (auto simp: cbm_inv_def ran_def)

lemma put_entry_entries [simp]: "cbm_entries (put_entry k e m) = (cbm_entries m)(k \<mapsto> e)"
  by (simp add: put_entry_def)

lemma put_entry_inv [simp, intro]: "cbm_inv m \<Longrightarrow> entry_inv e \<Longrightarrow> cbm_inv (put_entry k e m)"
  by (auto simp: cbm_inv_def put_entry_def ran_def)

lemma onStateChange_entries [simp]: "cbm_entries (onStateChange k a b m) = cbm_entries m"
  by (simp add: onStateChange_def Let_def)

lemma onStateChange_inv [simp, intro]: "cbm_inv m \<Longrightarrow> cbm_inv (onStateChange k a b m)"
  by (simp add: cbm_inv_def onStateChange_def Let_def opens_def CircuitState_String_def split: option.split)

lemma notify_entries [simp]: "cbm_entries (notify k ss m) = cbm_entries m"
  by (simp add: notify_def)

lemma notify_inv [simp, intro]: "cbm_inv m \<Longrightarrow> cbm_inv (notify k ss m)"
  by (simp add: notify_def onStateChange_inv)

lemma relabel_inv [simp]: "entry_inv (e\<lparr>e_modelCode := mc\<rparr>) = entry_inv e"
  by (simp add: entry_inv_def)

lemma GetEntryWithModel_inv:
  assumes "cbm_inv m" "GetEntryWithModel k mc m = (e, m')"
  shows "entry_inv e \<and> cbm_inv m'"
proof -
  have "entry_inv e" using assms
    by (auto simp: GetEntryWithModel_def Let_def new_entry_inv dest: cbm_invD split: option.splits if_splits)
  then show ?thesis using assms by (auto simp: GetEntryWithModel_def Let_def)
qed

lemma query_state_inv:
  assumes "cbm_inv m" "query_state k now m = (s, m')"
  shows "cbm_inv m'"
proof (cases "cbm_entries m k")
  case (Some e)
  with assms state_op.op_inv[OF cbm_invD[OF assms(1) Some], of now] show ?thesis
    by (auto simp: query_state_def split: prod.splits)
qed (use assms in \<open>simp add: query_state_def\<close>)

text \<open>The contract of the manager's state-changing operations, and their composition.\<close>

locale manager_op =
  fixes f :: "CircuitBreakerManager \<Rightarrow> CircuitBreakerManager"
  assumes keeps: "cbm_inv m \<Longrightarrow> cbm_inv (f m)"
begin

lemma keeps_entry: "cbm_inv m \<Longrightarrow> cbm_entries (f m) k = Some e \<Longrightarrow> entry_inv e"
  using keeps by (rule cbm_invD)

lemma keeps_events: "cbm_inv m \<Longrightarrow> HandleEvent ev \<in> set (cbm_effects (f m)) \<Longrightarrow> ev_NewState ev = ''OPEN''"
  using keeps[of m] by (fastforce simp: cbm_inv_def list_all_iff opens_def)

lemma keeps_iterate: "cbm_inv m \<Longrightarrow> cbm_inv ((f ^^ n) m)"
  by (induction n) (simp_all add: keeps)

end

interpretation service_query: manager_op "\<lambda>m. snd (IsServiceOpen k now m)" for k now
  by unfold_locales (auto simp: IsServiceOpen_def dest: query_state_inv split: prod.splits)

interpretation instance_query: manager_op "\<lambda>m. snd (IsInstanceOpen k now m)" for k now
  by unfold_locales (auto simp: IsInstanceOpen_def dest: query_state_inv split: prod.splits)

interpretation state_query: manager_op "\<lambda>m. snd (GetState k now m)" for k now
  by unfold_locales (auto simp: GetState_def dest: query_state_inv split: prod.splits)

lemma AllowRequest_snd: "snd (AllowRequest k act now m) = snd (query_state k now m)"
  by (auto simp: AllowRequest_def split: prod.split option.split CircuitState.split)

interpretation allow_query: manager_op "\<lambda>m. snd (AllowRequest k act now m)" for k act now
  by unfold_locales (metis AllowRequest_snd prod.collapse query_state_inv)

interpretation manager_reset: manager_op "cbm_Reset k" for k
proof unfold_locales
  fix m assume inv: "cbm_inv m"
  obtain e m1 where g: "getEntry k m = (e, m1)" by fastforce
  have "entry_inv e \<and> cbm_inv m1" using GetEntryWithModel_inv[OF inv] g by (simp add: getEntry_def)
  with g reset_op.op_inv[of e] show "cbm_inv (cbm_Reset k m)" by (auto simp: cbm_Reset_def split: prod.splits)
qed

lemma version_check_inv:
  assumes inv: "cbm_inv m"
  shows "cbm_inv (snd (CheckAndResetOnVersionChange k v m))"
proof -
  obtain e m1 where g: "getEntry k m = (e, m1)" by fastforce
  have "entry_inv e \<and> cbm_inv m1" using GetEntryWithModel_inv[OF inv] g by (simp add: getEntry_def)
  with g version_op.op_inv[of e v] show ?thesis
    by (auto simp: CheckAndResetOnVersionChange_def Let_def split: prod.splits)
qed

interpretation version_check: manager_op "\<lambda>m. snd (CheckAndResetOnVersionChange k v m)" for k v
  by unfold_locales (rule version_check_inv)

interpretation raw_record: manager_op "RecordRaw k s ws mc ho rt now" for k s ws mc ho rt now
proof unfold_locales
  fix m assume inv: "cbm_inv m"
  obtain e m1 where g: "getEntry k m = (e, m1)" by fastforce
  have "entry_inv e \<and> cbm_inv m1" using GetEntryWithModel_inv[OF inv] g by (simp add: getEntry_def)
  with g record_entry_inv[of e s now "''count''" ws mc ho rt 0] show "cbm_inv (RecordRaw k s ws mc ho rt now m)"
    by (auto simp: RecordRaw_def split: prod.splits)
qed

interpretation legacy_acquire: manager_op "\<lambda>m. snd (AcquireHalfOpenPermit k act m)" for k act
proof unfold_locales
  fix m assume inv: "cbm_inv m"
  show "cbm_inv (snd (AcquireHalfOpenPermit k act m))"
  proof (cases "cbm_entries m k")
    case (Some e)
    with inv tryAcquire_inv[OF cbm_invD[OF inv Some], of act] show ?thesis
      by (auto simp: AcquireHalfOpenPermit_def split: prod.splits)
  qed (use inv in \<open>simp add: AcquireHalfOpenPermit_def\<close>)
qed

interpretation legacy_release: manager_op "ReleaseHalfOpenPermit k" for k
  by unfold_locales (auto simp: ReleaseHalfOpenPermit_def dest: cbm_invD intro: legacy_return_inv split: option.split)

lemma GetOpenBreakers_inv: "cbm_inv m \<Longrightarrow> cbm_inv (snd (GetOpenBreakers ks now m))"
proof (induction ks arbitrary: m)
  case (Cons k ks)
  show ?case
  proof (cases "cbm_entries m k")
    case (Some e)
    have "cbm_inv (put_entry k (snd (stateVal now e)) m)"
      using Cons.prems state_op.op_inv[OF cbm_invD[OF Cons.prems Some], of now] by blast
    from Cons.IH[OF this] Some show ?thesis by (auto simp: Let_def split: prod.splits)
  qed (use Cons in simp)
qed simp

interpretation open_query: manager_op "\<lambda>m. snd (GetOpenBreakers ks now m)" for ks now
  by unfold_locales (rule GetOpenBreakers_inv)

subsection \<open>Attempts keep the invariant\<close>

lemma releasePermits_inv: "cbm_inv m \<Longrightarrow> cbm_inv (releasePermits ps m)"
proof (induction ps arbitrary: m)
  case (Cons p ps)
  have "cbm_inv (case cbm_entries m (pm_key p) of None \<Rightarrow> m | Some e \<Rightarrow> put_entry (pm_key p) (release_permit p e) m)"
    using Cons.prems by (auto dest: cbm_invD intro: release_permit_inv split: option.split)
  from Cons.IH[OF this] show ?case by (simp add: releasePermits_def)
qed (simp add: releasePermits_def)

lemma acquire_loop_inv: "cbm_inv m \<Longrightarrow> acquire_loop act model ks ps m = (r, m') \<Longrightarrow> cbm_inv m'"
proof (induction ks arbitrary: ps m)
  case (Cons k ks)
  obtain level key now where k: "k = (level, key, now)" by (cases k)
  obtain e m1 where g: "GetEntryWithModel key model m = (e, m1)" by fastforce
  obtain ok p ss e' where a: "acquire_entry key act now e = (ok, p, ss, e')" by (cases "acquire_entry key act now e") auto
  have "entry_inv e \<and> cbm_inv m1" using GetEntryWithModel_inv[OF Cons.prems(1) g] .
  then have "cbm_inv (notify key ss (put_entry key e' m1))" using acquire_entry_inv[OF _ a] by simp
  with Cons.IH[OF this, of "ps @ [p]"] Cons.prems(2) show ?case
    by (auto simp: k g a Let_def releasePermits_inv split: if_splits)
qed simp

lemma record_policy_inv: "entry_inv e \<Longrightarrow> entry_inv (snd (record_policy p s now e))"
  unfolding record_policy_def by (rule record_op.op_inv)

lemma set_meta_inv: "entry_inv e \<Longrightarrow> entry_inv (set_meta meta e)"
  by (rule evolves_inv[OF set_meta_evolves])

lemma record_key_plain_inv:
  assumes "cbm_inv m"
  shows "cbm_inv (record_key_plain p meta model s now key m)"
proof -
  obtain b m1 where v: "CheckAndResetOnVersionChange key (cb_Version p) m = (b, m1)" by fastforce
  have m1: "cbm_inv m1" using version_check_inv[OF assms, of key "cb_Version p"] v by simp
  obtain e m2 where g: "GetEntryWithModel key model m1 = (e, m2)" by fastforce
  have e: "entry_inv e" "cbm_inv m2" using GetEntryWithModel_inv[OF m1 g] by simp_all
  have "entry_inv (snd (record_policy p s now (legacy_return (set_meta meta e))))"
    by (intro record_policy_inv legacy_return_inv set_meta_inv e(1))
  with e(2) show ?thesis by (auto simp: record_key_plain_def v g split: prod.splits)
qed

lemma record_key_lease_inv:
  assumes inv: "cbm_inv m" and r: "record_key_lease p meta s now pm m = (pm', m')"
  shows "cbm_inv m'"
proof (cases "cbm_entries m (pm_key pm)")
  case (Some e)
  show ?thesis
  proof (cases "lease_valid pm e")
    case True
    obtain b pm1 e1 where v: "lease_version (cb_Version p) pm e = (b, pm1, e1)" by (cases "lease_version (cb_Version p) pm e") auto
    then have "e1 = snd (checkAndResetOnVersionChangeLocked (cb_Version p) e)"
      by (auto simp: lease_version_def Let_def split: prod.splits)
    then have e1: "entry_inv e1" using version_op.op_inv[OF cbm_invD[OF inv Some]] by simp
    have "entry_inv (snd (record_policy p s now (set_meta meta e1)))"
      by (intro record_policy_inv set_meta_inv e1)
    with True Some v e1 inv r show ?thesis
      by (auto simp: record_key_lease_def Let_def split: prod.splits)
  qed (use Some inv r in \<open>simp add: record_key_lease_def\<close>)
qed (use inv r in \<open>simp add: record_key_lease_def\<close>)

lemma record_with_permits_inv:
  "cbm_inv m \<Longrightarrow> record_with_permits p meta s now key pms m = (pms', m') \<Longrightarrow> cbm_inv m'"
  by (induction pms arbitrary: pms') (auto dest: record_key_lease_inv split: if_splits prod.splits)

lemma record_step_inv: "cbm_inv (snd s) \<Longrightarrow> cbm_inv (snd (record_step ep meta ok now p key s))"
  by (auto simp: record_step_def record_key_plain_inv dest: record_with_permits_inv split: prod.splits option.splits)

lemma recordOutcome_inv:
  assumes "cbm_inv m"
  shows "cbm_inv (snd (recordOutcome x g ep s err now att m))"
proof -
  have loop: "cbm_inv (snd (fold (\<lambda>p st. if P p then record_policy_keys e (M p) s now p st else st) ps st))"
    if "cbm_inv (snd st)" for P M e ps and st :: "attemptPermit list option \<times> CircuitBreakerManager"
    using that by (induction ps arbitrary: st) (simp_all add: record_policy_keys_def Let_def record_step_inv)
  have "cbm_inv (releasePermitsWithoutPolicy e m)" for e
    unfolding releasePermitsWithoutPolicy_def by (intro legacy_release.keeps assms)
  with assms show ?thesis by (simp add: recordOutcome_def loop split: option.split)
qed

lemma AcquireAttempt_inv: "cbm_inv m \<Longrightarrow> cbm_inv (snd (AcquireAttempt ep act n1 n2 m))"
  by (auto simp: AcquireAttempt_def dest: acquire_loop_inv split: option.split prod.split simp del: acquire_loop.simps)

lemma attempt_finish_inv: "cbm_inv m \<Longrightarrow> cbm_inv (snd (attempt_finish x g s err now a m))"
  using recordOutcome_inv[of m x g "at_endpoint a" s err now "Some (at_permits a)"]
  by (auto simp: attempt_finish_def Let_def releasePermits_inv split: prod.split)

interpretation attempt_acquire: manager_op "\<lambda>m. snd (AcquireAttempt ep act n1 n2 m)" for ep act n1 n2
  by unfold_locales (rule AcquireAttempt_inv)

interpretation attempt_end: manager_op "\<lambda>m. snd (attempt_finish x g s err now a m)" for x g s err now a
  by unfold_locales (rule attempt_finish_inv)

interpretation attempt_cancel: manager_op "\<lambda>m. snd (attempt_Release a m)" for a
  by unfold_locales (simp add: attempt_Release_def releasePermits_inv)

interpretation plain_outcome: manager_op "\<lambda>m. snd (recordOutcome x g ep s err now None m)" for x g ep s err now
  by unfold_locales (rule recordOutcome_inv)

lemma computeState_relabel:
  "computeState now (e\<lparr>e_modelCode := mc\<rparr>) = (computeState now e)\<lparr>e_modelCode := mc\<rparr>"
proof -
  have w: "expireBuckets now (e\<lparr>e_modelCode := mc\<rparr>) = (expireBuckets now e)\<lparr>e_modelCode := mc\<rparr>"
    by (simp add: expireBuckets_def Let_def)
  have f: "window_failures (e\<lparr>e_modelCode := mc\<rparr>) = window_failures e" for e :: circuitBreakerEntry
    by (simp add: window_failures_def)
  show ?thesis
    by (cases "e_state e") (simp_all add: computeState_def Let_def w f invalidateAttempts_def)
qed

subsection \<open>Runs of the manager\<close>

inductive cbm_step :: "CircuitBreakerManager \<Rightarrow> CircuitBreakerManager \<Rightarrow> bool" where
  step_acquire: "cbm_step m (snd (AcquireAttempt ep act n1 n2 m))"
| step_release: "cbm_step m (snd (attempt_Release a m))"
| step_finish: "cbm_step m (snd (attempt_finish x g s err now a m))"
| step_record: "cbm_step m (snd (recordOutcome x g ep s err now None m))"
| step_raw: "cbm_step m (RecordRaw k s ws mc ho rt now m)"
| step_service: "cbm_step m (snd (IsServiceOpen k now m))"
| step_instance: "cbm_step m (snd (IsInstanceOpen k now m))"
| step_state: "cbm_step m (snd (GetState k now m))"
| step_allow: "cbm_step m (snd (AllowRequest k act now m))"
| step_open: "cbm_step m (snd (GetOpenBreakers ks now m))"
| step_legacy_acquire: "cbm_step m (snd (AcquireHalfOpenPermit k act m))"
| step_legacy_release: "cbm_step m (ReleaseHalfOpenPermit k m)"
| step_version: "cbm_step m (snd (CheckAndResetOnVersionChange k v m))"
| step_reset: "cbm_step m (cbm_Reset k m)"
| step_metrics: "cbm_step m (SetMetrics m)"
| step_handler: "cbm_step m (SetEventHandler m)"

lemma cbm_step_inv: "cbm_step m m' \<Longrightarrow> cbm_inv m \<Longrightarrow> cbm_inv m'"
  by (induction rule: cbm_step.induct)
     (simp_all add: attempt_acquire.keeps attempt_cancel.keeps attempt_end.keeps plain_outcome.keeps raw_record.keeps
       service_query.keeps instance_query.keeps state_query.keeps allow_query.keeps open_query.keeps
       legacy_acquire.keeps legacy_release.keeps version_check.keeps manager_reset.keeps
       SetMetrics_def SetEventHandler_def, simp_all add: cbm_inv_def)

text \<open>(C31) Whatever sequence of operations runs on a new manager, with whatever attempts (finished,
  cancelled, stale or never taken), every entry counts no or one probe in flight, counts one only in
  the half-open state, and every event handed to the callback reports a transition to Open.\<close>

theorem manager_runs_safe:
  assumes "cbm_step\<^sup>*\<^sup>* NewCircuitBreakerManager m"
  shows "(cbm_entries m k = Some e \<longrightarrow> 0 \<le> e_activeCalls e \<and> e_activeCalls e \<le> 1
            \<and> (e_activeCalls e = 1 \<longrightarrow> e_state e = CircuitHalfOpen))
         \<and> (HandleEvent ev \<in> set (cbm_effects m) \<longrightarrow> ev_NewState ev = ''OPEN'')"
proof -
  have "cbm_inv NewCircuitBreakerManager" by (simp add: cbm_inv_def NewCircuitBreakerManager_def)
  with assms have "cbm_inv m" by (induction rule: rtranclp_induct) (simp_all add: cbm_step_inv)
  then show ?thesis by (fastforce simp: cbm_inv_def entry_inv_def list_all_iff opens_def ran_def)
qed

lemma AllowRequest_agrees_acquire_entry:
  "fst (AllowRequest key act now m) = fst (acquire_entry key act now (fst (GetEntryWithModel key model m)))"
proof (cases "cbm_entries m key")
  case None
  then show ?thesis
    by (simp add: AllowRequest_def query_state_def GetEntryWithModel_def acquire_entry_def new_entry_def computeState_def Let_def)
next
  case (Some e)
  have s: "e_state (computeState now (e\<lparr>e_modelCode := mc\<rparr>)) = e_state (computeState now e)"
    "e_activeCalls (computeState now (e\<lparr>e_modelCode := mc\<rparr>)) = e_activeCalls (computeState now e)" for mc
    by (simp_all add: computeState_relabel)
  show ?thesis
    by (cases "e_state (computeState now e)")
       (simp_all add: Some s AllowRequest_def query_state_def stateVal_def GetEntryWithModel_def acquire_entry_def Let_def)
qed

text \<open>The router's check and the permit agree: at one clock reading, \<open>AllowRequest\<close> lets a key
  through exactly when the locked section of \<open>AcquireAttempt\<close> for that key grants it, for keys
  without an entry too.\<close>

theorem AllowRequest_agrees_with_acquire:
  "fst (AllowRequest key act now m) = fst (acquire_entry key act now (fst (GetEntryWithModel key model m)))"
  by (rule AllowRequest_agrees_acquire_entry)

subsection \<open>Rollback, stale leases, refusals\<close>

lemma computeState_token [simp]: "e_nextToken (computeState now e) = e_nextToken e"
  using computeState_evolves[of e now] by (auto simp: evolves_def)

text \<open>What an acquisition followed by the release of the permit it took leaves behind.\<close>

lemma acquire_release_cancel:
  assumes inv: "entry_inv e" and a: "acquire_entry key act now e = (True, p, ss, e')"
    and tok: "e_nextToken e + 1 \<noteq> 0"
  shows "e_activeCalls (release_permit p e') = e_activeCalls (computeState now e)
     \<and> e_permitToken (release_permit p e') = e_permitToken (computeState now e)
     \<and> e_state (release_permit p e') = e_state (computeState now e)"
proof -
  have c: "entry_inv (computeState now e)" using inv by (rule compute_op.op_inv)
  from a show ?thesis
  proof (cases rule: acquire_entry_cases)
    case token
    then have "e_activeCalls (computeState now e) = 0" "e_permitToken (computeState now e) = 0"
      using c by (auto simp: entry_inv_def)
    with token tok show ?thesis by (simp add: release_permit_def)
  qed (simp add: release_permit_def)
qed

lemma acquire_permit_key: "acquire_entry key act now e = (b, p, ss, e') \<Longrightarrow> pm_key p = key"
  by (auto simp: acquire_entry_def Let_def split: if_splits)

lemma GetEntryWithModel_snd: "cbm_entries (snd (GetEntryWithModel k mc m)) = (cbm_entries m)(k \<mapsto> fst (GetEntryWithModel k mc m))"
  by (simp add: GetEntryWithModel_def Let_def)

text \<open>Rollback: when the endpoint's breaker refuses after the service's breaker granted, the
  attempt ends in the instance error and the service entry's probe count, permit and state are what
  the passage of time alone makes of them; a service permit taken on the way has been given back.\<close>

theorem endpoint_refusal_rolls_back_service:
  assumes "cbm_inv m" and "service_key ep \<noteq> ep_ID ep"
    and "fst (GetEntryWithModel (service_key ep) (ep_Model ep) m) = e" and "e_nextToken e + 1 \<noteq> 0"
    and "fst (acquire_entry (service_key ep) act n1 e)"
    and "\<not> fst (AllowRequest (ep_ID ep) act n2 m)"
    and "AcquireAttempt (Some ep) act n1 n2 m = (r, m')"
  shows "r = Inl (''instance breaker half-open permit acquisition failed: '' @ ep_ID ep)
     \<and> (\<exists>e'. cbm_entries m' (service_key ep) = Some e'
          \<and> e_activeCalls e' = e_activeCalls (computeState n1 e)
          \<and> e_permitToken e' = e_permitToken (computeState n1 e)
          \<and> e_state e' = e_state (computeState n1 e))"
proof -
  let ?k = "service_key ep" and ?i = "ep_ID ep"
  obtain m1 where g1: "GetEntryWithModel ?k (ep_Model ep) m = (e, m1)" using assms(3) by (metis prod.collapse)
  obtain p ss e1 where a1: "acquire_entry ?k act n1 e = (True, p, ss, e1)"
    using assms(5) by (cases "acquire_entry ?k act n1 e") auto
  let ?m2 = "notify ?k ss (put_entry ?k e1 m1)"
  obtain f m3 where g2: "GetEntryWithModel ?i (ep_Model ep) ?m2 = (f, m3)" by fastforce
  have same: "cbm_entries ?m2 ?i = cbm_entries m ?i"
    using GetEntryWithModel_snd[of ?k "ep_Model ep" m] g1 assms(2) by simp
  then have "fst (GetEntryWithModel ?i (ep_Model ep) m) = f"
    using g2 by (simp add: GetEntryWithModel_def Let_def)
  then have "\<not> fst (acquire_entry ?i act n2 f)"
    using assms(6) AllowRequest_agrees_acquire_entry by metis
  then obtain q st f1 where a2: "acquire_entry ?i act n2 f = (False, q, st, f1)"
    by (cases "acquire_entry ?i act n2 f") auto
  have m3: "cbm_entries m3 ?k = Some e1"
    using GetEntryWithModel_snd[of ?i "ep_Model ep" ?m2] g2 assms(2) by simp
  have "entry_inv e" using GetEntryWithModel_inv[OF assms(1) g1] by simp
  note undone = acquire_release_cancel[OF this a1 assms(4)]
  have "cbm_entries (releasePermits [p] (notify ?i st (put_entry ?i f1 m3))) ?k = Some (release_permit p e1)"
    using m3 assms(2) acquire_permit_key[OF a1] by (simp add: releasePermits_def)
  with undone show ?thesis
    using assms(7) by (auto simp: AcquireAttempt_def g1 a1 g2 a2)
qed

lemma stale_lease_skipped:
  assumes "\<forall>e. cbm_entries m (pm_key pm) = Some e \<longrightarrow> e_attemptEpoch e \<noteq> pm_epoch pm"
  shows "record_key_lease p meta s now pm m = (pm, m)"
  using assms by (auto simp: record_key_lease_def lease_valid_def split: option.split)

lemma stale_permits_skipped:
  assumes "\<forall>pm\<in>set pms. \<forall>e. cbm_entries m (pm_key pm) = Some e \<longrightarrow> e_attemptEpoch e \<noteq> pm_epoch pm"
  shows "record_with_permits p meta s now key pms m = (pms, m)"
  using assms by (induction pms) (simp_all add: stale_lease_skipped)

lemma stale_release_skipped:
  assumes "\<forall>pm\<in>set pms. \<forall>e. cbm_entries m (pm_key pm) = Some e \<longrightarrow> e_attemptEpoch e \<noteq> pm_epoch pm"
  shows "cbm_entries (releasePermits pms m) = cbm_entries m"
  using assms
proof (induction pms arbitrary: m)
  case (Cons pm pms)
  let ?m = "case cbm_entries m (pm_key pm) of None \<Rightarrow> m | Some e \<Rightarrow> put_entry (pm_key pm) (release_permit pm e) m"
  have "cbm_entries ?m = cbm_entries m"
    using Cons.prems by (auto simp: release_permit_def fun_upd_idem split: option.split)
  moreover from this have "cbm_entries (releasePermits pms ?m) = cbm_entries ?m"
    using Cons.prems by (intro Cons.IH) simp
  ultimately show ?case by (simp add: releasePermits_def)
qed (simp add: releasePermits_def)

text \<open>A late result is never counted: when every entry the attempt holds a permit for has moved
  to another epoch (a reset, a policy version change, a recovery or a reopening happened meanwhile),
  finishing the attempt, with success or failure and under any policies, changes no entry.\<close>

theorem stale_attempt_changes_nothing:
  assumes "\<forall>pm\<in>set (at_permits a). \<forall>e. cbm_entries m (pm_key pm) = Some e \<longrightarrow> e_attemptEpoch e \<noteq> pm_epoch pm"
  shows "cbm_entries (snd (attempt_finish x g s err now a m)) = cbm_entries m"
proof -
  have "recordOutcome x g ep s err now (Some (at_permits a)) m = (Some (at_permits a), m)" for ep
  proof -
    have "fold (\<lambda>p st. if P p then record_policy_keys e (M p) s now p st else st) ps (Some (at_permits a), m)
        = (Some (at_permits a), m)" for P M e ps
      by (induction ps) (simp_all add: record_policy_keys_def record_step_def stale_permits_skipped[OF assms] Let_def)
    then show ?thesis by (simp add: recordOutcome_def split: option.split)
  qed
  with stale_release_skipped[OF assms] show ?thesis by (simp add: attempt_finish_def)
qed

text \<open>While the service breaker is open and its wait has not elapsed, an attempt is refused
  with the service error and takes nothing: no other entry is touched, and the service entry keeps
  its state, its probe count and its permit.\<close>

theorem open_service_refuses:
  assumes "cbm_entries m (service_key ep) = Some e" "e_state e = CircuitOpen"
    and "time_sub now (e_openSince e) < e_recoveryTO e"
    and "AcquireAttempt (Some ep) act now n2 m = (r, m')"
  shows "r = Inl (''service breaker half-open permit acquisition failed: '' @ service_key ep)
     \<and> (k \<noteq> service_key ep \<longrightarrow> cbm_entries m' k = cbm_entries m k)
     \<and> (\<exists>e'. cbm_entries m' (service_key ep) = Some e' \<and> e_state e' = CircuitOpen
          \<and> e_activeCalls e' = e_activeCalls e \<and> e_permitToken e' = e_permitToken e \<and> e_openSince e' = e_openSince e)"
proof -
  let ?k = "service_key ep"
  obtain f m1 where g: "GetEntryWithModel ?k (ep_Model ep) m = (f, m1)" by fastforce
  then have f: "f = (if ep_Model ep \<noteq> '''' then e\<lparr>e_modelCode := ep_Model ep\<rparr> else e)"
    and m1: "cbm_entries m1 = (cbm_entries m)(?k \<mapsto> f)"
    using assms(1) by (auto simp: GetEntryWithModel_def Let_def)
  have c: "e_state (computeState now f) = CircuitOpen" "e_activeCalls (computeState now f) = e_activeCalls e"
    "e_permitToken (computeState now f) = e_permitToken e" "e_openSince (computeState now f) = e_openSince e"
    using assms(2,3) by (simp_all add: f computeState_relabel, simp_all add: computeState_def Let_def)
  have "acquire_entry ?k act now f = (False, \<lparr>pm_key = ?k, pm_epoch = e_attemptEpoch (computeState now f), pm_token = 0,
      pm_version = e_policyVersion (computeState now f)\<rparr>, (e_state f, CircuitOpen), computeState now f)"
    using c by (simp add: acquire_entry_def Let_def)
  then show ?thesis using assms(4) g m1 c by (auto simp: AcquireAttempt_def releasePermits_def)
qed

subsection \<open>Evaluation\<close>

definition demo_ep :: Endpoint where
  "demo_ep = zero_endpoint\<lparr>ep_ID := ''ep1'', ep_Code := ''c1'', ep_Provider := ''acme'', ep_Model := ''m''\<rparr>"

definition demo_context :: "string \<Rightarrow> int \<Rightarrow> GatewayContext" where
  "demo_context level calls = zero_context\<lparr>g_Policy := Some (zero_policy\<lparr>pl_CircuitBreakPolicies :=
     [zero_breaker_policy\<lparr>cb_Level := level, cb_MinCallsThreshold := calls, cb_WaitDurationInOpenState := 1000\<rparr>]\<rparr>)\<rparr>"

definition demo_open :: circuitBreakerEntry where
  "demo_open = (new_entry ''m'')\<lparr>e_state := CircuitOpen, e_openSince := 5, e_recoveryTO := second\<rparr>"

definition demo_manager :: "string \<Rightarrow> CircuitBreakerManager" where
  "demo_manager key = put_entry key demo_open NewCircuitBreakerManager"

lemma demo_keys: "service_key demo_ep = ''acme:m''" "ep_ID demo_ep = ''ep1''" "ep_Model demo_ep = ''m''" "ep_Provider demo_ep = ''acme''"
  by (simp_all add: demo_ep_def zero_endpoint_def service_key_def)

lemma demo_manager_entries [simp]: "cbm_entries (demo_manager key) = [key \<mapsto> demo_open]"
  by (simp add: demo_manager_def NewCircuitBreakerManager_def)

lemma demo_manager_inv: "cbm_inv (demo_manager key)"
  unfolding demo_manager_def
  by (rule put_entry_inv) (simp_all add: cbm_inv_def NewCircuitBreakerManager_def demo_open_def entry_inv_def new_entry_def)

definition demo_raw :: CircuitBreakerManager where
  "demo_raw = RecordRaw ''k'' False 1 1 1 second 5 NewCircuitBreakerManager"

theorem manager_runs_safe_witness:
  "cbm_step\<^sup>*\<^sup>* NewCircuitBreakerManager demo_raw \<and> cbm_entries demo_raw ''k'' \<noteq> None
   \<and> e_activeCalls (the (cbm_entries demo_raw ''k'')) \<le> 1"
proof -
  have r: "cbm_step\<^sup>*\<^sup>* NewCircuitBreakerManager demo_raw" unfolding demo_raw_def by (blast intro: step_raw)
  have "cbm_entries demo_raw ''k'' \<noteq> None" by (auto simp: demo_raw_def RecordRaw_def split: prod.split)
  then obtain e where "cbm_entries demo_raw ''k'' = Some e" by blast
  with manager_runs_safe[OF r, of "''k''" e] r show ?thesis by simp
qed

theorem endpoint_refusal_rolls_back_service_witness:
  "fst (AcquireAttempt (Some demo_ep) False 6 6 (demo_manager ''ep1''))
   = Inl ''instance breaker half-open permit acquisition failed: ep1''"
proof -
  let ?m = "demo_manager ''ep1''"
  have g: "fst (GetEntryWithModel ''acme:m'' ''m'' ?m) = new_entry ''m''" by (simp add: GetEntryWithModel_def Let_def)
  have "fst (acquire_entry ''acme:m'' False 6 (new_entry ''m''))" "e_nextToken (new_entry ''m'') + 1 \<noteq> 0" by code_simp+
  moreover have "\<not> fst (acquire_entry ''ep1'' False 6 (fst (GetEntryWithModel ''ep1'' '''' ?m)))"
    by (simp add: GetEntryWithModel_def Let_def) code_simp
  then have "\<not> fst (AllowRequest ''ep1'' False 6 ?m)" by (simp add: AllowRequest_agrees_acquire_entry[of _ _ _ _ "''''"])
  ultimately have "r = Inl ''instance breaker half-open permit acquisition failed: ep1''"
    if "AcquireAttempt (Some demo_ep) False 6 6 ?m = (r, m')" for r m'
    using endpoint_refusal_rolls_back_service[OF demo_manager_inv _ _ _ _ _ that, of "new_entry ''m''"] g by (simp add: demo_keys)
  then show ?thesis by (metis prod.collapse)
qed

definition demo_stale :: CircuitBreakerAttempt where
  "demo_stale = \<lparr>at_endpoint = Some demo_ep, at_permits = [\<lparr>pm_key = ''acme:m'', pm_epoch = 7, pm_token = 1, pm_version = 0\<rparr>],
     at_once = False\<rparr>"

theorem stale_attempt_changes_nothing_witness:
  "cbm_entries (snd (attempt_finish literal_externals (Some (demo_context '''' 1)) True None 9 demo_stale (demo_manager ''acme:m'')))
   = [''acme:m'' \<mapsto> demo_open]"
proof -
  have "e_attemptEpoch demo_open \<noteq> 7" by code_simp
  then show ?thesis using stale_attempt_changes_nothing[of demo_stale "demo_manager ''acme:m''"]
    by (simp add: demo_stale_def)
qed

theorem open_service_refuses_witness:
  "fst (AcquireAttempt (Some demo_ep) False 6 6 (demo_manager ''acme:m''))
   = Inl ''service breaker half-open permit acquisition failed: acme:m''"
proof -
  have e: "cbm_entries (demo_manager ''acme:m'') (service_key demo_ep) = Some demo_open" by (simp add: demo_keys)
  have "e_state demo_open = CircuitOpen" "time_sub 6 (e_openSince demo_open) < e_recoveryTO demo_open" by code_simp+
  from open_service_refuses[OF e this, of False 6] show ?thesis by (simp add: demo_keys, metis prod.collapse)
qed

subsection \<open>What the metrics loop is told\<close>

lemma providerName_frames:
  "e_providerName (expireBuckets now e) = e_providerName e"
  "e_providerName (computeState now e) = e_providerName e"
  "e_providerName (set_config wt ws ft ho rt e) = e_providerName e"
  "e_providerName (open_report old rate e) = e_providerName e"
  "e_providerName (legacy_return e) = e_providerName e"
proof -
  show x: "e_providerName (expireBuckets now e) = e_providerName e" for e by (simp add: expireBuckets_def Let_def)
  show "e_providerName (computeState now e) = e_providerName e"
    by (cases "e_state e") (simp_all add: computeState_def Let_def x invalidateAttempts_def)
qed (simp_all add: set_config_def open_report_def legacy_return_def)

lemma providerName_record: "e_providerName (snd (record_policy p s now e)) = e_providerName e"
  by (simp add: record_policy_def recordLocked_def add_sample_def Let_def providerName_frames)

lemma record_key_plain_provider:
  "\<exists>e. cbm_entries (record_key_plain p meta model s now key m) key = Some e \<and> e_providerName e = m_providerName meta"
  using providerName_record[of p s now "legacy_return (set_meta meta _)"]
  by (auto simp: record_key_plain_def providerName_frames set_meta_def split: prod.splits) (metis snd_conv)

lemma record_key_plain_other:
  "k \<noteq> key \<Longrightarrow> cbm_entries (record_key_plain p meta model s now key m) k = cbm_entries m k"
  by (auto simp: record_key_plain_def CheckAndResetOnVersionChange_def getEntry_def GetEntryWithModel_def Let_def split: prod.splits)

text \<open>\<open>GetOpenBreakers\<close> reports an open service breaker among the endpoints: it takes an entry
  that carries a provider name for an endpoint, and recording an outcome writes that name into the
  service entry too.\<close>

theorem open_service_reported_as_endpoint:
  assumes "breaker_policies (Some g) = [p]" "outcome_matches x g False err p" "circuitPolicyApplies (cb_Level p) True"
    and "ep_Provider ep \<noteq> ''''" "service_key ep \<noteq> ep_ID ep"
    and "m' = cbm_RecordFailure x (Some g) (Some ep) err now m"
  shows "fst (GetOpenBreakers [service_key ep] t m')
       = (if fst (IsServiceOpen (service_key ep) t m') then [service_key ep] else [], [])"
proof -
  let ?k = "service_key ep"
  have "\<exists>e. cbm_entries m' ?k = Some e \<and> e_providerName e = ep_Provider ep"
    using assms record_key_plain_provider[of p "outcome_meta g ep p" "ep_Model ep" False now ?k m]
    by (auto simp: cbm_RecordFailure_def recordOutcome_def record_policy_keys_def record_step_def
        record_key_plain_other outcome_meta_def Let_def)
  then obtain e where e: "cbm_entries m' ?k = Some e" "e_providerName e = ep_Provider ep" by blast
  show ?thesis using assms(4) e
    by (auto simp: IsServiceOpen_def query_state_def stateVal_def Let_def providerName_frames)
qed

theorem open_service_reported_as_endpoint_witness:
  "let m = cbm_RecordFailure literal_externals (Some (demo_context ''SERVICE'' 1)) (Some demo_ep) (Some ''boom'') 5
         NewCircuitBreakerManager
   in fst (GetOpenBreakers [''acme:m''] 6 m) = (if fst (IsServiceOpen ''acme:m'' 6 m) then [''acme:m''] else [], [])"
proof -
  let ?p = "zero_breaker_policy\<lparr>cb_Level := ''SERVICE'', cb_MinCallsThreshold := 1, cb_WaitDurationInOpenState := 1000\<rparr>"
  have p: "breaker_policies (Some (demo_context ''SERVICE'' 1)) = [?p]"
    by (simp add: breaker_policies_def demo_context_def zero_policy_def)
  have "outcome_matches literal_externals (demo_context ''SERVICE'' 1) False (Some ''boom'') ?p" by code_simp
  moreover have "circuitPolicyApplies (cb_Level ?p) True" by code_simp
  ultimately show ?thesis
    using open_service_reported_as_endpoint[OF p, of literal_externals "Some ''boom''" demo_ep] by (simp add: demo_keys)
qed

end
