(* ===== verification/Routers.thy ===== *)
theory Routers
  imports Breaker_Manager Matcher "HOL-Library.List_Lexorder" "HOL-Library.Product_Lexorder"
begin

text \<open>
  The routers of \<open>src/pkg/routers\<close> and their composition in the router chain of
  \<open>src/pkg/invoker/cluster.go\<close>. Each \<open>Route\<close> maps the candidates to the remaining candidates; the
  circuit breaker router also moves the breaker manager. Unspecified choices of the runtime are
  arguments: the result of \<open>sort.Slice\<close> on policies of equal order, the numbers \<open>rand.Intn\<close>
  returns, the order in which \<open>range\<close> visits the groups. One \<open>Route\<close> call of the breaker router
  reads the clock once here.
\<close>

subsection \<open>Capability and priority\<close>

definition CapabilityRouter_Route :: "GatewayContext \<Rightarrow> Endpoint list \<Rightarrow> Endpoint list" where
  "CapabilityRouter_Route g endpoints = filter (SupportsRequestType (g_RequestType g)) endpoints"

definition min_priority :: "Endpoint list \<Rightarrow> int" where
  "min_priority endpoints = fold (\<lambda>ep m. if ep_Priority ep < m then ep_Priority ep else m) (tl endpoints) (ep_Priority (hd endpoints))"

definition PriorityRouter_Route :: "Endpoint list \<Rightarrow> Endpoint list" where
  "PriorityRouter_Route endpoints =
     (if endpoints = [] then endpoints else filter (\<lambda>ep. ep_Priority ep = min_priority endpoints) endpoints)"

subsection \<open>Tag routing\<close>

fun pick_destination :: "int \<Rightarrow> int \<Rightarrow> Destination list \<Rightarrow> Destination option" where
  "pick_destination val acc [] = None"
| "pick_destination val acc (d # ds) = (if val < acc + ds_Weight d then Some d else pick_destination val (acc + ds_Weight d) ds)"

definition selectDestination :: "nat \<Rightarrow> Destination list \<Rightarrow> Destination option" where
  "selectDestination r dests =
     (if dests = [] then None
      else let totalWeight = sum_list (map ds_Weight dests) in
        if totalWeight \<le> 0 then Some (hd dests)
        else case pick_destination (int r mod totalWeight) 0 dests of Some d \<Rightarrow> Some d | None \<Rightarrow> Some (hd dests))"

definition tag_filterEndpoints :: "Endpoint list \<Rightarrow> TagCondition list \<Rightarrow> string \<Rightarrow> Endpoint list" where
  "tag_filterEndpoints endpoints conds relation = filter (\<lambda>ep. matchEndpointMetadata ep conds relation) endpoints"

text \<open>The rules of one policy: the first rule that hits and leaves a candidate decides; every rule
  that hits takes the next of the \<open>draws\<close> for its call of \<open>rand.Intn\<close>.\<close>

fun route_rules :: "GatewayContext \<Rightarrow> Endpoint list \<Rightarrow> nat list \<Rightarrow> TagRule list \<Rightarrow> Endpoint list option \<times> nat list" where
  "route_rules g endpoints draws [] = (None, draws)"
| "route_rules g endpoints draws (rule # rules) =
     (if tag_router_matchConditions g (tr_Conditions rule) (tr_RelationType rule)
      then let (r, draws') = (case draws of [] \<Rightarrow> (0, []) | d # ds \<Rightarrow> (d, ds)) in
        case selectDestination r (tr_Destinations rule) of
          None \<Rightarrow> route_rules g endpoints draws' rules
        | Some dest \<Rightarrow>
            let filtered = tag_filterEndpoints endpoints (ds_Conditions dest) (ds_RelationType dest) in
            if filtered \<noteq> [] then (Some filtered, draws') else route_rules g endpoints draws' rules
      else route_rules g endpoints draws rules)"

fun route_policies :: "(TagRule list \<Rightarrow> TagRule list) \<Rightarrow> GatewayContext \<Rightarrow> Endpoint list \<Rightarrow> nat list \<Rightarrow> RoutePolicy list \<Rightarrow>
    Endpoint list option" where
  "route_policies sortR g endpoints draws [] = None"
| "route_policies sortR g endpoints draws (rp # rps) =
     (case route_rules g endpoints draws (sortR (rp_TagRules rp)) of
        (Some res, _) \<Rightarrow> Some res
      | (None, draws') \<Rightarrow> route_policies sortR g endpoints draws' rps)"

definition TagRouter_Route :: "(RoutePolicy list \<Rightarrow> RoutePolicy list) \<Rightarrow> (TagRule list \<Rightarrow> TagRule list) \<Rightarrow> nat list \<Rightarrow>
    GatewayContext \<Rightarrow> Endpoint list \<Rightarrow> Endpoint list" where
  "TagRouter_Route sortP sortR draws g endpoints =
     (case g_Policy g of None \<Rightarrow> endpoints
      | Some p \<Rightarrow> if pl_RoutePolicies p = [] then endpoints
          else case route_policies sortR g endpoints draws (sortP (pl_RoutePolicies p)) of
            Some res \<Rightarrow> res | None \<Rightarrow> endpoints)"

subsection \<open>Tenant whitelists\<close>

text \<open>The two expiring LRU caches and Redis are arguments: the cached value or cached error of a key,
  and the reply of \<open>SMEMBERS\<close>. The result also says what is added to the caches.\<close>

datatype cache_write = NoWrite | AddValid string "string list" | AddInvalid string string

definition RedisKeyTenantEndpoints :: "string \<Rightarrow> string \<Rightarrow> string" where
  "RedisKeyTenantEndpoints tenantCode modelCode = ''aigw:tenant:'' @ tenantCode @ '':model:'' @ modelCode @ '':endpoints''"

definition cache_Get :: "(string \<rightharpoonup> string) \<Rightarrow> (string \<rightharpoonup> string list) \<Rightarrow> string \<Rightarrow> (string list \<times> string) option" where
  "cache_Get invalidCache validCache key = (case invalidCache key of Some errMsg \<Rightarrow> Some ([], errMsg)
     | None \<Rightarrow> (case validCache key of Some v \<Rightarrow> Some (v, '''') | None \<Rightarrow> None))"

definition tenant_filterEndpoints :: "Endpoint list \<Rightarrow> string list \<Rightarrow> Endpoint list" where
  "tenant_filterEndpoints endpoints allowed =
     (if allowed = [] then endpoints else filter (\<lambda>ep. ep_ID ep \<in> set allowed) endpoints)"

definition TenantEndpointRouter_Route :: "bool \<Rightarrow> (string \<rightharpoonup> string) \<Rightarrow> (string \<rightharpoonup> string list) \<Rightarrow> (string \<Rightarrow> string + string list) \<Rightarrow>
    GatewayContext \<Rightarrow> Endpoint list \<Rightarrow> Endpoint list \<times> cache_write" where
  "TenantEndpointRouter_Route hasRedis invalidCache validCache smembers g endpoints =
     (if g_Tenant g = '''' \<or> \<not> hasRedis then (endpoints, NoWrite)
      else let redisKey = RedisKeyTenantEndpoints (g_Tenant g) (g_Model g) in
        case cache_Get invalidCache validCache redisKey of
          Some (allowed, errMsg) \<Rightarrow>
            if errMsg \<noteq> '''' then (endpoints, NoWrite) else (tenant_filterEndpoints endpoints allowed, NoWrite)
        | None \<Rightarrow> (case smembers redisKey of
            Inl err \<Rightarrow> (endpoints, AddInvalid redisKey err)
          | Inr allowed \<Rightarrow> (tenant_filterEndpoints endpoints allowed, AddValid redisKey allowed)))"

subsection \<open>Circuit breaker routing\<close>

definition bind_models :: "Endpoint list \<Rightarrow> CircuitBreakerManager \<Rightarrow> CircuitBreakerManager" where
  "bind_models endpoints m = fold (\<lambda>ep m. snd (GetEntryWithModel (ep_ID ep) (ep_Model ep)
     (snd (GetEntryWithModel (service_key ep) (ep_Model ep) m)))) endpoints m"

definition reset_all :: "Endpoint list \<Rightarrow> CircuitBreakerManager \<Rightarrow> CircuitBreakerManager" where
  "reset_all endpoints m = fold (\<lambda>ep m. cbm_Reset (ep_ID ep) (cbm_Reset (service_key ep) m)) endpoints m"

definition version_checks :: "CircuitBreakPolicy list \<Rightarrow> Endpoint list \<Rightarrow> CircuitBreakerManager \<Rightarrow> CircuitBreakerManager" where
  "version_checks policies endpoints m = fold (\<lambda>p m.
     let m1 = (if circuitPolicyApplies (cb_Level p) True
               then fold (\<lambda>ep m. snd (CheckAndResetOnVersionChange (service_key ep) (cb_Version p) m)) endpoints m else m)
     in if circuitPolicyApplies (cb_Level p) False
        then fold (\<lambda>ep m. snd (CheckAndResetOnVersionChange (ep_ID ep) (cb_Version p) m)) endpoints m1 else m1) policies m"

text \<open>\<open>AllowRequest\<close> asked for each endpoint in turn: the allowed ones, the refused ones, the manager.\<close>

fun allow_split :: "(Endpoint \<Rightarrow> string) \<Rightarrow> bool \<Rightarrow> instant \<Rightarrow> Endpoint list \<Rightarrow> CircuitBreakerManager \<Rightarrow>
    Endpoint list \<times> Endpoint list \<times> CircuitBreakerManager" where
  "allow_split key act now [] m = ([], [], m)"
| "allow_split key act now (ep # eps) m =
     (let (ok, m1) = AllowRequest (key ep) act now m; (yes, no, m2) = allow_split key act now eps m1
      in if ok then (ep # yes, no, m2) else (yes, ep # no, m2))"

definition instance_policies :: "CircuitBreakPolicy list \<Rightarrow> CircuitBreakPolicy list" where
  "instance_policies policies = filter (\<lambda>p. circuitPolicyApplies (cb_Level p) False) policies"

definition max_percent :: "CircuitBreakPolicy list \<Rightarrow> int" where
  "max_percent policies = fold (\<lambda>p mp. if cb_OutlierMaxPercent p > 0 \<and> (mp = 0 \<or> cb_OutlierMaxPercent p < mp)
     then cb_OutlierMaxPercent p else mp) (instance_policies policies) 0"

definition max_allowed :: "int \<Rightarrow> nat \<Rightarrow> nat" where
  "max_allowed maxPercent totalInGroup = (let a = nat (int totalInGroup * maxPercent div 100)
     in if a = 0 \<and> totalInGroup > 1 then 1 else a)"

definition kept_blocked :: "int \<Rightarrow> nat \<Rightarrow> Endpoint list \<Rightarrow> CircuitBreakerManager \<Rightarrow> Endpoint list" where
  "kept_blocked maxPercent totalInGroup groupBlocked m =
     (if maxPercent > 0
      then let allowed = max_allowed maxPercent totalInGroup in
        if length groupBlocked > allowed
        then take allowed (sort_key (\<lambda>ep. (GetOpenSince (ep_ID ep) m, ep_ID ep)) groupBlocked)
        else groupBlocked
      else groupBlocked)"

fun blocked_ids :: "bool \<Rightarrow> instant \<Rightarrow> int \<Rightarrow> Endpoint list \<Rightarrow> string list \<Rightarrow> CircuitBreakerManager \<Rightarrow> string list \<times> CircuitBreakerManager" where
  "blocked_ids act now mp passed [] m = ([], m)"
| "blocked_ids act now mp passed (k # ks) m =
     (let group = filter (\<lambda>ep. service_key ep = k) passed;
          (_, groupBlocked, m1) = allow_split ep_ID act now group m;
          kept = kept_blocked mp (length group) groupBlocked m1;
          (ids, m2) = blocked_ids act now mp passed ks m1
      in (map ep_ID kept @ ids, m2))"

definition CircuitBreakerRouter_Route :: "bool \<Rightarrow> string list \<Rightarrow> instant \<Rightarrow> GatewayContext \<Rightarrow> Endpoint list \<Rightarrow>
    CircuitBreakerManager \<Rightarrow> Endpoint list \<times> CircuitBreakerManager" where
  "CircuitBreakerRouter_Route act order now g endpoints m =
     (if endpoints = [] then (endpoints, m)
      else let m1 = bind_models endpoints m; policies = breaker_policies (Some g) in
        if policies = [] then (endpoints, reset_all endpoints m1)
        else let m2 = version_checks policies endpoints m1;
                 (servicePassed, _, m3) = allow_split service_key act now endpoints m2 in
          if servicePassed = [] then ([], m3)
          else let (ids, m4) = blocked_ids act now (max_percent policies) servicePassed order m3
               in (filter (\<lambda>ep. ep_ID ep \<notin> set ids) servicePassed, m4))"

subsection \<open>The chain\<close>

text \<open>A router as the chain sees it; the chain stops when nothing is left.\<close>

type_synonym 's router = "Endpoint list \<Rightarrow> 's \<Rightarrow> Endpoint list \<times> 's"

fun router_chain :: "'s router list \<Rightarrow> Endpoint list \<Rightarrow> 's \<Rightarrow> Endpoint list \<times> 's" where
  "router_chain [] eps s = (eps, s)"
| "router_chain (r # rs) eps s = (let (eps', s') = r eps s in if eps' = [] then ([], s') else router_chain rs eps' s')"

subsection \<open>The contract of a router\<close>

text \<open>A router only removes candidates, and keeps the order of those it leaves.\<close>

locale router =
  fixes route :: "'s router"
  assumes route_subseq: "subseq (fst (route eps s)) eps"
begin

lemma route_subset: "set (fst (route eps s)) \<subseteq> set eps"
  using route_subseq[of eps s] by (auto elim: list_emb_set)

lemma route_Nil [simp]: "fst (route [] s) = []"
  using route_subseq[of "[]" s] by simp

lemma route_length: "length (fst (route eps s)) \<le> length eps"
  using route_subseq by (rule list_emb_length)

end

text \<open>A router that leaves a candidate whenever it gets one.\<close>

locale nonempty_router = router +
  assumes route_nonempty: "eps \<noteq> [] \<Longrightarrow> fst (route eps s) \<noteq> []"

lemma router_chain_subseq:
  "(\<And>r. r \<in> set rs \<Longrightarrow> router r) \<Longrightarrow> subseq (fst (router_chain rs eps s)) eps"
proof (induction rs arbitrary: eps s)
  case (Cons r rs)
  have "subseq (fst (r eps s)) eps" using router.route_subseq[of r] Cons.prems by simp
  moreover have "subseq (fst (router_chain rs (fst (r eps s)) (snd (r eps s)))) (fst (r eps s))"
    using Cons by simp
  ultimately show ?case by (auto simp: Let_def split: prod.split)
qed simp

interpretation chain_of: router "router_chain []"
  by unfold_locales simp

interpretation capability: router "\<lambda>eps (s::unit). (CapabilityRouter_Route g eps, s)" for g
  by unfold_locales (simp add: CapabilityRouter_Route_def subseq_filter_left)

lemma min_priority_le: "ep \<in> set eps \<Longrightarrow> min_priority eps \<le> ep_Priority ep"
  and min_priority_in: "eps \<noteq> [] \<Longrightarrow> min_priority eps \<in> ep_Priority ` set eps"
proof -
  have f: "fold (\<lambda>ep m. if ep_Priority ep < m then ep_Priority ep else m) es b \<le> b
      \<and> (\<forall>ep\<in>set es. fold (\<lambda>ep m. if ep_Priority ep < m then ep_Priority ep else m) es b \<le> ep_Priority ep)
      \<and> fold (\<lambda>ep m. if ep_Priority ep < m then ep_Priority ep else m) es b \<in> insert b (ep_Priority ` set es)" for es b
  proof (induction es arbitrary: b)
    case (Cons e es)
    show ?case using Cons[of "if ep_Priority e < b then ep_Priority e else b"] by (auto split: if_splits)
  qed simp
  show "ep \<in> set eps \<Longrightarrow> min_priority eps \<le> ep_Priority ep"
    using f[of "tl eps" "ep_Priority (hd eps)"] by (cases eps) (auto simp: min_priority_def)
  show "eps \<noteq> [] \<Longrightarrow> min_priority eps \<in> ep_Priority ` set eps"
    using f[of "tl eps" "ep_Priority (hd eps)"] by (cases eps) (auto simp: min_priority_def)
qed

interpretation priority: nonempty_router "\<lambda>eps (s::unit). (PriorityRouter_Route eps, s)"
proof unfold_locales
  fix eps :: "Endpoint list" and s :: unit
  show "subseq (fst (PriorityRouter_Route eps, s)) eps" by (simp add: PriorityRouter_Route_def subseq_filter_left)
  show "eps \<noteq> [] \<Longrightarrow> fst (PriorityRouter_Route eps, s) \<noteq> []"
    using min_priority_in[of eps] by (auto simp: PriorityRouter_Route_def filter_empty_conv)
qed

lemma route_rules_Some:
  "route_rules g eps draws rules = (Some res, d') \<Longrightarrow> res \<noteq> [] \<and> subseq res eps"
proof (induction rules arbitrary: draws)
  case (Cons rule rules)
  then show ?case
    by (auto simp: Let_def tag_filterEndpoints_def subseq_filter_left split: if_splits option.splits prod.splits list.splits)
qed simp

lemma route_policies_Some:
  "route_policies sortR g eps draws rps = Some res \<Longrightarrow> res \<noteq> [] \<and> subseq res eps"
  by (induction rps arbitrary: draws) (auto dest: route_rules_Some split: prod.splits option.splits)

interpretation tag: nonempty_router "\<lambda>eps (s::unit). (TagRouter_Route sortP sortR draws g eps, s)" for sortP sortR draws g
  by unfold_locales (auto simp: TagRouter_Route_def dest: route_policies_Some split: option.split)

interpretation tenant: router "\<lambda>eps (s::unit). (fst (TenantEndpointRouter_Route red inv val sm g eps), s)" for red inv val sm g
  by unfold_locales
     (simp add: TenantEndpointRouter_Route_def tenant_filterEndpoints_def Let_def subseq_filter_left split: option.split sum.split prod.split)

lemma allow_split_subseq: "allow_split key act now eps m = (yes, no, m') \<Longrightarrow> subseq yes eps \<and> subseq no eps"
  by (induction eps arbitrary: m yes no m') (auto simp: Let_def split: prod.splits if_splits)

interpretation breaker: router "CircuitBreakerRouter_Route act order now g" for act order now g
proof unfold_locales
  fix eps :: "Endpoint list" and s
  show "subseq (fst (CircuitBreakerRouter_Route act order now g eps s)) eps"
    by (auto simp: CircuitBreakerRouter_Route_def Let_def dest!: allow_split_subseq split: prod.splits)
       (meson subseq_filter_left subseq_order.trans)+
qed

subsection \<open>Properties\<close>

text \<open>The routers the gateway builds its chain from.\<close>

definition gateway_router :: "(Endpoint list \<Rightarrow> CircuitBreakerManager \<Rightarrow> Endpoint list \<times> CircuitBreakerManager) \<Rightarrow> bool" where
  "gateway_router r \<longleftrightarrow>
     (\<exists>g. r = (\<lambda>eps m. (CapabilityRouter_Route g eps, m)))
   \<or> r = (\<lambda>eps m. (PriorityRouter_Route eps, m))
   \<or> (\<exists>sortP sortR draws g. r = (\<lambda>eps m. (TagRouter_Route sortP sortR draws g eps, m)))
   \<or> (\<exists>red inv val sm g. r = (\<lambda>eps m. (fst (TenantEndpointRouter_Route red inv val sm g eps), m)))
   \<or> (\<exists>act order now g. r = CircuitBreakerRouter_Route act order now g)"

lemma gateway_router_router: "gateway_router r \<Longrightarrow> router r"
  using capability.route_subseq priority.route_subseq tag.route_subseq tenant.route_subseq breaker.router_axioms
  unfolding gateway_router_def router_def by (elim disjE exE) simp_all

text \<open>The router chain only narrows the candidates: whatever routers of the gateway it is made
  of, in whatever order, its result is a subsequence of the candidates discovery returned.\<close>

theorem chain_narrows:
  assumes "\<forall>r\<in>set rs. gateway_router r"
  shows "subseq (fst (router_chain rs eps m)) eps"
  using assms by (intro router_chain_subseq gateway_router_router) blast

theorem chain_narrows_witness:
  "subseq (fst (router_chain [CircuitBreakerRouter_Route False [] 0 zero_context, (\<lambda>eps m. (PriorityRouter_Route eps, m))]
     [demo_ep] NewCircuitBreakerManager)) [demo_ep]"
proof (rule chain_narrows)
  have "gateway_router (CircuitBreakerRouter_Route False [] 0 zero_context)"
    unfolding gateway_router_def by blast
  moreover have "gateway_router (\<lambda>eps m. (PriorityRouter_Route eps, m))" unfolding gateway_router_def by blast
  ultimately show "\<forall>r\<in>set [CircuitBreakerRouter_Route False [] 0 zero_context, \<lambda>eps m. (PriorityRouter_Route eps, m)].
      gateway_router r" by simp
qed

text \<open>The priority router leaves exactly the candidates no other candidate outranks, and at least
  one of them.\<close>

theorem priority_router_exact:
  "PriorityRouter_Route eps = filter (\<lambda>ep. list_all (\<lambda>x. ep_Priority ep \<le> ep_Priority x) eps) eps
   \<and> (PriorityRouter_Route eps = [] \<longleftrightarrow> eps = [])"
proof (cases "eps = []")
  case False
  have "ep_Priority ep = min_priority eps \<longleftrightarrow> list_all (\<lambda>x. ep_Priority ep \<le> ep_Priority x) eps" if "ep \<in> set eps" for ep
    using min_priority_le[of _ eps] min_priority_in[OF False] that by (force simp: list_all_iff)
  then show ?thesis using False priority.route_nonempty[OF False] by (auto simp: PriorityRouter_Route_def cong: filter_cong)
qed (simp add: PriorityRouter_Route_def)

text \<open>Tag routing never leaves a request without candidates: if no rule that hits leaves one, the
  default pool is used; and a result smaller than the pool consists of the endpoints some
  destination of a rule that hits asks for.\<close>

theorem tag_router_falls_back:
  "(TagRouter_Route sortP sortR draws g eps = [] \<longleftrightarrow> eps = [])
   \<and> (TagRouter_Route sortP sortR draws g eps = eps
      \<or> (\<exists>conds rel. TagRouter_Route sortP sortR draws g eps = filter (\<lambda>ep. matchEndpointMetadata ep conds rel) eps))"
proof -
  have rules: "route_rules g eps d rules = (Some res, d') \<Longrightarrow> \<exists>conds rel. res = filter (\<lambda>ep. matchEndpointMetadata ep conds rel) eps"
    for d rules res d'
  proof (induction rules arbitrary: d)
    case (Cons rule rules)
    then show ?case
      by (auto simp: Let_def tag_filterEndpoints_def split: if_splits option.splits prod.splits list.splits)
  qed simp
  have "route_policies sortR g eps d rps = Some res \<Longrightarrow> \<exists>conds rel. res = filter (\<lambda>ep. matchEndpointMetadata ep conds rel) eps"
    for d rps res
    by (induction rps arbitrary: d) (auto dest: rules split: prod.splits option.splits)
  moreover have "TagRouter_Route sortP sortR draws g [] = []" using tag.route_Nil[of sortP sortR draws g] by simp
  moreover have "eps \<noteq> [] \<Longrightarrow> TagRouter_Route sortP sortR draws g eps \<noteq> []"
    using tag.route_nonempty[of eps sortP sortR draws g] by simp
  moreover have "TagRouter_Route sortP sortR draws g eps = eps
      \<or> (\<exists>p rps. route_policies sortR g eps draws rps = Some (TagRouter_Route sortP sortR draws g eps))"
    by (auto simp: TagRouter_Route_def split: option.split)
  ultimately show ?thesis by metis
qed

lemma max_allowed_less: "0 < mp \<Longrightarrow> mp < 100 \<Longrightarrow> 0 < n \<Longrightarrow> max_allowed mp n < n"
proof -
  assume mp: "0 < mp" "mp < 100" and n: "0 < n"
  have "int n * mp < int n * 100" using mp n by simp
  then have "int n * mp div 100 < int n" by (simp add: div_less_iff_less_mult)
  then have "nat (int n * mp div 100) < n" using n by linarith
  then show ?thesis using n by (simp add: max_allowed_def Let_def)
qed

lemma kept_blocked_sub: "set (kept_blocked mp n bs m) \<subseteq> set bs"
  by (auto simp: kept_blocked_def Let_def dest: in_set_takeD)

lemma kept_blocked_length: "0 < mp \<Longrightarrow> length (kept_blocked mp n bs m) \<le> max_allowed mp n"
  by (simp add: kept_blocked_def Let_def)

lemma allow_split_blocked: "allow_split key act now eps m = (yes, no, m') \<Longrightarrow> set no \<subseteq> set eps"
  using allow_split_subseq[of key act now eps m yes no m'] by (auto elim: list_emb_set)

lemma blocked_ids_members:
  "blocked_ids act now mp passed order m = (ids, m')
   \<Longrightarrow> set ids \<subseteq> ep_ID ` {ep \<in> set passed. service_key ep \<in> set order}"
proof (induction order arbitrary: m ids m')
  case (Cons j order)
  let ?grp = "filter (\<lambda>ep. service_key ep = j) passed"
  obtain yes no m1 where s: "allow_split ep_ID act now ?grp m = (yes, no, m1)" by (cases "allow_split ep_ID act now ?grp m") auto
  obtain ids2 m2 where b: "blocked_ids act now mp passed order m1 = (ids2, m2)" by fastforce
  have "ids = map ep_ID (kept_blocked mp (length ?grp) no m1) @ ids2" using Cons.prems s b by (auto simp: Let_def)
  moreover have "set (kept_blocked mp (length ?grp) no m1) \<subseteq> {ep \<in> set passed. service_key ep = j}"
    using kept_blocked_sub[of mp "length ?grp" no m1] allow_split_blocked[OF s] by auto
  ultimately show ?case using Cons.IH[OF b] by auto
qed simp

text \<open>The identifiers a group contributes are at most the cap, and they belong to the group.\<close>

lemma blocked_ids_group:
  assumes "blocked_ids act now mp passed order m = (ids, m')" "0 < mp" "distinct order"
    and "inj_on ep_ID (set passed)"
  shows "card {ep \<in> set passed. service_key ep = k \<and> ep_ID ep \<in> set ids} \<le> max_allowed mp (length (filter (\<lambda>ep. service_key ep = k) passed))"
  using assms(1,3)
proof (induction order arbitrary: m ids m')
  case (Cons j order)
  let ?grp = "filter (\<lambda>ep. service_key ep = j) passed"
  obtain yes no m1 where s: "allow_split ep_ID act now ?grp m = (yes, no, m1)" by (cases "allow_split ep_ID act now ?grp m") auto
  obtain ids2 m2 where b: "blocked_ids act now mp passed order m1 = (ids2, m2)" by fastforce
  let ?kept = "kept_blocked mp (length ?grp) no m1"
  have ids: "ids = map ep_ID ?kept @ ids2" using Cons.prems(1) s b by (auto simp: Let_def)
  have kept: "set ?kept \<subseteq> {ep \<in> set passed. service_key ep = j}"
    using kept_blocked_sub[of mp "length ?grp" no m1] allow_split_blocked[OF s] by auto
  have hit: "ep \<in> set ?kept" if "ep \<in> set passed" "ep_ID ep \<in> ep_ID ` set ?kept" for ep
    using that kept assms(4) by (auto simp: inj_on_def)
  have later: "set ids2 \<subseteq> ep_ID ` {ep \<in> set passed. service_key ep \<in> set order}"
    using b by (rule blocked_ids_members)
  show ?case
  proof (cases "k = j")
    case True
    have "ep \<in> set ?kept" if ep: "ep \<in> set passed" "service_key ep = k" "ep_ID ep \<in> set ids" for ep
    proof (cases "ep_ID ep \<in> ep_ID ` set ?kept")
      case False
      then have "ep_ID ep \<in> set ids2" using ep(3) ids by simp
      then obtain e2 where "e2 \<in> set passed" "service_key e2 \<in> set order" "ep_ID e2 = ep_ID ep" using later by auto
      then have "service_key ep \<in> set order" using inj_onD[OF assms(4)] ep(1) by metis
      then show ?thesis using ep(2) True Cons.prems(2) by simp
    qed (rule hit[OF ep(1)])
    then have "{ep \<in> set passed. service_key ep = k \<and> ep_ID ep \<in> set ids} \<subseteq> set ?kept" by blast
    then have "card {ep \<in> set passed. service_key ep = k \<and> ep_ID ep \<in> set ids} \<le> length ?kept"
      by (meson card_length card_mono finite_set order_trans)
    then show ?thesis using kept_blocked_length[OF assms(2), of "length ?grp" no m1] True by simp
  next
    case False
    have "{ep \<in> set passed. service_key ep = k \<and> ep_ID ep \<in> set ids} \<subseteq> {ep \<in> set passed. service_key ep = k \<and> ep_ID ep \<in> set ids2}"
      using hit kept False by (auto simp: ids)
    then have "card {ep \<in> set passed. service_key ep = k \<and> ep_ID ep \<in> set ids} \<le> card {ep \<in> set passed. service_key ep = k \<and> ep_ID ep \<in> set ids2}"
      by (intro card_mono) simp_all
    with Cons.IH[OF b] Cons.prems(2) show ?thesis by simp
  qed
qed simp


text \<open>An entry as \<open>Reset\<close> leaves it.\<close>

definition recovered :: "circuitBreakerEntry \<Rightarrow> bool" where
  "recovered e \<longleftrightarrow> e_state e = CircuitClosed \<and> e_results e = [] \<and> e_buckets e = []"

lemma recovered_allows:
  assumes "cbm_entries m k = Some e" "recovered e"
  shows "fst (AllowRequest k act now m)"
proof -
  have "expireBuckets now e = e" using assms(2) by (simp add: expireBuckets_def recovered_def Let_def)
  then have "computeState now e = e"
    using assms(2) by (simp add: computeState_def recovered_def window_failures_def count_failures_def Let_def)
  with assms show ?thesis by (simp add: AllowRequest_def query_state_def stateVal_def recovered_def Let_def)
qed

lemma reset_recovers: "\<exists>e. cbm_entries (cbm_Reset k m) k = Some e \<and> recovered e"
  by (auto simp: cbm_Reset_def reset_entry_def clear_window_def invalidateAttempts_def recovered_def split: prod.split)

lemma reset_others: "j \<noteq> k \<Longrightarrow> cbm_entries (cbm_Reset k m) j = cbm_entries m j"
  by (auto simp: cbm_Reset_def getEntry_def GetEntryWithModel_def reset_entry_def Let_def split: prod.split)

lemma reset_keeps_recovered:
  "cbm_entries m j = Some e \<Longrightarrow> recovered e \<Longrightarrow> \<exists>e. cbm_entries (cbm_Reset k m) j = Some e \<and> recovered e"
  using reset_recovers[of k m] reset_others[of j k m] by (cases "j = k") auto

lemma reset_all_recovers:
  "j \<in> service_key ` set eps \<union> ep_ID ` set eps \<or> (\<exists>e. cbm_entries m j = Some e \<and> recovered e)
   \<Longrightarrow> \<exists>e. cbm_entries (reset_all eps m) j = Some e \<and> recovered e"
proof (induction eps arbitrary: m)
  case (Cons ep eps)
  let ?m = "cbm_Reset (ep_ID ep) (cbm_Reset (service_key ep) m)"
  have "j \<in> service_key ` set eps \<union> ep_ID ` set eps \<or> (\<exists>e. cbm_entries ?m j = Some e \<and> recovered e)"
    using Cons.prems reset_recovers reset_keeps_recovered by (auto, metis+)
  from Cons.IH[OF this] show ?case by (simp add: reset_all_def)
qed (simp add: reset_all_def)

text \<open>Removing the circuit break policies recovers the breakers they left behind: the router then
  passes every candidate, and the service and instance breakers of every candidate let requests
  through again, at any later time.\<close>

theorem policy_removal_recovers:
  assumes "breaker_policies (Some g) = []" "ep \<in> set eps"
    and "CircuitBreakerRouter_Route act order now g eps m = (res, m')"
  shows "res = eps \<and> fst (AllowRequest (service_key ep) act' later m') \<and> fst (AllowRequest (ep_ID ep) act' later m')"
proof -
  have r: "res = eps" "m' = reset_all eps (bind_models eps m)"
    using assms by (auto simp: CircuitBreakerRouter_Route_def Let_def split: if_splits)
  have "\<exists>e. cbm_entries m' j = Some e \<and> recovered e" if "j = service_key ep \<or> j = ep_ID ep" for j
    unfolding r(2) using that assms(2) by (intro reset_all_recovers) auto
  then show ?thesis using r(1) recovered_allows by blast
qed

lemma demo_route_empty: "distinct (map ep_ID [demo_ep])"
  by simp

definition capped_context :: GatewayContext where
  "capped_context = zero_context\<lparr>g_Policy := Some (zero_policy\<lparr>pl_CircuitBreakPolicies :=
     [zero_breaker_policy\<lparr>cb_OutlierMaxPercent := 50\<rparr>]\<rparr>)\<rparr>"


theorem policy_removal_recovers_witness:
  "let r = CircuitBreakerRouter_Route False [] 6 zero_context [demo_ep] (demo_manager ''ep1'')
   in fst r = [demo_ep] \<and> fst (AllowRequest ''ep1'' False 7 (snd r))"
proof -
  have "breaker_policies (Some zero_context) = []" by (simp add: breaker_policies_def zero_context_def)
  from policy_removal_recovers[OF this _ prod.collapse[symmetric], of demo_ep "[demo_ep]"] show ?thesis
    by (simp add: demo_keys Let_def)
qed

text \<open>The permit check does not know the outlier cap: an endpoint whose instance breaker is open
  and whose wait has not elapsed is refused by \<open>AcquireAttempt\<close>, also when the router has released it
  because too many instances of its group are open.\<close>

theorem released_endpoint_still_refused:
  assumes "cbm_entries m (ep_ID ep) = Some e" "e_state e = CircuitOpen" "time_sub n2 (e_openSince e) < e_recoveryTO e"
    and "service_key ep \<noteq> ep_ID ep"
  shows "\<exists>err. fst (AcquireAttempt (Some ep) act n1 n2 m) = Inl err"
proof -
  let ?k = "service_key ep" and ?i = "ep_ID ep"
  obtain f m1 where g1: "GetEntryWithModel ?k (ep_Model ep) m = (f, m1)" by fastforce
  obtain ok p ss f1 where a1: "acquire_entry ?k act n1 f = (ok, p, ss, f1)" by (cases "acquire_entry ?k act n1 f") auto
  let ?m2 = "notify ?k ss (put_entry ?k f1 m1)"
  have same: "cbm_entries ?m2 ?i = Some e"
    using GetEntryWithModel_snd[of ?k "ep_Model ep" m] g1 assms(1,4) by simp
  obtain h m3 where g2: "GetEntryWithModel ?i (ep_Model ep) ?m2 = (h, m3)" by fastforce
  have h: "h = (if ep_Model ep \<noteq> '''' then e\<lparr>e_modelCode := ep_Model ep\<rparr> else e)"
    using g2 same by (auto simp: GetEntryWithModel_def Let_def)
  have "e_state (computeState n2 h) = CircuitOpen"
    using assms(2,3) by (simp add: h computeState_relabel, simp add: computeState_def Let_def)
  then have "fst (acquire_entry ?i act n2 h) = False" by (simp add: acquire_entry_def Let_def)
  then obtain q st h1 where a2: "acquire_entry ?i act n2 h = (False, q, st, h1)" by (cases "acquire_entry ?i act n2 h") auto
  show ?thesis by (cases ok) (auto simp: AcquireAttempt_def g1 a1 g2 a2)
qed

theorem released_endpoint_still_refused_witness:
  "\<exists>err. fst (AcquireAttempt (Some demo_ep) False 6 6 (demo_manager ''ep1'')) = Inl err"
proof -
  have "e_state demo_open = CircuitOpen" "time_sub 6 (e_openSince demo_open) < e_recoveryTO demo_open" by code_simp+
  then show ?thesis using released_endpoint_still_refused[of "demo_manager ''ep1''" demo_ep demo_open 6 False 6]
    by (simp add: demo_keys)
qed

end
