(* ===== verification/Load_Balancers.thy ===== *)
theory Load_Balancers
  imports Gateway_Types
begin

text \<open>
  The load balancers of \<open>src/pkg/lbs\<close>. Each \<open>Select\<close> is a function from the balancer's state, the request
  context and the candidate list to the chosen endpoint (the \<open>ProviderInvoker\<close> it returns is determined by it) and
  the new state; the mutex or the atomic counter of the source makes one call one step. Random numbers
  are an argument \<open>r\<close>: \<open>crypto/rand.Int\<close> returns a number in \<open>[0, n)\<close>, that is \<open>r mod n\<close> for
  some \<open>r\<close>. Weights are Go \<open>int\<close>s; their sums are taken to stay in the 64-bit range.
\<close>

subsection \<open>Round robin\<close>

type_synonym rr_state = "string \<rightharpoonup> u64"

definition routePoolKey :: "GatewayContext option \<Rightarrow> Endpoint list \<Rightarrow> string" where
  "routePoolKey gctx endpoints =
     (case gctx of
        Some g \<Rightarrow> if g_Model g \<noteq> '''' then g_Model g
                   else if endpoints \<noteq> [] \<and> ep_Model (hd endpoints) \<noteq> '''' then ep_Model (hd endpoints) else ''__default__''
      | None \<Rightarrow> if endpoints \<noteq> [] \<and> ep_Model (hd endpoints) \<noteq> '''' then ep_Model (hd endpoints) else ''__default__'')
     @ ''|'' @ str_join '','' (map ep_ID endpoints)"

definition counterFor :: "string \<Rightarrow> rr_state \<Rightarrow> u64" where
  "counterFor key counters = (case counters key of Some c \<Rightarrow> c | None \<Rightarrow> 0)"

definition RoundRobin_Select :: "GatewayContext option \<Rightarrow> Endpoint list \<Rightarrow> rr_state \<Rightarrow> Endpoint option \<times> rr_state" where
  "RoundRobin_Select gctx endpoints counters =
     (if endpoints = [] then (None, counters)
      else let key = routePoolKey gctx endpoints;
               c = counterFor key counters + 1;
               idx = c - 1
           in (Some (endpoints ! unat (idx mod of_nat (length endpoints))), counters(key \<mapsto> c)))"

subsection \<open>Smooth weighted round robin\<close>

type_synonym wrr_state = "string \<rightharpoonup> int"

definition eff_weight :: "Endpoint \<Rightarrow> int" where
  "eff_weight ep = (if ep_Weight ep \<le> 0 then 1 else ep_Weight ep)"

definition total_weight :: "Endpoint list \<Rightarrow> int" where
  "total_weight endpoints = sum_list (map eff_weight endpoints)"

definition cur_weight :: "wrr_state \<Rightarrow> string \<Rightarrow> int" where
  "cur_weight ws k = (case ws k of Some v \<Rightarrow> v | None \<Rightarrow> 0)"

definition wrr_init :: "Endpoint list \<Rightarrow> wrr_state \<Rightarrow> wrr_state" where
  "wrr_init endpoints ws = fold (\<lambda>ep ws. if ws (ep_ID ep) = None then ws(ep_ID ep \<mapsto> 0) else ws) endpoints ws"

fun wrr_scan :: "Endpoint list \<Rightarrow> wrr_state \<Rightarrow> int \<Rightarrow> Endpoint option \<Rightarrow> wrr_state \<times> Endpoint option" where
  "wrr_scan [] ws maxWeight selected = (ws, selected)"
| "wrr_scan (ep # eps) ws maxWeight selected =
     (let c = cur_weight ws (ep_ID ep) + eff_weight ep; ws' = ws(ep_ID ep \<mapsto> c) in
      if maxWeight < 0 \<or> c > maxWeight then wrr_scan eps ws' c (Some ep) else wrr_scan eps ws' maxWeight selected)"

definition WeightedRoundRobin_Select :: "Endpoint list \<Rightarrow> wrr_state \<Rightarrow> Endpoint option \<times> wrr_state" where
  "WeightedRoundRobin_Select endpoints ws =
     (if endpoints = [] then (None, ws)
      else case wrr_scan endpoints (wrr_init endpoints ws) (-1) None of
        (ws', None) \<Rightarrow> (None, ws')
      | (ws', Some ep) \<Rightarrow> (Some ep, ws'(ep_ID ep \<mapsto> cur_weight ws' (ep_ID ep) - total_weight endpoints)))"

subsection \<open>Random and weighted random\<close>

text \<open>\<open>None\<close> is an error of the random source.\<close>

definition randomInt :: "nat option \<Rightarrow> nat \<Rightarrow> nat" where
  "randomInt r n = (case r of None \<Rightarrow> 0 | Some v \<Rightarrow> v mod n)"

definition Random_Select :: "nat option \<Rightarrow> Endpoint list \<Rightarrow> Endpoint option" where
  "Random_Select r endpoints = (if endpoints = [] then None else Some (endpoints ! randomInt r (length endpoints)))"

fun cumulative :: "int \<Rightarrow> int \<Rightarrow> Endpoint list \<Rightarrow> Endpoint option" where
  "cumulative r cum [] = None"
| "cumulative r cum (ep # eps) = (if r < cum + eff_weight ep then Some ep else cumulative r (cum + eff_weight ep) eps)"

definition WeightedRandom_Select :: "nat option \<Rightarrow> Endpoint list \<Rightarrow> Endpoint option" where
  "WeightedRandom_Select r endpoints =
     (if endpoints = [] then None
      else case cumulative (int (randomInt r (nat (total_weight endpoints)))) 0 endpoints of
        Some ep \<Rightarrow> Some ep | None \<Rightarrow> Some (last endpoints))"

subsection \<open>Least connections\<close>

type_synonym conn_state = "string \<rightharpoonup> int"

definition ActiveConnections :: "string \<Rightarrow> conn_state \<Rightarrow> int" where
  "ActiveConnections k cs = (case cs k of Some c \<Rightarrow> c | None \<Rightarrow> 0)"

definition conn_init :: "Endpoint list \<Rightarrow> conn_state \<Rightarrow> conn_state" where
  "conn_init endpoints cs = fold (\<lambda>ep cs. if cs (ep_ID ep) = None then cs(ep_ID ep \<mapsto> 0) else cs) endpoints cs"

fun min_scan :: "(Endpoint \<Rightarrow> int option) \<Rightarrow> Endpoint list \<Rightarrow> int \<Rightarrow> Endpoint option \<Rightarrow> Endpoint option" where
  "min_scan val [] best selected = selected"
| "min_scan val (ep # eps) best selected =
     (case val ep of None \<Rightarrow> min_scan val eps best selected
      | Some v \<Rightarrow> if best < 0 \<or> v < best then min_scan val eps v (Some ep) else min_scan val eps best selected)"

definition LeastConnections_Select :: "Endpoint list \<Rightarrow> conn_state \<Rightarrow> Endpoint option \<times> conn_state" where
  "LeastConnections_Select endpoints cs =
     (if endpoints = [] then (None, cs)
      else let cs1 = conn_init endpoints cs in
        case min_scan (\<lambda>ep. Some (ActiveConnections (ep_ID ep) cs1)) endpoints (-1) None of
          None \<Rightarrow> (None, cs1)
        | Some ep \<Rightarrow> (Some ep, cs1(ep_ID ep \<mapsto> ActiveConnections (ep_ID ep) cs1 + 1)))"

definition IncrConnections :: "string \<Rightarrow> conn_state \<Rightarrow> conn_state" where
  "IncrConnections k cs = (case cs k of Some c \<Rightarrow> cs(k \<mapsto> c + 1) | None \<Rightarrow> cs(k \<mapsto> 1))"

definition Done :: "string \<Rightarrow> conn_state \<Rightarrow> conn_state" where
  "Done k cs = (case cs k of Some c \<Rightarrow> if c > 0 then cs(k \<mapsto> c - 1) else cs | None \<Rightarrow> cs)"

subsection \<open>Least latency, cost and composite\<close>

text \<open>The averages come from the state store: \<open>avg metric id window\<close>, \<open>None\<close> when the query fails.
  \<open>time.ParseDuration\<close> is an argument.\<close>

definition defaultLatencyWindow :: duration where
  "defaultLatencyWindow = 5 * minute"

definition resolveConfig :: "(string \<Rightarrow> duration option) \<Rightarrow> duration \<Rightarrow> GatewayContext option \<Rightarrow> duration \<times> string" where
  "resolveConfig parseDuration window0 gctx =
     (case gctx of None \<Rightarrow> (window0, ''total'')
      | Some g \<Rightarrow> (case lb_params g of None \<Rightarrow> (window0, ''total'')
        | Some params \<Rightarrow>
            (case params ''latency_window'' of
               Some (PFloat x) \<Rightarrow> if x > 0 then go_mul (int64_of x) second else window0
             | Some (PInt x) \<Rightarrow> if x > 0 then go_mul x second else window0
             | Some (PStr s) \<Rightarrow> (case parseDuration s of Some d \<Rightarrow> if d > 0 then d else window0 | None \<Rightarrow> window0)
             | _ \<Rightarrow> window0,
             case params ''latency_metric'' of
               Some (PStr s) \<Rightarrow> if s = ''ttft'' \<or> s = ''total'' then s else ''total''
             | _ \<Rightarrow> ''total'')))"

definition LeastLatency_Select :: "(string \<Rightarrow> duration option) \<Rightarrow> (string \<Rightarrow> string \<Rightarrow> duration \<Rightarrow> duration option) \<Rightarrow>
    GatewayContext option \<Rightarrow> Endpoint list \<Rightarrow> Endpoint option" where
  "LeastLatency_Select parseDuration avg gctx endpoints =
     (if endpoints = [] then None
      else let (window, metric) = resolveConfig parseDuration defaultLatencyWindow gctx in
        case min_scan (\<lambda>ep. avg metric (ep_ID ep) window) endpoints (-1) None of
          None \<Rightarrow> Some (hd endpoints) | Some ep \<Rightarrow> Some ep)"

definition max_float64 :: rat where
  "max_float64 = (2 ^ 53 - 1) * 2 ^ 971"

fun cost_scan :: "(Endpoint \<Rightarrow> rat) \<Rightarrow> Endpoint list \<Rightarrow> rat \<Rightarrow> Endpoint option \<Rightarrow> Endpoint option" where
  "cost_scan cost [] bestCost best = best"
| "cost_scan cost (ep # eps) bestCost best =
     (if cost ep < bestCost then cost_scan cost eps (cost ep) (Some ep) else cost_scan cost eps bestCost best)"

text \<open>The cost balancer dereferences \<open>best\<close> unconditionally: \<open>Inl\<close> is the nil dereference.\<close>

definition Cost_Select :: "(string \<Rightarrow> rat) \<Rightarrow> Endpoint list \<Rightarrow> string + Endpoint option" where
  "Cost_Select scan endpoints =
     (if endpoints = [] then Inr None
      else case cost_scan (CostPerToken scan) endpoints max_float64 None of
        None \<Rightarrow> Inl ''invalid memory address or nil pointer dereference'' | Some ep \<Rightarrow> Inr (Some ep))"

definition parseWeight :: "param option \<Rightarrow> rat option" where
  "parseWeight v = (case v of Some (PFloat x) \<Rightarrow> Some x | Some (PInt i) \<Rightarrow> Some (float64 i) | _ \<Rightarrow> None)"

definition composite_weights :: "rat \<Rightarrow> rat \<Rightarrow> GatewayContext option \<Rightarrow> rat \<times> rat" where
  "composite_weights cw lw gctx =
     (case gctx of None \<Rightarrow> (cw, lw)
      | Some g \<Rightarrow> (case lb_params g of None \<Rightarrow> (cw, lw)
        | Some params \<Rightarrow> (case parseWeight (params ''cost_weight'') of Some x \<Rightarrow> x | None \<Rightarrow> cw,
                          case parseWeight (params ''latency_weight'') of Some x \<Rightarrow> x | None \<Rightarrow> lw)))"

definition composite_score :: "rat \<Rightarrow> rat \<Rightarrow> rat \<Rightarrow> duration \<Rightarrow> rat \<Rightarrow> duration \<Rightarrow> rat" where
  "composite_score costWeight latencyWeight maxCost maxLatency cost latency =
     (let costScore = (if maxCost > 0 then fl64 (cost / maxCost) else 0);
          latencyScore = (if maxLatency > 0 then fl64 (float64 latency / float64 maxLatency) else 0)
      in fl64 (fl64 (costScore * costWeight) + fl64 (latencyScore * latencyWeight)))"

fun best_score :: "(Endpoint \<Rightarrow> rat) \<Rightarrow> Endpoint \<Rightarrow> Endpoint list \<Rightarrow> Endpoint" where
  "best_score score best [] = best"
| "best_score score best (s # ss) = (if score s < score best then best_score score s ss else best_score score best ss)"

definition Composite_Select :: "(string \<Rightarrow> rat) \<Rightarrow> (string \<Rightarrow> duration \<Rightarrow> duration option) \<Rightarrow> rat \<Rightarrow> rat \<Rightarrow>
    GatewayContext option \<Rightarrow> Endpoint list \<Rightarrow> Endpoint option" where
  "Composite_Select scan avg cw0 lw0 gctx endpoints =
     (if endpoints = [] then None
      else let (costWeight, latencyWeight) = composite_weights cw0 lw0 gctx;
               cost = CostPerToken scan;
               latency = (\<lambda>ep. case avg (ep_ID ep) (5 * minute) of Some d \<Rightarrow> d | None \<Rightarrow> 0);
               maxCost = fold (\<lambda>ep m. if cost ep > m then cost ep else m) endpoints 0;
               maxLatency = fold (\<lambda>ep m. if latency ep > m then latency ep else m) endpoints 0
           in Some (best_score (\<lambda>ep. composite_score costWeight latencyWeight maxCost maxLatency (cost ep) (latency ep))
                (hd endpoints) (tl endpoints)))"

subsection \<open>Session hash (weighted rendezvous hashing)\<close>

definition fnv_offset :: u64 where "fnv_offset = 14695981039346656037"
definition fnv_prime :: u64 where "fnv_prime = 1099511628211"

definition fnv1a :: "nat list \<Rightarrow> u64" where
  "fnv1a bs = fold (\<lambda>b h. (xor h (of_nat b)) * fnv_prime) bs fnv_offset"

definition be_bytes :: "u64 \<Rightarrow> nat list" where
  "be_bytes w = map (\<lambda>i. unat (drop_bit (8 * i) w) mod 256) [7, 6, 5, 4, 3, 2, 1, 0]"

definition mix64 :: "u64 \<Rightarrow> u64" where
  "mix64 x0 = (let x1 = xor x0 (drop_bit 30 x0); x2 = x1 * 0xbf58476d1ce4e5b9;
      x3 = xor x2 (drop_bit 27 x2); x4 = x3 * 0x94d049bb133111eb in xor x4 (drop_bit 31 x4))"

definition rendezvousScore :: "string \<Rightarrow> string \<Rightarrow> nat \<Rightarrow> u64" where
  "rendezvousScore sessionID endpointID replica =
     mix64 (fnv1a (map of_char sessionID @ [of_char (CHR ''|'')] @ map of_char endpointID @ be_bytes (of_nat replica)))"

definition maxHashWeight :: int where "maxHashWeight = 128"

definition hash_weight :: "Endpoint \<Rightarrow> nat" where
  "hash_weight ep = (let w = (if ep_Weight ep < 1 then 1 else ep_Weight ep) in nat (if w > maxHashWeight then maxHashWeight else w))"

fun score_scan :: "('e \<times> u64) list \<Rightarrow> u64 \<Rightarrow> 'e option \<Rightarrow> 'e option" where
  "score_scan [] bestScore best = best"
| "score_scan ((ep, score) # rest) bestScore best =
     (if score > bestScore then score_scan rest score (Some ep) else score_scan rest bestScore best)"

definition replicas :: "string \<Rightarrow> Endpoint \<Rightarrow> (Endpoint \<times> u64) list" where
  "replicas sessionID ep = map (\<lambda>i. (ep, rendezvousScore sessionID (ep_ID ep) i)) [0 ..< hash_weight ep]"

definition hash_select :: "string \<Rightarrow> Endpoint list \<Rightarrow> Endpoint option" where
  "hash_select sessionID endpoints = score_scan (concat (map (replicas sessionID) endpoints)) 0 None"

definition SessionHash_Select :: "(GatewayContext \<Rightarrow> Endpoint list \<Rightarrow> 's \<Rightarrow> Endpoint option \<times> 's) option \<Rightarrow>
    GatewayContext \<Rightarrow> Endpoint list \<Rightarrow> 's \<Rightarrow> Endpoint option \<times> 's" where
  "SessionHash_Select fallback g endpoints s =
     (if endpoints = [] then (None, s)
      else if g_SessionID g = ''''
      then (case fallback of None \<Rightarrow> (None, s) | Some f \<Rightarrow> f g endpoints s)
      else (hash_select (g_SessionID g) endpoints, s))"

subsection \<open>Endpoint affinity\<close>

definition ParseBool :: "string \<Rightarrow> bool option" where
  "ParseBool s = (if s = ''1'' \<or> s = ''t'' \<or> s = ''T'' \<or> s = ''TRUE'' \<or> s = ''true'' \<or> s = ''True'' then Some True
     else if s = ''0'' \<or> s = ''f'' \<or> s = ''F'' \<or> s = ''FALSE'' \<or> s = ''false'' \<or> s = ''False'' then Some False
     else None)"

definition ErrFatalNoAvailableEndpoint :: string where
  "ErrFatalNoAvailableEndpoint = ''fatal: no available endpoint''"

definition affinity_config :: "GatewayContext \<Rightarrow> string \<times> string \<times> bool" where
  "affinity_config g = (case lb_params g of None \<Rightarrow> (''header'', ''X-Endpoint-Code'', False)
     | Some params \<Rightarrow>
         (case params ''source_type'' of Some (PStr st) \<Rightarrow> if st \<noteq> '''' then st else ''header'' | _ \<Rightarrow> ''header'',
          case params ''source_key'' of Some (PStr sk) \<Rightarrow> if sk \<noteq> '''' then sk else ''X-Endpoint-Code'' | _ \<Rightarrow> ''X-Endpoint-Code'',
          case params ''allow_degrade'' of
            Some (PBool b) \<Rightarrow> b
          | Some (PStr v) \<Rightarrow> (case ParseBool v of Some b \<Rightarrow> b | None \<Rightarrow> False)
          | Some (PFloat v) \<Rightarrow> v \<noteq> 0
          | _ \<Rightarrow> False))"

definition affinity_target :: "GatewayContext \<Rightarrow> string \<Rightarrow> string \<Rightarrow> string" where
  "affinity_target g sourceType sourceKey = (case g_Request g of None \<Rightarrow> ''''
     | Some r \<Rightarrow> if sourceType = ''header'' then header_get r sourceKey
         else if sourceType = ''query'' then query_get r sourceKey
         else if sourceType = ''cookie'' then (case hr_Cookie r sourceKey of Some v \<Rightarrow> v | None \<Rightarrow> '''')
         else '''')"

definition Affinity_Select :: "GatewayContext \<Rightarrow> Endpoint list \<Rightarrow> rr_state \<Rightarrow> Endpoint option \<times> GatewayContext \<times> rr_state" where
  "Affinity_Select g endpoints s =
     (if endpoints = [] then (None, g, s)
      else let (sourceType, sourceKey, allowDegrade) = affinity_config g;
               targetVal = affinity_target g sourceType sourceKey;
               (ep, s') = RoundRobin_Select (Some g) endpoints s
           in if targetVal \<noteq> ''''
              then (case find (\<lambda>ep. ep_Code ep = targetVal \<or> ep_ID ep = targetVal) endpoints of
                      Some ep0 \<Rightarrow> (Some ep0, g, s)
                    | None \<Rightarrow> if \<not> allowDegrade then (None, g\<lparr>g_FatalErr := Some ErrFatalNoAvailableEndpoint\<rparr>, s)
                              else (ep, g, s'))
              else (ep, g, s'))"

end
