(* ===== verification/LB_Choice.thy ===== *)
theory LB_Choice
  imports LB_Fairness
begin

text \<open>
  The load balancers that choose by a score: rendezvous hashing keeps a session on its endpoint, least
  connections keeps the counts balanced and is undone by \<open>Done\<close>, cost and composite choose a minimum,
  affinity never leaves the endpoint the client named unless degrading is allowed.
\<close>

subsection \<open>Rendezvous hashing\<close>

interpretation session_hash: load_balancer
  "\<lambda>g eps s. case g of None \<Rightarrow> (None, s) | Some c \<Rightarrow> SessionHash_Select (Some (\<lambda>c. RoundRobin_Select (Some c))) c eps s"
proof unfold_locales
  fix g :: "GatewayContext option" and eps s ep
  show "fst (case g of None \<Rightarrow> (None, s) | Some c \<Rightarrow> SessionHash_Select (Some (\<lambda>c. RoundRobin_Select (Some c))) c eps s) = Some ep
    \<Longrightarrow> ep \<in> set eps"
    by (auto simp: SessionHash_Select_def dest: hash_select_in rr.select_in split: option.splits if_splits)
qed (simp add: SessionHash_Select_def split: option.split)

lemma score_scan_filter:
  assumes "score_scan xs b sel = Some e" "Q e"
    and "(b' = b \<and> sel' = sel) \<or> (b' \<le> b \<and> (\<exists>d. sel = Some d \<and> \<not> Q d))"
  shows "score_scan (filter (\<lambda>x. Q (fst x)) xs) b' sel' = Some e"
  using assms
proof (induction xs arbitrary: b sel b' sel')
  case (Cons x xs)
  obtain d s where x: "x = (d, s)" by (cases x)
  show ?case
  proof (cases "Q d")
    case True
    show ?thesis
    proof (cases "s > b")
      case over: True
      then have "s > b'" using Cons.prems(3) by auto
      with over True Cons.prems(1,2) Cons.IH[of s "Some d" s "Some d"] show ?thesis by (simp add: x)
    next
      case under: False
      then have rest: "score_scan xs b sel = Some e" using Cons.prems(1) by (simp add: x)
      show ?thesis
      proof (cases "s > b'")
        case True
        with under Cons.prems(3) have "s \<le> b \<and> (\<exists>d. sel = Some d \<and> \<not> Q d)" by auto
        with True \<open>Q d\<close> Cons.IH[OF rest Cons.prems(2), of s "Some d"] show ?thesis by (simp add: x)
      next
        case False
        with \<open>Q d\<close> Cons.IH[OF rest Cons.prems(2,3)] show ?thesis by (simp add: x)
      qed
    qed
  next
    case drop: False
    show ?thesis
    proof (cases "s > b")
      case True
      then have "score_scan xs s (Some d) = Some e" using Cons.prems(1) by (simp add: x)
      moreover have "b' \<le> s" using True Cons.prems(3) by (metis less_imp_le order.trans order.refl)
      ultimately show ?thesis using Cons.IH[of s "Some d" b' sel'] Cons.prems(2) drop by (simp add: x)
    next
      case False
      with drop Cons.IH[OF _ Cons.prems(2,3)] Cons.prems(1) show ?thesis by (simp add: x)
    qed
  qed
qed auto

lemma replicas_filter:
  "concat (map (replicas sid) (filter Q eps)) = filter (\<lambda>x. Q (fst x)) (concat (map (replicas sid) eps))"
  by (induction eps) (simp_all add: replicas_def filter_map comp_def)

lemma hash_select_filter:
  "hash_select sid eps = Some ep \<Longrightarrow> Q ep \<Longrightarrow> hash_select sid (filter Q eps) = Some ep"
  unfolding hash_select_def replicas_filter by (rule score_scan_filter) auto

text \<open>Rendezvous hashing moves as few sessions as possible: whatever other endpoints leave the
  candidate set, a session stays on its endpoint as long as that one remains.\<close>

theorem session_stays_on_endpoint:
  assumes "g_SessionID g \<noteq> ''''" "fst (SessionHash_Select fb g eps s) = Some ep" "Q ep"
  shows "SessionHash_Select fb g (filter Q eps) s = (Some ep, s)"
proof -
  have "eps \<noteq> []" using assms(2) by (auto simp: SessionHash_Select_def)
  with assms have h: "hash_select (g_SessionID g) eps = Some ep" by (simp add: SessionHash_Select_def)
  have "filter Q eps \<noteq> []" using hash_select_in[OF h] assms(3) by (auto simp: filter_empty_conv)
  with assms(1) hash_select_filter[OF h, of Q] assms(3) show ?thesis by (simp add: SessionHash_Select_def)
qed

text \<open>An endpoint that joins takes sessions over only for itself: after it joined (anywhere in
  the list), a session is either where it was or on the new endpoint.\<close>

theorem joining_endpoint_takes_only_for_itself:
  assumes "hash_select sid (xs @ ys) = Some old" "hash_select sid (xs @ n # ys) = Some new" "n \<notin> set (xs @ ys)"
  shows "new = old \<or> new = n"
proof (rule ccontr)
  assume "\<not> (new = old \<or> new = n)"
  then have "hash_select sid (filter (\<lambda>e. e \<noteq> n) (xs @ n # ys)) = Some new"
    using hash_select_filter[OF assms(2), of "\<lambda>e. e \<noteq> n"] by simp
  moreover have "filter (\<lambda>e. e \<noteq> n) (xs @ n # ys) = xs @ ys"
  proof -
    have "filter (\<lambda>e. e \<noteq> n) xs = xs" "filter (\<lambda>e. e \<noteq> n) ys = ys" using assms(3) by (auto simp: filter_id_conv)
    then show ?thesis by simp
  qed
  ultimately show False using assms(1) \<open>\<not> (new = old \<or> new = n)\<close> by simp
qed

definition demo_session :: GatewayContext where
  "demo_session = zero_context\<lparr>g_SessionID := ''s''\<rparr>"

theorem session_stays_on_endpoint_witness:
  "\<exists>ep. ep_ID ep = ''b'' \<and> SessionHash_Select None demo_session (filter (\<lambda>e. ep_ID e \<noteq> ''a'') demo_eps) () = (Some ep, ())"
proof -
  have "map_option ep_ID (fst (SessionHash_Select None demo_session demo_eps ())) = Some ''b''" by code_simp
  then obtain ep where ep: "fst (SessionHash_Select None demo_session demo_eps ()) = Some ep" "ep_ID ep = ''b''" by auto
  moreover have "g_SessionID demo_session \<noteq> ''''" by (simp add: demo_session_def)
  ultimately show ?thesis using session_stays_on_endpoint[of demo_session None demo_eps "()" ep "\<lambda>e. ep_ID e \<noteq> ''a''"] by auto
qed

theorem joining_endpoint_takes_only_for_itself_witness:
  "let a = demo_eps ! 0; b = demo_eps ! 1; c = demo_eps ! 2 in
   the (hash_select ''s'' [a, b, c]) = the (hash_select ''s'' [a, c]) \<or> the (hash_select ''s'' [a, b, c]) = b"
proof -
  let ?a = "demo_eps ! 0" and ?b = "demo_eps ! 1" and ?c = "demo_eps ! 2"
  have "map_option ep_ID (hash_select ''s'' [?a, ?c]) \<noteq> None" "map_option ep_ID (hash_select ''s'' [?a, ?b, ?c]) \<noteq> None"
    by code_simp+
  then obtain o' n' where r: "hash_select ''s'' [?a, ?c] = Some o'" "hash_select ''s'' [?a, ?b, ?c] = Some n'" by auto
  have "?b \<notin> set ([?a] @ [?c])" by (simp add: demo_eps_def zero_endpoint_def)
  with joining_endpoint_takes_only_for_itself[of "''s''" "[?a]" "[?c]" o' ?b n'] r show ?thesis by simp
qed

subsection \<open>Least connections\<close>

abbreviation ac :: "conn_state \<Rightarrow> Endpoint \<Rightarrow> int" where
  "ac cs ep \<equiv> ActiveConnections (ep_ID ep) cs"

lemma conn_init_count [simp]: "ActiveConnections k (conn_init eps cs) = ActiveConnections k cs"
  by (induction eps arbitrary: cs) (simp_all add: conn_init_def, auto simp: ActiveConnections_def)

lemma conn_upd: "ActiveConnections j (cs(k \<mapsto> v)) = (if j = k then v else ActiveConnections j cs)"
  by (simp add: ActiveConnections_def)

lemma min_scan_min:
  assumes "min_scan val eps b sel = Some e" and "\<forall>x\<in>set eps. \<exists>v\<ge>0. val x = Some v"
    and "b < 0 \<or> (\<exists>s. sel = Some s \<and> val s = Some b)"
  shows "\<exists>v. val e = Some v \<and> (\<forall>x\<in>set eps. \<forall>w. val x = Some w \<longrightarrow> v \<le> w) \<and> (0 \<le> b \<longrightarrow> v \<le> b)
     \<or> eps = [] \<and> b < 0"
  using assms
proof (induction eps arbitrary: b sel)
  case (Cons x eps)
  obtain v where v: "0 \<le> v" "val x = Some v" using Cons.prems(2) by auto
  show ?case
  proof (cases "b < 0 \<or> v < b")
    case True
    then have "min_scan val eps v (Some x) = Some e" using Cons.prems(1) v by simp
    from Cons.IH[OF this] Cons.prems(2) v True show ?thesis by force
  next
    case False
    then have "min_scan val eps b sel = Some e" using Cons.prems(1) v by simp
    from Cons.IH[OF this] Cons.prems(2,3) v False show ?thesis by force
  qed
qed auto

lemma least_conn_select:
  assumes "eps \<noteq> []" "\<And>ep. ep \<in> set eps \<Longrightarrow> 0 \<le> ac cs ep"
  obtains e where "e \<in> set eps" "fst (LeastConnections_Select eps cs) = Some e"
    "\<And>x. x \<in> set eps \<Longrightarrow> ac cs e \<le> ac cs x"
    "\<And>k. ActiveConnections k (snd (LeastConnections_Select eps cs)) = ActiveConnections k cs + (if k = ep_ID e then 1 else 0)"
proof -
  obtain e where e: "fst (LeastConnections_Select eps cs) = Some e" using least_conn.select_total[OF assms(1)] by auto
  then have scan: "min_scan (\<lambda>ep. Some (ac (conn_init eps cs) ep)) eps (-1) None = Some e"
    using assms(1) by (auto simp: LeastConnections_Select_def Let_def split: option.splits)
  have "\<exists>v. Some (ac cs e) = Some v \<and> (\<forall>x\<in>set eps. \<forall>w. Some (ac cs x) = Some w \<longrightarrow> v \<le> w)"
    using min_scan_min[OF scan] assms by auto
  then have "\<And>x. x \<in> set eps \<Longrightarrow> ac cs e \<le> ac cs x" by auto
  moreover have "ActiveConnections k (snd (LeastConnections_Select eps cs)) = ActiveConnections k cs + (if k = ep_ID e then 1 else 0)" for k
    using assms(1) scan by (simp add: LeastConnections_Select_def Let_def conn_upd)
  ultimately show thesis using that least_conn.select_in[OF e] e by blast
qed

lemma least_conn_run_balanced:
  assumes "distinct (map ep_ID eps)" "eps \<noteq> []" "0 \<le> m" "\<forall>ep\<in>set eps. ac cs ep = m \<or> ac cs ep = m + 1"
  shows "\<exists>m\<ge>0. \<forall>ep\<in>set eps. ac (snd (lb_run (LeastConnections_Select eps) n cs)) ep = m
     \<or> ac (snd (lb_run (LeastConnections_Select eps) n cs)) ep = m + 1"
  using assms(3,4)
proof (induction n arbitrary: cs m)
  case (Suc n)
  have nn: "0 \<le> ac cs ep" if "ep \<in> set eps" for ep
    using Suc.prems(1) bspec[OF Suc.prems(2) that] by linarith
  obtain e where e: "e \<in> set eps" "\<And>x. x \<in> set eps \<Longrightarrow> ac cs e \<le> ac cs x"
    and "fst (LeastConnections_Select eps cs) = Some e" and upd: "\<And>k. ActiveConnections k (snd (LeastConnections_Select eps cs)) = ActiveConnections k cs + (if k = ep_ID e then 1 else 0)"
    using least_conn_select[OF assms(2) nn] by metis
  let ?cs = "snd (LeastConnections_Select eps cs)"
  show ?case
  proof (cases "ac cs e = m")
    case True
    have "ac ?cs ep = m \<or> ac ?cs ep = m + 1" if "ep \<in> set eps" for ep
    proof (cases "ep_ID ep = ep_ID e")
      case same: True
      then show ?thesis using True upd[of "ep_ID ep"] by simp
    next
      case False
      then show ?thesis using upd[of "ep_ID ep"] bspec[OF Suc.prems(2) that] by simp
    qed
    then have "\<forall>ep\<in>set eps. ac ?cs ep = m \<or> ac ?cs ep = m + 1" by blast
    from Suc.IH[OF Suc.prems(1) this] show ?thesis by simp
  next
    case False
    then have "ac cs e = m + 1" using Suc.prems e(1) by blast
    then have "ac cs x = m + 1" if "x \<in> set eps" for x
      using e(2)[OF that] bspec[OF Suc.prems(2) that] by linarith
    then have "\<forall>ep\<in>set eps. ac ?cs ep = m + 1 \<or> ac ?cs ep = m + 1 + 1" using upd by auto
    from Suc.IH[OF _ this] Suc.prems(1) show ?thesis by simp
  qed
qed auto

text \<open>Least connections balances: starting from equal counts and without completions, after any
  number of selections the counts of two candidates differ by at most one.\<close>

theorem least_connections_balanced:
  assumes "distinct (map ep_ID eps)" "\<forall>ep\<in>set eps. ActiveConnections (ep_ID ep) cs = m" "0 \<le> m" "x \<in> set eps" "y \<in> set eps"
  shows "\<bar>ActiveConnections (ep_ID x) (snd (lb_run (LeastConnections_Select eps) n cs))
        - ActiveConnections (ep_ID y) (snd (lb_run (LeastConnections_Select eps) n cs))\<bar> \<le> 1"
proof -
  let ?f = "snd (lb_run (LeastConnections_Select eps) n cs)"
  have ne: "eps \<noteq> []" using assms(4) by auto
  obtain k where k: "\<forall>ep\<in>set eps. ac ?f ep = k \<or> ac ?f ep = k + 1"
    using least_conn_run_balanced[OF assms(1) ne assms(3), of cs n] assms(2) by blast
  have "ac ?f x = k \<or> ac ?f x = k + 1" "ac ?f y = k \<or> ac ?f y = k + 1" using k assms(4,5) by blast+
  then show ?thesis by linarith
qed

theorem least_connections_balanced_witness:
  "\<bar>ActiveConnections ''a'' (snd (lb_run (LeastConnections_Select demo_eps) 7 Map.empty))
    - ActiveConnections ''b'' (snd (lb_run (LeastConnections_Select demo_eps) 7 Map.empty))\<bar> \<le> 1"
proof -
  have "distinct (map ep_ID demo_eps)" "ep_ID (demo_eps ! 0) = ''a''" "ep_ID (demo_eps ! 1) = ''b''" by code_simp+
  moreover have "demo_eps ! 0 \<in> set demo_eps" "demo_eps ! 1 \<in> set demo_eps" by (simp_all add: demo_eps_def)
  moreover have "\<forall>ep\<in>set demo_eps. ActiveConnections (ep_ID ep) Map.empty = 0" by (simp add: ActiveConnections_def)
  ultimately show ?thesis
    using least_connections_balanced[of demo_eps Map.empty 0 "demo_eps ! 0" "demo_eps ! 1" 7] by (metis order.refl)
qed

text \<open>A completed call leaves no trace: selecting chooses an endpoint with the fewest active
  connections, and reporting that endpoint done restores every count.\<close>

theorem least_connections_select_then_done:
  assumes "eps \<noteq> []" "\<forall>k. 0 \<le> ActiveConnections k cs" "LeastConnections_Select eps cs = (r, cs')"
  shows "\<exists>ep\<in>set eps. r = Some ep \<and> (\<forall>x\<in>set eps. ActiveConnections (ep_ID ep) cs \<le> ActiveConnections (ep_ID x) cs)
     \<and> (\<forall>k. ActiveConnections k (Done (ep_ID ep) cs') = ActiveConnections k cs)"
proof -
  obtain e where e: "e \<in> set eps" "fst (LeastConnections_Select eps cs) = Some e" "\<And>x. x \<in> set eps \<Longrightarrow> ac cs e \<le> ac cs x"
    "\<And>k. ActiveConnections k (snd (LeastConnections_Select eps cs)) = ActiveConnections k cs + (if k = ep_ID e then 1 else 0)"
    using least_conn_select[OF assms(1)] assms(2) by blast
  have "ActiveConnections k (Done (ep_ID e) cs') = ActiveConnections k cs" for k
  proof -
    have c: "ActiveConnections j cs' = ActiveConnections j cs + (if j = ep_ID e then 1 else 0)" for j using e(4) assms(3) by simp
    have "ac cs' e > 0" using c[of "ep_ID e"] spec[OF assms(2), of "ep_ID e"] by simp
    then obtain v where "cs' (ep_ID e) = Some v" "v > 0" by (auto simp: ActiveConnections_def split: option.splits)
    with c[of k] c[of "ep_ID e"] show ?thesis by (auto simp: Done_def conn_upd, simp add: ActiveConnections_def)
  qed
  with e(1-3) assms(3) show ?thesis by auto
qed

theorem least_connections_select_then_done_witness:
  "\<exists>ep\<in>set demo_eps. fst (LeastConnections_Select demo_eps Map.empty) = Some ep
     \<and> (\<forall>k. ActiveConnections k (Done (ep_ID ep) (snd (LeastConnections_Select demo_eps Map.empty))) = 0)"
proof -
  have "demo_eps \<noteq> []" "\<forall>k. 0 \<le> ActiveConnections k Map.empty" by (simp_all add: demo_eps_def ActiveConnections_def)
  from least_connections_select_then_done[OF this prod.collapse[symmetric]] show ?thesis
    by (auto simp: ActiveConnections_def[of _ Map.empty])
qed

subsection \<open>Cost, composite, affinity\<close>

lemma cost_scan_min:
  "cost_scan c eps b sel = Some e \<Longrightarrow> (sel = Some e \<and> (\<forall>x\<in>set eps. b \<le> c x)) \<or> (e \<in> set eps \<and> c e < b \<and> (\<forall>x\<in>set eps. c e \<le> c x))"
proof (induction eps arbitrary: b sel)
  case (Cons x eps)
  then show ?case by (cases "c x < b") fastforce+
qed simp

lemma cost_scan_None: "cost_scan c eps b None = None \<longleftrightarrow> (\<forall>x\<in>set eps. b \<le> c x)"
proof (induction eps)
  case (Cons x eps)

  have some: "cost_scan c es b' (Some y) \<noteq> None" for es b' y by (induction es arbitrary: b' y) simp_all
  show ?case using Cons some[of eps "c x" x] by (auto simp: not_less)
qed simp

lemma best_score_min: "\<forall>x\<in>insert b (set eps). sc (best_score sc b eps) \<le> sc x"
proof (induction eps arbitrary: b)
  case (Cons x eps)
  then show ?case using Cons[of x] Cons[of b] by (cases "sc x < sc b") fastforce+
qed simp

text \<open>The cost balancer returns a cheapest candidate; it dereferences nil exactly when no
  candidate's price lies below the largest finite double.\<close>

theorem cost_select_cheapest:
  assumes "eps \<noteq> []"
  shows "(Cost_Select scan eps = Inl ''invalid memory address or nil pointer dereference''
            \<longleftrightarrow> list_all (\<lambda>x. max_float64 \<le> CostPerToken scan x) eps)
     \<and> (\<forall>ep. Cost_Select scan eps = Inr (Some ep)
          \<longrightarrow> ep \<in> set eps \<and> (\<forall>x\<in>set eps. CostPerToken scan ep \<le> CostPerToken scan x))
     \<and> Cost_Select scan eps \<noteq> Inr None"
proof (intro conjI allI impI)
  show "(Cost_Select scan eps = Inl ''invalid memory address or nil pointer dereference'')
      = list_all (\<lambda>x. max_float64 \<le> CostPerToken scan x) eps"
    using assms cost_scan_None[of "CostPerToken scan" eps max_float64]
    by (auto simp: Cost_Select_def list_all_iff split: option.split)
  fix ep assume "Cost_Select scan eps = Inr (Some ep)"
  then have "cost_scan (CostPerToken scan) eps max_float64 None = Some ep"
    using assms by (simp add: Cost_Select_def split: option.splits)
  then show "ep \<in> set eps" "\<forall>x\<in>set eps. CostPerToken scan ep \<le> CostPerToken scan x"
    using cost_scan_min by fastforce+
qed (use assms in \<open>simp add: Cost_Select_def split: option.split\<close>)

theorem cost_select_cheapest_witness:
  "Cost_Select (\<lambda>_. 0) demo_eps \<noteq> Inr None"
  using cost_select_cheapest[of demo_eps "\<lambda>_. 0"] by (simp add: demo_eps_def)

text \<open>Affinity without degrading is strict: when the client names an endpoint, the balancer
  returns an endpoint with that code or id and leaves its counters alone, or returns none and marks
  the request as fatally failed; it never falls back to another endpoint.\<close>

theorem affinity_strict:
  assumes "affinity_config g = (st, sk, False)" "affinity_target g st sk \<noteq> ''''" "eps \<noteq> []"
    and "Affinity_Select g eps s = (r, g', s')"
  shows "s' = s \<and> (case r of
       Some ep \<Rightarrow> ep \<in> set eps \<and> (ep_Code ep = affinity_target g st sk \<or> ep_ID ep = affinity_target g st sk) \<and> g' = g
     | None \<Rightarrow> g_FatalErr g' = Some ErrFatalNoAvailableEndpoint
         \<and> list_all (\<lambda>x. ep_Code x \<noteq> affinity_target g st sk \<and> ep_ID x \<noteq> affinity_target g st sk) eps)"
proof (cases "find (\<lambda>ep. ep_Code ep = affinity_target g st sk \<or> ep_ID ep = affinity_target g st sk) eps")
  case None
  then have "list_all (\<lambda>x. ep_Code x \<noteq> affinity_target g st sk \<and> ep_ID x \<noteq> affinity_target g st sk) eps"
    by (auto simp: list_all_iff find_None_iff)
  then show ?thesis using assms None by (auto simp: Affinity_Select_def Let_def split: prod.splits)
next
  case (Some ep)
  then have "ep \<in> set eps \<and> (ep_Code ep = affinity_target g st sk \<or> ep_ID ep = affinity_target g st sk)"
    by (auto simp: find_Some_iff)
  moreover have "r = Some ep \<and> g' = g \<and> s' = s" using assms Some by (simp add: Affinity_Select_def Let_def split: prod.splits)
  ultimately show ?thesis by simp
qed

definition demo_affinity :: GatewayContext where
  "demo_affinity = zero_context\<lparr>g_Request := Some \<lparr>hr_Header = (\<lambda>k. if k = ''X-Endpoint-Code'' then [''z''] else []),
     hr_Query = None, hr_Cookie = (\<lambda>_. None)\<rparr>\<rparr>"

theorem affinity_strict_witness:
  "affinity_target demo_affinity ''header'' ''X-Endpoint-Code'' = ''z''
   \<and> fst (Affinity_Select demo_affinity demo_eps Map.empty) = None
   \<and> g_FatalErr (fst (snd (Affinity_Select demo_affinity demo_eps Map.empty))) = Some ErrFatalNoAvailableEndpoint"
proof -
  have c: "affinity_config demo_affinity = (''header'', ''X-Endpoint-Code'', False)"
    by (simp add: affinity_config_def lb_params_def demo_affinity_def zero_context_def)
  have t: "affinity_target demo_affinity ''header'' ''X-Endpoint-Code'' = ''z''" by code_simp
  have ne: "demo_eps \<noteq> []" by (simp add: demo_eps_def)
  obtain r g' s' where a: "Affinity_Select demo_affinity demo_eps Map.empty = (r, g', s')"
    by (cases "Affinity_Select demo_affinity demo_eps Map.empty") auto
  have "r = None"
  proof (rule ccontr)
    assume "r \<noteq> None"
    then obtain ep where ep: "r = Some ep" by auto
    with affinity_strict[OF c _ ne a] t have "ep \<in> set demo_eps" "ep_Code ep = ''z'' \<or> ep_ID ep = ''z''" by auto
    then show False by (auto simp: demo_eps_def zero_endpoint_def)
  qed
  with affinity_strict[OF c _ ne a] t a show ?thesis by simp
qed

end
