(* ===== verification/Cluster.thy ===== *)
theory Cluster
  imports Routers LB_Choice State_Store
begin

text \<open>
  The call orchestration of \<open>src/pkg/invoker\<close> (\<open>cluster.go\<close>, \<open>attempt_observer.go\<close>,
  \<open>provider.go\<close>), with the model fallback of \<open>src/pkg/core/invoker.go\<close> and the backoff of
  \<open>src/pkg/policy/invocation.go\<close>. What the cluster invoker is configured with (discovery, the router
  chain, the load balancers, the providers, the libraries, the clock) is a \<open>ClusterEnv\<close>; the state the calls move
  is a \<open>World\<close>: the breaker manager, the state store, the balancers' own state, and the attempt
  history the request collects (\<open>gctx.History\<close>). The context deadline and the sleeping between
  attempts have no effect in the model; what a provider does when the deadline passes is a result it may
  return.
\<close>

subsection \<open>Errors, environment, state\<close>

text \<open>The errors \<open>Invoke\<close> can return. An upstream failure carries its message and whether it classifies
  itself as not retryable.\<close>

datatype gw_error = NoAvailableEndpoint | FatalNoAvailableEndpoint | ClientDisconnected | NoLoadBalancer
  | DiscoveryFailed string | PermitRefused string | UpstreamFailed string bool

definition err_string :: "gw_error \<Rightarrow> string" where
  "err_string e = (case e of NoAvailableEndpoint \<Rightarrow> ''no available endpoint''
     | FatalNoAvailableEndpoint \<Rightarrow> ErrFatalNoAvailableEndpoint
     | ClientDisconnected \<Rightarrow> ''client disconnected''
     | NoLoadBalancer \<Rightarrow> ''no load balancer strategy available''
     | DiscoveryFailed m \<Rightarrow> m | PermitRefused m \<Rightarrow> m | UpstreamFailed m _ \<Rightarrow> m)"

definition isExplicitlyNonRetryable :: "gw_error \<Rightarrow> bool" where
  "isExplicitlyNonRetryable e = (case e of UpstreamFailed _ nonRetryable \<Rightarrow> nonRetryable | _ \<Rightarrow> False)"

text \<open>One record of the attempt history (\<open>core.AttemptRecord\<close>).\<close>

record AttemptRecord =
  ar_EndpointID :: string
  ar_EndpointCode :: string
  ar_Provider :: string
  ar_ProviderCode :: string
  ar_Model :: string
  ar_Latency :: duration
  ar_StatusCode :: int
  ar_ContentType :: string
  ar_Body :: string
  ar_Error :: string
  ar_Success :: bool
  ar_Timestamp :: instant

record 'l World =
  w_cbm :: CircuitBreakerManager
  w_store :: MemoryStateStore
  w_lb :: 'l
  w_History :: "AttemptRecord list"

type_synonym 'l balancer = "GatewayContext \<Rightarrow> Endpoint list \<Rightarrow> 'l \<Rightarrow> Endpoint option \<times> GatewayContext \<times> 'l"

text \<open>\<open>ce_now a i\<close> is the \<open>i\<close>-th clock reading of attempt \<open>a\<close>; \<open>ce_anyLB\<close> is the balancer
  \<open>range\<close> finds first; \<open>ce_replace\<close> rewrites the model in a JSON body; \<open>ce_provider\<close> is the call
  of a provider implementation.\<close>

record 'l ClusterEnv =
  ce_List :: "nat \<Rightarrow> GatewayContext \<Rightarrow> gw_error + Endpoint list"
  ce_routers :: "nat \<Rightarrow> GatewayContext \<Rightarrow> CircuitBreakerManager router list"
  ce_LBs :: "string \<rightharpoonup> 'l balancer"
  ce_anyLB :: "(string \<times> 'l balancer) option"
  ce_defaultLB :: string
  ce_provider :: "nat \<Rightarrow> GatewayContext \<Rightarrow> gw_error option \<times> GatewayContext"
  ce_replace :: "string \<Rightarrow> string \<Rightarrow> string"
  ce_ext :: Externals
  ce_parseDuration :: "string \<Rightarrow> duration option"
  ce_enableActive :: bool
  ce_retry :: RetryPolicy
  ce_now :: "nat \<Rightarrow> nat \<Rightarrow> instant"

definition DefaultRetryStrategy :: RetryPolicy where
  "DefaultRetryStrategy = \<lparr>ry_Retry = 0, ry_BackoffType = ''fixed'', ry_BaseMs = 100, ry_ErrorCodes = [], ry_ErrorMessages = [],
     ry_CodePolicy = None, ry_MessagePolicy = None, ry_ConnectTimeout = 0, ry_TtftTimeout = 0, ry_TotalTimeout = 0,
     ry_IdleTimeout = 0, ry_ExcludeFailedEndpoint = None, ry_Version = 0\<rparr>"

definition IsExcludeFailedEndpoint :: "RetryPolicy \<Rightarrow> bool" where
  "IsExcludeFailedEndpoint r = (case ry_ExcludeFailedEndpoint r of None \<Rightarrow> True | Some b \<Rightarrow> b)"

text \<open>\<open>rnd\<close> is the value of \<open>rand.Float64()\<close>, in \<open>[0, 1)\<close>; powers of two are exact.\<close>

definition CalcBackoff :: "RetryPolicy \<Rightarrow> nat \<Rightarrow> rat \<Rightarrow> duration" where
  "CalcBackoff r attempt rnd =
     (if ry_BackoffType r = ''fixed'' \<or> ry_BackoffType r = '''' then go_mul (ry_BaseMs r) millisecond
      else let base = float64 (ry_BaseMs r);
               cap = fl64 (base * 100);
               d0 = fl64 (base * 2 ^ attempt);
               d1 = (if d0 > cap then cap else d0);
               jitter = fl64 (fl64 (d1 * fl64 (1 / 5)) * fl64 (fl64 (rnd * 2) - 1))
           in go_mul (int64_of (fl64 (d1 + jitter))) millisecond)"

subsection \<open>The context between attempts\<close>

definition perAttemptTagKeys :: "string list" where
  "perAttemptTagKeys = [''response_id'', ''response_model'', ''response_completed_sent'', ''message_stop_sent'', ''upstream_finish_reason'',
     ''anthropic_stop_reason'', ''stream_saw_done'', ''transmitted_chars'']"

definition ResetAttempt :: "GatewayContext \<Rightarrow> GatewayContext" where
  "ResetAttempt g = g\<lparr>g_SelectedEndpoint := None, g_UpstreamConnect := 0, g_UpstreamResponse := None, g_UpstreamBody := '''',
     g_UpstreamError := None, g_Tags := (\<lambda>k. if k \<in> set perAttemptTagKeys then None else g_Tags g k)\<rparr>"

definition attempt_record :: "bool \<Rightarrow> instant \<Rightarrow> instant \<Rightarrow> GatewayContext \<Rightarrow> AttemptRecord" where
  "attempt_record success t1 t2 g =
     (let field = (\<lambda>f. case g_SelectedEndpoint g of Some e \<Rightarrow> f e | None \<Rightarrow> '''') in
      \<lparr>ar_EndpointID = field ep_ID, ar_EndpointCode = field ep_Code, ar_Provider = field ep_Provider,
       ar_ProviderCode = field ep_ProviderCode, ar_Model = g_Model g, ar_Latency = time_sub t1 (g_UpstreamConnect g),
       ar_StatusCode = getStatusCode (g_UpstreamResponse g),
       ar_ContentType = (case g_UpstreamResponse g of Some r \<Rightarrow> hs_ContentType r | None \<Rightarrow> ''''),
       ar_Body = g_UpstreamBody g, ar_Error = (case g_UpstreamError g of Some e \<Rightarrow> e | None \<Rightarrow> ''''),
       ar_Success = success, ar_Timestamp = t2\<rparr>)"

definition RecordAttempt :: "bool \<Rightarrow> instant \<Rightarrow> instant \<Rightarrow> GatewayContext \<Rightarrow> 'l World \<Rightarrow> GatewayContext \<times> 'l World" where
  "RecordAttempt success t1 t2 g w =
     (g\<lparr>g_AttemptCount := g_AttemptCount g + 1\<rparr>, w\<lparr>w_History := w_History w @ [attempt_record success t1 t2 g]\<rparr>)"

definition ProviderInvoker_Invoke :: "'l ClusterEnv \<Rightarrow> instant \<Rightarrow> Endpoint \<Rightarrow> GatewayContext \<Rightarrow> gw_error option \<times> GatewayContext" where
  "ProviderInvoker_Invoke env now ep g =
     (let g1 = g\<lparr>g_SelectedEndpoint := Some ep, g_UpstreamConnect := now\<rparr> in
      case ep_ProviderImpl ep of None \<Rightarrow> (None, g1)
      | Some p \<Rightarrow>
          let effectiveModel = EffectiveModel ep;
              rewrite = (effectiveModel \<noteq> '''' \<and> (effectiveModel \<noteq> g_Model g \<or> g_OriginalModel g \<noteq> '''' \<and> effectiveModel \<noteq> g_OriginalModel g));
              g2 = (if rewrite then g1\<lparr>g_Model := effectiveModel, g_RawBody := ce_replace env (g_RawBody g) effectiveModel\<rparr> else g1);
              (err, g3) = ce_provider env p g2
          in (err, g3\<lparr>g_Model := g_Model g, g_RawBody := (if rewrite then g_RawBody g else g_RawBody g3)\<rparr>))"

subsection \<open>Health feedback\<close>

fun slow_scan :: "instant \<Rightarrow> GatewayContext \<Rightarrow> CircuitBreakPolicy list \<Rightarrow> string option" where
  "slow_scan now g [] = None"
| "slow_scan now g (p # ps) =
     (let limit = go_mul (cb_SlowCallDurationThreshold p) millisecond in
      if cb_SlowCallMetric p = ''TTFT'' \<and> g_TTFT g > 0
      then if g_TTFT g > limit then Some ''slow call TTFT exceeded'' else slow_scan now g ps
      else if cb_SlowCallMetric p = ''RTT'' \<or> cb_SlowCallMetric p = ''Duration''
      then if time_sub now (g_UpstreamConnect g) > limit then Some ''slow call RTT exceeded'' else slow_scan now g ps
      else slow_scan now g ps)"

definition sequentialSlowFailure :: "instant \<Rightarrow> GatewayContext \<Rightarrow> string option" where
  "sequentialSlowFailure now g = slow_scan now g (breaker_policies (Some g))"

definition recordLatency :: "bool \<Rightarrow> instant \<Rightarrow> instant \<Rightarrow> GatewayContext \<Rightarrow> MemoryStateStore \<Rightarrow> MemoryStateStore" where
  "recordLatency includeTTFT t1 now g s = (case g_SelectedEndpoint g of None \<Rightarrow> s
     | Some ep \<Rightarrow>
         let s1 = RecordLatency (ep_ID ep) (time_sub t1 (g_UpstreamConnect g)) now s
         in if includeTTFT \<and> g_TTFT g > 0 then RecordTTFT (ep_ID ep) (g_TTFT g) now s1 else s1)"

definition resolveFailurePenaltyConfig :: "(string \<Rightarrow> duration option) \<Rightarrow> (string \<rightharpoonup> param) option \<Rightarrow> rat \<times> duration" where
  "resolveFailurePenaltyConfig parseDuration params = (case params of None \<Rightarrow> (3, 30 * second)
     | Some ps \<Rightarrow>
         (case ps ''latency_failure_penalty'' of Some (PFloat x) \<Rightarrow> x | Some (PInt x) \<Rightarrow> float64 x | _ \<Rightarrow> 3,
          case ps ''latency_failure_max'' of
            Some (PFloat x) \<Rightarrow> if x > 0 then go_mul (int64_of x) second else 30 * second
          | Some (PInt x) \<Rightarrow> if x > 0 then go_mul x second else 30 * second
          | Some (PStr t) \<Rightarrow> (case parseDuration t of Some d \<Rightarrow> if d > 0 then d else 30 * second | None \<Rightarrow> 30 * second)
          | _ \<Rightarrow> 30 * second))"

definition writePenalty :: "string \<Rightarrow> string \<Rightarrow> duration \<Rightarrow> instant \<Rightarrow> MemoryStateStore \<Rightarrow> MemoryStateStore" where
  "writePenalty epID metric penalty now s = (if metric = ''ttft'' then RecordTTFT epID penalty now s else RecordLatency epID penalty now s)"

definition recordFailurePenalty :: "(string \<Rightarrow> duration option) \<Rightarrow> instant \<Rightarrow> GatewayContext \<Rightarrow> MemoryStateStore \<Rightarrow> MemoryStateStore" where
  "recordFailurePenalty parseDuration now g s = (case g_SelectedEndpoint g of None \<Rightarrow> s
     | Some ep \<Rightarrow>
         let (mult, maxPenalty) = resolveFailurePenaltyConfig parseDuration (lb_params g) in
         if mult = 0 then s
         else let m = (if mult < 1 then 1 else mult);
                  (window, metric) = resolveConfig parseDuration (5 * minute) (Some g);
                  (avg, s1) = (if metric = ''ttft'' then GetAvgTTFT (ep_ID ep) window now s else GetAvgLatency (ep_ID ep) window now s)
              in if avg \<le> 0 then writePenalty (ep_ID ep) metric maxPenalty now s1
                 else let penalty = int64_of (fl64 (float64 avg * m))
                      in writePenalty (ep_ID ep) metric (if penalty > maxPenalty then maxPenalty else penalty) now s1)"

text \<open>\<open>sequentialOutcome\<close> closes the lease in every branch. \<open>clk\<close> gives its clock readings: one
  for the slow-call scan, one in the breaker, one for the measured latency, one in the store.\<close>

definition sequentialOutcome :: "'l ClusterEnv \<Rightarrow> (nat \<Rightarrow> instant) \<Rightarrow> gw_error option \<Rightarrow> CircuitBreakerAttempt \<Rightarrow> GatewayContext \<Rightarrow>
    'l World \<Rightarrow> CircuitBreakerAttempt \<times> 'l World" where
  "sequentialOutcome env clk err lease g w =
     (case err of
        Some e \<Rightarrow>
          if e = ClientDisconnected \<or> isExplicitlyNonRetryable e
          then (let (l, m) = attempt_Release lease (w_cbm w) in (l, w\<lparr>w_cbm := m\<rparr>))
          else (let (l, m) = attempt_finish (ce_ext env) (Some g) False (Some (err_string e)) (clk 1) lease (w_cbm w)
                in (l, w\<lparr>w_cbm := m, w_store := recordFailurePenalty (ce_parseDuration env) (clk 3) g (w_store w)\<rparr>))
      | None \<Rightarrow>
          (let (l, m) = (case sequentialSlowFailure (clk 0) g of
                 Some slow \<Rightarrow> attempt_finish (ce_ext env) (Some g) False (Some slow) (clk 1) lease (w_cbm w)
               | None \<Rightarrow> attempt_finish (ce_ext env) (Some g) True None (clk 1) lease (w_cbm w))
           in (l, w\<lparr>w_cbm := m, w_store := recordLatency True (clk 2) (clk 3) g (w_store w)\<rparr>)))"

subsection \<open>Choosing an endpoint\<close>

definition hasRemainingEndpoint :: "Endpoint list \<Rightarrow> string set \<Rightarrow> bool" where
  "hasRemainingEndpoint endpoints excluded = list_ex (\<lambda>ep. ep_ID ep \<notin> excluded) endpoints"

text \<open>The cursor loop: \<open>first_index\<close> is the loop that looks the previous endpoint up (-1 when it is
  gone), \<open>next_from\<close> the loop over \<open>step\<close>.\<close>

fun first_index :: "string \<Rightarrow> int \<Rightarrow> Endpoint list \<Rightarrow> int" where
  "first_index previousID i [] = -1"
| "first_index previousID i (ep # eps) = (if ep_ID ep = previousID then i else first_index previousID (i + 1) eps)"

fun next_from :: "Endpoint list \<Rightarrow> string set \<Rightarrow> int \<Rightarrow> nat list \<Rightarrow> Endpoint option" where
  "next_from endpoints excluded start [] = None"
| "next_from endpoints excluded start (step # steps) =
     (let ep = endpoints ! nat ((start + int step) mod int (length endpoints))
      in if ep_ID ep \<notin> excluded then Some ep else next_from endpoints excluded start steps)"

definition nextEndpointAfter :: "Endpoint list \<Rightarrow> string set \<Rightarrow> string \<Rightarrow> Endpoint option" where
  "nextEndpointAfter endpoints excluded previousID = (if endpoints = [] then None
     else next_from endpoints excluded (first_index previousID 0 endpoints) [1..<length endpoints + 1])"

definition choose_lb :: "'l ClusterEnv \<Rightarrow> GatewayContext \<Rightarrow> (string \<times> 'l balancer) option" where
  "choose_lb env g =
     (let named = (\<lambda>n. map_option (Pair n) (ce_LBs env n));
          byPolicy = (case g_Policy g of None \<Rightarrow> None | Some p \<Rightarrow>
            (case pl_LoadBalancePolicy p of None \<Rightarrow> None | Some l \<Rightarrow> named (lbp_Type l)))
      in case byPolicy of Some b \<Rightarrow> Some b
         | None \<Rightarrow> (case named (ce_defaultLB env) of Some b \<Rightarrow> Some b
           | None \<Rightarrow> (case named ''round_robin'' of Some b \<Rightarrow> Some b | None \<Rightarrow> ce_anyLB env)))"

text \<open>Under round robin a retry walks on from the endpoint of the previous attempt, in discovery order,
  over the candidates that survived the routers.\<close>

definition select_endpoint :: "GatewayContext \<Rightarrow> Endpoint list \<Rightarrow> Endpoint list \<Rightarrow> string \<Rightarrow> string \<times> 'l balancer \<Rightarrow> 'l \<Rightarrow>
    Endpoint option \<times> GatewayContext \<times> 'l" where
  "select_endpoint g endpoints filtered lastSelected lbc l =
     (let (lbStrategy, lb) = lbc in
      if lbStrategy = ''round_robin'' \<and> lastSelected \<noteq> ''''
      then (case nextEndpointAfter endpoints (ep_ID ` set endpoints - ep_ID ` set filtered) lastSelected of
              None \<Rightarrow> (None, g, l)
            | Some ep \<Rightarrow> if ep_ProviderImpl ep \<noteq> None then (Some ep, g, l) else lb g [ep] l)
      else lb g filtered l)"

subsection \<open>One attempt\<close>

text \<open>What the loop of \<open>Invoke\<close> keeps between attempts: the excluded endpoint ids, the endpoint last
  selected, the last error, and the snapshot taken after the last physical call.\<close>

record CallSnapshot =
  sn_Endpoint :: "Endpoint option"
  sn_Connect :: instant
  sn_Response :: "HttpResponse option"
  sn_Body :: string
  sn_UpstreamErr :: "string option"

record ClusterLoop =
  cl_excluded :: "string set"
  cl_lastSelected :: string
  cl_lastErr :: "gw_error option"
  cl_snapshot :: "CallSnapshot option"

text \<open>An iteration returns, dereferences a nil \<open>SelectedEndpoint\<close>, or goes on with the next attempt.\<close>

datatype verdict = Return "gw_error option" | Panic | Continue ClusterLoop

definition take_snapshot :: "GatewayContext \<Rightarrow> CallSnapshot" where
  "take_snapshot g = \<lparr>sn_Endpoint = g_SelectedEndpoint g, sn_Connect = g_UpstreamConnect g, sn_Response = g_UpstreamResponse g,
     sn_Body = g_UpstreamBody g, sn_UpstreamErr = g_UpstreamError g\<rparr>"

definition retry_matches :: "'l ClusterEnv \<Rightarrow> RetryPolicy \<Rightarrow> GatewayContext \<Rightarrow> gw_error \<Rightarrow> bool" where
  "retry_matches env rp g e = fst (MatchErrorWithReason (ce_ext env) (retry_error_policy rp)
     (getStatusCode (g_UpstreamResponse g))
     (case g_UpstreamResponse g of Some r \<Rightarrow> hs_ContentType r | None \<Rightarrow> '''') (err_string e) (g_UpstreamBody g))"

text \<open>The decision after a physical call that ended with \<open>err\<close>.\<close>

definition after_call :: "'l ClusterEnv \<Rightarrow> RetryPolicy \<Rightarrow> nat \<Rightarrow> nat \<Rightarrow> Endpoint list \<Rightarrow> gw_error option \<Rightarrow> ClusterLoop \<Rightarrow>
    GatewayContext \<Rightarrow> verdict" where
  "after_call env rp maxAttempts attempt endpoints err ls0 g =
     (let ls = ls0\<lparr>cl_snapshot := Some (take_snapshot g)\<rparr> in
      case err of None \<Rightarrow> Return None
      | Some e \<Rightarrow> (case g_SelectedEndpoint g of None \<Rightarrow> Panic
        | Some ep \<Rightarrow>
          if e = ClientDisconnected then Return err
          else if isExplicitlyNonRetryable e then Return err
          else if g_TTFT g > 0 then Return err
          else if \<not> retry_matches env rp g e then Return err
          else let excluded = (if IsExcludeFailedEndpoint rp then insert (ep_ID ep) (cl_excluded ls) else cl_excluded ls)
               in if attempt + 1 \<ge> maxAttempts then Return err
                  else if \<not> hasRemainingEndpoint endpoints excluded then Return (Some NoAvailableEndpoint)
                  else Continue (ls\<lparr>cl_excluded := excluded, cl_lastErr := err\<rparr>)))"

text \<open>An error the provider did not put into the context itself is kept there.\<close>

definition note_error :: "gw_error option \<Rightarrow> GatewayContext \<Rightarrow> GatewayContext" where
  "note_error err g = (case err of None \<Rightarrow> g
     | Some e \<Rightarrow> if e \<noteq> ClientDisconnected \<and> g_UpstreamError g = None then g\<lparr>g_UpstreamError := Some (err_string e)\<rparr> else g)"

text \<open>The permit, the physical call with its records, and the decision.\<close>

definition attempt_call :: "'l ClusterEnv \<Rightarrow> RetryPolicy \<Rightarrow> nat \<Rightarrow> nat \<Rightarrow> Endpoint list \<Rightarrow> Endpoint \<Rightarrow> ClusterLoop \<Rightarrow>
    GatewayContext \<Rightarrow> 'l World \<Rightarrow> verdict \<times> GatewayContext \<times> 'l World" where
  "attempt_call env rp maxAttempts attempt endpoints ep ls g w =
     (let (r, m) = AcquireAttempt (Some ep) (ce_enableActive env) (ce_now env attempt 0) (ce_now env attempt 1) (w_cbm w);
          w1 = w\<lparr>w_cbm := m\<rparr>
      in case r of
           Inl msg \<Rightarrow>
             (let err = Some (PermitRefused msg);
                  ls' = ls\<lparr>cl_excluded := insert (ep_ID ep) (cl_excluded ls), cl_lastErr := err\<rparr>
              in (if \<not> IsExcludeFailedEndpoint rp then Return err
                  else if attempt + 1 \<ge> maxAttempts then Return err else Continue ls', g, w1))
         | Inr lease \<Rightarrow>
             (let (err, g1) = ProviderInvoker_Invoke env (ce_now env attempt 2) ep g;
                  g2 = note_error err g1;
                  success = (err = None \<or> err = Some ClientDisconnected);
                  (g3, w2) = RecordAttempt success (ce_now env attempt 3) (ce_now env attempt 4) g2 w1;
                  (_, w3) = sequentialOutcome env (\<lambda>i. ce_now env attempt (5 + i)) err lease g3 w2
              in (after_call env rp maxAttempts attempt endpoints err ls g3, g3, w3)))"

definition cluster_attempt :: "'l ClusterEnv \<Rightarrow> RetryPolicy \<Rightarrow> nat \<Rightarrow> nat \<Rightarrow> ClusterLoop \<Rightarrow> GatewayContext \<Rightarrow> 'l World \<Rightarrow>
    verdict \<times> GatewayContext \<times> 'l World" where
  "cluster_attempt env rp maxAttempts attempt ls g0 w =
     (let g = ResetAttempt g0 in
      case ce_List env attempt g of
        Inl e \<Rightarrow> (Return (Some e), g, w)
      | Inr endpoints \<Rightarrow>
          let candidates = filter (\<lambda>ep. ep_ID ep \<notin> cl_excluded ls) endpoints in
          if candidates = [] then (Return (Some NoAvailableEndpoint), g, w)
          else let (filtered, m) = router_chain (ce_routers env attempt g) candidates (w_cbm w);
                   w1 = w\<lparr>w_cbm := m\<rparr>
               in if filtered = [] then (Return (Some NoAvailableEndpoint), g, w1)
                  else if g_FatalErr g \<noteq> None then (Return (Some FatalNoAvailableEndpoint), g, w1)
                  else (case choose_lb env g of
                          None \<Rightarrow> (Return (Some NoLoadBalancer), g, w1)
                        | Some lbc \<Rightarrow>
                            (let (sel, g1, l) = select_endpoint g endpoints filtered (cl_lastSelected ls) lbc (w_lb w1);
                                 w2 = w1\<lparr>w_lb := l\<rparr>
                             in case sel of
                                  None \<Rightarrow> (Return (Some (if g_FatalErr g1 \<noteq> None then FatalNoAvailableEndpoint
                                                        else NoAvailableEndpoint)), g1, w2)
                                | Some ep \<Rightarrow> attempt_call env rp maxAttempts attempt endpoints ep
                                    (ls\<lparr>cl_lastSelected := ep_ID ep\<rparr>) g1 w2)))"

subsection \<open>The retry loop\<close>

datatype call_result = Returned "gw_error option" | Panicked

text \<open>The code after the loop, and the loop itself with the number of attempts left.\<close>

definition after_loop :: "ClusterLoop \<Rightarrow> GatewayContext \<Rightarrow> call_result \<times> GatewayContext" where
  "after_loop ls g = (Returned (cl_lastErr ls),
     case cl_snapshot ls of None \<Rightarrow> g
     | Some s \<Rightarrow> if g_SelectedEndpoint g = None \<or> g_UpstreamResponse g = None \<and> g_UpstreamError g = None
         then g\<lparr>g_SelectedEndpoint := sn_Endpoint s, g_UpstreamConnect := sn_Connect s, g_UpstreamResponse := sn_Response s,
                g_UpstreamBody := sn_Body s, g_UpstreamError := sn_UpstreamErr s\<rparr>
         else g)"

fun cluster_loop :: "'l ClusterEnv \<Rightarrow> RetryPolicy \<Rightarrow> nat \<Rightarrow> nat \<Rightarrow> nat \<Rightarrow> ClusterLoop \<Rightarrow> GatewayContext \<Rightarrow> 'l World \<Rightarrow>
    call_result \<times> GatewayContext \<times> 'l World" where
  "cluster_loop env rp maxAttempts 0 attempt ls g w = (let (r, g') = after_loop ls g in (r, g', w))"
| "cluster_loop env rp maxAttempts (Suc k) attempt ls g w =
     (case cluster_attempt env rp maxAttempts attempt ls g w of
        (Return r, g', w') \<Rightarrow> (Returned r, g', w')
      | (Panic, g', w') \<Rightarrow> (Panicked, g', w')
      | (Continue ls', g', w') \<Rightarrow> cluster_loop env rp maxAttempts k (attempt + 1) ls' g' w')"

definition retry_policy_for :: "'l ClusterEnv \<Rightarrow> GatewayContext \<Rightarrow> RetryPolicy" where
  "retry_policy_for env g = (case retry_policy_of g of Some rp \<Rightarrow> rp | None \<Rightarrow> ce_retry env)"

definition max_attempts :: "RetryPolicy \<Rightarrow> nat" where
  "max_attempts rp = nat (max 1 (wrap64 (ry_Retry rp + 1)))"

definition no_calls_yet :: ClusterLoop where
  "no_calls_yet = \<lparr>cl_excluded = {}, cl_lastSelected = '''', cl_lastErr = None, cl_snapshot = None\<rparr>"

definition ClusterInvoker_Invoke :: "'l ClusterEnv \<Rightarrow> GatewayContext \<Rightarrow> 'l World \<Rightarrow> call_result \<times> GatewayContext \<times> 'l World" where
  "ClusterInvoker_Invoke env g w = (let rp = retry_policy_for env g; n = max_attempts rp
     in cluster_loop env rp n n 0 no_calls_yet g w)"

end
