(* ===== verification/Retry_Loop.thy ===== *)
theory Retry_Loop
  imports Cluster
begin

text \<open>
  What the retry loop of \<open>ClusterInvoker.Invoke\<close> promises. The locale \<open>cluster_env\<close> states what
  the loop relies on: routers only narrow and keep the breakers sound, a balancer picks a candidate, a provider
  does not touch \<open>SelectedEndpoint\<close>. It is interpreted on \<open>gateway_env\<close>, the environment built
  from the routers and balancers of this gateway (\<open>internal/bootstrap/registry.go\<close>). The properties bound the
  physical calls, say when a retry happens, and that no endpoint is called twice.
\<close>

subsection \<open>One iteration\<close>

lemma after_call_Continue:
  assumes "after_call env rp n a endpoints err ls g = Continue ls'"
  obtains e ep where "err = Some e" "g_SelectedEndpoint g = Some ep" "e \<noteq> ClientDisconnected" "\<not> isExplicitlyNonRetryable e"
    "g_TTFT g \<le> 0" "retry_matches env rp g e" "a + 1 < n"
    "cl_excluded ls' = (if IsExcludeFailedEndpoint rp then insert (ep_ID ep) (cl_excluded ls) else cl_excluded ls)"
    "cl_lastSelected ls' = cl_lastSelected ls" "cl_lastErr ls' = err" "cl_snapshot ls' = Some (take_snapshot g)"
    "hasRemainingEndpoint endpoints (cl_excluded ls')"
  using assms by (auto simp: after_call_def Let_def split: option.splits if_splits)

lemma called_Continue: "Continue ls' = after_call env rp n a endpoints err ls g \<Longrightarrow> a + 1 < n \<and> (\<exists>e. err = Some e \<and> e \<noteq> ClientDisconnected)"
  by (rule after_call_Continue[OF sym]) auto

lemma after_call_Return: "after_call env rp n a endpoints err ls g = Return x \<Longrightarrow> x = None \<Longrightarrow> err = None"
  by (auto simp: after_call_def Let_def split: option.splits if_splits)

lemma sequentialOutcome_frame [simp]:
  "w_History (snd (sequentialOutcome env clk err lease g w)) = w_History w"
  "w_lb (snd (sequentialOutcome env clk err lease g w)) = w_lb w"
  by (auto simp: sequentialOutcome_def split: option.splits prod.splits)

lemma sequentialOutcome_inv:
  "cbm_inv (w_cbm w) \<Longrightarrow> cbm_inv (w_cbm (snd (sequentialOutcome env clk err lease g w)))"
  by (simp add: sequentialOutcome_def split_beta attempt_finish_inv attempt_cancel.keeps split: option.split)

lemma ProviderInvoker_selected:
  assumes "\<And>p g. g_SelectedEndpoint (snd (ce_provider env p g)) = g_SelectedEndpoint g"
  shows "g_SelectedEndpoint (snd (ProviderInvoker_Invoke env now ep g)) = Some ep"
  by (simp add: ProviderInvoker_Invoke_def Let_def split_beta assms split: option.split)

text \<open>The shape of an iteration: either no provider was called and nothing is recorded, or one call was made,
  recorded, and the decision of \<open>after_call\<close> is the verdict.\<close>

definition called :: "'l ClusterEnv \<Rightarrow> RetryPolicy \<Rightarrow> nat \<Rightarrow> nat \<Rightarrow> ClusterLoop \<Rightarrow> verdict \<Rightarrow> GatewayContext \<Rightarrow> AttemptRecord \<Rightarrow> bool" where
  "called env rp n a ls v g rec \<longleftrightarrow> (\<exists>endpoints err ls1. cl_excluded ls1 = cl_excluded ls \<and> v = after_call env rp n a endpoints err ls1 g
     \<and> ar_Success rec = (err = None \<or> err = Some ClientDisconnected)
     \<and> ar_EndpointID rec = (case g_SelectedEndpoint g of Some e \<Rightarrow> ep_ID e | None \<Rightarrow> ''''))"

definition not_called :: "RetryPolicy \<Rightarrow> nat \<Rightarrow> nat \<Rightarrow> ClusterLoop \<Rightarrow> verdict \<Rightarrow> bool" where
  "not_called rp n a ls v \<longleftrightarrow> (\<exists>e. v = Return (Some e))
     \<or> (\<exists>ls' i. v = Continue ls' \<and> IsExcludeFailedEndpoint rp \<and> a + 1 < n \<and> cl_excluded ls' = insert i (cl_excluded ls))"

lemma attempt_call_cases:
  assumes "attempt_call env rp n a endpoints ep ls g w = (v, g', w')"
  shows "w_History w' = w_History w \<and> not_called rp n a ls v
       \<or> (\<exists>rec. w_History w' = w_History w @ [rec] \<and> called env rp n a ls v g' rec)"
proof (cases "fst (AcquireAttempt (Some ep) (ce_enableActive env) (ce_now env a 0) (ce_now env a 1) (w_cbm w))")
  case (Inl msg)
  with assms show ?thesis by (auto simp: attempt_call_def Let_def split_beta not_called_def)
next
  case (Inr lease)
  define err g1 where "err = fst (ProviderInvoker_Invoke env (ce_now env a 2) ep g)"
    and "g1 = note_error err (snd (ProviderInvoker_Invoke env (ce_now env a 2) ep g))"
  define ok where "ok = (err = None \<or> err = Some ClientDisconnected)"
  let ?rec = "attempt_record ok (ce_now env a 3) (ce_now env a 4) g1"
  from Inr assms have "w_History w' = w_History w @ [?rec]" and g: "g' = g1\<lparr>g_AttemptCount := g_AttemptCount g1 + 1\<rparr>"
    and "v = after_call env rp n a endpoints err ls g'"
    by (simp_all add: attempt_call_def Let_def split_beta RecordAttempt_def err_def g1_def ok_def) auto
  moreover have "ar_EndpointID ?rec = (case g_SelectedEndpoint g' of Some e \<Rightarrow> ep_ID e | None \<Rightarrow> '''')" "ar_Success ?rec = ok"
    by (simp_all add: g attempt_record_def Let_def)
  ultimately show ?thesis unfolding called_def ok_def by blast
qed

lemma cluster_attempt_elim:
  assumes "cluster_attempt env rp n a ls g w = (v, g', w')"
  obtains (stop) e where "v = Return (Some e)" "w_History w' = w_History w"
      "w_cbm w' = w_cbm w \<or> (\<exists>g eps. w_cbm w' = snd (router_chain (ce_routers env a g) eps (w_cbm w)))"
      "g' = ResetAttempt g \<or> (\<exists>lbc endpoints filtered prev l. choose_lb env (ResetAttempt g) = Some lbc
         \<and> g' = fst (snd (select_endpoint (ResetAttempt g) endpoints filtered prev lbc l)))"
  | (call) endpoints filtered m g0 lbc ep g1 l where "g0 = ResetAttempt g"
      "router_chain (ce_routers env a g0) (filter (\<lambda>ep. ep_ID ep \<notin> cl_excluded ls) endpoints) (w_cbm w) = (filtered, m)"
      "choose_lb env g0 = Some lbc"
      "select_endpoint g0 endpoints filtered (cl_lastSelected ls) lbc (w_lb w) = (Some ep, g1, l)"
      "attempt_call env rp n a endpoints ep (ls\<lparr>cl_lastSelected := ep_ID ep\<rparr>) g1 (w\<lparr>w_cbm := m, w_lb := l\<rparr>) = (v, g', w')"
proof (cases "ce_List env a (ResetAttempt g)")
  case (Inl e)
  with assms show ?thesis by (intro stop) (auto simp: cluster_attempt_def Let_def)
next
  case (Inr endpoints)
  let ?g = "ResetAttempt g" and ?cs = "filter (\<lambda>ep. ep_ID ep \<notin> cl_excluded ls) endpoints"
  obtain filtered m where rc: "router_chain (ce_routers env a ?g) ?cs (w_cbm w) = (filtered, m)" by (rule prod.exhaust)
  then have m: "m = snd (router_chain (ce_routers env a ?g) ?cs (w_cbm w))" by simp
  have stopI: ?thesis if "(\<exists>e. v = Return (Some e)) \<and> w_History w' = w_History w \<and> (w_cbm w' = w_cbm w \<or> w_cbm w' = m)
      \<and> (g' = ?g \<or> (\<exists>lbc endpoints filtered prev l. choose_lb env ?g = Some lbc
         \<and> g' = fst (snd (select_endpoint ?g endpoints filtered prev lbc l))))"
    using that stop m by metis
  note u = assms[unfolded cluster_attempt_def Let_def Inr sum.case rc split]
  show ?thesis
  proof (cases "?cs = [] \<or> filtered = [] \<or> g_FatalErr ?g \<noteq> None \<or> choose_lb env ?g = None")
    case True
    with u show ?thesis by (intro stopI) (auto split: if_splits)
  next
    case False
    then obtain lbc where lb: "choose_lb env ?g = Some lbc" by blast
    obtain sel g1 l where s: "select_endpoint ?g endpoints filtered (cl_lastSelected ls) lbc (w_lb w) = (sel, g1, l)" by (rule prod_cases3)
    show ?thesis
    proof (cases sel)
      case None
      with u lb s False have "(\<exists>e. v = Return (Some e)) \<and> w_History w' = w_History w \<and> w_cbm w' = m \<and> g' = g1" by auto
      with lb s show ?thesis by (intro stopI) (metis fst_conv snd_conv)
    next
      case (Some ep)
      with u rc lb s False show ?thesis by (intro call[of ?g endpoints filtered m lbc ep g1 l]) auto
    qed
  qed
qed

lemma cluster_attempt_cases:
  assumes "cluster_attempt env rp n a ls g w = (v, g', w')"
  shows "w_History w' = w_History w \<and> not_called rp n a ls v
       \<or> (\<exists>rec. w_History w' = w_History w @ [rec] \<and> called env rp n a ls v g' rec)"
  using assms
proof (cases rule: cluster_attempt_elim)
  case (stop e)
  then show ?thesis by (simp add: not_called_def)
next
  case (call endpoints filtered m g0 lbc ep g1 l)
  from attempt_call_cases[OF call(5)] show ?thesis by (simp add: not_called_def called_def)
qed

subsection \<open>The cursor\<close>

text \<open>The order in which a retry looks for its endpoint: after the previous one, around, the previous one last; from
  the start when the previous endpoint has left.\<close>

definition walk_from :: "string \<Rightarrow> Endpoint list \<Rightarrow> Endpoint list" where
  "walk_from prev eps = (case dropWhile (\<lambda>ep. ep_ID ep \<noteq> prev) eps of [] \<Rightarrow> eps
     | p # ys \<Rightarrow> ys @ takeWhile (\<lambda>ep. ep_ID ep \<noteq> prev) eps @ [p])"

lemma walk_from_absent: "dropWhile (\<lambda>ep. ep_ID ep \<noteq> prev) eps = [] \<Longrightarrow> walk_from prev eps = eps"
  by (simp only: walk_from_def list.case)

lemma first_index_walk:
  "first_index prev i eps = (if dropWhile (\<lambda>ep. ep_ID ep \<noteq> prev) eps = [] then -1
     else i + int (length (takeWhile (\<lambda>ep. ep_ID ep \<noteq> prev) eps)))"
  by (induction eps arbitrary: i) auto

lemma next_from_find:
  "next_from eps ex start steps = find (\<lambda>ep. ep_ID ep \<notin> ex) (map (\<lambda>step. eps ! nat ((start + int step) mod int (length eps))) steps)"
  by (induction steps) (simp_all add: Let_def)

lemma rotate_as_map:
  assumes "eps \<noteq> []"
  shows "map (\<lambda>step. eps ! nat ((int m - 1 + int step) mod int (length eps))) [1..<length eps + 1] = rotate m eps"
proof (rule nth_equalityI)
  fix i assume "i < length (map (\<lambda>step. eps ! nat ((int m - 1 + int step) mod int (length eps))) [1..<length eps + 1])"
  then have i: "i < length eps" by (simp del: upt_Suc)
  have "nat ((int m - 1 + int (1 + i)) mod int (length eps)) = (i + m) mod length eps"
    by (simp add: nat_mod_as_int algebra_simps)
  with i show "map (\<lambda>step. eps ! nat ((int m - 1 + int step) mod int (length eps))) [1..<length eps + 1] ! i = rotate m eps ! i"
    by (simp add: nth_rotate add.commute del: upt_Suc)
qed (simp del: upt_Suc)

lemma nextEndpointAfter_rotate:
  assumes "eps \<noteq> []" and "first_index prev 0 eps = int m - 1"
  shows "nextEndpointAfter eps ex prev = find (\<lambda>ep. ep_ID ep \<notin> ex) (rotate m eps)"
  unfolding nextEndpointAfter_def next_from_find assms(2) rotate_as_map[OF assms(1)] by (simp add: assms(1))

lemma rotate_split: "rotate (Suc (length xs)) (xs @ p # ys) = ys @ xs @ [p]"
  using rotate_append[of "xs @ [p]" ys] by simp

lemma walk_lemma:
  "nextEndpointAfter endpoints excluded previousID = find (\<lambda>ep. ep_ID ep \<notin> excluded) (walk_from previousID endpoints)"
proof (cases "dropWhile (\<lambda>ep. ep_ID ep \<noteq> previousID) endpoints")
  case Nil
  then have "first_index previousID 0 endpoints = int 0 - 1" by (simp add: first_index_walk)
  then show ?thesis
    using walk_from_absent[OF Nil] nextEndpointAfter_rotate[of endpoints previousID 0 excluded]
    by (cases "endpoints = []") (simp add: nextEndpointAfter_def, simp)
next
  case (Cons p ys)
  define xs where "xs = takeWhile (\<lambda>ep. ep_ID ep \<noteq> previousID) endpoints"
  have e: "endpoints = xs @ p # ys" unfolding xs_def Cons[symmetric] by simp
  have "first_index previousID 0 endpoints = int (Suc (length xs)) - 1" using Cons by (simp add: first_index_walk xs_def)
  moreover have "walk_from previousID endpoints = rotate (Suc (length xs)) endpoints"
    using Cons rotate_split[of xs p ys] by (simp add: walk_from_def xs_def[symmetric] flip: e)
  moreover have "endpoints \<noteq> []" using e by simp
  ultimately show ?thesis using nextEndpointAfter_rotate[of endpoints previousID "Suc (length xs)"] by simp
qed

lemma walk_from_set: "set (walk_from prev eps) = set eps"
proof (cases "dropWhile (\<lambda>ep. ep_ID ep \<noteq> prev) eps")
  case (Cons p ys)
  have "set eps = set (takeWhile (\<lambda>ep. ep_ID ep \<noteq> prev) eps @ p # ys)" unfolding Cons[symmetric] by simp
  with Cons show ?thesis by (auto simp: walk_from_def)
qed (simp only: walk_from_absent)

lemma nextEndpointAfter_Some:
  assumes "nextEndpointAfter eps ex prev = Some ep"
  shows "ep \<in> set eps" and "ep_ID ep \<notin> ex"
proof -
  from assms have "find (\<lambda>ep. ep_ID ep \<notin> ex) (walk_from prev eps) = Some ep" by (simp only: walk_lemma)
  then have "ep \<in> set (walk_from prev eps) \<and> ep_ID ep \<notin> ex" by (auto simp: find_Some_iff in_set_conv_nth)
  then show "ep \<in> set eps" "ep_ID ep \<notin> ex" by (simp_all add: walk_from_set)
qed

text \<open>The cursor of a retry under round robin: \<open>nextEndpointAfter\<close> with its index arithmetic picks the
  first endpoint that is still available in the order that starts right after the previous endpoint, wraps around and
  ends with the previous endpoint itself; if that endpoint has left the list, in list order.\<close>

theorem nextEndpointAfter_walks:
  "nextEndpointAfter endpoints excluded previousID = find (\<lambda>ep. ep_ID ep \<notin> excluded) (walk_from previousID endpoints)"
  by (rule walk_lemma)

subsection \<open>The loop\<close>

lemma loop_history:
  assumes "cluster_loop env rp n k a ls g w = (r, g', w')" and "a + k = n" and "0 < k"
  shows "\<exists>recs. w_History w' = w_History w @ recs \<and> length recs \<le> k \<and> list_all (\<lambda>x. \<not> ar_Success x) (butlast recs)
     \<and> (r = Returned None \<longrightarrow> recs \<noteq> [] \<and> ar_Success (last recs))"
  using assms
proof (induction k arbitrary: a ls g w)
  case (Suc k)
  obtain v g1 w1 where c: "cluster_attempt env rp n a ls g w = (v, g1, w1)" by (rule prod_cases3)
  note cases = cluster_attempt_cases[OF c]
  show ?case
  proof (cases v)
    case (Return x)
    with c Suc.prems have "r = Returned x" "w' = w1" by simp_all
    from cases show ?thesis
    proof (elim disjE exE conjE)
      assume "w_History w1 = w_History w" "not_called rp n a ls v"
      with Return \<open>r = Returned x\<close> \<open>w' = w1\<close> show ?thesis by (intro exI[of _ "[]"]) (auto simp: not_called_def)
    next
      fix rec assume h: "w_History w1 = w_History w @ [rec]" "called env rp n a ls v g1 rec"
      then have "x = None \<longrightarrow> ar_Success rec" using Return by (auto simp: called_def dest: after_call_Return[OF sym])
      with h \<open>r = Returned x\<close> \<open>w' = w1\<close> show ?thesis by (intro exI[of _ "[rec]"]) auto
    qed
  next
    case Panic
    with c Suc.prems have "r = Panicked" "w' = w1" by simp_all
    with cases show ?thesis
      by (elim disjE exE conjE) (auto intro: exI[of _ "[]"] exI[of _ "[_]"])
  next
    case (Continue ls1)
    with c Suc.prems(1) have l: "cluster_loop env rp n k (a + 1) ls1 g1 w1 = (r, g', w')" by simp
    have "a + 1 < n" using cases Continue by (auto simp: not_called_def called_def dest!: called_Continue)
    then have "0 < k" "a + 1 + k = n" using Suc.prems(2) by simp_all
    from Suc.IH[OF l this(2,1)] obtain recs where recs: "w_History w' = w_History w1 @ recs" "length recs \<le> k"
        "list_all (\<lambda>x. \<not> ar_Success x) (butlast recs)" "r = Returned None \<longrightarrow> recs \<noteq> [] \<and> ar_Success (last recs)" by blast
    have "w_History w1 = w_History w \<or> (\<exists>rec. w_History w1 = w_History w @ [rec] \<and> \<not> ar_Success rec)"
      using cases Continue by (auto simp: called_def dest!: called_Continue)
    then show ?thesis
    proof (elim disjE exE conjE)
      fix rec assume "w_History w1 = w_History w @ [rec]" "\<not> ar_Success rec"
      with recs show ?thesis by (intro exI[of _ "rec # recs"]) auto
    qed (use recs in auto)
  qed
qed simp


lemma retry_step:
  assumes "cluster_attempt env rp n a ls g w = (Continue ls', g', w')"
  shows "a + 1 < n
     \<and> (w_History w' = w_History w \<and> IsExcludeFailedEndpoint rp \<and> (\<exists>i. cl_excluded ls' = insert i (cl_excluded ls))
       \<or> (\<exists>rec e ep. w_History w' = w_History w @ [rec] \<and> \<not> ar_Success rec \<and> g_SelectedEndpoint g' = Some ep \<and> ar_EndpointID rec = ep_ID ep
            \<and> cl_lastErr ls' = Some e \<and> e \<noteq> ClientDisconnected \<and> \<not> isExplicitlyNonRetryable e \<and> g_TTFT g' \<le> 0 \<and> retry_matches env rp g' e
            \<and> cl_excluded ls' = (if IsExcludeFailedEndpoint rp then insert (ep_ID ep) (cl_excluded ls) else cl_excluded ls)))"
  using cluster_attempt_cases[OF assms]
proof (elim disjE exE conjE)
  fix rec assume h: "w_History w' = w_History w @ [rec]" and "called env rp n a ls (Continue ls') g' rec"
  then obtain eps err ls1 where "cl_excluded ls1 = cl_excluded ls" and c: "after_call env rp n a eps err ls1 g' = Continue ls'"
    and "ar_Success rec = (err = None \<or> err = Some ClientDisconnected)"
    and "ar_EndpointID rec = (case g_SelectedEndpoint g' of Some e \<Rightarrow> ep_ID e | None \<Rightarrow> '''')"
    unfolding called_def by metis
  with h c show ?thesis by (elim after_call_Continue) auto
qed (auto simp: not_called_def)

subsection \<open>What the loop relies on\<close>

text \<open>The parts of the context that belong to the whole request and that only the model fallback and the policy matching
  write.\<close>

definition request_frame :: "GatewayContext \<Rightarrow> string list \<times> Policy option" where
  "request_frame g = (g_FallbackChain g, g_Policy g)"

locale cluster_env =
  fixes env :: "'l ClusterEnv"
  assumes routers_narrow: "r \<in> set (ce_routers env a g) \<Longrightarrow> router r"
    and routers_sound: "r \<in> set (ce_routers env a g) \<Longrightarrow> cbm_inv m \<Longrightarrow> cbm_inv (snd (r eps m))"
    and balancer_in: "choose_lb env g0 = Some (n, lb) \<Longrightarrow> fst (lb g eps l) = Some ep \<Longrightarrow> ep \<in> set eps"
    and provider_keeps: "g_SelectedEndpoint (snd (ce_provider env p g)) = g_SelectedEndpoint g"
    and balancer_frame: "choose_lb env g0 = Some (n, lb) \<Longrightarrow> request_frame (fst (snd (lb g eps l))) = request_frame g"
    and provider_frame: "request_frame (snd (ce_provider env p g)) = request_frame g"
begin

lemma chain_sound: "(\<And>r. r \<in> set rs \<Longrightarrow> r \<in> set (ce_routers env a g)) \<Longrightarrow> cbm_inv m \<Longrightarrow> cbm_inv (snd (router_chain rs eps m))"
proof (induction rs arbitrary: eps m)
  case (Cons r rs)
  then have "cbm_inv (snd (r eps m))" by (intro routers_sound[of r a g]) simp_all
  with Cons show ?case by (simp add: split_beta Let_def)
qed simp

lemma select_available:
  assumes "choose_lb env g0 = Some lbc" and "fst (select_endpoint g endpoints filtered prev lbc l) = Some ep"
  shows "ep_ID ep \<in> ep_ID ` set filtered"
proof -
  obtain n lb where lbc: "lbc = (n, lb)" by (cases lbc)
  note lb_in = balancer_in[OF assms(1)[unfolded lbc]]
  show ?thesis
    using assms(2) nextEndpointAfter_Some[of endpoints "ep_ID ` set endpoints - ep_ID ` set filtered" prev]
    by (auto simp: select_endpoint_def lbc Let_def dest!: lb_in split: if_splits option.splits)
qed

end

context cluster_env
begin

lemma chain_subset: "set (fst (router_chain (ce_routers env a g) eps m)) \<subseteq> set eps"
  using router_chain_subseq[of "ce_routers env a g" eps m] routers_narrow by (auto elim: list_emb_set)

lemma call_selected:
  assumes "attempt_call env rp n a endpoints ep ls g w = (v, g', w')" and "w_History w' \<noteq> w_History w"
  shows "g_SelectedEndpoint g' = Some ep"
proof (cases "fst (AcquireAttempt (Some ep) (ce_enableActive env) (ce_now env a 0) (ce_now env a 1) (w_cbm w))")
  case (Inl msg)
  with assms show ?thesis by (auto simp: attempt_call_def Let_def split_beta)
next
  case (Inr lease)
  have "g_SelectedEndpoint (note_error e g) = g_SelectedEndpoint g" for e g by (simp add: note_error_def split: option.split)
  with Inr assms(1) show ?thesis
    using ProviderInvoker_selected[OF provider_keeps]
    by (auto simp: attempt_call_def Let_def split_beta RecordAttempt_def)
qed

lemma attempt_fresh:
  assumes c: "cluster_attempt env rp n a ls g w = (v, g', w')" and "w_History w' = w_History w @ [rec]" and "called env rp n a ls v g' rec"
  obtains ep where "g_SelectedEndpoint g' = Some ep" "ar_EndpointID rec = ep_ID ep" "ep_ID ep \<notin> cl_excluded ls"
  using c
proof (cases rule: cluster_attempt_elim)
  case (call endpoints filtered m g0 lbc ep g1 l)
  have "set filtered \<subseteq> set (filter (\<lambda>ep. ep_ID ep \<notin> cl_excluded ls) endpoints)"
    using chain_subset[of a g0 "filter (\<lambda>ep. ep_ID ep \<notin> cl_excluded ls) endpoints" "w_cbm w"] call(2) by simp
  moreover have "ep_ID ep \<in> ep_ID ` set filtered"
    using call(4) by (intro select_available[OF call(3), of g0 endpoints filtered "cl_lastSelected ls" "w_lb w"]) simp
  ultimately have "ep_ID ep \<notin> cl_excluded ls" by auto
  moreover have "g_SelectedEndpoint g' = Some ep" using call_selected[OF call(5)] assms(2) by simp
  ultimately show ?thesis using assms(3) that by (auto simp: called_def)
qed (use assms(2) in simp)

lemma loop_distinct:
  assumes "cluster_loop env rp n k a ls g w = (r, g', w')" and ex: "IsExcludeFailedEndpoint rp"
  shows "\<exists>recs. w_History w' = w_History w @ recs \<and> distinct (map ar_EndpointID recs) \<and> cl_excluded ls \<inter> set (map ar_EndpointID recs) = {}"
  using assms(1)
proof (induction k arbitrary: a ls g w)
  case (Suc k)
  obtain v g1 w1 where c: "cluster_attempt env rp n a ls g w = (v, g1, w1)" by (rule prod_cases3)
  have one: "w_History w1 = w_History w \<or> (\<exists>rec. w_History w1 = w_History w @ [rec] \<and> ar_EndpointID rec \<notin> cl_excluded ls)"
    using cluster_attempt_cases[OF c] attempt_fresh[OF c] by metis
  show ?case
  proof (cases "\<exists>ls1. v = Continue ls1")
    case False
    with c Suc.prems have "w' = w1" by (cases v) simp_all
    with one show ?thesis by (auto intro: exI[of _ "[]"] exI[of _ "[_]"])
  next
    case True
    then obtain ls1 where v: "v = Continue ls1" by blast
    with c Suc.prems have "cluster_loop env rp n k (a + 1) ls1 g1 w1 = (r, g', w')" by simp
    from Suc.IH[OF this] obtain recs where recs: "w_History w' = w_History w1 @ recs" "distinct (map ar_EndpointID recs)"
      "cl_excluded ls1 \<inter> set (map ar_EndpointID recs) = {}" by blast
    have "w_History w1 = w_History w \<and> cl_excluded ls \<subseteq> cl_excluded ls1
        \<or> (\<exists>rec. w_History w1 = w_History w @ [rec] \<and> cl_excluded ls1 = insert (ar_EndpointID rec) (cl_excluded ls))"
      using retry_step[OF c[unfolded v]] ex by auto
    then show ?thesis
    proof (elim disjE exE conjE)
      fix rec assume h: "w_History w1 = w_History w @ [rec]" "cl_excluded ls1 = insert (ar_EndpointID rec) (cl_excluded ls)"
      with one have "ar_EndpointID rec \<notin> cl_excluded ls" by simp
      with h recs show ?thesis by (intro exI[of _ "rec # recs"]) auto
    qed (use recs in \<open>intro exI[of _ recs]; auto\<close>)
  qed
qed (simp add: split_beta Let_def)

lemma call_sound: "attempt_call env rp n a endpoints ep ls g w = (v, g', w') \<Longrightarrow> cbm_inv (w_cbm w) \<Longrightarrow> cbm_inv (w_cbm w')"
  using AcquireAttempt_inv[of "w_cbm w" "Some ep"]
  by (auto simp: attempt_call_def Let_def split_beta RecordAttempt_def intro!: sequentialOutcome_inv split: sum.splits)

lemma attempt_sound:
  assumes "cluster_attempt env rp n a ls g w = (v, g', w')" and inv: "cbm_inv (w_cbm w)"
  shows "cbm_inv (w_cbm w')"
  using assms(1)
proof (cases rule: cluster_attempt_elim)
  case (stop e)
  with inv show ?thesis using chain_sound[of "ce_routers env a _" a] by auto
next
  case (call endpoints filtered m g0 lbc ep g1 l)
  then have "cbm_inv m" using chain_sound[of "ce_routers env a g0" a g0] inv by (metis snd_conv)
  with call_sound[OF call(5)] show ?thesis by simp
qed

lemma select_frame:
  assumes "choose_lb env g0 = Some lbc"
  shows "request_frame (fst (snd (select_endpoint g endpoints filtered prev lbc l))) = request_frame g"
proof -
  obtain n lb where lbc: "lbc = (n, lb)" by (cases lbc)
  show ?thesis
    using balancer_frame[OF assms[unfolded lbc]] by (simp add: select_endpoint_def lbc Let_def split: option.split)
qed

lemma ProviderInvoker_frame: "request_frame (snd (ProviderInvoker_Invoke env now ep g)) = request_frame g"
  using provider_frame by (simp add: ProviderInvoker_Invoke_def Let_def split_beta request_frame_def split: option.split)

lemma call_frame:
  assumes "attempt_call env rp n a endpoints ep ls g w = (v, g', w')"
  shows "request_frame g' = request_frame g"
proof (cases "fst (AcquireAttempt (Some ep) (ce_enableActive env) (ce_now env a 0) (ce_now env a 1) (w_cbm w))")
  case (Inl msg)
  with assms show ?thesis by (auto simp: attempt_call_def Let_def split_beta)
next
  case (Inr lease)
  have "request_frame (note_error e h) = request_frame h" "request_frame (h\<lparr>g_AttemptCount := c\<rparr>) = request_frame h" for e h c
    by (simp_all add: note_error_def request_frame_def split: option.split)
  with Inr assms ProviderInvoker_frame show ?thesis
    by (auto simp: attempt_call_def Let_def split_beta RecordAttempt_def)
qed

lemma attempt_frame:
  assumes "cluster_attempt env rp n a ls g w = (v, g', w')"
  shows "request_frame g' = request_frame g"
proof -
  have r: "request_frame (ResetAttempt g) = request_frame g" by (simp add: ResetAttempt_def request_frame_def)
  from assms show ?thesis
  proof (cases rule: cluster_attempt_elim)
    case (stop e)
    then show ?thesis using select_frame r by metis
  next
    case (call endpoints filtered m g0 lbc ep g1 l)
    then show ?thesis using call_frame[OF call(5)] select_frame[OF call(3), of g0 endpoints filtered "cl_lastSelected ls" "w_lb w"] r by simp
  qed
qed

lemma loop_frame: "cluster_loop env rp n k a ls g w = (r, g', w') \<Longrightarrow> request_frame g' = request_frame g"
proof (induction k arbitrary: a ls g w)
  case 0
  then show ?case by (auto simp: after_loop_def request_frame_def Let_def split: option.splits if_splits)
next
  case (Suc k)
  obtain v g1 w1 where c: "cluster_attempt env rp n a ls g w = (v, g1, w1)" by (rule prod_cases3)
  from attempt_frame[OF c] Suc c show ?case by (cases v) auto
qed

lemma loop_sound: "cluster_loop env rp n k a ls g w = (r, g', w') \<Longrightarrow> cbm_inv (w_cbm w) \<Longrightarrow> cbm_inv (w_cbm w')"
proof (induction k arbitrary: a ls g w)
  case (Suc k)
  obtain v g1 w1 where c: "cluster_attempt env rp n a ls g w = (v, g1, w1)" by (rule prod_cases3)
  from attempt_sound[OF c Suc.prems(2)] have "cbm_inv (w_cbm w1)" .
  with Suc c show ?case by (cases v) auto
qed (simp add: split_beta Let_def)

end


end
