(* ===== verification/Gateway_Env.thy ===== *)
theory Gateway_Env
  imports Retry_Loop
begin

text \<open>
  The cluster invoker wired with this gateway's own parts: the router factories and the load balancer factories that
  \<open>internal/bootstrap/registry.go\<close> registers and \<open>pkg/invoker/builder.go\<close> resolves. \<open>gateway_env\<close> is that
  environment; the interpretation \<open>gw\<close> shows that it meets the contract \<open>cluster_env\<close> of the retry loop, and the
  properties below follow for it. The cost balancer is left out of the registry here because it may crash
  (\<open>Cost_Select\<close> in \<open>Load_Balancers\<close>); latency averages, random draws and the tenant cache are inputs.
\<close>

subsection \<open>The circuit breaker router keeps the breakers sound\<close>

lemma fold_inv: "(\<And>x m. cbm_inv m \<Longrightarrow> cbm_inv (f x m)) \<Longrightarrow> cbm_inv m \<Longrightarrow> cbm_inv (fold f xs m)"
  by (induction xs arbitrary: m) auto

lemma GetEntry_sound: "cbm_inv m \<Longrightarrow> cbm_inv (snd (GetEntryWithModel k mc m))"
  using GetEntryWithModel_inv[of m k mc] by (metis surjective_pairing)

lemma allow_split_sound: "allow_split key act now eps m = (yes, no, m') \<Longrightarrow> cbm_inv m \<Longrightarrow> cbm_inv m'"
proof (induction eps arbitrary: m yes no)
  case (Cons ep eps)
  have "cbm_inv (snd (AllowRequest (key ep) act now m))" using Cons.prems(2) by (rule allow_query.keeps)
  with Cons show ?case by (auto simp: Let_def split_beta split: if_splits) (metis prod.collapse)+
qed simp

lemma blocked_ids_sound: "blocked_ids act now mp passed ks m = (ids, m') \<Longrightarrow> cbm_inv m \<Longrightarrow> cbm_inv m'"
proof (induction ks arbitrary: m ids)
  case (Cons k ks)
  obtain a b m1 where s: "allow_split ep_ID act now (filter (\<lambda>ep. service_key ep = k) passed) m = (a, b, m1)" by (rule prod_cases3)
  with Cons.prems have "cbm_inv m1" by (auto dest: allow_split_sound)
  with Cons s show ?case by (auto simp: Let_def split: prod.splits)
qed simp

lemma breaker_router_sound:
  assumes "cbm_inv m"
  shows "cbm_inv (snd (CircuitBreakerRouter_Route act order now g eps m))"
proof -
  have 1: "cbm_inv (bind_models eps m)" unfolding bind_models_def using assms by (intro fold_inv GetEntry_sound)
  then have 2: "cbm_inv (reset_all eps (bind_models eps m))" unfolding reset_all_def by (intro fold_inv manager_reset.keeps)
  have 3: "cbm_inv (version_checks ps eps (bind_models eps m))" for ps
    unfolding version_checks_def Let_def using 1 by (rule fold_inv[rotated]) (auto intro!: fold_inv version_check.keeps)
  show ?thesis
    using assms 2 3 by (auto simp: CircuitBreakerRouter_Route_def Let_def dest: allow_split_sound blocked_ids_sound split: prod.split)
qed

subsection \<open>Routers and balancers by name\<close>

text \<open>The routers of \<open>registry.go\<close>, each with the inputs its call needs.\<close>

datatype router_kind = Capability | Priority
  | Tag "RoutePolicy list \<Rightarrow> RoutePolicy list" "TagRule list \<Rightarrow> TagRule list" "nat list"
  | TenantEndpoint bool "string \<rightharpoonup> string" "string \<rightharpoonup> string list" "string \<Rightarrow> string + string list"
  | CircuitBreaker bool "string list" instant

fun router_of :: "GatewayContext \<Rightarrow> router_kind \<Rightarrow> CircuitBreakerManager router" where
  "router_of g Capability = (\<lambda>eps m. (CapabilityRouter_Route g eps, m))"
| "router_of g Priority = (\<lambda>eps m. (PriorityRouter_Route eps, m))"
| "router_of g (Tag sortP sortR draws) = (\<lambda>eps m. (TagRouter_Route sortP sortR draws g eps, m))"
| "router_of g (TenantEndpoint red bad good sm) = (\<lambda>eps m. (fst (TenantEndpointRouter_Route red bad good sm g eps), m))"
| "router_of g (CircuitBreaker act order now) = CircuitBreakerRouter_Route act order now g"

lemma router_of_router: "router (router_of g k)"
  using capability.route_subseq priority.route_subseq tag.route_subseq tenant.route_subseq breaker.router_axioms
  by (cases k) (simp_all add: router_def)

lemma router_of_sound: "cbm_inv m \<Longrightarrow> cbm_inv (snd (router_of g k eps m))"
  by (cases k) (simp_all add: breaker_router_sound)

text \<open>The state of the registered balancers; \<open>ls_draws\<close> feeds the random ones.\<close>

record LBStates =
  ls_rr :: rr_state
  ls_wrr :: wrr_state
  ls_conn :: conn_state
  ls_session :: rr_state
  ls_affinity :: rr_state
  ls_draws :: "nat option list"

definition draw :: "(nat option \<Rightarrow> Endpoint list \<Rightarrow> Endpoint option) \<Rightarrow> LBStates balancer" where
  "draw sel g eps l = (let (ep, ds) = with_draw sel (Some g) eps (ls_draws l) in (ep, g, l\<lparr>ls_draws := ds\<rparr>))"

definition lb_registry :: "(string \<Rightarrow> duration option) \<Rightarrow> (string \<Rightarrow> rat) \<Rightarrow> (string \<Rightarrow> string \<Rightarrow> duration \<Rightarrow> duration option) \<Rightarrow>
    string \<rightharpoonup> LBStates balancer" where
  "lb_registry parseDuration scan avg = map_of
    [(''round_robin'', \<lambda>g eps l. let (ep, s) = RoundRobin_Select (Some g) eps (ls_rr l) in (ep, g, l\<lparr>ls_rr := s\<rparr>)),
     (''weighted_rr'', \<lambda>g eps l. let (ep, s) = WeightedRoundRobin_Select eps (ls_wrr l) in (ep, g, l\<lparr>ls_wrr := s\<rparr>)),
     (''random'', draw Random_Select),
     (''weighted_random'', draw WeightedRandom_Select),
     (''least_connections'', \<lambda>g eps l. let (ep, s) = LeastConnections_Select eps (ls_conn l) in (ep, g, l\<lparr>ls_conn := s\<rparr>)),
     (''least_latency'', \<lambda>g eps l. (LeastLatency_Select parseDuration avg (Some g) eps, g, l)),
     (''composite'', \<lambda>g eps l. (Composite_Select scan (avg ''total'') (1/2) (1/2) (Some g) eps, g, l)),
     (''session_hash'', \<lambda>g eps l. let (ep, s) = SessionHash_Select (Some (\<lambda>g. RoundRobin_Select (Some g))) g eps (ls_session l)
        in (ep, g, l\<lparr>ls_session := s\<rparr>)),
     (''endpoint_affinity'', \<lambda>g eps l. let (ep, g', s) = Affinity_Select g eps (ls_affinity l) in (ep, g', l\<lparr>ls_affinity := s\<rparr>))]"

text \<open>The environment. A provider may do anything to the context except to replace \<open>SelectedEndpoint\<close>, \<open>FallbackChain\<close> or
  \<open>Policy\<close>, which no provider writes.\<close>

definition gateway_env :: "(nat \<Rightarrow> GatewayContext \<Rightarrow> gw_error + Endpoint list) \<Rightarrow> (nat \<Rightarrow> router_kind list) \<Rightarrow> string \<Rightarrow>
    (nat \<Rightarrow> GatewayContext \<Rightarrow> gw_error option \<times> GatewayContext) \<Rightarrow> (string \<Rightarrow> string \<Rightarrow> string) \<Rightarrow> Externals \<Rightarrow>
    (string \<Rightarrow> duration option) \<Rightarrow> (string \<Rightarrow> rat) \<Rightarrow> (string \<Rightarrow> string \<Rightarrow> duration \<Rightarrow> duration option) \<Rightarrow> bool \<Rightarrow> RetryPolicy \<Rightarrow>
    (nat \<Rightarrow> nat \<Rightarrow> instant) \<Rightarrow> LBStates ClusterEnv" where
  "gateway_env discovery kinds defaultLB prov repl ext parseDuration scan avg active retry now =
     \<lparr>ce_List = discovery, ce_routers = (\<lambda>a g. map (router_of g) (kinds a)), ce_LBs = lb_registry parseDuration scan avg,
      ce_anyLB = None, ce_defaultLB = defaultLB,
      ce_provider = (\<lambda>p g. let (e, g') = prov p g in (e, g'\<lparr>g_SelectedEndpoint := g_SelectedEndpoint g,
        g_FallbackChain := g_FallbackChain g, g_Policy := g_Policy g\<rparr>)),
      ce_replace = repl, ce_ext = ext, ce_parseDuration = parseDuration, ce_enableActive = active, ce_retry = retry, ce_now = now\<rparr>"

lemma affinity_in: "fst (Affinity_Select g eps s) = Some ep \<Longrightarrow> ep \<in> set eps"
  using rr.select_in[of "Some g" eps s ep]
  by (auto simp: Affinity_Select_def Let_def find_Some_iff split: if_splits option.splits prod.splits)

lemma session_in: "fst (SessionHash_Select (Some (\<lambda>g. RoundRobin_Select (Some g))) g eps s) = Some ep \<Longrightarrow> ep \<in> set eps"
  using rr.select_in[of "Some g" eps s ep] by (auto simp: SessionHash_Select_def split: if_splits dest: hash_select_in)

lemma registry_in:
  assumes "lb_registry parseDuration scan avg n = Some lb" and "fst (lb g eps l) = Some ep"
  shows "ep \<in> set eps"
proof -
  have upd: "fst (let (ep, s) = p in (ep, g, f s)) = fst p" for p and f :: "'a \<Rightarrow> 'b" by (simp add: split_beta)
  note facts = rr.select_in wrr.select_in random.select_in weighted_random.select_in least_conn.select_in
    least_latency.select_in[where s = "()"] composite.select_in[where s = "()"]
  show ?thesis
    using assms facts affinity_in session_in
    by (auto simp: lb_registry_def draw_def split_beta Let_def split: if_splits)
qed

lemma registry_frame:
  assumes "lb_registry parseDuration scan avg n = Some lb"
  shows "request_frame (fst (snd (lb g eps l))) = request_frame g"
proof -
  have "request_frame (fst (snd (Affinity_Select g eps s))) = request_frame g" for s
    by (simp add: Affinity_Select_def Let_def request_frame_def split: option.split prod.split)
  then show ?thesis using assms by (auto simp: lb_registry_def draw_def split_beta Let_def split: if_splits)
qed

interpretation gw: cluster_env "gateway_env discovery kinds defaultLB prov repl ext parseDuration scan avg active retry now"
  for discovery kinds defaultLB prov repl ext parseDuration scan avg active retry now
proof (rule cluster_env.intro)
  let ?env = "gateway_env discovery kinds defaultLB prov repl ext parseDuration scan avg active retry now"
  show "r \<in> set (ce_routers ?env a g) \<Longrightarrow> router r" for r a g by (auto simp: gateway_env_def router_of_router)
  show "r \<in> set (ce_routers ?env a g) \<Longrightarrow> cbm_inv m \<Longrightarrow> cbm_inv (snd (r eps m))" for r a g eps m
    by (auto simp: gateway_env_def router_of_sound)
  show "choose_lb ?env g0 = Some (n, lb) \<Longrightarrow> fst (lb g eps l) = Some ep \<Longrightarrow> ep \<in> set eps" for g0 n lb g eps l ep
    by (auto simp: choose_lb_def gateway_env_def Let_def intro: registry_in split: option.splits)
  show "g_SelectedEndpoint (snd (ce_provider ?env p g)) = g_SelectedEndpoint g" for p g by (simp add: gateway_env_def split_beta)
  show "choose_lb ?env g0 = Some (n, lb) \<Longrightarrow> request_frame (fst (snd (lb g eps l))) = request_frame g" for g0 n lb g eps l
    by (auto simp: choose_lb_def gateway_env_def Let_def intro: registry_frame split: option.splits)
  show "request_frame (snd (ce_provider ?env p g)) = request_frame g" for p g
    by (simp add: gateway_env_def split_beta request_frame_def)
qed

subsection \<open>Properties\<close>

text \<open>(C4) With failed endpoints excluded (the default), one call of the gateway's cluster invoker never calls the same endpoint
  twice, whatever discovery returns from attempt to attempt, whichever routers and balancers are configured and whatever
  the providers answer: the recorded calls have pairwise different endpoint ids.\<close>

theorem no_endpoint_called_twice:
  assumes "env = gateway_env discovery kinds defaultLB prov repl ext parseDuration scan avg active retry now"
    and "IsExcludeFailedEndpoint (retry_policy_for env g)" and "ClusterInvoker_Invoke env g w = (r, g', w')"
  shows "\<exists>recs. w_History w' = w_History w @ recs \<and> distinct (map ar_EndpointID recs)"
  using gw.loop_distinct[OF assms(3)[unfolded ClusterInvoker_Invoke_def Let_def assms(1)]] assms(2) unfolding assms(1) by blast

text \<open>A call of the cluster invoker, with all its routing, permits, retries and outcome records, keeps every breaker
  entry consistent: the manager's invariant holds after it if it held before.\<close>

theorem invoke_keeps_breakers_sound:
  assumes "env = gateway_env discovery kinds defaultLB prov repl ext parseDuration scan avg active retry now"
    and "cbm_inv (w_cbm w)" and "ClusterInvoker_Invoke env g w = (r, g', w')"
  shows "cbm_inv (w_cbm w')"
  using gw.loop_sound[OF assms(3)[unfolded ClusterInvoker_Invoke_def Let_def assms(1)]] assms(2) by blast

subsection \<open>A concrete request\<close>

text \<open>Two endpoints behind round robin; the first provider fails with a connection error, the second answers.\<close>

definition demo_two :: "Endpoint list" where
  "demo_two = [zero_endpoint\<lparr>ep_ID := ''a'', ep_ProviderImpl := Some 0\<rparr>, zero_endpoint\<lparr>ep_ID := ''b'', ep_ProviderImpl := Some 1\<rparr>]"

definition demo_env :: "LBStates ClusterEnv" where
  "demo_env = gateway_env (\<lambda>_ _. Inr demo_two) (\<lambda>_. [Priority]) ''round_robin''
     (\<lambda>p g. (if p = 0 then Some (UpstreamFailed ''connection reset'' False) else None, g)) (\<lambda>b _. b) literal_externals
     (\<lambda>_. None) (\<lambda>_. 0) (\<lambda>_ _ _. None) False (DefaultRetryStrategy\<lparr>ry_Retry := 2\<rparr>) (\<lambda>_ _. 0)"

definition demo_world :: "LBStates World" where
  "demo_world = \<lparr>w_cbm = NewCircuitBreakerManager, w_store = NewMemoryStateStore,
     w_lb = \<lparr>ls_rr = Map.empty, ls_wrr = Map.empty, ls_conn = Map.empty, ls_session = Map.empty, ls_affinity = Map.empty, ls_draws = []\<rparr>,
     w_History = []\<rparr>"

lemma demo_run:
  "map (\<lambda>x. (ar_EndpointID x, ar_Success x)) (w_History (snd (snd (ClusterInvoker_Invoke demo_env zero_context demo_world))))
     = [(''a'', False), (''b'', True)]"
  by code_simp

lemma demo_first_attempt:
  "(case cluster_attempt demo_env (DefaultRetryStrategy\<lparr>ry_Retry := 2\<rparr>) 3 0 no_calls_yet zero_context demo_world of
     (Continue ls, g, w) \<Rightarrow> cl_lastErr ls = Some (UpstreamFailed ''connection reset'' False) \<and> cl_excluded ls = {''a''} | _ \<Rightarrow> False)"
  by code_simp

lemma demo_exclude: "IsExcludeFailedEndpoint (retry_policy_for demo_env zero_context)"
  by code_simp

lemma demo_attempts: "max_attempts (retry_policy_for demo_env zero_context) = 3"
  by code_simp



theorem no_endpoint_called_twice_witness:
  "\<exists>r g' w' recs. ClusterInvoker_Invoke demo_env zero_context demo_world = (r, g', w') \<and> w_History w' = recs
     \<and> distinct (map ar_EndpointID recs) \<and> map ar_EndpointID recs = [''a'', ''b'']"
proof -
  obtain r g' w' where i: "ClusterInvoker_Invoke demo_env zero_context demo_world = (r, g', w')" by (rule prod_cases3)
  from no_endpoint_called_twice[OF demo_env_def demo_exclude i] show ?thesis
    using i arg_cong[OF demo_run, of "map fst"] by (auto simp: demo_world_def comp_def)
qed

theorem invoke_keeps_breakers_sound_witness:
  "cbm_inv (w_cbm (snd (snd (ClusterInvoker_Invoke demo_env zero_context demo_world))))"
proof -
  obtain r g' w' where i: "ClusterInvoker_Invoke demo_env zero_context demo_world = (r, g', w')" by (rule prod_cases3)
  have "cbm_inv (w_cbm demo_world)" by (simp add: demo_world_def NewCircuitBreakerManager_def cbm_inv_def)
  from invoke_keeps_breakers_sound[OF demo_env_def this i] i show ?thesis by simp
qed

end
