(* ===== verification/Fallback.thy ===== *)
theory Fallback
  imports Gateway_Env
begin

text \<open>
  Model fallback: \<open>FallbackInvoker\<close>, \<open>CanFallbackModel\<close> and \<open>isAffinityNoDegrade\<close> of \<open>pkg/core/invoker.go\<close>, and the
  choice of the invoker in \<open>pkg/core/pipeline.go\<close>. The locale \<open>request_invoker\<close> states what the fallback relies on (an
  invoker leaves the fallback chain and the policy alone); it is interpreted on the cluster invoker. The properties say which models are
  tried and in which order, and bound the calls of the whole request.
\<close>

subsection \<open>The code\<close>

type_synonym 'w invoker = "GatewayContext \<Rightarrow> 'w \<Rightarrow> call_result \<times> GatewayContext \<times> 'w"

record 'w Pipeline =
  pp_Invoker :: "'w invoker"
  pp_Invokers :: "string \<rightharpoonup> 'w invoker"

definition SelectInvoker :: "'w Pipeline \<Rightarrow> GatewayContext \<Rightarrow> 'w invoker" where
  "SelectInvoker p g = (case Option.bind (g_Policy g) pl_InvocationPolicy of
     None \<Rightarrow> pp_Invoker p
   | Some ip \<Rightarrow> (case pp_Invokers p (ip_Type ip) of Some selected \<Rightarrow> selected | None \<Rightarrow> pp_Invoker p))"

definition getFallbackPolicy :: "GatewayContext \<Rightarrow> string list option" where
  "getFallbackPolicy g = Option.bind (Option.bind (g_Policy g) pl_InvocationPolicy) ip_FallbackPolicy"

definition truthy :: "param \<Rightarrow> bool" where
  "truthy v = (case v of PBool b \<Rightarrow> b | PStr s \<Rightarrow> s = ''true'' | PFloat x \<Rightarrow> x \<noteq> 0 | PInt x \<Rightarrow> x \<noteq> 0 | _ \<Rightarrow> False)"

definition isAffinityNoDegrade :: "GatewayContext \<Rightarrow> bool" where
  "isAffinityNoDegrade g = (case Option.bind (g_Policy g) pl_LoadBalancePolicy of
     None \<Rightarrow> False
   | Some l \<Rightarrow> if lbp_Type l = ''endpoint_affinity''
       then (case lbp_Params l of None \<Rightarrow> False
             | Some params \<Rightarrow>
                 \<not> (case params ''allow_degrade'' of Some v \<Rightarrow> truthy v
                    | None \<Rightarrow> (case params ''allowDegrade'' of Some v \<Rightarrow> truthy v | None \<Rightarrow> False)))
       else False)"

definition CanFallbackModel :: "GatewayContext \<Rightarrow> gw_error option \<Rightarrow> bool" where
  "CanFallbackModel g err = (case err of None \<Rightarrow> False
     | Some e \<Rightarrow> if e = FatalNoAvailableEndpoint then False
         else if g_FatalErr g \<noteq> None \<or> g_TTFT g > 0 \<or> isAffinityNoDegrade g then False
         else e = NoAvailableEndpoint)"

fun fallback_loop :: "'w invoker \<Rightarrow> string list \<Rightarrow> gw_error option \<Rightarrow> GatewayContext \<Rightarrow> 'w \<Rightarrow> call_result \<times> GatewayContext \<times> 'w" where
  "fallback_loop invoke [] err g w = (Returned err, g, w)"
| "fallback_loop invoke (model # models) err g w =
     (case invoke (g\<lparr>g_Model := model, g_FallbackChain := g_FallbackChain g @ [model]\<rparr>) w of
        (Panicked, g', w') \<Rightarrow> (Panicked, g', w')
      | (Returned err', g', w') \<Rightarrow>
          if \<not> CanFallbackModel g' err' then (Returned err', g', w') else fallback_loop invoke models err' g' w')"

definition FallbackInvoker_Invoke :: "'w Pipeline \<Rightarrow> 'w invoker" where
  "FallbackInvoker_Invoke p g w = (let invoke = SelectInvoker p g in
     case getFallbackPolicy g of None \<Rightarrow> invoke g w
     | Some targets \<Rightarrow> if targets = [] then invoke g w else fallback_loop invoke (g_Model g # targets) None g w)"

subsection \<open>What the fallback relies on\<close>

locale request_invoker =
  fixes invoke :: "'w invoker"
  assumes keeps_frame: "invoke g w = (r, g', w') \<Longrightarrow> request_frame g' = request_frame g"
begin

lemma fallback_tried:
  assumes "fallback_loop invoke models err g w = (r, g', w')"
  shows "\<exists>tried rest. models = tried @ rest \<and> g_FallbackChain g' = g_FallbackChain g @ tried \<and> g_Policy g' = g_Policy g
     \<and> (models \<noteq> [] \<longrightarrow> tried \<noteq> []) \<and> (rest \<noteq> [] \<longrightarrow> r = Panicked \<or> (\<exists>e. r = Returned e \<and> \<not> CanFallbackModel g' e))"
  using assms
proof (induction models arbitrary: err g w)
  case (Cons model models)
  let ?g = "g\<lparr>g_Model := model, g_FallbackChain := g_FallbackChain g @ [model]\<rparr>"
  obtain r1 g1 w1 where i: "invoke ?g w = (r1, g1, w1)" by (rule prod_cases3)
  have f: "g_FallbackChain g1 = g_FallbackChain g @ [model]" "g_Policy g1 = g_Policy g"
    using keeps_frame[OF i] by (simp_all add: request_frame_def)
  show ?case
  proof (cases "\<exists>e. r1 = Returned e \<and> CanFallbackModel g1 e")
    case True
    then obtain e where "fallback_loop invoke models e g1 w1 = (r, g', w')" using Cons.prems i by auto
    from Cons.IH[OF this] obtain tried rest where "models = tried @ rest" "g_FallbackChain g' = g_FallbackChain g1 @ tried" "g_Policy g' = g_Policy g1"
      "rest \<noteq> [] \<longrightarrow> r = Panicked \<or> (\<exists>e. r = Returned e \<and> \<not> CanFallbackModel g' e)" by blast
    then show ?thesis using f by (intro exI[of _ "model # tried"] exI[of _ rest]) simp
  next
    case False
    then have "g' = g1 \<and> (r = Panicked \<or> (\<exists>e. r = Returned e \<and> \<not> CanFallbackModel g' e))"
      using Cons.prems i by (cases r1) auto
    then show ?thesis using f by (intro exI[of _ "[model]"] exI[of _ models]) auto
  qed
qed auto

end

interpretation cluster_call: request_invoker "ClusterInvoker_Invoke
    (gateway_env discovery kinds defaultLB prov repl ext parseDuration scan avg active retry now)"
  for discovery kinds defaultLB prov repl ext parseDuration scan avg active retry now
  by unfold_locales (auto simp: ClusterInvoker_Invoke_def Let_def dest: gw.loop_frame)

subsection \<open>Properties\<close>


lemma max_attempts_pos [simp]: "0 < max_attempts rp"
  by (simp add: max_attempts_def)

lemma fallback_history:
  fixes env :: "LBStates ClusterEnv"
  assumes "fallback_loop (ClusterInvoker_Invoke env) models err g w = (r, g', w')"
    and frame: "\<And>g w r g' w'. ClusterInvoker_Invoke env g w = (r, g', w') \<Longrightarrow> request_frame g' = request_frame g"
    and calls: "\<And>g w r g' w'. ClusterInvoker_Invoke env g w = (r, g', w') \<Longrightarrow>
      \<exists>recs. w_History w' = w_History w @ recs \<and> length recs \<le> max_attempts (retry_policy_for env g)"
  shows "\<exists>recs. w_History w' = w_History w @ recs \<and> length recs \<le> length models * max_attempts (retry_policy_for env g)"
  using assms(1)
proof (induction models arbitrary: err g w)
  case (Cons model models)
  let ?g = "g\<lparr>g_Model := model, g_FallbackChain := g_FallbackChain g @ [model]\<rparr>"
  obtain r1 g1 w1 where i: "ClusterInvoker_Invoke env ?g w = (r1, g1, w1)" by (rule prod_cases3)
  have same: "retry_policy_for env g1 = retry_policy_for env g" "retry_policy_for env ?g = retry_policy_for env g"
    using frame[OF i] by (simp_all add: request_frame_def retry_policy_for_def retry_policy_of_def)
  obtain recs where h: "w_History w1 = w_History w @ recs" "length recs \<le> max_attempts (retry_policy_for env g)"
    using calls[OF i] same by auto
  show ?case
  proof (cases "\<exists>e. r1 = Returned e \<and> CanFallbackModel g1 e")
    case True
    then obtain e where "fallback_loop (ClusterInvoker_Invoke env) models e g1 w1 = (r, g', w')" using Cons.prems i by auto
    from Cons.IH[OF this] same obtain recs' where "w_History w' = w_History w1 @ recs'"
      "length recs' \<le> length models * max_attempts (retry_policy_for env g)" by auto
    with h show ?thesis by (intro exI[of _ "recs @ recs'"]) simp
  next
    case False
    then have "w' = w1" using Cons.prems i by (cases r1) auto
    with h show ?thesis by auto
  qed
qed auto

text \<open>The calls of a whole request: with a fallback policy of \<open>k\<close> targets the gateway makes at most
  \<open>(k + 1) * (Retry + 1)\<close> physical calls.\<close>

theorem fallback_calls_bounded:
  assumes "env = gateway_env discovery kinds defaultLB prov repl ext parseDuration scan avg active retry now"
    and "fallback_loop (ClusterInvoker_Invoke env) (g_Model g # targets) None g w = (r, g', w')"
  shows "\<exists>recs. w_History w' = w_History w @ recs \<and> length recs \<le> (length targets + 1) * max_attempts (retry_policy_for env g)"
proof -
  have calls: "\<exists>recs. w_History w' = w_History w @ recs \<and> length recs \<le> max_attempts (retry_policy_for env g)"
    if "ClusterInvoker_Invoke env g w = (r, g', w')" for g and w :: "LBStates World" and r g' w'
    using loop_history[OF that[unfolded ClusterInvoker_Invoke_def Let_def]] max_attempts_pos by auto
  have "request_frame g' = request_frame g" if "ClusterInvoker_Invoke env g w = (r, g', w')" for g w r g' w'
    using that unfolding assms(1) by (rule cluster_call.keeps_frame)
  from fallback_history[OF assms(2) this calls] show ?thesis by simp
qed

subsection \<open>A concrete fallback\<close>

text \<open>No endpoint serves the first model; the second is served by the endpoints of \<open>demo_two\<close>.\<close>

definition fb_env :: "LBStates ClusterEnv" where
  "fb_env = gateway_env (\<lambda>_ g. Inr (if g_Model g = ''m2'' then demo_two else [])) (\<lambda>_. [Priority]) ''round_robin''
     (\<lambda>p g. (if p = 0 then Some (UpstreamFailed ''connection reset'' False) else None, g)) (\<lambda>b _. b) literal_externals
     (\<lambda>_. None) (\<lambda>_. 0) (\<lambda>_ _ _. None) False (DefaultRetryStrategy\<lparr>ry_Retry := 2\<rparr>) (\<lambda>_ _. 0)"

definition fb_pipeline :: "LBStates World Pipeline" where
  "fb_pipeline = \<lparr>pp_Invoker = ClusterInvoker_Invoke fb_env, pp_Invokers = Map.empty\<rparr>"

definition fb_context :: GatewayContext where
  "fb_context = zero_context\<lparr>g_Model := ''m1'', g_Policy := Some (zero_policy\<lparr>pl_InvocationPolicy := Some
     \<lparr>ip_ID = '''', ip_Name = '''', ip_Type = '''', ip_RetryPolicy = None, ip_FallbackPolicy = Some [''m2'', ''m3'']\<rparr>\<rparr>)\<rparr>"

definition fb_second :: GatewayContext where
  "fb_second = (ResetAttempt (fb_context\<lparr>g_Model := ''m1'', g_FallbackChain := [''m1'']\<rparr>))\<lparr>g_Model := ''m2'', g_FallbackChain := [''m1'', ''m2'']\<rparr>"

lemma fb_first: "ClusterInvoker_Invoke fb_env (fb_context\<lparr>g_Model := ''m1'', g_FallbackChain := [''m1'']\<rparr>) demo_world
    = (Returned (Some NoAvailableEndpoint), ResetAttempt (fb_context\<lparr>g_Model := ''m1'', g_FallbackChain := [''m1'']\<rparr>), demo_world)"
proof -
  let ?g = "fb_context\<lparr>g_Model := ''m1'', g_FallbackChain := [''m1'']\<rparr>"
  have "ce_List fb_env a (ResetAttempt ?g) = Inr []" for a
    by (simp add: fb_env_def gateway_env_def ResetAttempt_def)
  then have "cluster_attempt fb_env rp n a ls ?g demo_world = (Return (Some NoAvailableEndpoint), ResetAttempt ?g, demo_world)" for rp n a ls
    by (simp add: cluster_attempt_def)
  moreover obtain k where "max_attempts (retry_policy_for fb_env ?g) = Suc k" using max_attempts_pos gr0_implies_Suc by blast
  ultimately show ?thesis by (simp add: ClusterInvoker_Invoke_def Let_def)
qed

lemma fb_second_ok: "fst (ClusterInvoker_Invoke fb_env fb_second demo_world) = Returned None"
  by code_simp

lemma fb_can: "CanFallbackModel (ResetAttempt (fb_context\<lparr>g_Model := ''m1'', g_FallbackChain := [''m1'']\<rparr>)) (Some NoAvailableEndpoint)"
  by (simp add: CanFallbackModel_def ResetAttempt_def fb_context_def zero_context_def zero_policy_def isAffinityNoDegrade_def)

lemma fb_run: "g_FallbackChain (fst (snd (FallbackInvoker_Invoke fb_pipeline fb_context demo_world))) = [''m1'', ''m2'']"
proof -
  obtain g2 w2 where 2: "ClusterInvoker_Invoke fb_env fb_second demo_world = (Returned None, g2, w2)"
    using fb_second_ok by (metis prod.collapse)
  have "request_frame g2 = request_frame fb_second" using 2 unfolding fb_env_def by (rule cluster_call.keeps_frame)
  then have c: "g_FallbackChain g2 = [''m1'', ''m2'']" by (simp add: request_frame_def fb_second_def)
  have g: "g_FallbackChain fb_context = []" "g_Model fb_context = ''m1''" by (simp_all add: fb_context_def zero_context_def)
  have r: "g_FallbackChain (ResetAttempt h) = g_FallbackChain h" for h by (simp add: ResetAttempt_def)
  have "fallback_loop (ClusterInvoker_Invoke fb_env) [''m1'', ''m2'', ''m3''] None fb_context demo_world = (Returned None, g2, w2)"
    using 2 by (simp add: g r fb_first fb_can fb_second_def CanFallbackModel_def[of _ None])
  moreover have "FallbackInvoker_Invoke fb_pipeline fb_context demo_world
      = fallback_loop (ClusterInvoker_Invoke fb_env) [''m1'', ''m2'', ''m3''] None fb_context demo_world"
  proof -
    have "SelectInvoker fb_pipeline fb_context = ClusterInvoker_Invoke fb_env" by (simp add: SelectInvoker_def fb_pipeline_def split: option.split)
    moreover have "getFallbackPolicy fb_context = Some [''m2'', ''m3'']" by code_simp
    ultimately show ?thesis by (simp only: FallbackInvoker_Invoke_def Let_def option.case g(2)) simp
  qed
  ultimately show ?thesis using c by simp
qed


theorem fallback_calls_bounded_witness:
  "\<exists>r g' w' recs. fallback_loop (ClusterInvoker_Invoke fb_env) [''m1'', ''m2''] None fb_context demo_world = (r, g', w')
     \<and> w_History w' = recs \<and> length recs \<le> 6"
proof -
  obtain r g' w' where i: "fallback_loop (ClusterInvoker_Invoke fb_env) [''m1'', ''m2''] None fb_context demo_world = (r, g', w')"
    by (rule prod_cases3)
  have m: "g_Model fb_context = ''m1''" by (simp add: fb_context_def)
  have n: "max_attempts (retry_policy_for fb_env fb_context) = 3" by code_simp
  have h: "w_History demo_world = []" by (simp add: demo_world_def)
  from fallback_calls_bounded[OF fb_env_def i[folded m]] obtain recs where "w_History w' = recs" "length recs \<le> 6"
    unfolding n h by auto
  with i show ?thesis by blast
qed

text \<open>The balancer and the fallback read the permission to degrade differently: for \<open>allow_degrade = \"1\"\<close> the balancer degrades
  to another endpoint while the fallback treats the affinity as strict.\<close>

definition degrade_context :: GatewayContext where
  "degrade_context = zero_context\<lparr>g_Policy := Some (zero_policy\<lparr>pl_LoadBalancePolicy := Some
     \<lparr>lbp_ID = '''', lbp_Name = '''', lbp_Type = ''endpoint_affinity'', lbp_Version = 0,
      lbp_Params = Some [''allow_degrade'' \<mapsto> PStr ''1'']\<rparr>\<rparr>)\<rparr>"

lemma degrade_readings_differ: "snd (snd (affinity_config degrade_context)) \<and> isAffinityNoDegrade degrade_context"
  by code_simp

end
