(* ===== verification/Gateway_Pipeline.thy ===== *)
theory Gateway_Pipeline
  imports Engine Fallback
begin

text \<open>
  The gateway put together: the filters, the fallback and cluster invokers and the settlement as the parts of an engine, the way
  \<open>src/internal/bootstrap/engine.go\<close> registers them. The filters of the registry are the modelled ones; a pipeline may name any of
  them. The outside services are the record \<open>Services\<close>; what the providers report about tokens is \<open>gs_report\<close>.
\<close>

subsection \<open>The registry\<close>

type_synonym world = "LBStates World"

record Services =
  gs_checkCredits :: "string \<Rightarrow> string option"
  gs_validateModel :: "string \<Rightarrow> string \<Rightarrow> string \<Rightarrow> string + bool"
  gs_decode :: "RequestType \<Rightarrow> string \<Rightarrow> DecodedBody option"
  gs_headerName :: string
  gs_dstr :: "duration \<Rightarrow> string"
  gs_tik :: "string \<Rightarrow> string \<Rightarrow> int option"
  gs_lag :: "nat \<Rightarrow> nat \<times> nat"
  gs_ctxDone :: "nat \<Rightarrow> string option"
  gs_limitNow :: "LimitPolicy \<Rightarrow> instant"
  gs_deductor :: "(string \<Rightarrow> int \<Rightarrow> string + int) option"
  gs_emaFirst :: bool
  gs_settleNow :: instant
  gs_report :: "GatewayContext \<Rightarrow> int \<times> int \<times> int \<times> int \<times> int"

definition go_error :: "filter_error \<Rightarrow> GoError" where
  "go_error e = (case e of InboundHTTP c m \<Rightarrow> (plain_error m)\<lparr>ge_CodeField := Some c\<rparr>
     | LimitHTTP h \<Rightarrow> (plain_error (he_Message h))\<lparr>ge_CodeField := Some (he_Code h)\<rparr>
     | ContextDone m \<Rightarrow> plain_error m)"

definition reply_of :: "filter_error option \<Rightarrow> reply" where
  "reply_of e = (case e of None \<Rightarrow> Ok | Some x \<Rightarrow> Fail (go_error x))"

definition rate_limit_request :: "Services \<Rightarrow> world Req \<Rightarrow> reply \<times> world Req" where
  "rate_limit_request sv q =
     (let (e, g, (u, s)) = RateLimitFilter_OnRequest (gs_dstr sv) (gs_tik sv) (gs_lag sv) (gs_ctxDone sv) (gs_limitNow sv) (q_g q) (q_u q, w_store (q_w q))
      in (reply_of e, q\<lparr>q_g := g, q_u := u, q_w := (q_w q)\<lparr>w_store := s\<rparr>\<rparr>))"

definition session_request :: "Services \<Rightarrow> world Req \<Rightarrow> reply \<times> world Req" where
  "session_request sv q = (case SessionReaderFilter_OnRequest (gs_headerName sv) (q_g q) of
     None \<Rightarrow> (Crash, q) | Some g \<Rightarrow> (Ok, q\<lparr>q_g := g\<rparr>))"

definition inbound_registry :: "Services \<Rightarrow> string \<rightharpoonup> world in_filter" where
  "inbound_registry sv =
     [''auth'' \<mapsto> \<lparr>fi_Name = ''auth'', fi_Order = 10, fi_OnRequest = (\<lambda>q. (reply_of (AuthFilter_OnRequest (q_g q)), q))\<rparr>,
      ''credits_check'' \<mapsto> \<lparr>fi_Name = ''credits_check'', fi_Order = 15,
        fi_OnRequest = (\<lambda>q. (reply_of (CreditsCheckFilter_OnRequest (gs_checkCredits sv) (u_APIKey (q_u q)) (q_g q)), q))\<rparr>,
      ''session_reader'' \<mapsto> \<lparr>fi_Name = ''session_reader'', fi_Order = 15, fi_OnRequest = session_request sv\<rparr>,
      ''rate_limit'' \<mapsto> \<lparr>fi_Name = ''rate_limit'', fi_Order = 20, fi_OnRequest = rate_limit_request sv\<rparr>,
      ''validate'' \<mapsto> \<lparr>fi_Name = ''validate'', fi_Order = 30,
        fi_OnRequest = (\<lambda>q. (reply_of (ValidateFilter_OnRequest (gs_validateModel sv) (gs_decode sv) (q_UserTenant q) (q_g q)), q))\<rparr>]"

definition settlement_response :: "Services \<Rightarrow> world Req \<Rightarrow> reply \<times> world Req" where
  "settlement_response sv q =
     (let (r, g, u, s) = OnResponse (gs_deductor sv) True (gs_dstr sv) (gs_tik sv) (gs_emaFirst sv) (gs_settleNow sv) (q_g q) (q_u q) (w_store (q_w q))
      in (case r of Settled \<Rightarrow> Ok | DeductFailed m \<Rightarrow> Fail (plain_error m) | KeySlicePanic \<Rightarrow> Crash,
          q\<lparr>q_g := g, q_u := u, q_w := (q_w q)\<lparr>w_store := s\<rparr>\<rparr>))"

definition outbound_registry :: "Services \<Rightarrow> string \<rightharpoonup> world out_filter" where
  "outbound_registry sv =
     [''token_settlement'' \<mapsto> \<lparr>fo_Name = ''token_settlement'', fo_Order = 10, fo_InboundSafe = False, fo_OnResponse = settlement_response sv\<rparr>]"

definition settle_limits_only :: "Services \<Rightarrow> world Req \<Rightarrow> world Req" where
  "settle_limits_only sv q = (let (u, s) = SettleLimits (q_g q) (gs_settleNow sv) (q_u q) (w_store (q_w q))
     in q\<lparr>q_u := u, q_w := (q_w q)\<lparr>w_store := s\<rparr>\<rparr>)"

text \<open>The invocation: every attempt starts from cleared counts, and the last one leaves what its provider reported.\<close>

definition invoke_error :: "gw_error \<Rightarrow> GoError" where
  "invoke_error e = (plain_error (err_string e))\<lparr>ge_ClientGone := (e = ClientDisconnected)\<rparr>"

definition request_invoke :: "Services \<Rightarrow> world Pipeline \<Rightarrow> world Req \<Rightarrow> reply \<times> world Req" where
  "request_invoke sv p q =
     (let (r, g, w) = FallbackInvoker_Invoke p (q_g q) (q_w q);
          (i, out, cached, creation, chars) = gs_report sv g;
          u = (ResetAttempt_usage (q_u q))\<lparr>u_InputTokens := i, u_OutputTokens := out, u_CachedTokens := cached,
                u_CacheCreationTokens := creation, u_TransmittedChars := chars\<rparr>
      in (case r of Panicked \<Rightarrow> Crash | Returned None \<Rightarrow> Ok | Returned (Some e) \<Rightarrow> Fail (invoke_error e),
          q\<lparr>q_g := g, q_u := u, q_w := w, q_BodySet := (g_UpstreamBody g \<noteq> '''')\<rparr>))"

text \<open>\<open>Init\<close>: all pipelines of the configuration, or the error of the first that cannot be built, and then the engine has
  none.\<close>

record PipelineConf =
  pc_InboundFilters :: "string list"
  pc_OutboundFilters :: "string list"
  pc_CriticalOutboundFilters :: "string list"
  pc_Pipeline :: "world Pipeline"

definition build_conf :: "Services \<Rightarrow> PipelineConf \<Rightarrow> string + world EPipeline" where
  "build_conf sv c = buildPipeline (inbound_registry sv) (outbound_registry sv) (pc_InboundFilters c) (pc_OutboundFilters c)
     (pc_CriticalOutboundFilters c) (Inr (request_invoke sv (pc_Pipeline c)))"

fun Engine_Init :: "Services \<Rightarrow> (string \<times> PipelineConf) list \<Rightarrow> string + (string \<rightharpoonup> world EPipeline)" where
  "Engine_Init sv [] = Inr Map.empty"
| "Engine_Init sv ((n, c) # cs) = (case build_conf sv c of Inl e \<Rightarrow> Inl (''build pipeline '' @ dq @ n @ dq @ '': '' @ e)
     | Inr p \<Rightarrow> (case Engine_Init sv cs of Inl e \<Rightarrow> Inl e | Inr m \<Rightarrow> Inr (m(n \<mapsto> p))))"

definition engine_env :: "Services \<Rightarrow> (string \<times> PipelineConf) list \<Rightarrow> (string \<Rightarrow> string + string) option \<Rightarrow>
    (string \<Rightarrow> string \<Rightarrow> string \<Rightarrow> string + Policy option) option \<Rightarrow> bool \<Rightarrow> (string \<Rightarrow> int option) \<Rightarrow> (string \<Rightarrow> string) \<Rightarrow> (nat \<Rightarrow> GoError + string) \<Rightarrow>
    instant \<Rightarrow> world EngineEnv" where
  "engine_env sv cfg aliases policy hasQueue sscanf quote marshal now =
     \<lparr>en_alias = aliases, en_smart = None, en_pipelines = (case Engine_Init sv cfg of Inl _ \<Rightarrow> Map.empty | Inr m \<Rightarrow> m), en_policy = policy,
      en_settle = Some (settle_limits_only sv), en_compQueue = hasQueue, en_sscanf = sscanf, en_quote = quote, en_marshal = marshal, en_now = now\<rparr>"

subsection \<open>What the registered filters do\<close>

lemma lookup_filters_set: "lookup_filters registry names = Inr fs \<Longrightarrow> f \<in> set fs \<Longrightarrow> \<exists>n\<in>set names. registry n = Some f"
  by (induction names arbitrary: fs) (auto split: option.splits sum.splits)

lemma buildPipeline_parts:
  assumes "buildPipeline inReg outReg inb outb crit inv' = Inr pipe"
  obtains invoke where "inv' = Inr invoke" "pi_Invoke pipe = invoke" "sorted_wrt (\<lambda>f h. fi_Order f \<le> fi_Order h) (pi_Inbound pipe)"
    "pi_Critical pipe = set crit" "\<And>f. f \<in> set (pi_Inbound pipe) \<Longrightarrow> \<exists>n\<in>set inb. inReg n = Some f"
    "\<And>f. f \<in> set (pi_Outbound pipe) \<Longrightarrow> \<exists>n\<in>set outb. outReg n = Some f"
    "\<And>n. n \<in> set inb \<Longrightarrow> \<exists>f\<in>set (pi_Inbound pipe). inReg n = Some f"
proof -
  obtain ifs ofs invoke where p: "lookup_filters inReg inb = Inr ifs" "lookup_filters outReg outb = Inr ofs" "inv' = Inr invoke"
    "pipe = \<lparr>pi_Inbound = sort_key fi_Order ifs, pi_Outbound = sort_key fo_Order ofs, pi_Critical = set crit, pi_Invoke = invoke\<rparr>"
    using assms by (auto simp: buildPipeline_def split: sum.splits)
  have all: "n \<in> set inb \<Longrightarrow> \<exists>f\<in>set ifs. inReg n = Some f" for n
    using p(1) by (induction inb arbitrary: ifs) (auto split: option.splits sum.splits)
  have "sorted (map fi_Order (sort_key fi_Order ifs))" by simp
  then have "sorted_wrt (\<lambda>f h. fi_Order f \<le> fi_Order h) (sort_key fi_Order ifs)" by (simp add: sorted_wrt_map)
  with that[OF p(3)] p(4) all show thesis
    using lookup_filters_set[OF p(1)] lookup_filters_set[OF p(2)] by simp
qed

lemma registry_quiet: "inbound_registry sv n = Some f \<Longrightarrow> quiet (fi_OnRequest f)"
  by (auto simp: inbound_registry_def quiet_def rate_limit_request_def session_request_def split: if_splits option.splits prod.splits)

lemma outbound_quiet: "outbound_registry sv n = Some f \<Longrightarrow> quiet (fo_OnResponse f) \<and> \<not> fo_InboundSafe f \<and> fo_Name f = ''token_settlement''
    \<and> fo_OnResponse f = settlement_response sv"
  by (auto simp: outbound_registry_def quiet_def settlement_response_def split: if_splits prod.splits)

lemma request_invoke_quiet: "quiet (request_invoke sv p)"
  by (auto simp: quiet_def request_invoke_def split: prod.splits)

lemma Engine_Init_built: "Engine_Init sv cfg = Inr m \<Longrightarrow> pipe \<in> ran m \<Longrightarrow> \<exists>n c. (n, c) \<in> set cfg \<and> build_conf sv c = Inr pipe"
proof (induction cfg arbitrary: m)
  case (Cons nc cs)
  obtain n c where nc: "nc = (n, c)" by fastforce
  with Cons.prems(1) obtain p m' where p: "build_conf sv c = Inr p" "Engine_Init sv cs = Inr m'" "m = m'(n \<mapsto> p)"
    by (auto split: sum.splits)
  with Cons.prems(2) have "pipe = p \<or> pipe \<in> ran m'" by (auto simp: ran_def split: if_splits)
  with Cons.IH[OF p(2)] p nc show ?case by auto
qed (simp add: ran_def)

lemma engine_env_pipeline:
  assumes "pipe \<in> ran (en_pipelines (engine_env sv cfg aliases policy hasQueue sscanf quote marshal now))"
  obtains n c where "(n, c) \<in> set cfg" "build_conf sv c = Inr pipe"
  using assms Engine_Init_built[of sv cfg _ pipe] by (auto simp: engine_env_def ran_def split: sum.splits)

interpretation ge: engine_parts "engine_env sv cfg aliases policy hasQueue sscanf quote marshal now"
  for sv cfg aliases policy hasQueue sscanf quote marshal now
proof (rule engine_parts.intro)
  let ?env = "engine_env sv cfg aliases policy hasQueue sscanf quote marshal now"
  show "en_smart ?env = None" by (simp add: engine_env_def)
  show "q_out (settle q) = q_out q" if "en_settle ?env = Some settle" for settle q
    using that by (auto simp: engine_env_def settle_limits_only_def split: prod.splits)
  fix pipe assume "pipe \<in> ran (en_pipelines ?env)"
  then obtain n c where b: "build_conf sv c = Inr pipe" by (rule engine_env_pipeline)
  show "quiet (fi_OnRequest f)" if "f \<in> set (pi_Inbound pipe)" for f
    using buildPipeline_parts[OF b[unfolded build_conf_def]] that registry_quiet by metis
  show "quiet (fo_OnResponse f)" if "f \<in> set (pi_Outbound pipe)" for f
    using buildPipeline_parts[OF b[unfolded build_conf_def]] that outbound_quiet by metis
  show "quiet (pi_Invoke pipe)" using buildPipeline_parts[OF b[unfolded build_conf_def]] request_invoke_quiet by (metis sum.inject(2))
qed


subsection \<open>Rejected requests\<close>

text \<open>What the invocation alone may change: breakers, balancers, and the attempt history.\<close>

definition same_calls :: "world Req \<Rightarrow> world Req \<Rightarrow> bool" where
  "same_calls q q' \<longleftrightarrow> w_History (q_w q') = w_History (q_w q) \<and> w_cbm (q_w q') = w_cbm (q_w q) \<and> w_lb (q_w q') = w_lb (q_w q) \<and> q_tasks q' = q_tasks q"

lemma registry_same_calls: "inbound_registry sv n = Some f \<Longrightarrow> fi_OnRequest f q = (r, q') \<Longrightarrow> same_calls q q'"
  by (auto simp: inbound_registry_def same_calls_def rate_limit_request_def session_request_def split: if_splits option.splits prod.splits)

lemma run_inbound_same_calls:
  "\<forall>f\<in>set fs. \<exists>n. inbound_registry sv n = Some f \<Longrightarrow> run_inbound fs q = (r, q') \<Longrightarrow> same_calls q q'"
proof (induction fs arbitrary: q)
  case (Cons f fs)
  obtain r1 q1 where x: "fi_OnRequest f q = (r1, q1)" by fastforce
  then have "same_calls q q1" using registry_same_calls Cons.prems(1) by auto
  with Cons x show ?case by (cases r1) (auto simp: same_calls_def)
qed (simp add: same_calls_def)

lemma run_safe_none: "\<forall>f\<in>set fs. \<not> fo_InboundSafe f \<Longrightarrow> run_safe fs q = (True, q)"
  by (induction fs) auto

lemma built_outbound_unsafe: "build_conf sv c = Inr pipe \<Longrightarrow> run_safe (pi_Outbound pipe) q = (True, q)"
  using buildPipeline_parts[of "inbound_registry sv" "outbound_registry sv"] outbound_quiet by (metis build_conf_def run_safe_none)

text \<open>A request that a filter rejects before the invocation reaches no upstream: whatever filter of a configured pipeline
  refuses it, no attempt is recorded, no breaker and no balancer changes state, nothing is queued for compensation, and the client gets
  exactly one answer.\<close>

theorem rejected_request_not_invoked:
  assumes "env = engine_env sv cfg aliases policy hasQueue sscanf quote marshal now" "pipe \<in> ran (en_pipelines env)"
    and "run_inbound (pi_Inbound pipe) q = (Fail e, q1)" "run_pipeline env pipe q = (fin, q')"
  shows "fin \<and> same_calls q q' \<and> (\<exists>es. q_out q' = q_out q @ es \<and> status_lines es = [answer_status (getErrorCode sscanf e) (Some (q_g q'))])"
proof -
  obtain n c where b: "build_conf sv c = Inr pipe" using assms(2) unfolding assms(1) by (rule engine_env_pipeline)
  note parts = buildPipeline_parts[OF b[unfolded build_conf_def]]
  have "same_calls q q1" using run_inbound_same_calls[OF _ assms(3)] parts by metis
  moreover have "q_out q1 = q_out q" using ge.run_inbound_quiet[OF _ assms(3)] parts registry_quiet by metis
  moreover have r: "reject env pipe e q1 = (fin, q')" using assms(3,4) by (simp add: run_pipeline_def)
  moreover have "fin \<and> same_calls q1 q'" using r unfolding assms(1)
    by (auto simp: reject_def Let_def engine_env_def built_outbound_unsafe[OF b] same_calls_def settle_limits_only_def split: prod.splits if_splits)
  ultimately show ?thesis using ge.reject_status[of pipe sv cfg aliases policy hasQueue sscanf quote marshal now e q1 q'] assms
    by (auto simp: same_calls_def engine_env_def)
qed

subsection \<open>Unauthenticated requests\<close>

lemma auth_first:
  assumes "build_conf sv c = Inr pipe" "''auth'' \<in> set (pc_InboundFilters c)"
  shows "\<exists>f fs. pi_Inbound pipe = f # fs \<and> fi_OnRequest f = (\<lambda>q. (reply_of (AuthFilter_OnRequest (q_g q)), q))"
proof -
  obtain invoke where parts: "sorted_wrt (\<lambda>f h. fi_Order f \<le> fi_Order h) (pi_Inbound pipe)"
    "\<And>f. f \<in> set (pi_Inbound pipe) \<Longrightarrow> \<exists>n\<in>set (pc_InboundFilters c). inbound_registry sv n = Some f"
    "\<And>n. n \<in> set (pc_InboundFilters c) \<Longrightarrow> \<exists>f\<in>set (pi_Inbound pipe). inbound_registry sv n = Some f"
    using buildPipeline_parts[OF assms(1)[unfolded build_conf_def]] by metis
  obtain a where a: "a \<in> set (pi_Inbound pipe)" "fi_Order a = 10" using parts(3)[OF assms(2)] by (auto simp: inbound_registry_def)
  then obtain f fs where fs: "pi_Inbound pipe = f # fs" by (cases "pi_Inbound pipe") auto
  with parts(1) a have "fi_Order f \<le> 10" by auto
  moreover obtain n where "inbound_registry sv n = Some f" using parts(2) fs by (metis list.set_intros(1))
  ultimately have "fi_OnRequest f = (\<lambda>q. (reply_of (AuthFilter_OnRequest (q_g q)), q))" by (auto simp: inbound_registry_def split: if_splits)
  with fs show ?thesis by blast
qed

lemma unauthorized_pipeline:
  assumes "build_conf sv c = Inr pipe" "''auth'' \<in> set (pc_InboundFilters c)" "AuthFilter_OnRequest (q_g q) = Some e"
    and "\<not> u_TrackLimitReservations (q_u q)" "run_pipeline env pipe q = (fin, q')"
  shows "fin \<and> q_w q' = q_w q \<and> q_tasks q' = q_tasks q
    \<and> q_out q' = q_out q @ writeError (getErrorCode (en_sscanf env) (go_error e)) (go_error e) (Some (q_g q))"
proof -
  obtain f fs where "pi_Inbound pipe = f # fs" "fi_OnRequest f = (\<lambda>q. (reply_of (AuthFilter_OnRequest (q_g q)), q))"
    using auth_first[OF assms(1,2)] by blast
  with assms(3) have "run_inbound (pi_Inbound pipe) q = (Fail (go_error e), q)" by (simp add: reply_of_def)
  with assms(4,5) built_outbound_unsafe[OF assms(1)] show ?thesis
    by (auto simp: run_pipeline_def reject_def Let_def split: option.splits)
qed


text \<open>(C8) One answer per request: the engine writes at most one status line for a request, and exactly one when the request ends with an
  error while the client is still there and no byte of a stream has been sent.\<close>

theorem one_answer_per_request:
  assumes "env = engine_env sv cfg aliases policy hasQueue sscanf quote marshal now" "HandleRequest dm ds env raw q = (True, q')"
  shows "\<exists>es. q_out q' = q_out q @ es \<and> length (status_lines es) \<le> 1
    \<and> (\<forall>e. q_Err q' = Some e \<and> \<not> ge_ClientGone e \<and> \<not> g_TTFT (q_g q') > 0 \<longrightarrow> length (status_lines es) = 1)"
  using ge.handle_status[OF assms(2)[unfolded assms(1)]] .

subsection \<open>A settlement that fails\<close>

text \<open>(C37) A failed settlement is not compensated: the engine queues a task for the critical settlement filter, but the worker knows a
  compensator for access logs only, so the message is acknowledged and nothing else happens; the task does not carry the credits either.\<close>

theorem failed_settlement_is_dropped:
  assumes "settlement_response sv q = (Fail e, q1)" "outbound_registry sv ''token_settlement'' = Some f"
    and "run_outbound now True {''token_settlement''} [f] q = (fin, q2)"
  shows "\<exists>t. q_tasks q2 = q_tasks q @ [t] \<and> dom (ct_Payload t) = {''model'', ''api_key'', ''endpoint_id'', ''error''}
    \<and> (\<forall>d. unmarshal d = Some t \<longrightarrow> HandleMessage marshal unmarshal [''access_log'' \<mapsto> compensator] rq now' msgID (Some d) = ack rq msgID)"
proof -
  have f: "fo_Name f = ''token_settlement''" "fo_OnResponse f = settlement_response sv" using outbound_quiet[OF assms(2)] by auto
  have same: "q_tasks q1 = q_tasks q" using assms(1) by (auto simp: settlement_response_def split: prod.splits)
  have q2: "q2 = enqueueCompensation now ''token_settlement'' e q1" using assms(1,3) f by simp
  obtain t where t: "q_tasks q2 = q_tasks q @ [t]" "ct_FilterName t = ''token_settlement''" "dom (ct_Payload t) = {''model'', ''api_key'', ''endpoint_id'', ''error''}"
    unfolding q2 by (auto simp: enqueueCompensation_def Let_def same)
  then show ?thesis by (intro exI[of _ t]) (simp add: HandleMessage_def)
qed


subsection \<open>Evaluation\<close>

definition demo_services :: "(string \<Rightarrow> int \<Rightarrow> string + int) option \<Rightarrow> Services" where
  "demo_services deductor = \<lparr>gs_checkCredits = (\<lambda>_. None), gs_validateModel = (\<lambda>_ _ _. Inr True), gs_decode = (\<lambda>_ _. None), gs_headerName = ''X-Session-ID'',
     gs_dstr = demo_dstr, gs_tik = (\<lambda>_ _. None), gs_lag = (\<lambda>_. (0, 0)), gs_ctxDone = (\<lambda>_. None), gs_limitNow = (\<lambda>_. second),
     gs_deductor = deductor, gs_emaFirst = True, gs_settleNow = second, gs_report = (\<lambda>_. (0, 0, 0, 0, 0))\<rparr>"

definition demo_conf :: PipelineConf where
  "demo_conf = \<lparr>pc_InboundFilters = [''rate_limit'', ''auth''], pc_OutboundFilters = [''token_settlement''],
     pc_CriticalOutboundFilters = [''token_settlement''], pc_Pipeline = fb_pipeline\<rparr>"

definition demo_engine :: "world EngineEnv" where
  "demo_engine = engine_env (demo_services None) [(''default'', demo_conf)] None None True (\<lambda>_. None) (\<lambda>s. s) (\<lambda>_. Inr ''{}'') 0"

definition demo_req :: "GatewayContext \<Rightarrow> Usage \<Rightarrow> world Req" where
  "demo_req g u = \<lparr>q_g = g, q_u = u, q_Err = None, q_Response = None, q_BodySet = False, q_APIKeyID = '''', q_APIKeyHash = '''',
     q_WorkspaceID = '''', q_UserTenant = '''', q_out = [], q_tasks = [], q_w = demo_world\<rparr>"

definition demo_raw :: RawRequest where
  "demo_raw = \<lparr>rr_Path = ''/v1/chat/completions'', rr_Request = \<lparr>hr_Header = (\<lambda>_. []), hr_Query = None, hr_Cookie = (\<lambda>_. None)\<rparr>, rr_Body = None\<rparr>"

lemma demo_headers: "header_get (rr_Request demo_raw) k = ''''"
  by (simp add: demo_raw_def header_get_def)


lemma demo_handled: "fst (HandleRequest (\<lambda>_. None) (\<lambda>_. None) demo_engine demo_raw (demo_req zero_context zero_usage))"
  by code_simp

theorem one_answer_per_request_witness:
  "\<exists>es. q_out (snd (HandleRequest (\<lambda>_. None) (\<lambda>_. None) demo_engine demo_raw (demo_req zero_context zero_usage))) = es \<and> length (status_lines es) \<le> 1"
proof -
  obtain q' where h: "HandleRequest (\<lambda>_. None) (\<lambda>_. None) demo_engine demo_raw (demo_req zero_context zero_usage) = (True, q')"
    using demo_handled by (metis prod.collapse)
  from one_answer_per_request[OF demo_engine_def h] show ?thesis unfolding h by (auto simp: demo_req_def)
qed

theorem rejected_request_not_invoked_witness:
  "\<exists>pipe. en_pipelines demo_engine ''default'' = Some pipe
     \<and> w_History (q_w (snd (run_pipeline demo_engine pipe (demo_req zero_context zero_usage)))) = w_History demo_world"
proof -
  obtain pipe where p: "en_pipelines demo_engine ''default'' = Some pipe"
    by (simp add: demo_engine_def engine_env_def build_conf_def buildPipeline_def demo_conf_def inbound_registry_def outbound_registry_def)
  obtain fin q' where h: "run_pipeline demo_engine pipe (demo_req zero_context zero_usage) = (fin, q')" by fastforce
  have i: "run_inbound (pi_Inbound pipe) (demo_req zero_context zero_usage)
      = (Fail (go_error (InboundHTTP 401 ''missing authentication user or tenant'')), demo_req zero_context zero_usage)"
    using p by (auto simp: demo_engine_def engine_env_def build_conf_def buildPipeline_def demo_conf_def inbound_registry_def outbound_registry_def
        reply_of_def AuthFilter_OnRequest_def demo_req_def zero_context_def)
  from rejected_request_not_invoked[OF demo_engine_def _ i h] p h show ?thesis
    by (auto simp: ran_def same_calls_def demo_req_def)
qed

definition billed_req :: "world Req" where
  "billed_req = demo_req (zero_context\<lparr>g_UserID := ''u1''\<rparr>) (zero_usage\<lparr>u_APIKey := ''sk-12345678'', u_OutputTokens := 1000000\<rparr>)"

lemma demo_credits: "0 < credits_due (zero_context\<lparr>g_UserID := ''u1''\<rparr>) (zero_usage\<lparr>u_APIKey := ''sk-12345678'', u_OutputTokens := 1000000\<rparr>)"
proof -
  let ?u = "zero_usage\<lparr>u_APIKey := ''sk-12345678'', u_OutputTokens := 1000000\<rparr>"
  note exact = fl64_int_exact[of 1000000] fl64_int_exact[of 2000000] fl64_int_exact[of 2]
  have split: "clampAndSplitTokens ?u = (0, 0, 0, 1000000)" by (simp add: clampAndSplitTokens_def clamp_split_def zero_usage_def)
  have cost: "computeActualCost ?u 2 2 2 2 = 2" using exact by (simp add: computeActualCost_def split weighted_sum_def float64_def)
  have "fl64 2000000 \<le> fl64 (fl64 (2 * 1000000) + 1 / 2)" using exact by (intro fl64_mono) simp
  then have "2000000 \<le> fl64 (fl64 (2 * 1000000) + 1 / 2)" using exact by simp
  then have "0 < int64_of (fl64 (fl64 (2 * 1000000) + 1 / 2))" by (simp add: int64_of_def less_floor_iff)
  then show ?thesis using cost by (simp add: credits_due_def resolvePrices_def zero_context_def Let_def)
qed

theorem failed_settlement_is_dropped_witness:
  "\<exists>f t. outbound_registry (demo_services (Some (\<lambda>_ _. Inl ''down''))) ''token_settlement'' = Some f
     \<and> q_tasks (snd (run_outbound 0 True {''token_settlement''} [f] billed_req)) = [t]
     \<and> HandleMessage Some Some [''access_log'' \<mapsto> (\<lambda>_. None)] demo_queue 0 ''1-0'' (Some t) = ack demo_queue ''1-0''"
proof -
  let ?sv = "demo_services (Some (\<lambda>_ _. Inl ''down''))"
  obtain f where f: "outbound_registry ?sv ''token_settlement'' = Some f" by (simp add: outbound_registry_def)
  obtain q1 where s: "settlement_response ?sv billed_req = (Fail (plain_error ''down''), q1)"
    using demo_credits by (simp add: settlement_response_def OnResponse_def deduct_credits_def billed_req_def demo_req_def demo_services_def settles_usage_def zero_usage_def)
  obtain fin q2 where o: "run_outbound 0 True {''token_settlement''} [f] billed_req = (fin, q2)" by fastforce
  from failed_settlement_is_dropped[OF s f o, of Some Some "\<lambda>_. None" demo_queue 0 "''1-0''"]
  obtain t where "q_tasks q2 = q_tasks billed_req @ [t]" "HandleMessage Some Some [''access_log'' \<mapsto> (\<lambda>_. None)] demo_queue 0 ''1-0'' (Some t) = ack demo_queue ''1-0''"
    by auto
  then show ?thesis using f o by (intro exI[of _ f] exI[of _ t]) (simp add: billed_req_def demo_req_def)
qed

end
