(* ===== verification/Hedging.thy ===== *)
theory Hedging
  imports Cluster
begin

text \<open>
  The hedging invoker, \<open>src/pkg/invoker/hedging.go\<close>: a second call starts when the first is slow or fails, and the first to write a
  byte or to complete wins. The race is a step relation over three threads, the invoker and two sub-calls, that share a
  session under a mutex, two channels and the client's response writer; a step is what a thread does between two
  operations another thread can see. Providers are part of the environment: a running sub-call may write, set headers or the status,
  change its own context, and return, in any order. Timers, clock readings and disconnects come at any time.
\<close>

subsection \<open>Before the race\<close>

datatype side = SideA | SideB

text \<open>The fields of the request context that only accounting uses.\<close>

record HedgeContext = GatewayContext +
  hc_Sensitive :: bool
  hc_History :: "AttemptRecord list"
  hc_InputTokens :: int
  hc_OutputTokens :: int
  hc_CachedTokens :: int
  hc_CacheCreationTokens :: int
  hc_TransmittedChars :: int
  hc_Cost :: rat
  hc_Response :: "string option"

abbreviation gw :: "HedgeContext \<Rightarrow> GatewayContext" where "gw \<equiv> GatewayContext.truncate"

datatype hedge_start = StartError gw_error | StartSerial | StartFailed string | StartRace Endpoint Endpoint

definition hedge_lb :: "'l ClusterEnv \<Rightarrow> GatewayContext \<Rightarrow> 'l balancer option" where
  "hedge_lb env g =
     (let byPolicy = (case g_Policy g of None \<Rightarrow> None | Some p \<Rightarrow> (case pl_LoadBalancePolicy p of None \<Rightarrow> None | Some l \<Rightarrow> ce_LBs env (lbp_Type l)))
      in case byPolicy of Some b \<Rightarrow> Some b
         | None \<Rightarrow> (case ce_LBs env (ce_defaultLB env) of Some b \<Rightarrow> Some b | None \<Rightarrow> ce_LBs env ''round_robin''))"

definition selectTwoEndpoints :: "'l ClusterEnv \<Rightarrow> Endpoint list \<Rightarrow> GatewayContext \<Rightarrow> 'l \<Rightarrow> Endpoint option \<times> Endpoint option \<times> GatewayContext \<times> 'l" where
  "selectTwoEndpoints env endpoints g l =
     (case hedge_lb env g of None \<Rightarrow> (None, None, g, l)
      | Some lb \<Rightarrow>
          (case lb g endpoints l of
             (None, g1, l1) \<Rightarrow> (None, None, g1, l1)
           | (Some epA, g1, l1) \<Rightarrow>
               let remaining = filter (\<lambda>ep. ep_ID ep \<noteq> ep_ID epA) endpoints in
               if remaining = [] then (Some epA, None, g1, l1)
               else (case lb g1 remaining l1 of (b, g2, l2) \<Rightarrow> (Some epA, b, g2, l2))))"

text \<open>\<open>serial\<close> tells whether a serial invoker is configured.\<close>

definition hedge_prepare :: "'l ClusterEnv \<Rightarrow> bool \<Rightarrow> GatewayContext \<Rightarrow> 'l World \<Rightarrow> hedge_start \<times> GatewayContext \<times> 'l World" where
  "hedge_prepare env serial g w = (case ce_List env 0 g of
     Inl e \<Rightarrow> (StartError e, g, w)
   | Inr found \<Rightarrow>
       let (endpoints, m) = router_chain (ce_routers env 0 g) found (w_cbm w); w1 = w\<lparr>w_cbm := m\<rparr> in
       if length endpoints < 2
       then (if serial then StartSerial else StartFailed ''hedging failed: less than 2 endpoints and no fallback invoker'', g, w1)
       else (case selectTwoEndpoints env endpoints g (w_lb w1) of
               (Some a, Some b, g1, l1) \<Rightarrow> (StartRace a b, g1, w1\<lparr>w_lb := l1\<rparr>)
             | (_, _, g1, l1) \<Rightarrow> (if serial then StartSerial else StartFailed ''hedging failed: failed to select two endpoints'', g1, w1\<lparr>w_lb := l1\<rparr>)))"

definition hedge_delay :: "GatewayContext \<Rightarrow> duration" where
  "hedge_delay g = (case g_Policy g of None \<Rightarrow> 300 * millisecond | Some p \<Rightarrow> (case pl_InvocationPolicy p of None \<Rightarrow> 300 * millisecond
     | Some ip \<Rightarrow> (case ip_RetryPolicy ip of None \<Rightarrow> 300 * millisecond
        | Some r \<Rightarrow> if ry_BaseMs r > 0 then go_mul (ry_BaseMs r) millisecond else 300 * millisecond)))"

subsection \<open>The state of a race\<close>

text \<open>How far a write has come: past the check of its context, the claim, the announcement.\<close>

datatype write_pc = NoWrite | Checked string | Claimed string | Announced string

datatype sub_pc = Idle | Spawned | Calling CircuitBreakerAttempt write_pc | CallReturned CircuitBreakerAttempt "gw_error option"
  | FailureNoted CircuitBreakerAttempt gw_error | OutcomeRecorded "gw_error option" | Signalled gw_error | Leaving "gw_error option" | Closed "gw_error option"

record SubCall =
  sb_pc :: sub_pc
  sb_gctx :: HedgeContext
  sb_isWinner :: bool
  sb_headerWritten :: bool

datatype hedge_result = RSmart int | RCancelled | RAllFailed gw_error | RWinner "string option"

datatype main_pc = FirstSelect | FirstFailure | LoopHead | LoopWinner | SelectAgain | GotFailure gw_error | FailureChecked gw_error
  | Won string | AwaitWinner string | Returned hedge_result

text \<open>The session; \<open>hs_winnerGctx\<close> and the failures point to the context of a sub-call.\<close>

record hedgingSession =
  hs_winnerID :: string
  hs_winnerGctx :: "side option"
  hs_lastFailure :: "side option"
  hs_terminalFailure :: "side option"
  hs_winnerChan :: "string list"
  hs_failuresChan :: "gw_error list"
  hs_completed :: "side \<Rightarrow> bool"

text \<open>What reaches the client's response writer, with the sub-call that sent it.\<close>

datatype client_write = OutStatus side int | OutBody side string

record 'l hedge =
  h_world :: "'l World"
  h_session :: hedgingSession
  h_sub :: "side \<Rightarrow> SubCall"
  h_main :: main_pc
  h_gctx :: HedgeContext
  h_failures :: nat
  h_sessionDone :: bool
  h_cancelled :: "side \<Rightarrow> bool"
  h_headers :: "string \<Rightarrow> string list"
  h_out :: "client_write list"

abbreviation on_session :: "(hedgingSession \<Rightarrow> hedgingSession) \<Rightarrow> 'l hedge \<Rightarrow> 'l hedge" where
  "on_session f h \<equiv> h\<lparr>h_session := f (h_session h)\<rparr>"

definition set_sub :: "side \<Rightarrow> SubCall \<Rightarrow> 'l hedge \<Rightarrow> 'l hedge" where
  "set_sub x c h = h\<lparr>h_sub := (h_sub h)(x := c)\<rparr>"

definition set_pc :: "side \<Rightarrow> sub_pc \<Rightarrow> 'l hedge \<Rightarrow> 'l hedge" where
  "set_pc x pc h = set_sub x ((h_sub h x)\<lparr>sb_pc := pc\<rparr>) h"

definition ctx_err :: "side \<Rightarrow> 'l hedge \<Rightarrow> bool" where
  "ctx_err x h \<longleftrightarrow> h_sessionDone h \<or> h_cancelled h x"

text \<open>A buffered channel of capacity two, with a default branch: a send to a full channel is dropped.\<close>

definition try_send :: "'a \<Rightarrow> 'a list \<Rightarrow> 'a list" where
  "try_send v ch = (if length ch < 2 then ch @ [v] else ch)"

text \<open>The context of a sub-call starts as a copy of the request's, without results.\<close>

definition child_context :: "HedgeContext \<Rightarrow> Endpoint \<Rightarrow> instant \<Rightarrow> HedgeContext" where
  "child_context g ep now = g\<lparr>g_SelectedEndpoint := Some ep, g_UpstreamConnect := now, g_UpstreamResponse := None, g_UpstreamBody := '''', g_UpstreamError := None,
     g_TTFT := 0, g_FatalErr := None, g_AttemptCount := 0, g_FallbackChain := [], hc_History := [], hc_InputTokens := 0, hc_OutputTokens := 0, hc_CachedTokens := 0,
     hc_CacheCreationTokens := 0, hc_TransmittedChars := 0, hc_Cost := 0, hc_Response := None\<rparr>"

subsection \<open>The provider call of a sub-call\<close>

text \<open>The two halves of \<open>ProviderInvoker.Invoke\<close>, before and after the provider runs.\<close>

definition provider_rewrites :: "Endpoint \<Rightarrow> 'a GatewayContext_scheme \<Rightarrow> bool" where
  "provider_rewrites ep g = (let m = EffectiveModel ep in m \<noteq> '''' \<and> (m \<noteq> g_Model g \<or> g_OriginalModel g \<noteq> '''' \<and> m \<noteq> g_OriginalModel g))"

definition provider_enter :: "(string \<Rightarrow> string \<Rightarrow> string) \<Rightarrow> instant \<Rightarrow> Endpoint \<Rightarrow> 'a GatewayContext_scheme \<Rightarrow> 'a GatewayContext_scheme" where
  "provider_enter repl now ep g =
     (let g1 = g\<lparr>g_SelectedEndpoint := Some ep, g_UpstreamConnect := now\<rparr>
      in if provider_rewrites ep g then g1\<lparr>g_Model := EffectiveModel ep, g_RawBody := repl (g_RawBody g) (EffectiveModel ep)\<rparr> else g1)"

definition provider_leave :: "Endpoint \<Rightarrow> 'b GatewayContext_scheme \<Rightarrow> 'a GatewayContext_scheme \<Rightarrow> 'a GatewayContext_scheme" where
  "provider_leave ep g0 g = g\<lparr>g_Model := g_Model g0, g_RawBody := (if provider_rewrites ep g0 then g_RawBody g0 else g_RawBody g)\<rparr>"

text \<open>They are the call the cluster invoker makes.\<close>

lemma ProviderInvoker_halves:
  assumes "ep_ProviderImpl ep = Some p"
  shows "ProviderInvoker_Invoke env now ep g =
    (let (err, g') = ce_provider env p (provider_enter (ce_replace env) now ep g) in (err, provider_leave ep g g'))"
  using assms by (simp add: ProviderInvoker_Invoke_def provider_enter_def provider_leave_def provider_rewrites_def Let_def split_beta)

definition hedgedOutcome :: "'l ClusterEnv \<Rightarrow> (nat \<Rightarrow> instant) \<Rightarrow> gw_error option \<Rightarrow> CircuitBreakerAttempt \<Rightarrow> GatewayContext \<Rightarrow> 'l World \<Rightarrow> 'l World" where
  "hedgedOutcome env clk err lease g w = (case err of
     Some e \<Rightarrow> w\<lparr>w_cbm := snd (attempt_finish (ce_ext env) (Some g) False (Some (err_string e)) (clk 0) lease (w_cbm w))\<rparr>
   | None \<Rightarrow> w\<lparr>w_cbm := snd (attempt_finish (ce_ext env) (Some g) True None (clk 0) lease (w_cbm w)),
               w_store := recordLatency False (clk 1) (clk 2) g (w_store w)\<rparr>)"

subsection \<open>The writer and the session\<close>

definition claimWinner :: "side \<Rightarrow> Endpoint \<Rightarrow> hedgingSession \<Rightarrow> hedgingSession" where
  "claimWinner x e s = (if hs_winnerID s \<noteq> '''' then s
     else s\<lparr>hs_winnerID := ep_ID e, hs_winnerGctx := Some x, hs_winnerChan := try_send (ep_ID e) (hs_winnerChan s)\<rparr>)"

text \<open>The claim of a write: bytes of a sub-call that lost are dropped.\<close>

definition write_claim :: "side \<Rightarrow> Endpoint \<Rightarrow> CircuitBreakerAttempt \<Rightarrow> string \<Rightarrow> 'l hedge \<Rightarrow> 'l hedge" where
  "write_claim x e lease p h =
     (if sb_isWinner (h_sub h x) then set_pc x (Calling lease (Announced p)) h
      else if hs_winnerID (h_session h) \<noteq> '''' \<and> hs_winnerID (h_session h) \<noteq> ep_ID e then set_pc x (Calling lease NoWrite) h
      else set_sub x ((h_sub h x)\<lparr>sb_pc := Calling lease (Claimed p), sb_isWinner := True\<rparr>)
             (on_session (\<lambda>s. s\<lparr>hs_winnerID := ep_ID e, hs_winnerGctx := Some x\<rparr>) h))"

text \<open>The headers are copied from the response writer the hedging writer wraps, which is the client's writer itself.\<close>

definition announce_headers :: "(string \<Rightarrow> string list) \<Rightarrow> string \<Rightarrow> string list" where
  "announce_headers hdrs = (\<lambda>k. hdrs k @ hdrs k)(''Content-Type'' := [''text/event-stream''], ''Cache-Control'' := [''no-cache''], ''Connection'' := [''keep-alive''])"

definition write_announce :: "side \<Rightarrow> CircuitBreakerAttempt \<Rightarrow> string \<Rightarrow> 'l hedge \<Rightarrow> 'l hedge" where
  "write_announce x lease p h =
     (let h1 = (if sb_headerWritten (h_sub h x) then h
                else set_sub x ((h_sub h x)\<lparr>sb_headerWritten := True\<rparr>) (h\<lparr>h_headers := announce_headers (h_headers h), h_out := h_out h @ [OutStatus x 200]\<rparr>))
      in set_pc x (Calling lease (Announced p)) (on_session (\<lambda>s. s\<lparr>hs_winnerChan := try_send (hs_winnerID s) (hs_winnerChan s)\<rparr>) h1))"

definition terminal_failure :: "gw_error \<Rightarrow> HedgeContext \<Rightarrow> bool" where
  "terminal_failure e g = (hc_Sensitive g \<and> (isExplicitlyNonRetryable e \<or>
     (case g_UpstreamResponse g of Some r \<Rightarrow> hs_StatusCode r \<ge> 400 \<and> hs_StatusCode r < 500 \<and> hs_StatusCode r \<noteq> 429 | None \<Rightarrow> False)))"

definition note_failure :: "side \<Rightarrow> gw_error \<Rightarrow> HedgeContext \<Rightarrow> hedgingSession \<Rightarrow> hedgingSession" where
  "note_failure x e g s = s\<lparr>hs_lastFailure := Some x,
     hs_terminalFailure := (if hs_terminalFailure s = None \<and> terminal_failure e g then Some x else hs_terminalFailure s)\<rparr>"

subsection \<open>A sub-call\<close>

definition sub_begin :: "'l ClusterEnv \<Rightarrow> HedgeContext \<Rightarrow> (side \<Rightarrow> Endpoint) \<Rightarrow> side \<Rightarrow> (nat \<Rightarrow> instant) \<Rightarrow> 'l hedge \<Rightarrow> 'l hedge" where
  "sub_begin env base ep x clk h =
     (let c = child_context base (ep x) (clk 0);
          (r, m) = AcquireAttempt (Some (ep x)) (ce_enableActive env) (clk 1) (clk 2) (w_cbm (h_world h));
          h1 = h\<lparr>h_world := (h_world h)\<lparr>w_cbm := m\<rparr>\<rparr>
      in case r of
           Inl msg \<Rightarrow> set_sub x ((h_sub h x)\<lparr>sb_pc := OutcomeRecorded (Some (PermitRefused msg)), sb_gctx := c\<rparr>) h1
         | Inr lease \<Rightarrow> set_sub x ((h_sub h x)\<lparr>sb_pc := Calling lease NoWrite, sb_gctx := provider_enter (ce_replace env) (clk 3) (ep x) c\<rparr>) h1)"

definition sub_outcome :: "'l ClusterEnv \<Rightarrow> side \<Rightarrow> (nat \<Rightarrow> instant) \<Rightarrow> CircuitBreakerAttempt \<Rightarrow> gw_error option \<Rightarrow> 'l hedge \<Rightarrow> 'l hedge" where
  "sub_outcome env x clk lease err h =
     set_pc x (OutcomeRecorded err) (h\<lparr>h_world := hedgedOutcome env clk err lease (gw (sb_gctx (h_sub h x))) (h_world h)\<rparr>)"

text \<open>What a sub-call does next on its own; \<open>clk\<close> are the clock readings of the step.\<close>

definition sub_step :: "'l ClusterEnv \<Rightarrow> HedgeContext \<Rightarrow> (side \<Rightarrow> Endpoint) \<Rightarrow> side \<Rightarrow> (nat \<Rightarrow> instant) \<Rightarrow> 'l hedge \<Rightarrow> 'l hedge option" where
  "sub_step env base ep x clk h = (case sb_pc (h_sub h x) of
     Spawned \<Rightarrow> Some (sub_begin env base ep x clk h)
   | Calling lease (Checked p) \<Rightarrow> Some (write_claim x (ep x) lease p h)
   | Calling lease (Claimed p) \<Rightarrow> Some (write_announce x lease p h)
   | Calling lease (Announced p) \<Rightarrow> Some (set_pc x (Calling lease NoWrite) (h\<lparr>h_out := h_out h @ [OutBody x p]\<rparr>))
   | CallReturned lease (Some e) \<Rightarrow> Some (set_pc x (FailureNoted lease e) (on_session (note_failure x e (sb_gctx (h_sub h x))) h))
   | CallReturned lease None \<Rightarrow> Some (sub_outcome env x clk lease None h)
   | FailureNoted lease e \<Rightarrow> Some (sub_outcome env x clk lease (Some e) h)
   | OutcomeRecorded (Some e) \<Rightarrow> Some (set_pc x (Signalled e) (on_session (\<lambda>s. s\<lparr>hs_failuresChan := try_send e (hs_failuresChan s)\<rparr>) h))
   | OutcomeRecorded None \<Rightarrow> Some (set_pc x (Leaving None) (on_session (claimWinner x (ep x)) h))
   | Signalled e \<Rightarrow> Some (set_pc x (Leaving (Some e)) (h\<lparr>h_cancelled := (h_cancelled h)(x := True)\<rparr>))
   | Leaving r \<Rightarrow> Some (set_pc x (Closed r) (on_session (\<lambda>s. s\<lparr>hs_completed := (hs_completed s)(x := True)\<rparr>) h))
   | _ \<Rightarrow> None)"

text \<open>What its provider may do while it runs.\<close>

datatype provider_act = ActWrite string | ActStatus int | ActHeader string string | ActContext HedgeContext | ActReturn "gw_error option"

definition sub_return :: "HedgeContext \<Rightarrow> (side \<Rightarrow> Endpoint) \<Rightarrow> side \<Rightarrow> (nat \<Rightarrow> instant) \<Rightarrow> CircuitBreakerAttempt \<Rightarrow> gw_error option \<Rightarrow> 'l hedge \<Rightarrow> 'l hedge" where
  "sub_return base ep x clk lease err h =
     (let g1 = provider_leave (ep x) base (sb_gctx (h_sub h x));
          g2 = (case err of Some e \<Rightarrow> if g_UpstreamError g1 = None then g1\<lparr>g_UpstreamError := Some (err_string e)\<rparr> else g1 | None \<Rightarrow> g1);
          g3 = g2\<lparr>hc_History := hc_History g2 @ [attempt_record (err = None) (clk 0) (clk 1) (gw g2)], g_AttemptCount := g_AttemptCount g2 + 1\<rparr>
      in set_sub x ((h_sub h x)\<lparr>sb_pc := CallReturned lease err, sb_gctx := g3\<rparr>) h)"

definition sub_act :: "HedgeContext \<Rightarrow> (side \<Rightarrow> Endpoint) \<Rightarrow> side \<Rightarrow> (nat \<Rightarrow> instant) \<Rightarrow> provider_act \<Rightarrow> 'l hedge \<Rightarrow> 'l hedge option" where
  "sub_act base ep x clk act h = (case sb_pc (h_sub h x) of
     Calling lease NoWrite \<Rightarrow>
       if ep_ProviderImpl (ep x) = None then (case act of ActReturn None \<Rightarrow> Some (sub_return base ep x clk lease None h) | _ \<Rightarrow> None)
       else (case act of
         ActWrite p \<Rightarrow> if ctx_err x h then None else Some (set_pc x (Calling lease (Checked p)) h)
       | ActStatus code \<Rightarrow> Some (h\<lparr>h_out := h_out h @ [OutStatus x code]\<rparr>)
       | ActHeader k v \<Rightarrow> Some (h\<lparr>h_headers := (h_headers h)(k := [v])\<rparr>)
       | ActContext g \<Rightarrow> if map_option ep_ID (g_SelectedEndpoint g) = map_option ep_ID (g_SelectedEndpoint (sb_gctx (h_sub h x))) \<and> hc_Sensitive g = hc_Sensitive (sb_gctx (h_sub h x))
                         then Some (set_sub x ((h_sub h x)\<lparr>sb_gctx := g\<rparr>) h) else None
       | ActReturn err \<Rightarrow> Some (sub_return base ep x clk lease err h))
   | _ \<Rightarrow> None)"

subsection \<open>The invoker\<close>

definition return_with :: "hedge_result \<Rightarrow> 'l hedge \<Rightarrow> 'l hedge" where
  "return_with r h = h\<lparr>h_main := Returned r, h_sessionDone := True\<rparr>"

definition copy_failure :: "HedgeContext \<Rightarrow> HedgeContext \<Rightarrow> HedgeContext" where
  "copy_failure f g = g\<lparr>g_UpstreamResponse := g_UpstreamResponse f, g_UpstreamError := g_UpstreamError f, g_UpstreamBody := g_UpstreamBody f\<rparr>"

text \<open>\<open>smartTerminalError\<close>, and what the invoker does when it gives none.\<close>

definition unless_terminal :: "('l hedge \<Rightarrow> 'l hedge) \<Rightarrow> 'l hedge \<Rightarrow> 'l hedge" where
  "unless_terminal f h = (case hs_terminalFailure (h_session h) of None \<Rightarrow> f h
     | Some x \<Rightarrow> let failed = sb_gctx (h_sub h x); code = (case g_UpstreamResponse failed of Some r \<Rightarrow> hs_StatusCode r | None \<Rightarrow> 400)
         in return_with (RSmart code) (h\<lparr>h_gctx := copy_failure failed (h_gctx h)\<rparr>))"

definition copy_winner :: "HedgeContext \<Rightarrow> HedgeContext \<Rightarrow> HedgeContext" where
  "copy_winner v g = g\<lparr>g_SelectedEndpoint := g_SelectedEndpoint v, hc_History := hc_History g @ hc_History v, g_AttemptCount := g_AttemptCount g + g_AttemptCount v,
     g_UpstreamConnect := g_UpstreamConnect v, g_UpstreamResponse := g_UpstreamResponse v, g_UpstreamBody := g_UpstreamBody v, g_UpstreamError := g_UpstreamError v,
     g_TTFT := g_TTFT v, hc_InputTokens := hc_InputTokens v, hc_OutputTokens := hc_OutputTokens v, hc_CachedTokens := hc_CachedTokens v,
     hc_CacheCreationTokens := hc_CacheCreationTokens v, hc_TransmittedChars := hc_TransmittedChars v, hc_Cost := hc_Cost v, hc_Response := hc_Response v\<rparr>"

definition spawn_B :: "'l hedge \<Rightarrow> 'l hedge" where
  "spawn_B h = set_pc SideB Spawned h\<lparr>h_main := LoopHead\<rparr>"

definition recv_winner :: "'l hedge \<Rightarrow> 'l hedge list" where
  "recv_winner h = (case hs_winnerChan (h_session h) of [] \<Rightarrow> [] | _ # ch \<Rightarrow> [(on_session (\<lambda>s. s\<lparr>hs_winnerChan := ch\<rparr>) h)\<lparr>h_main := LoopHead\<rparr>])"

definition recv_failure :: "(gw_error \<Rightarrow> 'l hedge \<Rightarrow> 'l hedge) \<Rightarrow> 'l hedge \<Rightarrow> 'l hedge list" where
  "recv_failure f h = (case hs_failuresChan (h_session h) of [] \<Rightarrow> [] | e # ch \<Rightarrow> [f e (on_session (\<lambda>s. s\<lparr>hs_failuresChan := ch\<rparr>) h)])"

definition recv_done :: "'l hedge \<Rightarrow> 'l hedge list" where
  "recv_done h = (if h_sessionDone h then [return_with RCancelled h] else [])"

text \<open>The second failure ends the race: the last failed call is shown to the client.\<close>

definition count_failure :: "gw_error \<Rightarrow> 'l hedge \<Rightarrow> 'l hedge" where
  "count_failure e h =
     (if hs_winnerID (h_session h) \<noteq> '''' then h\<lparr>h_main := LoopHead\<rparr>
      else let h1 = h\<lparr>h_failures := h_failures h + 1\<rparr> in
        if h_failures h1 \<ge> 2
        then return_with (RAllFailed e) (case hs_lastFailure (h_session h1) of None \<Rightarrow> h1 | Some x \<Rightarrow> h1\<lparr>h_gctx := copy_failure (sb_gctx (h_sub h1 x)) (h_gctx h1)\<rparr>)
        else h1\<lparr>h_main := LoopHead\<rparr>)"

definition finish_race :: "side \<Rightarrow> 'l hedge \<Rightarrow> 'l hedge" where
  "finish_race v h = (let c = sb_gctx (h_sub h v) in return_with (RWinner (g_UpstreamError c)) (h\<lparr>h_gctx := copy_winner c (h_gctx h)\<rparr>))"

text \<open>The moves the invoker can make; a \<open>select\<close> offers one per ready case.\<close>

definition main_moves :: "(side \<Rightarrow> Endpoint) \<Rightarrow> 'l hedge \<Rightarrow> 'l hedge list" where
  "main_moves ep h = (case h_main h of
     FirstSelect \<Rightarrow> [spawn_B h] @ recv_winner h @ recv_failure (\<lambda>e k. k\<lparr>h_failures := h_failures k + 1, h_main := FirstFailure\<rparr>) h @ recv_done h
   | FirstFailure \<Rightarrow> [unless_terminal spawn_B h]
   | LoopHead \<Rightarrow> [unless_terminal (\<lambda>k. k\<lparr>h_main := LoopWinner\<rparr>) h]
   | LoopWinner \<Rightarrow> [h\<lparr>h_main := (if hs_winnerID (h_session h) \<noteq> '''' then Won (hs_winnerID (h_session h)) else SelectAgain)\<rparr>]
   | SelectAgain \<Rightarrow> recv_winner h @ recv_failure (\<lambda>e k. k\<lparr>h_main := GotFailure e\<rparr>) h @ recv_done h
   | GotFailure e \<Rightarrow> [unless_terminal (\<lambda>k. k\<lparr>h_main := FailureChecked e\<rparr>) h]
   | FailureChecked e \<Rightarrow> [count_failure e h]
   | Won v \<Rightarrow> [h\<lparr>h_cancelled := (h_cancelled h)(if v = ep_ID (ep SideA) then SideB else SideA := True), h_main := AwaitWinner v\<rparr>]
   | AwaitWinner v \<Rightarrow>
       (case hs_winnerGctx (h_session h) of Some x \<Rightarrow> if hs_completed (h_session h) (if v = ep_ID (ep SideA) then SideA else SideB) then [finish_race x h] else [] | None \<Rightarrow> [])
       @ recv_done h
   | Returned _ \<Rightarrow> [])"

subsection \<open>Runs\<close>

definition race_init :: "HedgeContext \<Rightarrow> (string \<Rightarrow> string list) \<Rightarrow> 'l World \<Rightarrow> 'l hedge" where
  "race_init base hdrs w =
     (let sub = (\<lambda>pc. \<lparr>sb_pc = pc, sb_gctx = base, sb_isWinner = False, sb_headerWritten = False\<rparr>) in
      \<lparr>h_world = w,
       h_session = \<lparr>hs_winnerID = '''', hs_winnerGctx = None, hs_lastFailure = None, hs_terminalFailure = None, hs_winnerChan = [], hs_failuresChan = [], hs_completed = (\<lambda>_. False)\<rparr>,
       h_sub = (\<lambda>x. case x of SideA \<Rightarrow> sub Spawned | SideB \<Rightarrow> sub Idle), h_main = FirstSelect, h_gctx = base, h_failures = 0, h_sessionDone = False,
       h_cancelled = (\<lambda>_. False), h_headers = hdrs, h_out = []\<rparr>)"

inductive race_step :: "'l ClusterEnv \<Rightarrow> HedgeContext \<Rightarrow> (side \<Rightarrow> Endpoint) \<Rightarrow> 'l hedge \<Rightarrow> 'l hedge \<Rightarrow> bool" for env base ep where
  main: "h' \<in> set (main_moves ep h) \<Longrightarrow> race_step env base ep h h'"
| sub: "sub_step env base ep x clk h = Some h' \<Longrightarrow> race_step env base ep h h'"
| act: "sub_act base ep x clk a h = Some h' \<Longrightarrow> race_step env base ep h h'"

text \<open>Besides, the client may disconnect, which ends the session's context.\<close>

inductive race_reach :: "'l ClusterEnv \<Rightarrow> HedgeContext \<Rightarrow> (side \<Rightarrow> Endpoint) \<Rightarrow> 'l hedge \<Rightarrow> 'l hedge \<Rightarrow> bool" for env base ep h0 where
  start: "race_reach env base ep h0 h0"
| step: "race_reach env base ep h0 h \<Longrightarrow> race_step env base ep h h' \<Longrightarrow> race_reach env base ep h0 h'"
| disconnect: "race_reach env base ep h0 h \<Longrightarrow> race_reach env base ep h0 (h\<lparr>h_sessionDone := True\<rparr>)"

end
