(* ===== verification/Hedging_Race.thy ===== *)
theory Hedging_Race
  imports Hedging Gateway_Env
begin

text \<open>
  What holds in every interleaving of a hedged call: the client reads the bytes of one sub-call only, a race never gets stuck, it reports
  failure only when both sub-calls failed, its answer is that of the winner, and the breakers stay sound.
\<close>

subsection \<open>The winner\<close>

fun sent_failure :: "sub_pc \<Rightarrow> bool" where
  "sent_failure (Signalled e) = True" | "sent_failure (Leaving (Some e)) = True" | "sent_failure (Closed (Some e)) = True" | "sent_failure _ = False"

fun ended_well :: "sub_pc \<Rightarrow> bool" where
  "ended_well (Leaving None) = True" | "ended_well (Closed None) = True" | "ended_well _ = False"

fun holds_claim :: "sub_pc \<Rightarrow> bool" where
  "holds_claim (Calling l (Claimed p)) = True" | "holds_claim (Calling l (Announced p)) = True" | "holds_claim _ = False"

fun started :: "sub_pc \<Rightarrow> bool" where
  "started Idle = False" | "started Spawned = False" | "started _ = True"

fun sub_closed :: "sub_pc \<Rightarrow> bool" where
  "sub_closed (Closed r) = True" | "sub_closed _ = False"

text \<open>
  The winner's id and context belong together; only the winner's writer writes. A sub-call that won without writing has ended well, and
  one that has ended well left a winner.
\<close>

definition winner_ok :: "(side \<Rightarrow> Endpoint) \<Rightarrow> 'l hedge \<Rightarrow> bool" where
  "winner_ok ep h \<longleftrightarrow>
     (case hs_winnerGctx (h_session h) of None \<Rightarrow> hs_winnerID (h_session h) = '''' \<and> hs_winnerChan (h_session h) = []
        | Some x \<Rightarrow> hs_winnerID (h_session h) = ep_ID (ep x) \<and> (sb_isWinner (h_sub h x) \<and> started (sb_pc (h_sub h x)) \<or> ended_well (sb_pc (h_sub h x))))
   \<and> (\<forall>x. sb_isWinner (h_sub h x) \<longrightarrow> hs_winnerGctx (h_session h) = Some x)
   \<and> (\<forall>x. holds_claim (sb_pc (h_sub h x)) \<longrightarrow> sb_isWinner (h_sub h x))
   \<and> (\<forall>x. ended_well (sb_pc (h_sub h x)) \<longrightarrow> hs_winnerGctx (h_session h) \<noteq> None)
   \<and> (\<forall>x p. OutBody x p \<in> set (h_out h) \<longrightarrow> sb_isWinner (h_sub h x))"

lemma sub_simps [simp]:
  "h_session (set_sub x c h) = h_session h" "h_out (set_sub x c h) = h_out h" "h_sub (set_sub x c h) = (h_sub h)(x := c)" "h_main (set_sub x c h) = h_main h"
  "h_failures (set_sub x c h) = h_failures h" "h_gctx (set_sub x c h) = h_gctx h" "h_world (set_sub x c h) = h_world h" "h_headers (set_sub x c h) = h_headers h"
  "h_sessionDone (set_sub x c h) = h_sessionDone h" "h_cancelled (set_sub x c h) = h_cancelled h"
  by (simp_all add: set_sub_def)

lemma pc_simps [simp]:
  "h_session (set_pc x c h) = h_session h" "h_out (set_pc x c h) = h_out h" "h_sub (set_pc x c h) = (h_sub h)(x := (h_sub h x)\<lparr>sb_pc := c\<rparr>)" "h_main (set_pc x c h) = h_main h"
  "h_failures (set_pc x c h) = h_failures h" "h_gctx (set_pc x c h) = h_gctx h" "h_world (set_pc x c h) = h_world h" "h_headers (set_pc x c h) = h_headers h"
  "h_sessionDone (set_pc x c h) = h_sessionDone h" "h_cancelled (set_pc x c h) = h_cancelled h"
  by (simp_all add: set_pc_def)

lemma all_sides: "(\<forall>x. P x) \<longleftrightarrow> P SideA \<and> P SideB"
  by (metis side.exhaust)

text \<open>The moves of a sub-call, one by one.\<close>

lemma sub_step_cases:
  assumes "sub_step env base ep x clk h = Some h'"
  obtains (enter) "sb_pc (h_sub h x) = Spawned" "h' = sub_begin env base ep x clk h"
  | (claim) l p where "sb_pc (h_sub h x) = Calling l (Checked p)" "h' = write_claim x (ep x) l p h"
  | (announce) l p where "sb_pc (h_sub h x) = Calling l (Claimed p)" "h' = write_announce x l p h"
  | (body) l p where "sb_pc (h_sub h x) = Calling l (Announced p)" "h' = set_pc x (Calling l NoWrite) (h\<lparr>h_out := h_out h @ [OutBody x p]\<rparr>)"
  | (note_failed) l e where "sb_pc (h_sub h x) = CallReturned l (Some e)"
      "h' = set_pc x (FailureNoted l e) (on_session (note_failure x e (sb_gctx (h_sub h x))) h)"
  | (outcome) l r where "sb_pc (h_sub h x) = CallReturned l None \<and> r = None \<or> (\<exists>e. sb_pc (h_sub h x) = FailureNoted l e \<and> r = Some e)" "h' = sub_outcome env x clk l r h"
  | (failed) e where "sb_pc (h_sub h x) = OutcomeRecorded (Some e)"
      "h' = set_pc x (Signalled e) (on_session (\<lambda>s. s\<lparr>hs_failuresChan := try_send e (hs_failuresChan s)\<rparr>) h)"
  | (won) "sb_pc (h_sub h x) = OutcomeRecorded None" "h' = set_pc x (Leaving None) (on_session (claimWinner x (ep x)) h)"
  | (cancelled) e where "sb_pc (h_sub h x) = Signalled e" "h' = set_pc x (Leaving (Some e)) (h\<lparr>h_cancelled := (h_cancelled h)(x := True)\<rparr>)"
  | (leave) r where "sb_pc (h_sub h x) = Leaving r"
      "h' = set_pc x (Closed r) (on_session (\<lambda>s. s\<lparr>hs_completed := (hs_completed s)(x := True)\<rparr>) h)"
proof (cases "sb_pc (h_sub h x)")
  case Spawned then show ?thesis using assms by (intro enter) (simp_all add: sub_step_def)
next
  case (Calling l w)
  then show ?thesis using assms by (cases w) (auto simp: sub_step_def intro: claim announce body)
next
  case (CallReturned l r)
  then show ?thesis using assms by (cases r) (auto simp: sub_step_def intro: note_failed outcome)
next
  case (FailureNoted l e)
  then show ?thesis using assms by (intro outcome[of l "Some e"]) (simp_all add: sub_step_def)
next
  case (OutcomeRecorded r)
  then show ?thesis using assms by (cases r) (auto simp: sub_step_def intro: failed won)
next
  case (Signalled e) then show ?thesis using assms by (auto simp: sub_step_def intro: cancelled)
next
  case (Leaving r) then show ?thesis using assms by (auto simp: sub_step_def intro: leave)
next
  case Idle then show ?thesis using assms by (simp add: sub_step_def)
next
  case (Closed r) then show ?thesis using assms by (simp add: sub_step_def)
qed

text \<open>A started sub-call has its permits or was refused.\<close>

lemma sub_begin_cases:
  obtains c w where "sub_begin env base ep x clk h = set_sub x c (h\<lparr>h_world := w\<rparr>)" "sb_isWinner c = sb_isWinner (h_sub h x)"
    "(\<exists>e. sb_pc c = OutcomeRecorded (Some e)) \<or> (\<exists>l. sb_pc c = Calling l NoWrite)"
    "w = (h_world h)\<lparr>w_cbm := snd (AcquireAttempt (Some (ep x)) (ce_enableActive env) (clk 1) (clk 2) (w_cbm (h_world h)))\<rparr>"
proof -
  obtain r m where a: "AcquireAttempt (Some (ep x)) (ce_enableActive env) (clk 1) (clk 2) (w_cbm (h_world h)) = (r, m)" by (metis surj_pair)
  show ?thesis
  proof (cases r)
    case (Inl msg)
    then show ?thesis using a
      by (intro that[of "(h_sub h x)\<lparr>sb_pc := OutcomeRecorded (Some (PermitRefused msg)), sb_gctx := child_context base (ep x) (clk 0)\<rparr>"])
        (simp_all add: sub_begin_def Let_def)
  next
    case (Inr l)
    then show ?thesis using a
      by (intro that[of "(h_sub h x)\<lparr>sb_pc := Calling l NoWrite, sb_gctx := provider_enter (ce_replace env) (clk 3) (ep x) (child_context base (ep x) (clk 0))\<rparr>"])
        (simp_all add: sub_begin_def Let_def)
  qed
qed

lemma started_parts [simp]: "ended_well pc \<Longrightarrow> started pc" "sent_failure pc \<Longrightarrow> started pc" "sent_failure pc \<Longrightarrow> \<not> ended_well pc" "sent_failure pc \<Longrightarrow> \<not> holds_claim pc"
  by (cases pc rule: ended_well.cases; simp; cases pc rule: sent_failure.cases; simp)+

text \<open>The two endpoints have different ids.\<close>

definition distinct_ids :: "(side \<Rightarrow> Endpoint) \<Rightarrow> bool" where
  "distinct_ids ep \<longleftrightarrow> ep_ID (ep SideA) \<noteq> ep_ID (ep SideB) \<and> ep_ID (ep SideA) \<noteq> '''' \<and> ep_ID (ep SideB) \<noteq> ''''"

lemma distinct_idsD: "distinct_ids ep \<Longrightarrow> ep_ID (ep x) = ep_ID (ep y) \<longleftrightarrow> x = y" "distinct_ids ep \<Longrightarrow> ep_ID (ep x) \<noteq> ''''"
  by (cases x; cases y; auto simp: distinct_ids_def) (cases x; auto simp: distinct_ids_def)

lemma winner_ok_init: "winner_ok ep (race_init base hdrs w)"
  by (simp add: winner_ok_def race_init_def Let_def all_sides)

text \<open>Steps that touch neither the winner nor the writers.\<close>

lemma winner_ok_quiet:
  assumes "winner_ok ep h" "hs_winnerGctx (h_session h') = hs_winnerGctx (h_session h)" "hs_winnerID (h_session h') = hs_winnerID (h_session h)"
    "hs_winnerGctx (h_session h) = None \<Longrightarrow> hs_winnerChan (h_session h) = [] \<Longrightarrow> hs_winnerChan (h_session h') = []"
    "\<And>y. sb_isWinner (h_sub h' y) = sb_isWinner (h_sub h y)"
    "\<And>y. started (sb_pc (h_sub h y)) \<Longrightarrow> started (sb_pc (h_sub h' y))" "\<And>y. ended_well (sb_pc (h_sub h' y)) = ended_well (sb_pc (h_sub h y))"
    "\<And>y. holds_claim (sb_pc (h_sub h' y)) \<Longrightarrow> sb_isWinner (h_sub h y)"
    "\<And>y p. OutBody y p \<in> set (h_out h') \<Longrightarrow> OutBody y p \<in> set (h_out h) \<or> sb_isWinner (h_sub h y)"
  shows "winner_ok ep h'"
proof -
  let ?W = "hs_winnerGctx (h_session h)"
  note ok = assms(1)[unfolded winner_ok_def]
  have "case hs_winnerGctx (h_session h') of None \<Rightarrow> hs_winnerID (h_session h') = '''' \<and> hs_winnerChan (h_session h') = []
        | Some x \<Rightarrow> hs_winnerID (h_session h') = ep_ID (ep x) \<and> (sb_isWinner (h_sub h' x) \<and> started (sb_pc (h_sub h' x)) \<or> ended_well (sb_pc (h_sub h' x)))"
  proof (cases ?W)
    case None then show ?thesis using conjunct1[OF ok] assms(2-4) by simp
  next
    case (Some x) then show ?thesis using conjunct1[OF ok] assms(2,3) assms(5-7)[of x] by auto
  qed
  moreover have "\<forall>x. sb_isWinner (h_sub h' x) \<longrightarrow> hs_winnerGctx (h_session h') = Some x" using ok by (simp only: assms(2,5)) blast
  moreover have "\<forall>x. holds_claim (sb_pc (h_sub h' x)) \<longrightarrow> sb_isWinner (h_sub h' x)" using assms(8) by (simp only: assms(5)) blast
  moreover have "\<forall>x. ended_well (sb_pc (h_sub h' x)) \<longrightarrow> hs_winnerGctx (h_session h') \<noteq> None" using ok by (simp only: assms(2,7)) blast
  moreover have "\<forall>x p. OutBody x p \<in> set (h_out h') \<longrightarrow> sb_isWinner (h_sub h' x)" using ok assms(9) by (simp only: assms(5)) blast
  ultimately show ?thesis unfolding winner_ok_def by (intro conjI)
qed

lemma winner_ok_claim: "winner_ok ep h \<Longrightarrow> holds_claim (sb_pc (h_sub h y)) \<Longrightarrow> sb_isWinner (h_sub h y)"
  unfolding winner_ok_def by blast

lemma winner_ok_sub:
  assumes ids: "distinct_ids ep" and ok: "winner_ok ep h" and st: "sub_step env base ep x clk h = Some h'"
  shows "winner_ok ep h'"
  using st
proof (cases rule: sub_step_cases)
  case enter
  obtain c w where c: "h' = set_sub x c (h\<lparr>h_world := w\<rparr>)" "sb_isWinner c = sb_isWinner (h_sub h x)"
    "(\<exists>e. sb_pc c = OutcomeRecorded (Some e)) \<or> (\<exists>l. sb_pc c = Calling l NoWrite)" using enter(2) by (metis sub_begin_cases)
  then show ?thesis using enter(1) by (intro winner_ok_quiet[OF ok]) (auto split: if_splits dest: winner_ok_claim[OF ok])
next
  case (claim l p)
  show ?thesis
  proof (cases "sb_isWinner (h_sub h x) \<or> hs_winnerID (h_session h) \<noteq> '''' \<and> hs_winnerID (h_session h) \<noteq> ep_ID (ep x)")
    case True
    then show ?thesis using claim by (intro winner_ok_quiet[OF ok]) (auto simp: write_claim_def split: if_splits dest: winner_ok_claim[OF ok])
  next
    case False
    then have free: "hs_winnerGctx (h_session h) = None" using ok claim(1) distinct_idsD[OF ids] by (auto simp: winner_ok_def split: option.splits)
    then show ?thesis using False ok claim by (auto simp: write_claim_def winner_ok_def)
  qed
next
  case (announce l p)
  then have "sb_isWinner (h_sub h x)" using winner_ok_claim[OF ok] by simp
  moreover from this have "hs_winnerGctx (h_session h) \<noteq> None" using ok by (auto simp: winner_ok_def)
  ultimately show ?thesis using announce by (intro winner_ok_quiet[OF ok]) (auto simp: write_announce_def Let_def split: if_splits dest: winner_ok_claim[OF ok])
next
  case (body l p)
  then have "sb_isWinner (h_sub h x)" using winner_ok_claim[OF ok] by simp
  then show ?thesis using body by (intro winner_ok_quiet[OF ok]) (auto split: if_splits dest: winner_ok_claim[OF ok])
next
  case (note_failed l e)
  then show ?thesis by (intro winner_ok_quiet[OF ok]) (auto simp: note_failure_def split: if_splits dest: winner_ok_claim[OF ok])
next
  case (outcome l r)
  then show ?thesis by (intro winner_ok_quiet[OF ok]) (auto simp: sub_outcome_def split: if_splits dest: winner_ok_claim[OF ok])
next
  case (failed e)
  then show ?thesis by (intro winner_ok_quiet[OF ok]) (auto split: if_splits dest: winner_ok_claim[OF ok])
next
  case won
  show ?thesis
  proof (cases "hs_winnerGctx (h_session h)")
    case None
    then show ?thesis using won ok distinct_idsD[OF ids] by (auto simp: winner_ok_def claimWinner_def try_send_def)
  next
    case (Some y)
    then have "hs_winnerID (h_session h) \<noteq> ''''" using ok distinct_idsD[OF ids] by (auto simp: winner_ok_def)
    then show ?thesis using won ok Some by (auto simp: winner_ok_def claimWinner_def)
  qed
next
  case (cancelled e)
  then show ?thesis by (intro winner_ok_quiet[OF ok]) (auto split: if_splits dest: winner_ok_claim[OF ok])
next
  case (leave r)
  then show ?thesis by (intro winner_ok_quiet[OF ok]) (cases r; auto split: if_splits dest: winner_ok_claim[OF ok])+
qed

text \<open>The acts of a provider.\<close>

lemma sub_act_cases:
  assumes "sub_act base ep x clk a h = Some h'"
  obtains (wr) l p where "sb_pc (h_sub h x) = Calling l NoWrite" "h' = set_pc x (Calling l (Checked p)) h"
  | (status) l code where "sb_pc (h_sub h x) = Calling l NoWrite" "h' = h\<lparr>h_out := h_out h @ [OutStatus x code]\<rparr>"
  | (header) l k v where "sb_pc (h_sub h x) = Calling l NoWrite" "h' = h\<lparr>h_headers := (h_headers h)(k := [v])\<rparr>"
  | (ctx) l g where "sb_pc (h_sub h x) = Calling l NoWrite" "h' = set_sub x ((h_sub h x)\<lparr>sb_gctx := g\<rparr>) h"
  | (returned) l r where "sb_pc (h_sub h x) = Calling l NoWrite" "h' = sub_return base ep x clk l r h"
proof -
  obtain l where l: "sb_pc (h_sub h x) = Calling l NoWrite" using assms by (auto simp: sub_act_def split: sub_pc.splits write_pc.splits)
  show ?thesis
  proof (cases "ep_ProviderImpl (ep x) = None")
    case True then show ?thesis using assms l by (auto simp: sub_act_def split: provider_act.splits option.splits intro: returned)
  next
    case False
    then show ?thesis using assms l by (cases a) (auto simp: sub_act_def split: if_splits intro: wr status header ctx returned)
  qed
qed

lemma sub_return_cases:
  obtains g where "sub_return base ep x clk l r h = set_sub x ((h_sub h x)\<lparr>sb_pc := CallReturned l r, sb_gctx := g\<rparr>) h"
  by (simp add: sub_return_def Let_def)

lemma winner_ok_act:
  assumes ok: "winner_ok ep h" and st: "sub_act base ep x clk a h = Some h'"
  shows "winner_ok ep h'"
  using st
proof (cases rule: sub_act_cases)
  case (returned l r)
  obtain g where "h' = set_sub x ((h_sub h x)\<lparr>sb_pc := CallReturned l r, sb_gctx := g\<rparr>) h" using returned(2) sub_return_cases by metis
  then show ?thesis using returned(1) by (intro winner_ok_quiet[OF ok]) (auto split: if_splits dest: winner_ok_claim[OF ok])
qed (intro winner_ok_quiet[OF ok]; auto split: if_splits dest: winner_ok_claim[OF ok])+

text \<open>
  What a sub-call's step can change for the others: it leaves the invoker and the other sub-call alone, signals its failure once, becomes
  the winner only when there is none, and wakes the invoker when it does.
\<close>

definition waking :: "side \<Rightarrow> 'l hedge \<Rightarrow> bool" where
  "waking x h \<longleftrightarrow> hs_winnerChan (h_session h) \<noteq> [] \<or> (\<exists>l p. sb_pc (h_sub h x) = Calling l (Claimed p))"

definition thread_ok :: "side \<Rightarrow> 'l hedge \<Rightarrow> 'l hedge \<Rightarrow> bool" where
  "thread_ok x h h' \<longleftrightarrow>
     h_main h' = h_main h \<and> h_failures h' = h_failures h \<and> h_gctx h' = h_gctx h \<and> (\<forall>y. y \<noteq> x \<longrightarrow> h_sub h' y = h_sub h y)
   \<and> sb_pc (h_sub h x) \<noteq> Idle \<and> sb_pc (h_sub h' x) \<noteq> Idle \<and> \<not> sub_closed (sb_pc (h_sub h x))
   \<and> hs_completed (h_session h') = (if sub_closed (sb_pc (h_sub h' x)) then (hs_completed (h_session h))(x := True) else hs_completed (h_session h))
   \<and> (if sent_failure (sb_pc (h_sub h' x)) \<and> \<not> sent_failure (sb_pc (h_sub h x))
      then \<exists>e. hs_failuresChan (h_session h') = try_send e (hs_failuresChan (h_session h))
      else sent_failure (sb_pc (h_sub h' x)) = sent_failure (sb_pc (h_sub h x)) \<and> hs_failuresChan (h_session h') = hs_failuresChan (h_session h))
   \<and> (hs_winnerGctx (h_session h') = hs_winnerGctx (h_session h)
      \<or> hs_winnerGctx (h_session h) = None \<and> hs_winnerGctx (h_session h') = Some x \<and> \<not> sent_failure (sb_pc (h_sub h x)) \<and> waking x h')
   \<and> (\<forall>y. waking y h \<longrightarrow> waking y h')"

lemma winner_ok_id: "distinct_ids ep \<Longrightarrow> winner_ok ep h \<Longrightarrow> hs_winnerID (h_session h) = '''' \<longleftrightarrow> hs_winnerGctx (h_session h) = None"
  by (auto simp: winner_ok_def distinct_idsD split: option.splits)

lemma thread_sub:
  assumes ids: "distinct_ids ep" and ok: "winner_ok ep h" and st: "sub_step env base ep x clk h = Some h'"
  shows "thread_ok x h h'"
  using st
proof (cases rule: sub_step_cases)
  case enter
  obtain c w where c: "h' = set_sub x c (h\<lparr>h_world := w\<rparr>)" "(\<exists>e. sb_pc c = OutcomeRecorded (Some e)) \<or> (\<exists>l. sb_pc c = Calling l NoWrite)"
    using enter(2) by (metis sub_begin_cases)
  then show ?thesis using enter(1) by (auto simp: thread_ok_def waking_def)
next
  case (claim l p)
  show ?thesis
  proof (cases "sb_isWinner (h_sub h x) \<or> hs_winnerID (h_session h) \<noteq> '''' \<and> hs_winnerID (h_session h) \<noteq> ep_ID (ep x)")
    case True then show ?thesis using claim by (auto simp: write_claim_def thread_ok_def waking_def)
  next
    case False
    then have "hs_winnerGctx (h_session h) = None" using ok claim(1) distinct_idsD[OF ids] by (auto simp: winner_ok_def split: option.splits)
    then show ?thesis using False claim by (auto simp: write_claim_def thread_ok_def waking_def)
  qed
next
  case (announce l p) then show ?thesis by (auto simp: write_announce_def Let_def thread_ok_def waking_def try_send_def)
next
  case won
  then show ?thesis using winner_ok_id[OF ids ok] by (cases "hs_winnerGctx (h_session h)") (auto simp: claimWinner_def try_send_def thread_ok_def waking_def)
next
  case (outcome l r) then show ?thesis by (auto simp: sub_outcome_def thread_ok_def waking_def)
next
  case (leave r) then show ?thesis by (cases r) (auto simp: thread_ok_def waking_def)
qed (auto simp: thread_ok_def waking_def note_failure_def)

lemma thread_act:
  assumes "sub_act base ep x clk a h = Some h'" shows "thread_ok x h h'"
  using assms
proof (cases rule: sub_act_cases)
  case (returned l r)
  obtain g where "h' = set_sub x ((h_sub h x)\<lparr>sb_pc := CallReturned l r, sb_gctx := g\<rparr>) h" using returned(2) sub_return_cases by metis
  then show ?thesis using returned(1) by (auto simp: thread_ok_def waking_def)
qed (auto simp: thread_ok_def waking_def)

subsection \<open>The invoker\<close>

lemma main_cases:
  assumes "h' \<in> set (main_moves ep h)"
  obtains (spawn) "h_main h = FirstSelect \<or> h_main h = FirstFailure" "h' = spawn_B h"
  | (terminal) code g where "\<forall>r. h_main h \<noteq> Returned r" "h' = return_with (RSmart code) (h\<lparr>h_gctx := g\<rparr>)"
  | (disconnected) "\<forall>r. h_main h \<noteq> Returned r" "h' = return_with RCancelled h"
  | (woken) v ch where "h_main h = FirstSelect \<or> h_main h = SelectAgain" "hs_winnerChan (h_session h) = v # ch"
      "h' = (on_session (\<lambda>s. s\<lparr>hs_winnerChan := ch\<rparr>) h)\<lparr>h_main := LoopHead\<rparr>"
  | (first_failure) e ch where "h_main h = FirstSelect" "hs_failuresChan (h_session h) = e # ch"
      "h' = (on_session (\<lambda>s. s\<lparr>hs_failuresChan := ch\<rparr>) h)\<lparr>h_failures := h_failures h + 1, h_main := FirstFailure\<rparr>"
  | (head) "h_main h = LoopHead" "h' = h\<lparr>h_main := LoopWinner\<rparr>"
  | (look) "h_main h = LoopWinner" "h' = h\<lparr>h_main := (if hs_winnerID (h_session h) \<noteq> '''' then Won (hs_winnerID (h_session h)) else SelectAgain)\<rparr>"
  | (got_failure) e ch where "h_main h = SelectAgain" "hs_failuresChan (h_session h) = e # ch"
      "h' = (on_session (\<lambda>s. s\<lparr>hs_failuresChan := ch\<rparr>) h)\<lparr>h_main := GotFailure e\<rparr>"
  | (check) e where "h_main h = GotFailure e" "h' = h\<lparr>h_main := FailureChecked e\<rparr>"
  | (counted) e where "h_main h = FailureChecked e" "h' = count_failure e h"
  | (cancel) v c where "h_main h = Won v" "h' = h\<lparr>h_cancelled := c, h_main := AwaitWinner v\<rparr>"
  | (finish) v x where "h_main h = AwaitWinner v" "hs_winnerGctx (h_session h) = Some x"
      "hs_completed (h_session h) (if v = ep_ID (ep SideA) then SideA else SideB)" "h' = finish_race x h"
proof -
  have ut: "unless_terminal f h = f h \<or> (\<exists>code g. unless_terminal f h = return_with (RSmart code) (h\<lparr>h_gctx := g\<rparr>))" for f :: "'a hedge \<Rightarrow> 'a hedge"
    by (auto simp: unless_terminal_def Let_def split: option.splits)
  have rw: "k \<in> set (recv_winner h) \<Longrightarrow> \<exists>v ch. hs_winnerChan (h_session h) = v # ch \<and> k = (on_session (\<lambda>s. s\<lparr>hs_winnerChan := ch\<rparr>) h)\<lparr>h_main := LoopHead\<rparr>" for k
    by (cases "hs_winnerChan (h_session h)") (auto simp: recv_winner_def)
  have rf: "k \<in> set (recv_failure f h) \<Longrightarrow> \<exists>e ch. hs_failuresChan (h_session h) = e # ch \<and> k = f e (on_session (\<lambda>s. s\<lparr>hs_failuresChan := ch\<rparr>) h)" for f k
    by (cases "hs_failuresChan (h_session h)") (auto simp: recv_failure_def)
  have rd: "k \<in> set (recv_done h) \<Longrightarrow> k = return_with RCancelled h" for k by (auto simp: recv_done_def split: if_splits)
  show ?thesis
  proof (cases "h_main h")
    case FirstSelect
    then consider "h' = spawn_B h" | "h' \<in> set (recv_winner h)"
      | "h' \<in> set (recv_failure (\<lambda>e k. k\<lparr>h_failures := h_failures k + 1, h_main := FirstFailure\<rparr>) h)" | "h' \<in> set (recv_done h)"
      using assms by (auto simp: main_moves_def)
    then show ?thesis using FirstSelect by cases (auto dest!: rw rf rd intro: spawn woken first_failure disconnected)
  next
    case FirstFailure then show ?thesis using assms ut[of spawn_B] by (auto simp: main_moves_def intro: spawn terminal)
  next
    case LoopHead then show ?thesis using assms ut[of "\<lambda>k. k\<lparr>h_main := LoopWinner\<rparr>"] by (auto simp: main_moves_def intro: head terminal)
  next
    case LoopWinner then show ?thesis using assms by (intro look) (simp_all add: main_moves_def)
  next
    case SelectAgain
    then consider "h' \<in> set (recv_winner h)" | "h' \<in> set (recv_failure (\<lambda>e k. k\<lparr>h_main := GotFailure e\<rparr>) h)" | "h' \<in> set (recv_done h)"
      using assms by (auto simp: main_moves_def)
    then show ?thesis using SelectAgain by cases (auto dest!: rw rf rd intro: woken got_failure disconnected)
  next
    case (GotFailure e) then show ?thesis using assms ut[of "\<lambda>k. k\<lparr>h_main := FailureChecked e\<rparr>"] by (auto simp: main_moves_def intro: check terminal)
  next
    case (FailureChecked e) then show ?thesis using assms by (intro counted) (simp_all add: main_moves_def)
  next
    case (Won v) then show ?thesis using assms by (auto simp: main_moves_def intro: cancel)
  next
    case (AwaitWinner v)
    show ?thesis
    proof (cases "h' \<in> set (recv_done h)")
      case True then show ?thesis using rd AwaitWinner by (intro disconnected) auto
    next
      case False
      then show ?thesis using assms AwaitWinner by (cases "hs_winnerGctx (h_session h)") (auto simp: main_moves_def split: if_splits intro: finish[OF AwaitWinner])
    qed
  next
    case (Returned r) then show ?thesis using assms by (simp add: main_moves_def)
  qed
qed

lemma count_failure_cases:
  obtains (ignored) "hs_winnerID (h_session h) \<noteq> ''''" "count_failure e h = h\<lparr>h_main := LoopHead\<rparr>"
  | (more) "hs_winnerID (h_session h) = ''''" "h_failures h + 1 < 2" "count_failure e h = h\<lparr>h_failures := h_failures h + 1, h_main := LoopHead\<rparr>"
  | (both) g where "hs_winnerID (h_session h) = ''''" "h_failures h + 1 \<ge> 2" "count_failure e h = return_with (RAllFailed e) (h\<lparr>h_failures := h_failures h + 1, h_gctx := g\<rparr>)"
proof (cases "hs_winnerID (h_session h) \<noteq> '''' \<or> h_failures h + 1 < 2")
  case True
  show ?thesis
  proof (cases "hs_winnerID (h_session h) = ''''")
    case True with \<open>_ \<or> _\<close> show ?thesis by (intro more) (simp_all add: count_failure_def Let_def)
  qed (intro ignored; simp add: count_failure_def)
next
  case False
  show ?thesis
  proof (cases "hs_lastFailure (h_session h)")
    case None then show ?thesis using False by (intro both[of "h_gctx h"]) (simp_all add: count_failure_def Let_def)
  next
    case (Some x) then show ?thesis using False by (intro both[of "copy_failure (sb_gctx (h_sub h x)) (h_gctx h)"]) (simp_all add: count_failure_def Let_def)
  qed
qed

lemma winner_ok_main:
  assumes ok: "winner_ok ep h" and B: "h_main h = FirstSelect \<or> h_main h = FirstFailure \<Longrightarrow> sb_pc (h_sub h SideB) = Idle" and st: "h' \<in> set (main_moves ep h)"
  shows "winner_ok ep h'"
  using st
proof (cases rule: main_cases)
  case spawn
  then show ?thesis using B by (intro winner_ok_quiet[OF ok]) (auto simp: spawn_B_def split: if_splits dest: winner_ok_claim[OF ok])
next
  case (counted e)
  have "h_session h' = h_session h" "h_sub h' = h_sub h" "h_out h' = h_out h"
    unfolding counted(2) by (cases rule: count_failure_cases[of h e]; simp add: return_with_def)+
  then show ?thesis by (intro winner_ok_quiet[OF ok]) (auto dest: winner_ok_claim[OF ok])
next
  case (woken v ch)
  then have "hs_winnerGctx (h_session h) \<noteq> None" using ok by (auto simp: winner_ok_def)
  then show ?thesis using woken by (intro winner_ok_quiet[OF ok]) (auto dest: winner_ok_claim[OF ok])
qed (intro winner_ok_quiet[OF ok]; auto simp: return_with_def finish_race_def Let_def dest: winner_ok_claim[OF ok])+

text \<open>
  Where the invoker stands: the second call is idle until it is started; without it there is a winner; in a \<open>select\<close> it has been or
  will be woken when there is a winner; the failures it has counted and those still in the channel are the failures sent.
\<close>

fun running :: "main_pc \<Rightarrow> bool" where
  "running (Returned r) = False" | "running _ = True"

fun first_phase :: "main_pc \<Rightarrow> bool" where
  "first_phase FirstSelect = True" | "first_phase FirstFailure = True" | "first_phase _ = False"

fun pending :: "main_pc \<Rightarrow> nat" where
  "pending (GotFailure e) = 1" | "pending (FailureChecked e) = 1" | "pending _ = 0"

fun selecting :: "main_pc \<Rightarrow> bool" where
  "selecting FirstSelect = True" | "selecting SelectAgain = True" | "selecting _ = False"

fun winner_known :: "main_pc \<Rightarrow> string option" where
  "winner_known (Won v) = Some v" | "winner_known (AwaitWinner v) = Some v" | "winner_known _ = None"

definition sent_count :: "'l hedge \<Rightarrow> nat" where
  "sent_count h = (if sent_failure (sb_pc (h_sub h SideA)) then 1 else 0) + (if sent_failure (sb_pc (h_sub h SideB)) then 1 else 0)"

definition got_count :: "'l hedge \<Rightarrow> nat" where
  "got_count h = h_failures h + pending (h_main h) + length (hs_failuresChan (h_session h))"

definition phase_ok :: "HedgeContext \<Rightarrow> (side \<Rightarrow> Endpoint) \<Rightarrow> 'l hedge \<Rightarrow> bool" where
  "phase_ok base ep h \<longleftrightarrow>
     sb_pc (h_sub h SideA) \<noteq> Idle
   \<and> (first_phase (h_main h) \<longrightarrow> sb_pc (h_sub h SideB) = Idle)
   \<and> (h_main h = FirstSelect \<longrightarrow> h_failures h = 0)
   \<and> (running (h_main h) \<longrightarrow> h_failures h \<le> 1 \<and> h_gctx h = base)
   \<and> (running (h_main h) \<and> \<not> first_phase (h_main h) \<and> sb_pc (h_sub h SideB) = Idle \<longrightarrow> hs_winnerGctx (h_session h) \<noteq> None)
   \<and> (\<forall>v. winner_known (h_main h) = Some v \<longrightarrow> (\<exists>x. hs_winnerGctx (h_session h) = Some x \<and> v = ep_ID (ep x)))
   \<and> (\<forall>x. hs_completed (h_session h) x = sub_closed (sb_pc (h_sub h x)))
   \<and> (\<forall>x. selecting (h_main h) \<and> hs_winnerGctx (h_session h) = Some x \<longrightarrow> waking x h)
   \<and> got_count h \<le> sent_count h
   \<and> (running (h_main h) \<and> hs_winnerGctx (h_session h) = None \<longrightarrow> got_count h = sent_count h)
   \<and> (\<forall>e. h_main h = Returned (RAllFailed e) \<longrightarrow> sent_count h = 2 \<and> hs_winnerGctx (h_session h) = None)
   \<and> (\<forall>r. h_main h = Returned (RWinner r) \<longrightarrow> (\<exists>x. hs_winnerGctx (h_session h) = Some x \<and> sub_closed (sb_pc (h_sub h x))
        \<and> r = g_UpstreamError (sb_gctx (h_sub h x)) \<and> h_gctx h = copy_winner (sb_gctx (h_sub h x)) base))"

lemma phase_ok_init: "phase_ok base ep (race_init base hdrs w)"
  by (simp add: phase_ok_def race_init_def Let_def all_sides got_count_def sent_count_def)

lemma other_side: "(x :: side) \<noteq> y \<Longrightarrow> z \<noteq> x \<Longrightarrow> z = y"
  by (cases x; cases y; cases z) auto

lemma sent_count_step:
  assumes "\<And>y. y \<noteq> x \<Longrightarrow> h_sub h' y = h_sub h y"
  shows "sent_failure (sb_pc (h_sub h' x)) \<Longrightarrow> \<not> sent_failure (sb_pc (h_sub h x)) \<Longrightarrow> sent_count h' = sent_count h + 1 \<and> sent_count h \<le> 1"
    "sent_failure (sb_pc (h_sub h' x)) = sent_failure (sb_pc (h_sub h x)) \<Longrightarrow> sent_count h' = sent_count h"
  using assms[of SideA] assms[of SideB] by (cases x; auto simp: sent_count_def)+

lemma sent_count_both: "sent_count h = 2 \<Longrightarrow> sent_failure (sb_pc (h_sub h x))"
  by (cases x) (auto simp: sent_count_def split: if_splits)

lemma thread_counts:
  assumes t: "thread_ok x h h'" and le: "got_count h \<le> sent_count h"
  shows "got_count h' \<le> sent_count h'" "got_count h = sent_count h \<Longrightarrow> got_count h' = sent_count h'" "sent_count h = 2 \<Longrightarrow> sent_count h' = 2"
proof -
  have o: "y \<noteq> x \<Longrightarrow> h_sub h' y = h_sub h y" for y using t by (simp add: thread_ok_def)
  have m: "h_main h' = h_main h" "h_failures h' = h_failures h" using t by (simp_all add: thread_ok_def)
  have c: "if sent_failure (sb_pc (h_sub h' x)) \<and> \<not> sent_failure (sb_pc (h_sub h x))
      then \<exists>e. hs_failuresChan (h_session h') = try_send e (hs_failuresChan (h_session h))
      else sent_failure (sb_pc (h_sub h' x)) = sent_failure (sb_pc (h_sub h x)) \<and> hs_failuresChan (h_session h') = hs_failuresChan (h_session h)"
    using t unfolding thread_ok_def by (elim conjE)
  have "got_count h' = got_count h \<and> sent_count h' = sent_count h \<or> got_count h' = got_count h + 1 \<and> sent_count h' = sent_count h + 1 \<and> sent_count h \<le> 1"
  proof (cases "sent_failure (sb_pc (h_sub h' x)) \<and> \<not> sent_failure (sb_pc (h_sub h x))")
    case True
    then have s: "sent_count h' = sent_count h + 1" "sent_count h \<le> 1" using sent_count_step(1)[where h = h and h' = h', OF o] by auto
    then have "length (hs_failuresChan (h_session h)) < 2" using le by (simp add: got_count_def)
    then show ?thesis using c True s m by (auto simp: got_count_def try_send_def)
  next
    case False
    then have "sent_count h' = sent_count h" using c sent_count_step(2)[where h = h and h' = h', OF o] by auto
    then show ?thesis using c False m by (auto simp: got_count_def)
  qed
  then show "got_count h' \<le> sent_count h'" "got_count h = sent_count h \<Longrightarrow> got_count h' = sent_count h'" "sent_count h = 2 \<Longrightarrow> sent_count h' = 2"
    using le by auto
qed

lemma phase_ok_thread:
  assumes ok: "phase_ok base ep h" and t: "thread_ok x h h'"
  shows "phase_ok base ep h'"
proof -
  have m: "h_main h' = h_main h" "h_failures h' = h_failures h" "h_gctx h' = h_gctx h" and o: "\<And>y. y \<noteq> x \<Longrightarrow> h_sub h' y = h_sub h y"
    and nc: "\<not> sub_closed (sb_pc (h_sub h x))" using t by (simp_all add: thread_ok_def)
  have idle: "sb_pc (h_sub h' y) = Idle \<longleftrightarrow> sb_pc (h_sub h y) = Idle" for y using t o[of y] by (cases "y = x") (auto simp: thread_ok_def)
  have compl: "hs_completed (h_session h') y = sub_closed (sb_pc (h_sub h' y))" for y
  proof -
    have "hs_completed (h_session h) y = sub_closed (sb_pc (h_sub h y))" using ok by (simp add: phase_ok_def)
    then show ?thesis using t o[of y] by (cases "y = x") (auto simp: thread_ok_def)
  qed
  have win: "hs_winnerGctx (h_session h') = hs_winnerGctx (h_session h)
      \<or> hs_winnerGctx (h_session h) = None \<and> hs_winnerGctx (h_session h') = Some x \<and> \<not> sent_failure (sb_pc (h_sub h x)) \<and> waking x h'"
    and wake: "\<And>y. waking y h \<Longrightarrow> waking y h'" using t by (simp_all add: thread_ok_def)
  note le = ok[unfolded phase_ok_def, THEN conjunct2, THEN conjunct2, THEN conjunct2, THEN conjunct2, THEN conjunct2, THEN conjunct2, THEN conjunct2, THEN conjunct2, THEN conjunct1]
  note cnt = thread_counts[OF t le]
  have keep: "hs_winnerGctx (h_session h) = Some y \<Longrightarrow> hs_winnerGctx (h_session h') = Some y" for y using win by auto
  have both: "sent_count h = 2 \<Longrightarrow> hs_winnerGctx (h_session h') = hs_winnerGctx (h_session h)" using win sent_count_both by auto
  have woken: "selecting (h_main h) \<Longrightarrow> hs_winnerGctx (h_session h') = Some y \<Longrightarrow> waking y h'" for y
    using ok win wake by (auto simp: phase_ok_def)
  have old: "sub_closed (sb_pc (h_sub h y)) \<Longrightarrow> h_sub h' y = h_sub h y" for y using o[of y] nc by (cases "y = x") auto
  show ?thesis unfolding phase_ok_def m idle
  proof (intro conjI allI impI)
    show "got_count h' \<le> sent_count h'" by (rule cnt(1))
    show "sb_pc (h_sub h SideA) \<noteq> Idle" using ok by (simp add: phase_ok_def)
    show "hs_completed (h_session h') y = sub_closed (sb_pc (h_sub h' y))" for y by (rule compl)
  next
    fix r assume "h_main h = Returned (RWinner r)"
    then obtain y where "hs_winnerGctx (h_session h) = Some y" "sub_closed (sb_pc (h_sub h y))" "r = g_UpstreamError (sb_gctx (h_sub h y))"
      "h_gctx h = copy_winner (sb_gctx (h_sub h y)) base" using ok by (auto simp: phase_ok_def)
    then show "\<exists>x. hs_winnerGctx (h_session h') = Some x \<and> sub_closed (sb_pc (h_sub h' x)) \<and> r = g_UpstreamError (sb_gctx (h_sub h' x)) \<and> h_gctx h = copy_winner (sb_gctx (h_sub h' x)) base"
      using keep old by (intro exI[of _ y]) simp
  qed (use ok keep both woken cnt win in \<open>auto simp: phase_ok_def\<close>)
qed

lemma phase_ok_main:
  assumes ids: "distinct_ids ep" and w: "winner_ok ep h" and ok: "phase_ok base ep h" and st: "h' \<in> set (main_moves ep h)"
  shows "phase_ok base ep h'"
  using st
proof (cases rule: main_cases)
  case spawn
  have "sb_pc (h_sub h SideB) = Idle" "h_failures h \<le> 1" using spawn(1) ok by (auto simp: phase_ok_def)
  moreover have "sent_count (spawn_B h) = sent_count h" "got_count (spawn_B h) = got_count h"
    using calculation(1) spawn(1) by (auto simp: sent_count_def got_count_def spawn_B_def)
  ultimately show ?thesis using spawn ok by (auto simp: phase_ok_def spawn_B_def)
next
  case (terminal code g)
  have "got_count h' \<le> got_count h" "sent_count h' = sent_count h" by (simp_all add: terminal(2) got_count_def sent_count_def return_with_def)
  then show ?thesis using ok terminal(2) by (auto simp: phase_ok_def return_with_def)
next
  case disconnected
  have "got_count h' \<le> got_count h" "sent_count h' = sent_count h" by (simp_all add: disconnected(2) got_count_def sent_count_def return_with_def)
  then show ?thesis using ok disconnected(2) by (auto simp: phase_ok_def return_with_def)
next
  case (woken v ch)
  have "hs_winnerGctx (h_session h) \<noteq> None" using w woken(2) by (auto simp: winner_ok_def)
  moreover have "got_count h' = got_count h" "sent_count h' = sent_count h" using woken(1) by (auto simp: woken(3) got_count_def sent_count_def)
  ultimately show ?thesis using ok woken by (auto simp: phase_ok_def)
next
  case (first_failure e ch)
  have "got_count h' = got_count h" "sent_count h' = sent_count h" using first_failure(1,2) by (simp_all add: first_failure(3) got_count_def sent_count_def)
  then show ?thesis using ok first_failure by (auto simp: phase_ok_def)
next
  case head
  have "got_count h' = got_count h" "sent_count h' = sent_count h" using head by (simp_all add: got_count_def sent_count_def)
  then show ?thesis using ok head by (auto simp: phase_ok_def)
next
  case look
  have id: "hs_winnerID (h_session h) \<noteq> '''' \<Longrightarrow> \<exists>x. hs_winnerGctx (h_session h) = Some x \<and> hs_winnerID (h_session h) = ep_ID (ep x)"
    using w by (auto simp: winner_ok_def split: option.splits)
  have "got_count h' = got_count h" "sent_count h' = sent_count h" using look by (simp_all add: got_count_def sent_count_def)
  then show ?thesis using ok look id winner_ok_id[OF ids w] by (cases "hs_winnerID (h_session h) = ''''") (auto simp: phase_ok_def)
next
  case (got_failure e ch)
  have "got_count h' = got_count h" "sent_count h' = sent_count h" using got_failure(1,2) by (simp_all add: got_failure(3) got_count_def sent_count_def)
  then show ?thesis using ok got_failure by (auto simp: phase_ok_def)
next
  case (check e)
  have "got_count h' = got_count h" "sent_count h' = sent_count h" using check by (simp_all add: got_count_def sent_count_def)
  then show ?thesis using ok check by (auto simp: phase_ok_def)
next
  case (counted e)
  show ?thesis
  proof (cases rule: count_failure_cases[of h e])
    case ignored
    have "got_count h' \<le> got_count h" "sent_count h' = sent_count h" using counted ignored(2) by (simp_all add: got_count_def sent_count_def)
    then show ?thesis using ok counted ignored winner_ok_id[OF ids w] by (auto simp: phase_ok_def)
  next
    case more
    have "got_count h' = got_count h" "sent_count h' = sent_count h" using counted more(3) by (simp_all add: got_count_def sent_count_def)
    then show ?thesis using ok counted more winner_ok_id[OF ids w] by (auto simp: phase_ok_def)
  next
    case (both g)
    have le: "got_count h \<le> sent_count h" "h_failures h \<le> 1" using ok counted(1) by (auto simp: phase_ok_def)
    have "sent_count h \<le> 2" by (simp add: sent_count_def)
    then have "got_count h = got_count h'" "sent_count h' = 2" "got_count h' \<le> sent_count h'"
      using le counted both by (auto simp: got_count_def sent_count_def return_with_def)
    then show ?thesis using ok counted both winner_ok_id[OF ids w] by (auto simp: phase_ok_def return_with_def)
  qed
next
  case (cancel v c)
  have "got_count h' = got_count h" "sent_count h' = sent_count h" using cancel by (simp_all add: got_count_def sent_count_def)
  then show ?thesis using ok cancel by (auto simp: phase_ok_def)
next
  case (finish v x)
  have v: "v = ep_ID (ep x)" using ok finish(1,2) by (auto simp: phase_ok_def)
  have "(if v = ep_ID (ep SideA) then SideA else SideB) = x" using v distinct_idsD(1)[OF ids] by (cases x) auto
  then have "sub_closed (sb_pc (h_sub h x))" using ok finish(3) by (auto simp: phase_ok_def)
  moreover have "got_count h' \<le> got_count h" "sent_count h' = sent_count h" using finish by (simp_all add: got_count_def sent_count_def finish_race_def return_with_def Let_def)
  ultimately show ?thesis using ok finish by (auto simp: phase_ok_def finish_race_def return_with_def Let_def)
qed

subsection \<open>All runs\<close>

lemma race_inv:
  assumes ids: "distinct_ids ep" and r: "race_reach env base ep (race_init base hdrs w) h"
  shows "winner_ok ep h \<and> phase_ok base ep h"
  using r
proof (induction rule: race_reach.induct)
  case start show ?case using winner_ok_init phase_ok_init by blast
next
  case (step h h')
  have B: "h_main h = FirstSelect \<or> h_main h = FirstFailure \<Longrightarrow> sb_pc (h_sub h SideB) = Idle" using step.IH by (auto simp: phase_ok_def)
  from step.hyps(2) show ?case
  proof cases
    case main then show ?thesis using winner_ok_main[OF _ B main] phase_ok_main[OF ids _ _ main] step.IH by blast
  next
    case (sub x clk)
    then show ?thesis using winner_ok_sub[OF ids _ sub] phase_ok_thread[OF _ thread_sub[OF ids _ sub]] step.IH by blast
  next
    case (act x clk a)
    then show ?thesis using winner_ok_act[OF _ act] phase_ok_thread[OF _ thread_act[OF act]] step.IH by blast
  qed
next
  case (disconnect h)
  have "winner_ok ep (h\<lparr>h_sessionDone := True\<rparr>) = winner_ok ep h" unfolding winner_ok_def by (simp split: option.split)
  moreover have "phase_ok base ep (h\<lparr>h_sessionDone := True\<rparr>) = phase_ok base ep h"
    unfolding phase_ok_def got_count_def sent_count_def waking_def by simp
  ultimately show ?case using disconnect.IH by simp
qed

lemma winner_okD:
  "winner_ok ep h \<Longrightarrow> hs_winnerGctx (h_session h) = Some x \<Longrightarrow> started (sb_pc (h_sub h x))"
  "winner_ok ep h \<Longrightarrow> ended_well (sb_pc (h_sub h x)) \<Longrightarrow> hs_winnerGctx (h_session h) \<noteq> None"
  unfolding winner_ok_def by (auto simp del: not_None_eq)

lemma phase_okD:
  assumes "phase_ok base ep h"
  shows "sb_pc (h_sub h SideA) \<noteq> Idle"
    "running (h_main h) \<Longrightarrow> h_failures h \<le> 1"
    "running (h_main h) \<Longrightarrow> \<not> first_phase (h_main h) \<Longrightarrow> sb_pc (h_sub h SideB) = Idle \<Longrightarrow> hs_winnerGctx (h_session h) \<noteq> None"
    "winner_known (h_main h) = Some v \<Longrightarrow> \<exists>x. hs_winnerGctx (h_session h) = Some x \<and> v = ep_ID (ep x)"
    "hs_completed (h_session h) x = sub_closed (sb_pc (h_sub h x))"
    "selecting (h_main h) \<Longrightarrow> hs_winnerGctx (h_session h) = Some x \<Longrightarrow> waking x h"
    "running (h_main h) \<Longrightarrow> hs_winnerGctx (h_session h) = None \<Longrightarrow> got_count h = sent_count h"
  using assms unfolding phase_ok_def by blast+

lemma count_failure_world: "h_world (count_failure e h) = h_world h"
  by (cases rule: count_failure_cases[of h e]) (simp_all add: return_with_def)

text \<open>A sub-call that has neither ended nor been left idle can go on.\<close>

lemma sub_goes_on:
  assumes "sb_pc (h_sub h x) \<noteq> Idle" "\<not> sub_closed (sb_pc (h_sub h x))" shows "\<exists>h'. race_step env base ep h h'"
proof -
  have "\<exists>h'. sub_step env base ep x (\<lambda>_. 0) h = Some h' \<or> sub_act base ep x (\<lambda>_. 0) (ActReturn None) h = Some h'"
    using assms by (auto simp: sub_step_def sub_act_def split: sub_pc.split write_pc.split option.split)
  then show ?thesis by (blast intro: race_step.intros)
qed


text \<open>(C10) 
  A race does not deadlock: until the invoker has returned, some thread can take a step, without any disconnect. No wake-up is lost
  between the check of the winner and the wait for a signal.
\<close>

theorem race_never_stuck:
  assumes "distinct_ids ep" and "race_reach env base ep (race_init base hdrs w) h" and "running (h_main h)"
  shows "\<exists>h'. race_step env base ep h h'"
proof (rule ccontr)
  assume stuck: "\<not> ?thesis"
  have w: "winner_ok ep h" and ph: "phase_ok base ep h" using race_inv[OF assms(1,2)] by auto
  have ended: "sb_pc (h_sub h x) = Idle \<or> sub_closed (sb_pc (h_sub h x))" for x using stuck sub_goes_on[of h x env base ep] by auto
  have no: "main_moves ep h = []" using stuck race_step.main[of _ ep h env base] by (metis list.set_intros(1) neq_Nil_conv)
  have starts: "hs_winnerGctx (h_session h) = Some x \<Longrightarrow> sub_closed (sb_pc (h_sub h x))" for x
    using winner_okD(1)[OF w, of x] ended[of x] by auto
  consider "h_main h = SelectAgain" | v where "h_main h = AwaitWinner v"
    using no assms(3) by (cases "h_main h") (auto simp: main_moves_def)
  then show False
  proof cases
    case 1
    have chans: "hs_winnerChan (h_session h) = []" "hs_failuresChan (h_session h) = []"
      using no 1 by (auto simp: main_moves_def recv_winner_def recv_failure_def split: list.splits)
    show False
    proof (cases "hs_winnerGctx (h_session h)")
      case (Some x)
      then have "waking x h" using phase_okD(6)[OF ph] 1 by simp
      then show False using chans(1) ended[of x] by (auto simp: waking_def)
    next
      case None
      have "sb_pc (h_sub h SideA) \<noteq> Idle" "sb_pc (h_sub h SideB) \<noteq> Idle" using phase_okD(1,3)[OF ph] 1 None by auto
      then have cl: "sub_closed (sb_pc (h_sub h x))" for x using ended[of x] by (cases x) auto
      have "sent_failure (sb_pc (h_sub h x))" for x
      proof -
        have nw: "\<not> ended_well (sb_pc (h_sub h x))" using winner_okD(2)[OF w, of x] None by auto
        obtain r where r: "sb_pc (h_sub h x) = Closed r" using cl[of x] by (cases "sb_pc (h_sub h x)") auto
        then show ?thesis using nw by (cases r) auto
      qed
      then have "sent_count h = 2" by (simp add: sent_count_def)
      moreover have "got_count h = sent_count h" "h_failures h \<le> 1" using phase_okD(2,7)[OF ph] 1 None by auto
      ultimately show False using chans(2) 1 by (simp add: got_count_def)
    qed
  next
    case 2
    then obtain x where x: "hs_winnerGctx (h_session h) = Some x" "v = ep_ID (ep x)" using phase_okD(4)[OF ph, of v] by auto
    have "hs_completed (h_session h) x" using starts[OF x(1)] phase_okD(5)[OF ph] by simp
    moreover have "(if v = ep_ID (ep SideA) then SideA else SideB) = x" using x(2) distinct_idsD(1)[OF assms(1)] by (cases x) auto
    ultimately show False using no 2 x(1) by (simp add: main_moves_def)
  qed
qed

text \<open>The breakers stay sound through a hedged call, whatever the interleaving of its permits and outcomes.\<close>

theorem hedging_keeps_breakers_sound:
  assumes "cbm_inv (w_cbm w)" and "race_reach env base ep (race_init base hdrs w) h"
  shows "cbm_inv (w_cbm (h_world h))"
  using assms(2)
proof (induction rule: race_reach.induct)
  case start show ?case using assms(1) by (simp add: race_init_def Let_def)
next
  case (step h h')
  have main: "k \<in> set (main_moves ep h) \<Longrightarrow> h_world k = h_world h" for k
    by (erule main_cases) (simp_all add: spawn_B_def return_with_def finish_race_def Let_def count_failure_world)
  from step.hyps(2) show ?case
  proof cases
    case main then show ?thesis using \<open>\<And>k. _ \<Longrightarrow> h_world k = _\<close> step.IH by metis
  next
    case (act x clk a)
    have "h_world h' = h_world h" using act by (cases rule: sub_act_cases) (auto simp: sub_return_def Let_def)
    then show ?thesis using step.IH by simp
  next
    case (sub x clk)
    then show ?thesis
    proof (cases rule: sub_step_cases)
      case enter then show ?thesis using AcquireAttempt_inv step.IH by (metis World.select_convs(1) World.surjective World.update_convs(1) hedge.select_convs(1) hedge.surjective hedge.update_convs(1) sub_begin_cases sub_simps(7))
    next
      case (outcome l r) then show ?thesis using attempt_finish_inv step.IH by (cases r) (auto simp: sub_outcome_def hedgedOutcome_def)
    qed (use step.IH in \<open>auto simp: write_claim_def write_announce_def Let_def\<close>)
  qed
qed simp

subsection \<open>The endpoints of a hedged call\<close>

lemma hedge_lb_choose: "hedge_lb env g = Some lb \<Longrightarrow> \<exists>n. choose_lb env g = Some (n, lb)"
  by (auto simp: hedge_lb_def choose_lb_def Let_def split: option.splits)

context cluster_env
begin

lemma prepare_sound:
  assumes "hedge_prepare env serial g w = (r, g', w')" "cbm_inv (w_cbm w)" shows "cbm_inv (w_cbm w')"
proof (cases "ce_List env 0 g")
  case (Inr found)
  have "cbm_inv (snd (router_chain (ce_routers env 0 g) found (w_cbm w)))" using chain_sound[of _ 0 g] assms(2) by simp
  then show ?thesis using assms(1) Inr by (auto simp: hedge_prepare_def Let_def split_beta split: if_splits option.splits)
qed (use assms in \<open>auto simp: hedge_prepare_def\<close>)

lemma prepare_distinct:
  assumes "hedge_prepare env serial g w = (StartRace a b, g', w')"
  obtains eps where "ce_List env 0 g = Inr eps" "a \<in> set eps" "b \<in> set eps" "ep_ID a \<noteq> ep_ID b"
proof -
  obtain found where f: "ce_List env 0 g = Inr found" using assms by (auto simp: hedge_prepare_def split: sum.splits)
  obtain eps m where c: "router_chain (ce_routers env 0 g) found (w_cbm w) = (eps, m)" by (metis surj_pair)
  have "subseq eps found" using router_chain_subseq[of "ce_routers env 0 g" found "w_cbm w"] routers_narrow c by simp
  then have sub: "set eps \<subseteq> set found" by (auto elim: list_emb_set)
  obtain l1 where s: "selectTwoEndpoints env eps g (w_lb w) = (Some a, Some b, g', l1)"
    using assms f c by (auto simp: hedge_prepare_def Let_def split: if_splits prod.splits option.splits)
  obtain lb where lb: "hedge_lb env g = Some lb" using s by (auto simp: selectTwoEndpoints_def split: option.splits)
  obtain n where n: "choose_lb env g = Some (n, lb)" using hedge_lb_choose[OF lb] by blast
  note mem = balancer_in[OF n]
  obtain x g1 l2 where x: "lb g eps (w_lb w) = (x, g1, l2)" by (metis surj_pair)
  have xa: "x = Some a" using s lb x by (cases x) (auto simp: selectTwoEndpoints_def Let_def split: if_splits prod.splits)
  have b: "fst (lb g1 (filter (\<lambda>ep. ep_ID ep \<noteq> ep_ID a) eps) l2) = Some b"
    using s lb x xa by (auto simp: selectTwoEndpoints_def Let_def split: if_splits prod.splits)
  have "a \<in> set eps" using mem[of g eps "w_lb w" a] x xa by simp
  moreover have "b \<in> set (filter (\<lambda>ep. ep_ID ep \<noteq> ep_ID a) eps)" using mem[OF b] .
  ultimately show ?thesis using sub by (intro that[OF f]) auto
qed

end

text \<open>(C9) 
  A hedged request of the gateway, from discovery to the last byte: its two endpoints are different ones of those discovered, and in every
  interleaving the client reads the body of one of them only.
\<close>

theorem hedged_request_answers_once:
  assumes "env = gateway_env discovery kinds defaultLB prov repl ext parseDuration scan avg active retry now"
    and "discovery 0 g = Inr eps" and "\<forall>ep\<in>set eps. ep_ID ep \<noteq> ''''"
    and "hedge_prepare env serial g w = (StartRace a b, g', w')"
    and "race_reach env base (case_side a b) (race_init base hdrs w') h"
  shows "a \<in> set eps \<and> b \<in> set eps \<and> ep_ID a \<noteq> ep_ID b \<and> (\<forall>y p. OutBody y p \<in> set (h_out h) \<longrightarrow> hs_winnerGctx (h_session h) = Some y)"
proof -
  obtain eps' where e: "ce_List env 0 g = Inr eps'" "a \<in> set eps'" "b \<in> set eps'" "ep_ID a \<noteq> ep_ID b"
    using gw.prepare_distinct[OF assms(4)[unfolded assms(1)]] assms(1) by metis
  have "eps' = eps" using e(1) assms(1,2) by (simp add: gateway_env_def)
  then have "distinct_ids (case_side a b)" using e assms(3) by (simp add: distinct_ids_def)
  then show ?thesis using race_inv[OF _ assms(5)] e \<open>eps' = eps\<close> unfolding winner_ok_def by blast
qed

subsection \<open>Concrete races\<close>

text \<open>A schedule names the thread of each step; the moves of the invoker are numbered.\<close>

datatype move = MainMove nat | SubMove side | ActMove side provider_act

definition run_move :: "'l ClusterEnv \<Rightarrow> HedgeContext \<Rightarrow> (side \<Rightarrow> Endpoint) \<Rightarrow> move \<Rightarrow> 'l hedge \<Rightarrow> 'l hedge option" where
  "run_move env base ep mv h = (case mv of
     MainMove i \<Rightarrow> (let ms = main_moves ep h in if i < length ms then Some (ms ! i) else None)
   | SubMove x \<Rightarrow> sub_step env base ep x (\<lambda>_. 0) h
   | ActMove x a \<Rightarrow> sub_act base ep x (\<lambda>_. 0) a h)"

fun run_moves :: "'l ClusterEnv \<Rightarrow> HedgeContext \<Rightarrow> (side \<Rightarrow> Endpoint) \<Rightarrow> move list \<Rightarrow> 'l hedge \<Rightarrow> 'l hedge option" where
  "run_moves env base ep [] h = Some h"
| "run_moves env base ep (m # ms) h = (case run_move env base ep m h of None \<Rightarrow> None | Some h' \<Rightarrow> run_moves env base ep ms h')"

lemma run_move_step: "run_move env base ep m h = Some h' \<Longrightarrow> race_step env base ep h h'"
  by (cases m) (auto simp: run_move_def Let_def split: if_splits intro: race_step.intros nth_mem)

lemma run_moves_reach: "race_reach env base ep h0 h \<Longrightarrow> run_moves env base ep ms h = Some h' \<Longrightarrow> race_reach env base ep h0 h'"
proof (induction ms arbitrary: h)
  case (Cons m ms)
  then obtain k where "run_move env base ep m h = Some k" "run_moves env base ep ms k = Some h'" by (auto split: option.splits)
  then show ?case using Cons.IH Cons.prems(1) race_reach.step run_move_step by metis
qed simp

definition demo_pair :: "side \<Rightarrow> Endpoint" where
  "demo_pair x = (case x of SideA \<Rightarrow> zero_endpoint\<lparr>ep_ID := ''a'', ep_ProviderImpl := Some 0\<rparr> | SideB \<Rightarrow> zero_endpoint\<lparr>ep_ID := ''b'', ep_ProviderImpl := Some 1\<rparr>)"

definition demo_hedge_env :: "unit ClusterEnv" where
  "demo_hedge_env = \<lparr>ce_List = (\<lambda>_ _. Inr [demo_pair SideA, demo_pair SideB]), ce_routers = (\<lambda>_ _. []), ce_LBs = Map.empty, ce_anyLB = None, ce_defaultLB = '''',
     ce_provider = (\<lambda>_ g. (None, g)), ce_replace = (\<lambda>b _. b), ce_ext = literal_externals, ce_parseDuration = (\<lambda>_. None), ce_enableActive = False,
     ce_retry = DefaultRetryStrategy, ce_now = (\<lambda>_ _. 0)\<rparr>"

definition demo_base :: HedgeContext where
  "demo_base = GatewayContext.extend zero_context
     (HedgeContext.fields False [] 0 0 0 0 0 0 None)"

definition demo_hedge_world :: "unit World" where
  "demo_hedge_world = \<lparr>w_cbm = NewCircuitBreakerManager, w_store = NewMemoryStateStore, w_lb = (), w_History = []\<rparr>"

abbreviation demo_run_of :: "move list \<Rightarrow> unit hedge option" where
  "demo_run_of ms \<equiv> run_moves demo_hedge_env demo_base demo_pair ms (race_init demo_base (\<lambda>_. []) demo_hedge_world)"

text \<open>The second call starts after the delay and answers first.\<close>

definition demo_b_wins :: "move list" where
  "demo_b_wins = [SubMove SideA, MainMove 0, SubMove SideB, ActMove SideB (ActWrite ''hi''), SubMove SideB, SubMove SideB, SubMove SideB,
     ActMove SideA (ActWrite ''late''), SubMove SideA, ActMove SideB (ActReturn None), SubMove SideB, SubMove SideB, SubMove SideB,
     MainMove 0, MainMove 0, MainMove 0, MainMove 0]"

lemma demo_b_wins_run: "map_option (\<lambda>h. (h_out h, h_main h)) (demo_run_of demo_b_wins) = Some ([OutStatus SideB 200, OutBody SideB ''hi''], Returned (RWinner None))"
  by code_simp

lemma demo_ids: "distinct_ids demo_pair"
  by (simp add: distinct_ids_def demo_pair_def)

lemma demo_reach: "demo_run_of ms = Some h \<Longrightarrow> race_reach demo_hedge_env demo_base demo_pair (race_init demo_base (\<lambda>_. []) demo_hedge_world) h"
  using run_moves_reach race_reach.start by metis


theorem race_never_stuck_witness:
  "\<exists>h h'. demo_run_of (take 9 demo_b_wins) = Some h \<and> h_main h = LoopHead \<and> race_step demo_hedge_env demo_base demo_pair h h'"
proof -
  have "map_option h_main (demo_run_of (take 9 demo_b_wins)) = Some LoopHead" by code_simp
  then obtain h where h: "demo_run_of (take 9 demo_b_wins) = Some h" "h_main h = LoopHead" by auto
  show ?thesis using race_never_stuck[OF demo_ids demo_reach[OF h(1)]] h by auto
qed

theorem hedging_keeps_breakers_sound_witness: "\<exists>h. demo_run_of demo_b_wins = Some h \<and> cbm_inv (w_cbm (h_world h))"
proof -
  have inv: "cbm_inv (w_cbm demo_hedge_world)" by (simp add: demo_hedge_world_def NewCircuitBreakerManager_def cbm_inv_def)
  obtain h where h: "demo_run_of demo_b_wins = Some h" using demo_b_wins_run by auto
  show ?thesis using hedging_keeps_breakers_sound[OF inv demo_reach[OF h]] h by auto
qed

subsection \<open>What the race does not prevent\<close>

text \<open>
  Only \<open>Write\<close> is guarded. A status a sub-call sets goes straight to the client's writer: here the loser's 502 comes before the
  winner's answer.
\<close>

lemma loser_sets_the_status:
  "map_option h_out (demo_run_of [SubMove SideA, MainMove 0, SubMove SideB, ActMove SideA (ActStatus 502), ActMove SideB (ActWrite ''hi''), SubMove SideB, SubMove SideB, SubMove SideB])
   = Some [OutStatus SideA 502, OutStatus SideB 200, OutBody SideB ''hi'']"
  by code_simp

text \<open>A sub-call that writes its upstream's error as a body before it fails wins the race, and the call returns that error without a second call.\<close>

lemma failing_call_wins:
  "map_option (\<lambda>h. (h_out h, h_main h, started (sb_pc (h_sub h SideB))))
     (demo_run_of [SubMove SideA, ActMove SideA (ActWrite ''error''), SubMove SideA, SubMove SideA, SubMove SideA, MainMove 1,
        ActMove SideA (ActReturn (Some (UpstreamFailed ''status 500'' False))), SubMove SideA, SubMove SideA, SubMove SideA, SubMove SideA, SubMove SideA,
        MainMove 0, MainMove 0, MainMove 0, MainMove 0])
   = Some ([OutStatus SideA 200, OutBody SideA ''error''], Returned (RWinner (Some ''status 500'')), False)"
  by code_simp

text \<open>The second call may start although the first has already won: the first wait can pick the failure before the winner's signal.\<close>

lemma second_call_after_win:
  "map_option (\<lambda>h. (hs_winnerGctx (h_session h), started (sb_pc (h_sub h SideB))))
     (demo_run_of [SubMove SideA, ActMove SideA (ActWrite ''x''), SubMove SideA, SubMove SideA, SubMove SideA,
        ActMove SideA (ActReturn (Some (UpstreamFailed ''reset'' False))), SubMove SideA, SubMove SideA, SubMove SideA, MainMove 2, MainMove 0, SubMove SideB])
   = Some (Some SideA, True)"
  by code_simp

text \<open>The winner's announcement doubles every header that is already set, except the three it replaces.\<close>

lemma announced_headers_doubled:
  "k \<notin> {''Content-Type'', ''Cache-Control'', ''Connection''} \<Longrightarrow> announce_headers hdrs k = hdrs k @ hdrs k"
  by (simp add: announce_headers_def)

text \<open>The gateway's two demonstration endpoints in a race of their own.\<close>

theorem hedged_request_answers_once_witness:
  "\<exists>a b g' w'. hedge_prepare demo_env True zero_context demo_world = (StartRace a b, g', w') \<and> a \<in> set demo_two \<and> b \<in> set demo_two \<and> ep_ID a \<noteq> ep_ID b"
proof -
  have "(case fst (hedge_prepare demo_env True zero_context demo_world) of StartRace a b \<Rightarrow> True | _ \<Rightarrow> False)" by code_simp
  then obtain a b where "fst (hedge_prepare demo_env True zero_context demo_world) = StartRace a b" by (auto split: hedge_start.splits)
  then obtain g' w' where p: "hedge_prepare demo_env True zero_context demo_world = (StartRace a b, g', w')" by (metis prod.collapse)
  have "\<forall>ep\<in>set demo_two. ep_ID ep \<noteq> ''''" by (simp add: demo_two_def)
  from hedged_request_answers_once[OF demo_env_def refl this p race_reach.start] p show ?thesis by blast
qed

end
