(* ===== verification/Json.thy ===== *)
theory Json
  imports Gateway_Types
begin

text \<open>
  JSON values as \<open>encoding/json\<close> decodes them into \<open>interface{}\<close>: a number is a \<open>float64\<close>, an object a map, kept as the list of its
  entries with one entry per key. Encoding and decoding themselves are not modelled: a component that decodes text takes the decoded
  value, and one that encodes gives the value it encodes.
\<close>

datatype json = JNull | JBool bool | JNum rat | JStr string | JArr "json list" | JObj "(string \<times> json) list"

text \<open>An integer as it is written.\<close>

definition JInt :: "int \<Rightarrow> json" where
  "JInt n = JNum (of_int n)"

text \<open>\<open>m[k]\<close> of a decoded object, and the type assertions the translators use; all give \<open>None\<close> where the source gets the zero value.\<close>

definition jget :: "string \<Rightarrow> json \<Rightarrow> json option" where
  "jget k j = (case j of JObj kvs \<Rightarrow> map_of kvs k | _ \<Rightarrow> None)"

definition jobj :: "json option \<Rightarrow> json option" where
  "jobj v = (case v of Some (JObj kvs) \<Rightarrow> Some (JObj kvs) | _ \<Rightarrow> None)"

definition jstr :: "json option \<Rightarrow> string" where
  "jstr v = (case v of Some (JStr s) \<Rightarrow> s | _ \<Rightarrow> '''')"

definition jnum :: "json option \<Rightarrow> rat option" where
  "jnum v = (case v of Some (JNum r) \<Rightarrow> Some (fl64 r) | _ \<Rightarrow> None)"

definition jlist :: "json option \<Rightarrow> json list option" where
  "jlist v = (case v of Some (JArr js) \<Rightarrow> Some js | _ \<Rightarrow> None)"

lemma jget_JObj [simp]: "jget k (JObj kvs) = map_of kvs k"
  by (simp add: jget_def)

lemma jaccess_simps [simp]:
  "jobj (Some (JObj kvs)) = Some (JObj kvs)" "jobj None = None" "jstr (Some (JStr s)) = s" "jstr None = ''''"
  "jnum None = None" "jlist (Some (JArr js)) = Some js" "jlist None = None"
  by (simp_all add: jobj_def jstr_def jnum_def jlist_def)

end
