(* ===== verification/Tool_Names.thy ===== *)
theory Tool_Names
  imports Error_Policy
begin

text \<open>
  The tool name mapper of \<open>src/pkg/llm/translate/tool_name_mapper.go\<close> and the id helpers of \<open>helpers.go\<close>. Strings are
  the bytes of Go strings; where the source ranges over runes the model decodes UTF-8 as Go does.
\<close>

subsection \<open>The mapper\<close>

record ToolNameMapper =
  tm_forward :: "string \<rightharpoonup> string"
  tm_reverse :: "string \<rightharpoonup> string \<times> string"
  tm_used :: "string list"
  tm_customTools :: "string set"

definition NewToolNameMapper :: ToolNameMapper where
  "NewToolNameMapper = \<lparr>tm_forward = Map.empty, tm_reverse = Map.empty, tm_used = [], tm_customTools = {}\<rparr>"

definition safe_char :: "char \<Rightarrow> bool" where
  "safe_char c = (let n = of_char c :: nat in 97 \<le> n \<and> n \<le> 122 \<or> 65 \<le> n \<and> n \<le> 90 \<or> 48 \<le> n \<and> n \<le> 57 \<or> n = 95 \<or> n = 45)"

text \<open>The number of bytes of the first rune; a byte that starts no valid encoding is a rune of its own.\<close>

definition rune_len :: "string \<Rightarrow> nat" where
  "rune_len s = (let b = (\<lambda>i. if i < length s then of_char (s ! i) else 0 :: nat);
       tail = (\<lambda>i. 0x80 \<le> b i \<and> b i \<le> 0xBF);
       b0 = b 0
     in if 0xC2 \<le> b0 \<and> b0 \<le> 0xDF \<and> tail 1 then 2
        else if 0xE0 \<le> b0 \<and> b0 \<le> 0xEF \<and> tail 1 \<and> (b0 = 0xE0 \<longrightarrow> 0xA0 \<le> b 1) \<and> (b0 = 0xED \<longrightarrow> b 1 \<le> 0x9F) \<and> tail 2 then 3
        else if 0xF0 \<le> b0 \<and> b0 \<le> 0xF4 \<and> tail 1 \<and> (b0 = 0xF0 \<longrightarrow> 0x90 \<le> b 1) \<and> (b0 = 0xF4 \<longrightarrow> b 1 \<le> 0x8F) \<and> tail 2 \<and> tail 3 then 4
        else 1)"

lemma rune_len_pos: "rune_len s = Suc (rune_len s - 1)"
  by (simp add: rune_len_def Let_def)

text \<open>Every rune that is no letter, digit, underscore or hyphen becomes one underscore.\<close>

fun sanitizeToolName :: "string \<Rightarrow> string" where
  "sanitizeToolName [] = []"
| "sanitizeToolName (c # s) = (if safe_char c then c else CHR ''_'') # sanitizeToolName (drop (rune_len (c # s) - 1) s)"

text \<open>The search for a free suffix, from \<open>i\<close> on; it stops because only finitely many names are used.\<close>

definition with_suffix :: "string \<Rightarrow> nat \<Rightarrow> string" where
  "with_suffix base i = base @ ''_'' @ itoa (int i)"

lemma with_suffix_inj: "with_suffix base i = with_suffix base j \<longleftrightarrow> i = j"
  by (simp add: with_suffix_def)

lemma finite_taken: "finite {n. i \<le> n \<and> with_suffix base n \<in> set used}"
proof -
  have "finite (with_suffix base -` set used)" by (rule finite_vimageI) (auto simp: inj_def with_suffix_inj)
  then show ?thesis by (rule finite_subset[rotated]) auto
qed

function free_suffix :: "string list \<Rightarrow> string \<Rightarrow> nat \<Rightarrow> string" where
  "free_suffix used base i = (let candidate = with_suffix base i in if candidate \<notin> set used then candidate else free_suffix used base (Suc i))"
  by pat_completeness auto

termination
proof (relation "measure (\<lambda>(used, base, i). card {n. i \<le> n \<and> with_suffix base n \<in> set used})")
  fix used base i and candidate :: string
  assume "candidate = with_suffix base i" "\<not> candidate \<notin> set used"
  then have "i \<in> {n. i \<le> n \<and> with_suffix base n \<in> set used}" by simp
  moreover have "i \<notin> {n. Suc i \<le> n \<and> with_suffix base n \<in> set used}" by simp
  moreover have "{n. Suc i \<le> n \<and> with_suffix base n \<in> set used} \<subseteq> {n. i \<le> n \<and> with_suffix base n \<in> set used}" by auto
  ultimately have "{n. Suc i \<le> n \<and> with_suffix base n \<in> set used} \<subset> {n. i \<le> n \<and> with_suffix base n \<in> set used}" by blast
  from psubset_card_mono[OF finite_taken this]
  show "((used, base, Suc i), used, base, i) \<in> measure (\<lambda>(used, base, i). card {n. i \<le> n \<and> with_suffix base n \<in> set used})" by simp
qed simp

declare free_suffix.simps [simp del]

definition tool_key :: "string \<Rightarrow> string \<Rightarrow> string" where
  "tool_key namespace name = namespace @ [CHR 0x00] @ name"

definition SanitizeAndRegister :: "string \<Rightarrow> string \<Rightarrow> ToolNameMapper \<Rightarrow> string \<times> ToolNameMapper" where
  "SanitizeAndRegister namespace name m =
     (case tm_forward m (tool_key namespace name) of Some s \<Rightarrow> (s, m)
      | None \<Rightarrow>
          let full = (if namespace \<noteq> '''' then namespace @ ''.'' @ name else name);
              s0 = sanitizeToolName full;
              s = (if s0 \<in> set (tm_used m) then free_suffix (tm_used m) s0 2 else s0)
          in (s, m\<lparr>tm_forward := (tm_forward m)(tool_key namespace name \<mapsto> s), tm_reverse := (tm_reverse m)(s \<mapsto> (namespace, name)),
                  tm_used := s # tm_used m\<rparr>))"

text \<open>The split at the last dot, when something stands on both sides of it.\<close>

definition splitChatToolName :: "string \<Rightarrow> string \<times> string" where
  "splitChatToolName name =
     (let local' = rev (takeWhile (\<lambda>c. c \<noteq> CHR ''.'') (rev name)); idx = int (length name) - int (length local') - 1
      in if 0 < idx \<and> idx < int (length name) - 1 then (take (nat idx) name, local') else ('''', name))"

definition Restore :: "string \<Rightarrow> ToolNameMapper \<Rightarrow> string \<times> string" where
  "Restore sanitized m = (case tm_reverse m sanitized of Some e \<Rightarrow> e | None \<Rightarrow> splitChatToolName sanitized)"

definition RegisterCustom :: "string \<Rightarrow> ToolNameMapper \<Rightarrow> ToolNameMapper" where
  "RegisterCustom name m = m\<lparr>tm_customTools := insert name (tm_customTools m)\<rparr>"

text \<open>The mapper may be nil.\<close>

definition IsCustom :: "string \<Rightarrow> ToolNameMapper option \<Rightarrow> bool" where
  "IsCustom name m = (name = ''apply_patch'' \<or> (case m of None \<Rightarrow> False | Some t \<Rightarrow> name \<in> tm_customTools t))"

subsection \<open>Ids\<close>

definition trim_prefix :: "string \<Rightarrow> string \<Rightarrow> string" where
  "trim_prefix p s = (if prefix p s then drop (length p) s else s)"

definition NormalizeAnthropicID :: "string \<Rightarrow> string" where
  "NormalizeAnthropicID toolID =
     (if toolID = '''' then ''msg_mockprobe1234567890''
      else let orig = (if prefix ''chatcmpl-'' toolID then drop 9 toolID else if prefix ''msg_'' toolID then drop 4 toolID else toolID);
               res = ''msg_'' @ filter (\<lambda>c. safe_char c \<and> c \<noteq> CHR ''_'' \<and> c \<noteq> CHR ''-'') orig
           in if length res \<le> 4 then ''msg_mockprobe1234567890'' else res)"

definition NormalizeToolUseID :: "string \<Rightarrow> string" where
  "NormalizeToolUseID toolID =
     (if toolID = '''' then ''toolu_mock'' else if prefix ''toolu_'' toolID then toolID
      else ''toolu_'' @ trim_prefix ''toolu-'' (trim_prefix ''call_'' toolID))"

definition EnsureFunctionCallItemID :: "string \<Rightarrow> string" where
  "EnsureFunctionCallItemID toolID =
     (if toolID = '''' then ''fc_mock'' else if prefix ''fc_'' toolID then toolID
      else let res = trim_prefix ''toolu-'' (trim_prefix ''toolu_'' (trim_prefix ''call_'' toolID))
           in if res = '''' then ''fc_mock'' else ''fc_'' @ res)"

definition EnsureCustomToolCallItemID :: "string \<Rightarrow> string" where
  "EnsureCustomToolCallItemID toolID =
     (if toolID = '''' then ''ctc_mock'' else if prefix ''ctc_'' toolID then toolID
      else let res = trim_prefix ''toolu-'' (trim_prefix ''toolu_'' (trim_prefix ''fc_'' (trim_prefix ''call_'' toolID)))
           in if res = '''' then ''ctc_mock'' else ''ctc_'' @ res)"

text \<open>Normalizing an id twice changes nothing more.\<close>

lemma normalized_ids_stable:
  "NormalizeToolUseID (NormalizeToolUseID toolID) = NormalizeToolUseID toolID"
  "EnsureFunctionCallItemID (EnsureFunctionCallItemID toolID) = EnsureFunctionCallItemID toolID"
  "EnsureCustomToolCallItemID (EnsureCustomToolCallItemID toolID) = EnsureCustomToolCallItemID toolID"
  by (auto simp: NormalizeToolUseID_def EnsureFunctionCallItemID_def EnsureCustomToolCallItemID_def Let_def)

lemma filter_stable: "\<forall>c\<in>set xs. P c \<Longrightarrow> filter P xs = xs"
  by simp

lemma NormalizeAnthropicID_stable: "NormalizeAnthropicID (NormalizeAnthropicID toolID) = NormalizeAnthropicID toolID"
proof -
  have mock: "NormalizeAnthropicID ''msg_mockprobe1234567890'' = ''msg_mockprobe1234567890''" by code_simp
  have "NormalizeAnthropicID (''msg_'' @ xs) = ''msg_'' @ xs" if "xs \<noteq> []" "filter (\<lambda>c. safe_char c \<and> c \<noteq> CHR ''_'' \<and> c \<noteq> CHR ''-'') xs = xs" for xs
    using that by (simp add: NormalizeAnthropicID_def)
  then show ?thesis using mock
    by (subst (2) NormalizeAnthropicID_def, subst (2) NormalizeAnthropicID_def) (simp add: Let_def)
qed

subsection \<open>Restoring names\<close>

lemma free_suffix_free: "\<exists>k. free_suffix used base i = with_suffix base k \<and> with_suffix base k \<notin> set used"
  by (induction used base i rule: free_suffix.induct) (subst free_suffix.simps, auto simp: Let_def)

lemma digit_safe: "x < 10 \<Longrightarrow> safe_char (char_of (48 + x))" for x :: nat
  by (simp add: safe_char_def of_char_of)

lemma nat_digits_safe: "list_all safe_char (nat_digits k)"
proof (induction k rule: nat_digits.induct)
  case (1 k)
  then show ?case using digit_safe[of k] digit_safe[of "k mod 10"] by (subst nat_digits.simps) auto
qed

lemma itoa_safe: "0 \<le> n \<Longrightarrow> list_all safe_char (itoa n)"
  by (simp add: itoa_def nat_digits_safe)

lemma sanitize_safe: "list_all safe_char (sanitizeToolName s)"
proof -
  have "safe_char CHR ''_''" by (simp add: safe_char_def)
  then show ?thesis by (induction s rule: sanitizeToolName.induct) simp_all
qed

definition mapper_ok :: "ToolNameMapper \<Rightarrow> bool" where
  "mapper_ok m \<longleftrightarrow> (\<forall>s\<in>set (tm_used m). list_all safe_char s)
     \<and> (\<forall>k s. tm_forward m k = Some s \<longrightarrow> s \<in> set (tm_used m) \<and> (\<exists>ns n. k = tool_key ns n \<and> CHR 0x00 \<notin> set ns \<and> tm_reverse m s = Some (ns, n)))"

lemma tool_key_inj:
  assumes "CHR 0x00 \<notin> set a" "CHR 0x00 \<notin> set c" "tool_key a b = tool_key c d"
  shows "a = c \<and> b = d"
proof -
  have tw: "takeWhile (\<lambda>x. x \<noteq> CHR 0x00) (tool_key x y) = x" if "CHR 0x00 \<notin> set x" for x y
    using that by (induction x) (auto simp: tool_key_def)
  from tw[OF assms(1), of b] tw[OF assms(2), of d] assms(3) have "a = c" by simp
  with assms(3) show ?thesis by (simp add: tool_key_def)
qed

lemma register_ok:
  assumes "mapper_ok m" "CHR 0x00 \<notin> set ns" "SanitizeAndRegister ns n m = (s, m')"
  shows "mapper_ok m' \<and> tm_forward m' (tool_key ns n) = Some s \<and> tm_reverse m' s = Some (ns, n) \<and> list_all safe_char s
    \<and> (\<forall>k t. tm_forward m k = Some t \<longrightarrow> tm_forward m' k = Some t)"
proof (cases "tm_forward m (tool_key ns n)")
  case (Some t)
  then have m: "s = t" "m' = m" using assms(3) by (auto simp: SanitizeAndRegister_def)
  from assms(1) Some obtain ns' n' where t: "tool_key ns n = tool_key ns' n'" "CHR 0x00 \<notin> set ns'" "tm_reverse m t = Some (ns', n')" "t \<in> set (tm_used m)"
    unfolding mapper_ok_def by blast
  have "tm_reverse m t = Some (ns, n)" using tool_key_inj[OF assms(2) t(2,1)] t(3) by simp
  moreover have "list_all safe_char t" using assms(1) t(4) by (simp add: mapper_ok_def)
  ultimately show ?thesis using m Some assms(1) by simp
next
  case None
  define s0 where "s0 = sanitizeToolName (if ns \<noteq> '''' then ns @ ''.'' @ n else n)"
  have s: "s = (if s0 \<in> set (tm_used m) then free_suffix (tm_used m) s0 2 else s0)"
    and m': "m' = m\<lparr>tm_forward := (tm_forward m)(tool_key ns n \<mapsto> s), tm_reverse := (tm_reverse m)(s \<mapsto> (ns, n)), tm_used := s # tm_used m\<rparr>"
    using assms(3) None by (auto simp: SanitizeAndRegister_def s0_def Let_def)
  obtain k where k: "free_suffix (tm_used m) s0 2 = with_suffix s0 k" "with_suffix s0 k \<notin> set (tm_used m)" using free_suffix_free by blast
  have fresh: "s \<notin> set (tm_used m)" using s k by auto
  have "safe_char CHR ''_''" by (simp add: safe_char_def)
  then have safe: "list_all safe_char s" using s k(1) sanitize_safe[of "if ns \<noteq> '''' then ns @ ''.'' @ n else n"] itoa_safe[of "int k"]
    by (auto simp: s0_def with_suffix_def)
  have "mapper_ok m'" using assms(1,2) fresh safe unfolding m' mapper_ok_def by auto
  then show ?thesis using m' safe None by auto
qed

fun register_all :: "(string \<times> string) list \<Rightarrow> ToolNameMapper \<Rightarrow> ToolNameMapper" where
  "register_all [] m = m"
| "register_all ((ns, n) # ps) m = register_all ps (snd (SanitizeAndRegister ns n m))"

lemma register_all_ok:
  assumes "mapper_ok m" "\<forall>(ns, n)\<in>set ps. CHR 0x00 \<notin> set ns"
  shows "mapper_ok (register_all ps m) \<and> (\<forall>k t. tm_forward m k = Some t \<longrightarrow> tm_forward (register_all ps m) k = Some t)
    \<and> (\<forall>(ns, n)\<in>set ps. tm_forward (register_all ps m) (tool_key ns n) \<noteq> None)"
  using assms
proof (induction ps arbitrary: m)
  case (Cons p ps)
  obtain ns n where p: "p = (ns, n)" by fastforce
  obtain s m' where r: "SanitizeAndRegister ns n m = (s, m')" by fastforce
  from register_ok[OF Cons.prems(1) _ r] Cons.prems(2) p
  have m': "mapper_ok m'" "tm_forward m' (tool_key ns n) = Some s" "\<forall>k t. tm_forward m k = Some t \<longrightarrow> tm_forward m' k = Some t" by auto
  with Cons.IH[OF m'(1)] Cons.prems(2) p r show ?case by auto
qed simp

text \<open>(C30) Tool names survive the round trip: after any tools have been registered (their namespaces free of NUL), the safe name of
  each uses only letters, digits, underscore and hyphen, registering it again gives the same name, and restoring the name gives
  back the namespace and the name; so different tools have different safe names.\<close>

theorem tool_names_restored:
  assumes "\<forall>(ns, n)\<in>set ps. CHR 0x00 \<notin> set ns" "(ns, n) \<in> set ps" "SanitizeAndRegister ns n (register_all ps NewToolNameMapper) = (s, m)"
  shows "m = register_all ps NewToolNameMapper \<and> list_all safe_char s \<and> Restore s m = (ns, n)"
proof -
  have "mapper_ok NewToolNameMapper" by (simp add: mapper_ok_def NewToolNameMapper_def)
  from register_all_ok[OF this assms(1)] assms(2)
  have ok: "mapper_ok (register_all ps NewToolNameMapper)" and f: "tm_forward (register_all ps NewToolNameMapper) (tool_key ns n) \<noteq> None" by auto
  have "CHR 0x00 \<notin> set ns" using assms(1,2) by auto
  note r = register_ok[OF ok this assms(3)]
  have "m = register_all ps NewToolNameMapper" using f assms(3) by (auto simp only: SanitizeAndRegister_def split: option.splits)
  with r show ?thesis by (simp add: Restore_def)
qed

text \<open>The key joins namespace and name with NUL, so a namespace that contains one can take over the entry of another tool.\<close>

lemma nul_namespace_collides: "tool_key (a @ [CHR 0x00] @ b) c = tool_key a (b @ [CHR 0x00] @ c)"
  by (simp add: tool_key_def)

theorem tool_names_restored_witness:
  "let m = register_all [(''fs'', ''read''), ('''', ''fs_read''), (''fs'', ''write'')] NewToolNameMapper
   in fst (SanitizeAndRegister '''' ''fs_read'' m) = ''fs_read_2'' \<and> Restore ''fs_read_2'' m = ('''', ''fs_read'')"
proof -
  let ?ps = "[(''fs'', ''read''), ('''', ''fs_read''), (''fs'', ''write'')]"
  have "fst (SanitizeAndRegister '''' ''fs_read'' (register_all ?ps NewToolNameMapper)) = ''fs_read_2''" by code_simp
  then obtain m where m: "SanitizeAndRegister '''' ''fs_read'' (register_all ?ps NewToolNameMapper) = (''fs_read_2'', m)" by (metis prod.collapse)
  have "m = register_all ?ps NewToolNameMapper \<and> Restore ''fs_read_2'' m = ('''', ''fs_read'')"
    using tool_names_restored[OF _ _ m] by (auto simp del: register_all.simps)
  with m show ?thesis by (auto simp add: Let_def simp del: register_all.simps)
qed

end
