(* ===== verification/Chat_Messages_Stream.thy ===== *)
theory Chat_Messages_Stream
  imports Json Tool_Names
begin

text \<open>
  The translation of a Chat Completions stream into a Messages stream: \<open>src/pkg/llm/translate/chat_messages_stream.go\<close> and
  \<open>chat_stream_usage.go\<close>. An incoming frame is what the two decodings of its text give: the usage, and the chunk if the text decodes as
  one. Outgoing events carry the value that is encoded.
\<close>

subsection \<open>Frames, events, state\<close>

record TokenUsage =
  tu_InputTokens :: int
  tu_OutputTokens :: int
  tu_CachedTokens :: int
  tu_CacheCreationTokens :: int

record ToolCallDelta =
  tcd_Index :: int
  tcd_ID :: string
  tcd_Name :: string
  tcd_Arguments :: string

record ChatDelta =
  cd_Content :: string
  cd_ReasoningContent :: string
  cd_Thinking :: string
  cd_Reasoning :: string
  cd_Thought :: string
  cd_ToolCalls :: "ToolCallDelta list"
  cd_FinishReason :: "string option"

text \<open>Of the choices only the first is read.\<close>

record ChatChunk =
  ck_ID :: string
  ck_Choices :: "ChatDelta list"

datatype chat_frame = ChatDone | ChatFrame TokenUsage "ChatChunk option"

definition zero_tokens :: TokenUsage where
  "zero_tokens = \<lparr>tu_InputTokens = 0, tu_OutputTokens = 0, tu_CachedTokens = 0, tu_CacheCreationTokens = 0\<rparr>"

text \<open>The usage of a frame: prompt, completion and cached tokens, the last in an object that may be missing.\<close>

definition chatStreamUsage :: "(int \<times> int \<times> int option) option \<Rightarrow> TokenUsage" where
  "chatStreamUsage payload = (case payload of None \<Rightarrow> zero_tokens
     | Some (prompt, completion, details) \<Rightarrow>
         zero_tokens\<lparr>tu_InputTokens := prompt, tu_OutputTokens := completion, tu_CachedTokens := (case details of Some c \<Rightarrow> c | None \<Rightarrow> 0)\<rparr>)"

record MessagesStreamEvent =
  me_Event :: string
  me_Data :: json
  me_TransmittedChars :: nat
  me_Flush :: bool

record StreamChunkMeta =
  sm_InputTokens :: int
  sm_OutputTokens :: int
  sm_CachedTokens :: int
  sm_CacheCreationTokens :: int
  sm_TransmittedChars :: nat
  sm_ResponseID :: string
  sm_ResponseModel :: string
  sm_Completed :: bool
  sm_EmitDone :: bool
  sm_ErrorMessage :: string
  sm_FinishReason :: string
  sm_StopReason :: string
  sm_SawDone :: bool
  sm_TextChars :: nat
  sm_ThinkingChars :: nat
  sm_HasToolUse :: bool
  sm_Flush :: bool

definition zero_meta :: StreamChunkMeta where
  "zero_meta = \<lparr>sm_InputTokens = 0, sm_OutputTokens = 0, sm_CachedTokens = 0, sm_CacheCreationTokens = 0, sm_TransmittedChars = 0,
     sm_ResponseID = '''', sm_ResponseModel = '''', sm_Completed = False, sm_EmitDone = False, sm_ErrorMessage = '''', sm_FinishReason = '''',
     sm_StopReason = '''', sm_SawDone = False, sm_TextChars = 0, sm_ThinkingChars = 0, sm_HasToolUse = False, sm_Flush = False\<rparr>"

record ChatToMessagesStream =
  cm_model :: string
  cm_usage :: TokenUsage
  cm_started :: bool
  cm_finished :: bool
  cm_lastMessageID :: string
  cm_sawDone :: bool
  cm_finishReason :: string
  cm_textChars :: nat
  cm_thinkingChars :: nat
  cm_hasToolUse :: bool
  cm_activeBlocks :: "int set"
  cm_oaiToAnthropicIndex :: "int \<rightharpoonup> int"
  cm_nextBlockIndex :: int
  cm_thinkingBlockIndex :: int
  cm_textBlockIndex :: int

definition NewChatToMessagesStream :: "string \<Rightarrow> TokenUsage \<Rightarrow> ChatToMessagesStream" where
  "NewChatToMessagesStream model initialUsage =
     \<lparr>cm_model = model, cm_usage = initialUsage, cm_started = False, cm_finished = False, cm_lastMessageID = '''', cm_sawDone = False,
      cm_finishReason = '''', cm_textChars = 0, cm_thinkingChars = 0, cm_hasToolUse = False, cm_activeBlocks = {},
      cm_oaiToAnthropicIndex = Map.empty, cm_nextBlockIndex = 0, cm_thinkingBlockIndex = -1, cm_textBlockIndex = -1\<rparr>"

subsection \<open>Events\<close>

definition messages_event :: "string \<Rightarrow> (string \<times> json) list \<Rightarrow> MessagesStreamEvent" where
  "messages_event type kvs = \<lparr>me_Event = type, me_Data = JObj ((''type'', JStr type) # kvs), me_TransmittedChars = 0, me_Flush = False\<rparr>"

definition flush_last :: "MessagesStreamEvent list \<Rightarrow> MessagesStreamEvent list" where
  "flush_last es = (if es = [] then [] else butlast es @ [(last es)\<lparr>me_Flush := True\<rparr>])"

definition block_start :: "int \<Rightarrow> (string \<times> json) list \<Rightarrow> MessagesStreamEvent" where
  "block_start idx block = messages_event ''content_block_start'' [(''index'', JInt idx), (''content_block'', JObj block)]"

definition block_delta :: "int \<Rightarrow> string \<Rightarrow> string \<Rightarrow> string \<Rightarrow> MessagesStreamEvent" where
  "block_delta idx type field text = messages_event ''content_block_delta''
     [(''index'', JInt idx), (''delta'', JObj [(''type'', JStr type), (field, JStr text)])]"

definition diagnostics :: "ChatToMessagesStream \<Rightarrow> StreamChunkMeta" where
  "diagnostics s = zero_meta\<lparr>sm_ResponseID := cm_lastMessageID s, sm_ResponseModel := cm_model s, sm_FinishReason := cm_finishReason s,
     sm_SawDone := cm_sawDone s, sm_TextChars := cm_textChars s, sm_ThinkingChars := cm_thinkingChars s, sm_HasToolUse := cm_hasToolUse s\<rparr>"

definition startMessage :: "ChatToMessagesStream \<Rightarrow> MessagesStreamEvent list \<times> ChatToMessagesStream" where
  "startMessage s =
     (if cm_started s then ([], s)
      else ([(messages_event ''message_start'' [(''message'', JObj
               [(''id'', JStr (NormalizeAnthropicID (cm_lastMessageID s))), (''type'', JStr ''message''), (''role'', JStr ''assistant''),
                (''content'', JArr []), (''model'', JStr (cm_model s)), (''stop_reason'', JNull), (''stop_sequence'', JNull),
                (''usage'', JObj [(''input_tokens'', JInt (tu_InputTokens (cm_usage s))), (''output_tokens'', JInt (tu_OutputTokens (cm_usage s)))])])])
             \<lparr>me_Flush := True\<rparr>],
            s\<lparr>cm_started := True\<rparr>))"

definition ensureBlock :: "string \<Rightarrow> ChatToMessagesStream \<Rightarrow> int \<times> MessagesStreamEvent list \<times> ChatToMessagesStream" where
  "ensureBlock blockType s =
     (if blockType = ''thinking'' \<and> cm_thinkingBlockIndex s \<ge> 0 then (cm_thinkingBlockIndex s, [], s)
      else if blockType = ''text'' \<and> cm_textBlockIndex s \<ge> 0 then (cm_textBlockIndex s, [], s)
      else let idx = cm_nextBlockIndex s;
               s1 = s\<lparr>cm_nextBlockIndex := idx + 1, cm_activeBlocks := insert idx (cm_activeBlocks s)\<rparr>
           in if blockType = ''thinking''
              then (idx, [block_start idx [(''type'', JStr ''thinking''), (''thinking'', JStr '''')]], s1\<lparr>cm_thinkingBlockIndex := idx\<rparr>)
              else (idx, [block_start idx [(''type'', JStr ''text''), (''text'', JStr '''')]], s1\<lparr>cm_textBlockIndex := idx\<rparr>))"

definition emitTextDelta :: "int \<Rightarrow> string \<Rightarrow> ChatToMessagesStream \<Rightarrow> MessagesStreamEvent list \<times> ChatToMessagesStream" where
  "emitTextDelta idx text s = ([(block_delta idx ''text_delta'' ''text'' text)\<lparr>me_TransmittedChars := length text, me_Flush := True\<rparr>],
     s\<lparr>cm_textChars := cm_textChars s + length text\<rparr>)"

definition emitThinkingDelta :: "int \<Rightarrow> string \<Rightarrow> ChatToMessagesStream \<Rightarrow> MessagesStreamEvent list \<times> ChatToMessagesStream" where
  "emitThinkingDelta idx text s = ([(block_delta idx ''thinking_delta'' ''thinking'' text)\<lparr>me_TransmittedChars := length text, me_Flush := True\<rparr>],
     s\<lparr>cm_thinkingChars := cm_thinkingChars s + length text\<rparr>)"

definition closeOpenBlocks :: "ChatToMessagesStream \<Rightarrow> MessagesStreamEvent list \<times> ChatToMessagesStream" where
  "closeOpenBlocks s = (map (\<lambda>idx. messages_event ''content_block_stop'' [(''index'', JInt idx)]) (sorted_list_of_set (cm_activeBlocks s)),
     s\<lparr>cm_activeBlocks := {}\<rparr>)"

subsection \<open>Feeding\<close>

definition chatMessagesStreamReasoning :: "ChatDelta \<Rightarrow> string" where
  "chatMessagesStreamReasoning d =
     (case find (\<lambda>v. v \<noteq> '''') [cd_ReasoningContent d, cd_Thinking d, cd_Reasoning d, cd_Thought d] of Some v \<Rightarrow> v | None \<Rightarrow> '''')"

text \<open>One text or thinking part of a delta.\<close>

definition feed_thinking :: "string \<Rightarrow> ChatToMessagesStream \<Rightarrow> MessagesStreamEvent list \<times> ChatToMessagesStream" where
  "feed_thinking text s = (if text = '''' then ([], s)
     else let (e1, s1) = startMessage s; (idx, e2, s2) = ensureBlock ''thinking'' s1; (e3, s3) = emitThinkingDelta idx text s2 in (e1 @ e2 @ e3, s3))"

definition feed_text :: "string \<Rightarrow> ChatToMessagesStream \<Rightarrow> MessagesStreamEvent list \<times> ChatToMessagesStream" where
  "feed_text text s = (if text = '''' then ([], s)
     else let (e1, s1) = startMessage s; (idx, e2, s2) = ensureBlock ''text'' s1; (e3, s3) = emitTextDelta idx text s2 in (e1 @ e2 @ e3, s3))"

text \<open>One tool call; the third component tells whether a flush is asked for without an event.\<close>

definition feed_tool :: "ToolCallDelta \<Rightarrow> ChatToMessagesStream \<Rightarrow> MessagesStreamEvent list \<times> ChatToMessagesStream \<times> bool" where
  "feed_tool tc s =
     (let (idx, s1) = (case cm_oaiToAnthropicIndex s (tcd_Index tc) of Some i \<Rightarrow> (i, s)
            | None \<Rightarrow> (cm_nextBlockIndex s, s\<lparr>cm_oaiToAnthropicIndex := (cm_oaiToAnthropicIndex s)(tcd_Index tc \<mapsto> cm_nextBlockIndex s),
                          cm_nextBlockIndex := cm_nextBlockIndex s + 1\<rparr>));
          (e1, s2) = (if idx \<in> cm_activeBlocks s1 then ([], s1)
            else ([block_start idx [(''type'', JStr ''tool_use''), (''id'', JStr (NormalizeToolUseID (tcd_ID tc))), (''name'', JStr (tcd_Name tc)), (''input'', JObj [])]],
                  s1\<lparr>cm_activeBlocks := insert idx (cm_activeBlocks s1)\<rparr>));
          e2 = (if tcd_Arguments tc \<noteq> '''' then [block_delta idx ''input_json_delta'' ''partial_json'' (tcd_Arguments tc)] else [])
      in (flush_last (e1 @ e2), s2\<lparr>cm_hasToolUse := True\<rparr>, e1 @ e2 = []))"

fun feed_tools :: "ToolCallDelta list \<Rightarrow> ChatToMessagesStream \<Rightarrow> MessagesStreamEvent list \<times> ChatToMessagesStream \<times> bool" where
  "feed_tools [] s = ([], s, False)"
| "feed_tools (tc # tcs) s = (let (e1, s1, f1) = feed_tool tc s; (e2, s2, f2) = feed_tools tcs s1 in (e1 @ e2, s2, f1 \<or> f2))"

definition feed_calls :: "ToolCallDelta list \<Rightarrow> ChatToMessagesStream \<Rightarrow> MessagesStreamEvent list \<times> ChatToMessagesStream \<times> bool" where
  "feed_calls tcs s = (if tcs = [] then ([], s, False)
     else let (e1, s1) = startMessage s; (e2, s2, f) = feed_tools tcs s1 in (e1 @ e2, s2, f))"

definition note_usage :: "TokenUsage \<Rightarrow> TokenUsage \<Rightarrow> TokenUsage" where
  "note_usage u old = old\<lparr>tu_InputTokens := (if tu_InputTokens u > 0 then tu_InputTokens u else tu_InputTokens old),
     tu_OutputTokens := (if tu_OutputTokens u > 0 then tu_OutputTokens u else tu_OutputTokens old),
     tu_CachedTokens := (if tu_CachedTokens u > 0 then tu_CachedTokens u else tu_CachedTokens old)\<rparr>"

definition feed_delta :: "ChatDelta \<Rightarrow> ChatToMessagesStream \<Rightarrow> MessagesStreamEvent list \<times> ChatToMessagesStream \<times> bool" where
  "feed_delta d s =
     (let (e1, s1) = feed_thinking (chatMessagesStreamReasoning d) s;
          (e2, s2) = feed_text (cd_Content d) s1;
          (e3, s3, f) = feed_calls (cd_ToolCalls d) s2;
          s4 = (case cd_FinishReason d of Some r \<Rightarrow> if r \<noteq> '''' then s3\<lparr>cm_finishReason := r\<rparr> else s3 | None \<Rightarrow> s3)
      in (e1 @ e2 @ e3, s4, f))"

definition feed_chunk :: "ChatChunk option \<Rightarrow> ChatToMessagesStream \<Rightarrow> MessagesStreamEvent list \<times> ChatToMessagesStream \<times> bool" where
  "feed_chunk chunk s = (case chunk of None \<Rightarrow> ([], s, False)
     | Some c \<Rightarrow>
         let s1 = (if ck_ID c \<noteq> '''' then s\<lparr>cm_lastMessageID := ck_ID c\<rparr> else s)
         in (case ck_Choices c of [] \<Rightarrow> ([], s1, False) | d # _ \<Rightarrow> feed_delta d s1))"

definition chunk_chars :: "ChatChunk option \<Rightarrow> nat" where
  "chunk_chars chunk = (case chunk of None \<Rightarrow> 0 | Some c \<Rightarrow> (case ck_Choices c of [] \<Rightarrow> 0
     | d # _ \<Rightarrow> length (chatMessagesStreamReasoning d) + length (cd_Content d)))"

definition FeedJSON :: "chat_frame \<Rightarrow> ChatToMessagesStream \<Rightarrow> (MessagesStreamEvent list \<times> StreamChunkMeta) \<times> ChatToMessagesStream" where
  "FeedJSON frame s =
     (if cm_finished s then (([], diagnostics s), s)
      else case frame of
        ChatDone \<Rightarrow> (let s1 = s\<lparr>cm_sawDone := True\<rparr> in (([], diagnostics s1), s1))
      | ChatFrame u chunk \<Rightarrow>
          let s1 = s\<lparr>cm_usage := note_usage u (cm_usage s)\<rparr>;
              (es, s2, f) = feed_chunk chunk s1
          in ((es, (diagnostics s2)\<lparr>sm_InputTokens := tu_InputTokens u, sm_OutputTokens := tu_OutputTokens u, sm_CachedTokens := tu_CachedTokens u,
                 sm_TransmittedChars := chunk_chars chunk, sm_Flush := f\<rparr>), s2))"

subsection \<open>Finishing\<close>

definition mapOpenAIFinishReason :: "string \<Rightarrow> string" where
  "mapOpenAIFinishReason r = (if r = ''length'' then ''max_tokens'' else if r = ''tool_calls'' \<or> r = ''function_call'' then ''tool_use'' else ''end_turn'')"

definition finalizeSuccess :: "string \<Rightarrow> ChatToMessagesStream \<Rightarrow> MessagesStreamEvent list \<times> ChatToMessagesStream" where
  "finalizeSuccess stopReason s =
     (let (e1, s1) = startMessage s;
          (e2, s2) = (if cm_activeBlocks s1 = {} then snd (ensureBlock ''text'' s1) else ([], s1));
          (e3, s3) = closeOpenBlocks s2;
          e4 = [messages_event ''message_delta'' [(''delta'', JObj [(''stop_reason'', JStr stopReason), (''stop_sequence'', JNull)]),
                  (''usage'', JObj [(''output_tokens'', JInt (tu_OutputTokens (cm_usage s3)))])],
                (messages_event ''message_stop'' [])\<lparr>me_Flush := True\<rparr>]
      in (e1 @ e2 @ e3 @ e4, s3))"

definition final_usage :: "TokenUsage \<Rightarrow> StreamChunkMeta \<Rightarrow> StreamChunkMeta" where
  "final_usage u m = m\<lparr>sm_InputTokens := tu_InputTokens u, sm_OutputTokens := tu_OutputTokens u, sm_CachedTokens := tu_CachedTokens u,
     sm_CacheCreationTokens := tu_CacheCreationTokens u\<rparr>"

definition Finish :: "TokenUsage \<Rightarrow> ChatToMessagesStream \<Rightarrow> (MessagesStreamEvent list \<times> StreamChunkMeta) \<times> ChatToMessagesStream" where
  "Finish latestUsage s =
     (if cm_finished s then (([], diagnostics s), s)
      else let s1 = s\<lparr>cm_finished := True, cm_usage := latestUsage\<rparr> in
        if cm_finishReason s1 \<noteq> '''' \<or> cm_sawDone s1
        then let stopReason = mapOpenAIFinishReason (cm_finishReason s1); (es, s2) = finalizeSuccess stopReason s1
             in ((es, final_usage latestUsage ((diagnostics s2)\<lparr>sm_Completed := True, sm_StopReason := stopReason\<rparr>)), s2)
        else if cm_started s1
        then let (es, s2) = closeOpenBlocks s1
             in ((flush_last es, final_usage latestUsage ((diagnostics s1)\<lparr>sm_ErrorMessage := ''upstream stream closed prematurely without completion event''\<rparr>)), s2)
        else (([], final_usage latestUsage ((diagnostics s1)\<lparr>sm_ErrorMessage := ''empty upstream stream: no content or completion signal received''\<rparr>)), s1))"

end
