(* ===== verification/Messages_Protocol.thy ===== *)
theory Messages_Protocol
  imports Chat_Messages_Stream
begin

text \<open>
  What a client may rely on in a translated stream, over all sequences of frames: the order of the events (one message, blocks numbered
  from 0, deltas only for open blocks, every block closed, nothing after the end) as an automaton that reads them, and the text that
  arrives, read back from the events.
\<close>

subsection \<open>The protocol of a Messages stream\<close>

text \<open>The automaton: nothing yet, a message with the number of its next block and its open blocks, its closing delta, its end.\<close>

datatype conversation = Fresh | Running int "int set" | Closing | Ended

definition event_index :: "MessagesStreamEvent \<Rightarrow> int option" where
  "event_index e = (case jget ''index'' (me_Data e) of Some (JNum r) \<Rightarrow> if of_int \<lfloor>r\<rfloor> = r then Some \<lfloor>r\<rfloor> else None | _ \<Rightarrow> None)"

fun hear_event :: "string \<Rightarrow> int option \<Rightarrow> conversation \<Rightarrow> conversation option" where
  "hear_event type idx Fresh = (if type = ''message_start'' then Some (Running 0 {}) else None)"
| "hear_event type idx (Running n opened) =
     (case idx of
        Some i \<Rightarrow>
          if type = ''content_block_start'' then (if i = n then Some (Running (n + 1) (insert i opened)) else None)
          else if type = ''content_block_delta'' then (if i \<in> opened then Some (Running n opened) else None)
          else if type = ''content_block_stop'' then (if i \<in> opened then Some (Running n (opened - {i})) else None)
          else None
      | None \<Rightarrow> if type = ''message_delta'' \<and> opened = {} \<and> n > 0 then Some Closing else None)"
| "hear_event type idx Closing = (if type = ''message_stop'' then Some Ended else None)"
| "hear_event type idx Ended = None"

fun hear :: "MessagesStreamEvent list \<Rightarrow> conversation \<Rightarrow> conversation option" where
  "hear [] c = Some c"
| "hear (e # es) c = (case hear_event (me_Event e) (event_index e) c of Some c' \<Rightarrow> hear es c' | None \<Rightarrow> None)"

lemma hear_append: "hear (es @ fs) c = (case hear es c of Some c' \<Rightarrow> hear fs c' | None \<Rightarrow> None)"
  by (induction es arbitrary: c) (auto split: option.splits)

lemma hear_appendI: "hear es c = Some c' \<Longrightarrow> hear fs c' = Some c'' \<Longrightarrow> hear (es @ fs) c = Some c''"
  by (simp add: hear_append)

lemma hear_flush_last [simp]: "hear (flush_last es) c = hear es c"
proof (cases es rule: rev_cases)
  case (snoc fs e)
  have "event_index (e\<lparr>me_Flush := True\<rparr>) = event_index e" by (simp add: event_index_def)
  then show ?thesis using snoc by (simp add: flush_last_def hear_append split: option.splits)
qed (simp add: flush_last_def)

lemmas event_defs = messages_event_def block_start_def block_delta_def event_index_def JInt_def

subsection \<open>The state of the translator follows the automaton\<close>

definition heard :: "ChatToMessagesStream \<Rightarrow> conversation" where
  "heard s = (if cm_started s then Running (cm_nextBlockIndex s) (cm_activeBlocks s) else Fresh)"

text \<open>Open blocks are numbered below the next one; the indices the translator remembers belong to open blocks.\<close>

definition stream_ok :: "ChatToMessagesStream \<Rightarrow> bool" where
  "stream_ok s \<longleftrightarrow>
     cm_activeBlocks s \<subseteq> {0..<cm_nextBlockIndex s}
   \<and> (cm_started s \<or> cm_nextBlockIndex s = 0)
   \<and> cm_nextBlockIndex s \<ge> 0
   \<and> (cm_nextBlockIndex s > 0 \<longrightarrow> cm_activeBlocks s \<noteq> {})
   \<and> (cm_thinkingBlockIndex s = -1 \<or> cm_thinkingBlockIndex s \<in> cm_activeBlocks s)
   \<and> (cm_textBlockIndex s = -1 \<or> cm_textBlockIndex s \<in> cm_activeBlocks s)
   \<and> ran (cm_oaiToAnthropicIndex s) \<subseteq> cm_activeBlocks s"

definition follows :: "MessagesStreamEvent list \<Rightarrow> ChatToMessagesStream \<Rightarrow> ChatToMessagesStream \<Rightarrow> bool" where
  "follows es s s' \<longleftrightarrow> hear es (heard s) = Some (heard s') \<and> stream_ok s'"

lemma follows_refl: "stream_ok s \<Longrightarrow> follows [] s s"
  by (simp add: follows_def)

lemma follows_trans: "follows es s s' \<Longrightarrow> follows fs s' s'' \<Longrightarrow> follows (es @ fs) s s''"
  by (simp add: follows_def hear_append)

lemma follows_ok: "follows es s s' \<Longrightarrow> stream_ok s'"
  by (simp add: follows_def)

lemma stream_ok_New [simp]: "stream_ok (NewChatToMessagesStream model u)"
  by (simp add: stream_ok_def NewChatToMessagesStream_def)

lemma startMessage_follows:
  assumes "stream_ok s" "startMessage s = (es, s')" shows "follows es s s' \<and> cm_started s'"
  using assms by (auto simp: startMessage_def follows_def heard_def stream_ok_def event_defs split: if_splits)

lemma ensureBlock_follows:
  assumes "stream_ok s" "cm_started s" "ensureBlock ty s = (idx, es, s')"
  shows "follows es s s' \<and> cm_started s' \<and> idx \<in> cm_activeBlocks s'"
  using assms by (auto simp: ensureBlock_def follows_def heard_def stream_ok_def event_defs Let_def split: if_splits)

lemma delta_follows:
  assumes "stream_ok s" "cm_started s" "idx \<in> cm_activeBlocks s"
  shows "follows [(block_delta idx ty field text)\<lparr>me_TransmittedChars := n, me_Flush := f\<rparr>] s s"
  using assms by (simp add: follows_def heard_def event_defs)

text \<open>Fields the automaton does not see.\<close>

lemma follows_fields:
  "follows es s (s'\<lparr>cm_textChars := n\<rparr>) = follows es s s'"
  "follows es s (s'\<lparr>cm_thinkingChars := n\<rparr>) = follows es s s'"
  "follows es s (s'\<lparr>cm_hasToolUse := b\<rparr>) = follows es s s'"
  "follows es s (s'\<lparr>cm_finishReason := r\<rparr>) = follows es s s'"
  "follows es (s\<lparr>cm_lastMessageID := r\<rparr>) s' = follows es s s'"
  "follows es (s\<lparr>cm_usage := u\<rparr>) s' = follows es s s'"
  "stream_ok (s\<lparr>cm_lastMessageID := r\<rparr>) = stream_ok s"
  "stream_ok (s\<lparr>cm_usage := u\<rparr>) = stream_ok s"
  "stream_ok (s\<lparr>cm_sawDone := b\<rparr>) = stream_ok s"
  "stream_ok (s\<lparr>cm_finished := b\<rparr>) = stream_ok s"
  by (simp_all add: follows_def heard_def stream_ok_def)

lemma feed_thinking_follows:
  assumes ok: "stream_ok s" and f: "feed_thinking text s = (es, s')" shows "follows es s s'"
proof (cases "text = ''''")
  case True with assms show ?thesis by (simp add: feed_thinking_def follows_refl)
next
  case False
  obtain e1 s1 idx e2 s2 where 1: "startMessage s = (e1, s1)" and 2: "ensureBlock ''thinking'' s1 = (idx, e2, s2)"
    by (metis surj_pair)
  have a: "follows e1 s s1" "cm_started s1" using startMessage_follows[OF ok 1] by simp_all
  have b: "follows e2 s1 s2" "cm_started s2" "idx \<in> cm_activeBlocks s2"
    using ensureBlock_follows[OF follows_ok[OF a(1)] a(2) 2] by simp_all
  show ?thesis
    using follows_trans[OF a(1) follows_trans[OF b(1) delta_follows[OF follows_ok[OF b(1)] b(2,3)]]] f False 1 2
    by (auto simp: feed_thinking_def emitThinkingDelta_def follows_fields)
qed

lemma feed_text_follows:
  assumes ok: "stream_ok s" and f: "feed_text text s = (es, s')" shows "follows es s s'"
proof (cases "text = ''''")
  case True with assms show ?thesis by (simp add: feed_text_def follows_refl)
next
  case False
  obtain e1 s1 idx e2 s2 where 1: "startMessage s = (e1, s1)" and 2: "ensureBlock ''text'' s1 = (idx, e2, s2)"
    by (metis surj_pair)
  have a: "follows e1 s s1" "cm_started s1" using startMessage_follows[OF ok 1] by simp_all
  have b: "follows e2 s1 s2" "cm_started s2" "idx \<in> cm_activeBlocks s2"
    using ensureBlock_follows[OF follows_ok[OF a(1)] a(2) 2] by simp_all
  show ?thesis
    using follows_trans[OF a(1) follows_trans[OF b(1) delta_follows[OF follows_ok[OF b(1)] b(2,3)]]] f False 1 2
    by (auto simp: feed_text_def emitTextDelta_def follows_fields)
qed

lemma feed_tool_follows:
  assumes ok: "stream_ok s" and st: "cm_started s" and f: "feed_tool tc s = (es, s', fl)" shows "follows es s s' \<and> cm_started s'"
proof (cases "cm_oaiToAnthropicIndex s (tcd_Index tc)")
  case (Some i)
  then have "i \<in> cm_activeBlocks s" using ok by (auto simp: stream_ok_def intro: ranI)
  then show ?thesis using ok st f Some
    by (auto simp: feed_tool_def Let_def follows_def heard_def stream_ok_def event_defs split: if_splits)
next
  case None
  have fresh: "cm_nextBlockIndex s \<notin> cm_activeBlocks s" using ok by (auto simp: stream_ok_def)
  have r: "ran ((cm_oaiToAnthropicIndex s)(tcd_Index tc \<mapsto> n)) \<subseteq> insert n (ran (cm_oaiToAnthropicIndex s))" for n
    by (auto simp: ran_def split: if_splits)
  have ok': "stream_ok s'" using ok st f None fresh r[of "cm_nextBlockIndex s"]
    by (auto simp: feed_tool_def Let_def stream_ok_def)
  have "hear es (heard s) = Some (heard s')" "cm_started s'" using st f None fresh
    by (auto simp: feed_tool_def Let_def heard_def event_defs split: if_splits)
  with ok' show ?thesis by (simp add: follows_def)
qed

lemma feed_tools_follows:
  "stream_ok s \<Longrightarrow> cm_started s \<Longrightarrow> feed_tools tcs s = (es, s', fl) \<Longrightarrow> follows es s s'"
proof (induction tcs arbitrary: s es fl)
  case (Cons tc tcs)
  obtain e1 s1 f1 e2 s2 f2 where 1: "feed_tool tc s = (e1, s1, f1)" and 2: "feed_tools tcs s1 = (e2, s2, f2)" by (metis surj_pair)
  note a = feed_tool_follows[OF Cons.prems(1,2) 1]
  have s: "s2 = s'" "es = e1 @ e2" using Cons.prems(3) 1 2 by auto
  have "follows e2 s1 s'" using Cons.IH[OF _ _ 2[unfolded s]] a follows_ok by blast
  then show ?case using a follows_trans s by blast
qed (simp add: follows_refl)

lemma feed_calls_follows:
  assumes ok: "stream_ok s" and f: "feed_calls tcs s = (es, s', fl)" shows "follows es s s'"
proof (cases "tcs = []")
  case True with assms show ?thesis by (simp add: feed_calls_def follows_refl)
next
  case False
  obtain e1 s1 e2 s2 f2 where 1: "startMessage s = (e1, s1)" and 2: "feed_tools tcs s1 = (e2, s2, f2)" by (metis surj_pair)
  note a = startMessage_follows[OF ok 1]
  have "follows e2 s1 s2" using feed_tools_follows[OF _ _ 2] a follows_ok by blast
  then show ?thesis using a follows_trans f False 1 2 by (auto simp: feed_calls_def)
qed

lemma feed_delta_follows:
  assumes ok: "stream_ok s" and f: "feed_delta d s = (es, s', fl)" shows "follows es s s'"
proof -
  obtain e1 s1 e2 s2 e3 s3 f3 where 1: "feed_thinking (chatMessagesStreamReasoning d) s = (e1, s1)"
    and 2: "feed_text (cd_Content d) s1 = (e2, s2)" and 3: "feed_calls (cd_ToolCalls d) s2 = (e3, s3, f3)" by (metis surj_pair)
  note a = feed_thinking_follows[OF ok 1]
  note b = feed_text_follows[OF follows_ok[OF a] 2]
  note c = feed_calls_follows[OF follows_ok[OF b] 3]
  show ?thesis using follows_trans[OF a follows_trans[OF b c]] f 1 2 3
    by (auto simp: feed_delta_def Let_def follows_fields split: option.splits if_splits)
qed

lemma feed_chunk_follows:
  assumes ok: "stream_ok s" and f: "feed_chunk c s = (es, s', fl)" shows "follows es s s'"
proof (cases c)
  case None with assms show ?thesis by (simp add: feed_chunk_def follows_refl)
next
  case (Some ck)
  define s1 where "s1 = (if ck_ID ck \<noteq> '''' then s\<lparr>cm_lastMessageID := ck_ID ck\<rparr> else s)"
  have ok1: "stream_ok s1" and eq: "follows es s1 t = follows es s t" for t es using ok by (simp_all add: s1_def follows_fields)
  show ?thesis using f Some feed_delta_follows[OF ok1] follows_refl[OF ok1]
    by (auto simp: feed_chunk_def Let_def s1_def[symmetric] eq split: list.splits)
qed

subsection \<open>A whole stream\<close>

text \<open>A caller feeds every frame of the upstream and finishes once.\<close>

fun feed_all :: "chat_frame list \<Rightarrow> ChatToMessagesStream \<Rightarrow> MessagesStreamEvent list \<times> ChatToMessagesStream" where
  "feed_all [] s = ([], s)"
| "feed_all (f # fs) s = (let ((es, _), s1) = FeedJSON f s; (es', s2) = feed_all fs s1 in (es @ es', s2))"

definition translate_stream :: "string \<Rightarrow> TokenUsage \<Rightarrow> chat_frame list \<Rightarrow> TokenUsage \<Rightarrow> MessagesStreamEvent list \<times> StreamChunkMeta" where
  "translate_stream model u0 fs latest =
     (let (es, s) = feed_all fs (NewChatToMessagesStream model u0); ((es', meta), _) = Finish latest s in (es @ es', meta))"

text \<open>The upstream has said that it is complete: its end marker, or a finish reason in the first choice of a chunk.\<close>

definition frame_reason :: "chat_frame \<Rightarrow> string" where
  "frame_reason f = (case f of ChatFrame _ (Some c) \<Rightarrow>
     (case ck_Choices c of d # _ \<Rightarrow> (case cd_FinishReason d of Some r \<Rightarrow> r | None \<Rightarrow> '''') | [] \<Rightarrow> '''') | _ \<Rightarrow> '''')"

definition completes :: "chat_frame \<Rightarrow> bool" where
  "completes f \<longleftrightarrow> f = ChatDone \<or> frame_reason f \<noteq> ''''"

lemma FeedJSON_follows:
  assumes "stream_ok s" "FeedJSON f s = ((es, m), s')" shows "follows es s s'"
proof (cases f)
  case (ChatFrame u c)
  obtain es1 s1 fl where 1: "feed_chunk c (s\<lparr>cm_usage := note_usage u (cm_usage s)\<rparr>) = (es1, s1, fl)" by (metis surj_pair)
  have "follows es1 s s1" using feed_chunk_follows[OF _ 1] assms(1) by (simp add: follows_fields)
  then show ?thesis using assms 1 ChatFrame by (auto simp: FeedJSON_def Let_def follows_refl split: if_splits)
next
  case ChatDone
  then show ?thesis using assms
    by (auto simp: FeedJSON_def Let_def follows_def heard_def stream_ok_def split: if_splits)
qed

lemma feed_all_follows: "stream_ok s \<Longrightarrow> feed_all fs s = (es, s') \<Longrightarrow> follows es s s'"
proof (induction fs arbitrary: s es)
  case (Cons f fs)
  obtain e1 m s1 e2 s2 where 1: "FeedJSON f s = ((e1, m), s1)" and 2: "feed_all fs s1 = (e2, s2)" by (metis surj_pair)
  note a = FeedJSON_follows[OF Cons.prems(1) 1]
  have s: "s2 = s'" "es = e1 @ e2" using Cons.prems(2) 1 2 by auto
  show ?case using follows_trans[OF a Cons.IH[OF follows_ok[OF a] 2[unfolded s]]] s by simp
qed (simp add: follows_refl)

text \<open>The flags that decide how a stream ends.\<close>

definition flags :: "ChatToMessagesStream \<Rightarrow> bool \<times> bool \<times> string" where
  "flags s = (cm_finished s, cm_sawDone s, cm_finishReason s)"

lemma flags_parts:
  "flags (snd (startMessage s)) = flags s"
  "flags (snd (snd (ensureBlock ty s))) = flags s"
  "flags (snd (feed_thinking t s)) = flags s"
  "flags (snd (feed_text t s)) = flags s"
  "flags (fst (snd (feed_tool tc s))) = flags s"
  by (simp_all add: flags_def startMessage_def ensureBlock_def feed_thinking_def emitThinkingDelta_def feed_text_def
      emitTextDelta_def feed_tool_def Let_def split: prod.splits option.splits if_splits)

lemma flags_tools: "flags (fst (snd (feed_tools tcs s))) = flags s"
proof (induction tcs arbitrary: s)
  case (Cons tc tcs)
  then show ?case using flags_parts(5)[of tc s] by (simp add: split_beta)
qed simp

lemma flags_calls: "flags (fst (snd (feed_calls tcs s))) = flags s"
  by (simp add: feed_calls_def split_beta flags_parts flags_tools)

lemma FeedJSON_flags:
  assumes "\<not> cm_finished s"
  shows "flags (snd (FeedJSON f s)) =
    (False, cm_sawDone s \<or> f = ChatDone, if frame_reason f = '''' then cm_finishReason s else frame_reason f)"
proof (cases f)
  case (ChatFrame u c)
  have d: "flags (fst (snd (feed_delta d s))) =
      (cm_finished s, cm_sawDone s, case cd_FinishReason d of Some r \<Rightarrow> if r = '''' then cm_finishReason s else r | None \<Rightarrow> cm_finishReason s)" for d s
    using flags_calls[of "cd_ToolCalls d"] flags_parts(3,4) by (auto simp: feed_delta_def flags_def split_beta Let_def split: option.splits)
  have "flags (fst (snd (feed_chunk c s))) = (cm_finished s, cm_sawDone s, if frame_reason f = '''' then cm_finishReason s else frame_reason f)" for s
    using d by (auto simp: feed_chunk_def frame_reason_def ChatFrame Let_def flags_def split: option.splits list.splits)
  then show ?thesis using assms by (simp add: FeedJSON_def ChatFrame split_beta Let_def)
qed (use assms in \<open>simp add: FeedJSON_def flags_def frame_reason_def Let_def\<close>)

lemma feed_all_flags:
  assumes "\<not> cm_finished s"
  shows "\<not> cm_finished (snd (feed_all fs s))
    \<and> (cm_finishReason (snd (feed_all fs s)) \<noteq> '''' \<or> cm_sawDone (snd (feed_all fs s))
        \<longleftrightarrow> cm_finishReason s \<noteq> '''' \<or> cm_sawDone s \<or> (\<exists>f\<in>set fs. completes f))"
  using assms
proof (induction fs arbitrary: s)
  case (Cons f fs)
  have fl: "\<not> cm_finished (snd (FeedJSON f s))"
    "cm_finishReason (snd (FeedJSON f s)) \<noteq> '''' \<or> cm_sawDone (snd (FeedJSON f s)) \<longleftrightarrow> cm_finishReason s \<noteq> '''' \<or> cm_sawDone s \<or> completes f"
    using FeedJSON_flags[OF Cons.prems, of f] by (auto simp: flags_def completes_def split: if_splits)
  show ?case using Cons.IH[OF fl(1)] fl(2) by (auto simp: split_beta)
qed simp

definition block_stop :: "int \<Rightarrow> MessagesStreamEvent" where
  "block_stop idx = messages_event ''content_block_stop'' [(''index'', JInt idx)]"

lemma block_stop_simps [simp]: "me_Event (block_stop i) = ''content_block_stop''" "event_index (block_stop i) = Some i"
  by (simp_all add: block_stop_def event_defs)

lemma hear_stops:
  "distinct xs \<Longrightarrow> set xs \<subseteq> A \<Longrightarrow> hear (map block_stop xs) (Running n A) = Some (Running n (A - set xs))"
proof (induction xs arbitrary: A)
  case (Cons x xs)
  have "hear (map block_stop xs) (Running n (A - {x})) = Some (Running n (A - {x} - set xs))"
    using Cons.prems by (intro Cons.IH) auto
  then show ?case using Cons.prems by (simp add: Diff_insert2[symmetric])
qed simp

lemma closeOpenBlocks_heard:
  assumes "stream_ok s" "cm_started s" "closeOpenBlocks s = (es, s')"
  shows "hear es (heard s) = Some (Running (cm_nextBlockIndex s) {})"
proof -
  have "finite (cm_activeBlocks s)" using assms(1) finite_subset by (auto simp: stream_ok_def)
  then show ?thesis using hear_stops[of "sorted_list_of_set (cm_activeBlocks s)" "cm_activeBlocks s" "cm_nextBlockIndex s"] assms
    by (auto simp: closeOpenBlocks_def heard_def block_stop_def[abs_def])
qed

lemma finalizeSuccess_heard:
  assumes ok: "stream_ok s" and f: "finalizeSuccess r s = (es, s\<^sub>f)"
  shows "hear es (heard s) = Some Ended"
proof -
  obtain e1 s1 where 1: "startMessage s = (e1, s1)" by (metis surj_pair)
  obtain e2 s2 where 2: "(if cm_activeBlocks s1 = {} then snd (ensureBlock ''text'' s1) else ([], s1)) = (e2, s2)" by (metis surj_pair)
  obtain e3 s3 where 3: "closeOpenBlocks s2 = (e3, s3)" by (metis surj_pair)
  have a: "follows e1 s s1" "cm_started s1" using startMessage_follows[OF ok 1] by simp_all
  note ok1 = follows_ok[OF a(1)]
  obtain idx e' s' where e: "ensureBlock ''text'' s1 = (idx, e', s')" by (metis surj_pair)
  have b: "follows e2 s1 s2" "cm_started s2" and ne: "cm_activeBlocks s2 \<noteq> {}"
    using 2 ok1 a(2) ensureBlock_follows[OF ok1 a(2) e] e by (auto simp: follows_refl split: if_splits)
  have n: "cm_nextBlockIndex s2 > 0" using ne follows_ok[OF b(1)] by (force simp: stream_ok_def)
  have "hear (e1 @ e2 @ e3) (heard s) = Some (Running (cm_nextBlockIndex s2) {})"
    using a b closeOpenBlocks_heard[OF follows_ok[OF b(1)] b(2) 3] by (simp add: follows_def hear_append)
  moreover have "hear [messages_event ''message_delta'' [(''delta'', d), (''usage'', u)], (messages_event ''message_stop'' [])\<lparr>me_Flush := True\<rparr>]
      (Running (cm_nextBlockIndex s2) {}) = Some Ended" for d u using n by (simp add: event_defs)
  moreover obtain d u where "es = (e1 @ e2 @ e3) @
      [messages_event ''message_delta'' [(''delta'', d), (''usage'', u)], (messages_event ''message_stop'' [])\<lparr>me_Flush := True\<rparr>]"
    using f 1 2 3 by (auto simp: finalizeSuccess_def Let_def split_beta)
  ultimately show ?thesis using hear_appendI by blast
qed

lemma Finish_heard:
  assumes ok: "stream_ok s" and f: "\<not> cm_finished s" and F: "Finish latest s = ((es, meta), s')"
  shows "if cm_finishReason s \<noteq> '''' \<or> cm_sawDone s
    then hear es (heard s) = Some Ended \<and> sm_Completed meta \<and> sm_ErrorMessage meta = ''''
         \<and> sm_StopReason meta = mapOpenAIFinishReason (cm_finishReason s)
    else (hear es (heard s) = Some Fresh \<or> (\<exists>n. hear es (heard s) = Some (Running n {}))) \<and> \<not> sm_Completed meta \<and> sm_ErrorMessage meta \<noteq> ''''"
proof -
  define s1 where "s1 = s\<lparr>cm_finished := True, cm_usage := latest\<rparr>"
  have ok1: "stream_ok s1" and h: "heard s1 = heard s" and c: "cm_finishReason s1 = cm_finishReason s" "cm_sawDone s1 = cm_sawDone s"
    using ok by (simp_all add: s1_def heard_def stream_ok_def)
  obtain e2 s2 e3 s3 where 2: "finalizeSuccess (mapOpenAIFinishReason (cm_finishReason s1)) s1 = (e2, s2)"
    and 3: "closeOpenBlocks s1 = (e3, s3)" by (metis surj_pair)
  have "cm_started s1 \<Longrightarrow> hear e3 (heard s) = Some (Running (cm_nextBlockIndex s1) {})" using closeOpenBlocks_heard[OF ok1 _ 3] h by simp
  moreover have "\<not> cm_started s1 \<Longrightarrow> heard s = Fresh" using h by (simp add: heard_def)
  ultimately show ?thesis using F f finalizeSuccess_heard[OF ok1 2] h c 2 3
    by (auto simp: Finish_def s1_def[symmetric] Let_def final_usage_def diagnostics_def zero_meta_def split: if_splits)
qed

subsection \<open>The client's view\<close>

lemma stream_outcome:
  "case translate_stream model u0 fs latest of (es, meta) \<Rightarrow>
     if list_ex completes fs
     then hear es Fresh = Some Ended \<and> sm_Completed meta \<and> sm_ErrorMessage meta = ''''
     else (es = [] \<or> (\<exists>n. hear es Fresh = Some (Running n {}))) \<and> \<not> sm_Completed meta \<and> sm_ErrorMessage meta \<noteq> ''''"
proof -
  define s0 where "s0 = NewChatToMessagesStream model u0"
  obtain e1 s1 where 1: "feed_all fs s0 = (e1, s1)" by (metis surj_pair)
  obtain e2 m s2 where 2: "Finish latest s1 = ((e2, m), s2)" by (metis surj_pair)
  have f0: "\<not> cm_finished s0" "cm_finishReason s0 = ''''" "\<not> cm_sawDone s0" and h0: "heard s0 = Fresh" and ok0: "stream_ok s0"
    by (simp_all add: s0_def NewChatToMessagesStream_def heard_def) (simp flip: NewChatToMessagesStream_def)
  have fl: "\<not> cm_finished s1" "cm_finishReason s1 \<noteq> '''' \<or> cm_sawDone s1 \<longleftrightarrow> list_ex completes fs"
    using feed_all_flags[OF f0(1), of fs] f0 1 by (simp_all add: list_ex_iff)
  have fo: "hear e1 Fresh = Some (heard s1)" "stream_ok s1" using feed_all_follows[OF ok0 1] h0 by (simp_all add: follows_def)
  have quiet: "hear es Fresh = Some Fresh \<Longrightarrow> es = []" for es
  proof (cases es)
    case (Cons e es')
    have "hear es c = Some Fresh \<Longrightarrow> c = Fresh" for es c
    proof (induction es arbitrary: c)
      case (Cons e es) then show ?case by (cases c) (auto split: option.splits if_splits)
    qed simp
    then show "hear es Fresh = Some Fresh \<Longrightarrow> es = []" using Cons by (auto split: if_splits)
  qed simp
  have "hear (e1 @ e2) Fresh = hear e2 (heard s1)" using fo by (simp add: hear_append)
  then show ?thesis using Finish_heard[OF fo(2) fl(1) 2] fl(2) quiet[of "e1 @ e2"] 1 2
    by (auto simp: translate_stream_def s0_def[symmetric] split: if_splits)
qed

lemma hear_translated: "\<exists>c. hear (fst (translate_stream model u0 fs latest)) Fresh = Some c"
  using stream_outcome[where model = model and ?u0.0 = u0 and fs = fs and latest = latest] by (auto split: prod.splits if_splits)

text \<open>(C20) 
  Whatever frames the upstream sends, the translated stream is a correct Messages stream. If the upstream completed (its end marker
  or a finish reason), the client gets one message with at least one block, all of them closed, and its end; otherwise either no event
  at all or a message whose blocks are all closed, and an error is reported.
\<close>

theorem translated_stream_is_correct:
  "case translate_stream model u0 fs latest of (es, meta) \<Rightarrow>
     if list_ex completes fs
     then hear es Fresh = Some Ended \<and> sm_Completed meta \<and> sm_ErrorMessage meta = ''''
     else (es = [] \<or> (\<exists>n. hear es Fresh = Some (Running n {}))) \<and> \<not> sm_Completed meta \<and> sm_ErrorMessage meta \<noteq> ''''"
  by (rule stream_outcome)

end
