(* ===== verification/Messages_Content.thy ===== *)
theory Messages_Content
  imports Messages_Protocol
begin

text \<open>
  What a client reads in a translated stream: the text and the thinking it assembles from the deltas, and the input of each tool call,
  against what the upstream sent.
\<close>

subsection \<open>Reading the events back\<close>

definition delta_part :: "string \<Rightarrow> string \<Rightarrow> MessagesStreamEvent \<Rightarrow> string" where
  "delta_part ty field e = (if me_Event e = ''content_block_delta''
     then (case jget ''delta'' (me_Data e) of Some d \<Rightarrow> if jstr (jget ''type'' d) = ty then jstr (jget field d) else '''' | None \<Rightarrow> '''')
     else '''')"

definition shown_text :: "MessagesStreamEvent list \<Rightarrow> string" where
  "shown_text es = concat (map (delta_part ''text_delta'' ''text'') es)"

definition shown_thinking :: "MessagesStreamEvent list \<Rightarrow> string" where
  "shown_thinking es = concat (map (delta_part ''thinking_delta'' ''thinking'') es)"

text \<open>The input of the tool call in block \<open>i\<close>.\<close>

definition tool_input :: "int \<Rightarrow> MessagesStreamEvent list \<Rightarrow> string" where
  "tool_input i es = concat (map (\<lambda>e. if event_index e = Some i then delta_part ''input_json_delta'' ''partial_json'' e else '''') es)"

text \<open>What a frame carries.\<close>

definition frame_delta :: "chat_frame \<Rightarrow> ChatDelta option" where
  "frame_delta f = (case f of ChatFrame _ (Some c) \<Rightarrow> (case ck_Choices c of d # _ \<Rightarrow> Some d | [] \<Rightarrow> None) | _ \<Rightarrow> None)"

definition frame_text :: "chat_frame \<Rightarrow> string" where
  "frame_text f = (case frame_delta f of Some d \<Rightarrow> cd_Content d | None \<Rightarrow> '''')"

definition frame_thinking :: "chat_frame \<Rightarrow> string" where
  "frame_thinking f = (case frame_delta f of Some d \<Rightarrow> chatMessagesStreamReasoning d | None \<Rightarrow> '''')"

definition frame_calls :: "chat_frame \<Rightarrow> ToolCallDelta list" where
  "frame_calls f = (case frame_delta f of Some d \<Rightarrow> cd_ToolCalls d | None \<Rightarrow> [])"

definition call_arguments :: "int \<Rightarrow> ToolCallDelta list \<Rightarrow> string" where
  "call_arguments k tcs = concat (map tcd_Arguments (filter (\<lambda>tc. tcd_Index tc = k) tcs))"

lemma shown_append:
  "shown_text (es @ fs) = shown_text es @ shown_text fs"
  "shown_thinking (es @ fs) = shown_thinking es @ shown_thinking fs"
  "tool_input i (es @ fs) = tool_input i es @ tool_input i fs"
  by (simp_all add: shown_text_def shown_thinking_def tool_input_def)

lemma shown_Nil [simp]: "shown_text [] = ''''" "shown_thinking [] = ''''" "tool_input i [] = ''''"
  by (simp_all add: shown_text_def shown_thinking_def tool_input_def)

lemma shown_flush_last [simp]:
  "shown_text (flush_last es) = shown_text es" "shown_thinking (flush_last es) = shown_thinking es" "tool_input i (flush_last es) = tool_input i es"
proof -
  have d: "delta_part ty f (e\<lparr>me_Flush := True\<rparr>) = delta_part ty f e" "event_index (e\<lparr>me_Flush := True\<rparr>) = event_index e" for ty f e
    by (simp_all add: delta_part_def event_index_def)
  show "shown_text (flush_last es) = shown_text es" "shown_thinking (flush_last es) = shown_thinking es" "tool_input i (flush_last es) = tool_input i es"
    by (cases es rule: rev_cases; simp add: flush_last_def shown_text_def shown_thinking_def tool_input_def d)+
qed

lemma shown_singles:
  "shown_text [block_start idx b] = ''''" "shown_thinking [block_start idx b] = ''''" "tool_input i [block_start idx b] = ''''"
  "shown_text [(block_delta idx ''text_delta'' ''text'' t)\<lparr>me_TransmittedChars := n, me_Flush := f\<rparr>] = t"
  "shown_text [(block_delta idx ''thinking_delta'' ''thinking'' t)\<lparr>me_TransmittedChars := n, me_Flush := f\<rparr>] = ''''"
  "shown_text [block_delta idx ''input_json_delta'' ''partial_json'' t] = ''''"
  "shown_thinking [(block_delta idx ''text_delta'' ''text'' t)\<lparr>me_TransmittedChars := n, me_Flush := f\<rparr>] = ''''"
  "shown_thinking [(block_delta idx ''thinking_delta'' ''thinking'' t)\<lparr>me_TransmittedChars := n, me_Flush := f\<rparr>] = t"
  "shown_thinking [block_delta idx ''input_json_delta'' ''partial_json'' t] = ''''"
  "tool_input i [(block_delta idx ''text_delta'' ''text'' t)\<lparr>me_TransmittedChars := n, me_Flush := f\<rparr>] = ''''"
  "tool_input i [(block_delta idx ''thinking_delta'' ''thinking'' t)\<lparr>me_TransmittedChars := n, me_Flush := f\<rparr>] = ''''"
  "tool_input i [block_delta idx ''input_json_delta'' ''partial_json'' t] = (if i = idx then t else '''')"
  by (simp_all add: shown_text_def shown_thinking_def tool_input_def delta_part_def event_defs)

text \<open>Events that carry no content.\<close>

definition quiet :: "MessagesStreamEvent list \<Rightarrow> bool" where
  "quiet es \<longleftrightarrow> (\<forall>e\<in>set es. me_Event e \<noteq> ''content_block_delta'')"

lemma quiet_shown: assumes "quiet es" shows "shown_text es = ''''" "shown_thinking es = ''''" "tool_input i es = ''''"
  using assms by (simp_all add: quiet_def shown_text_def shown_thinking_def tool_input_def delta_part_def concat_eq_Nil_conv) auto

lemma quiet_append [simp]: "quiet (es @ fs) \<longleftrightarrow> quiet es \<and> quiet fs"
  by (auto simp: quiet_def)

lemma quiet_parts:
  "quiet (fst (startMessage s))" "quiet (fst (snd (ensureBlock ty s)))" "quiet (fst (closeOpenBlocks s))"
  by (auto simp: quiet_def startMessage_def ensureBlock_def closeOpenBlocks_def Let_def event_defs split: if_splits)

lemma quiet_finalize: "quiet (fst (finalizeSuccess r s))"
proof -
  have "quiet [messages_event ''message_delta'' kvs, (messages_event ''message_stop'' kvs')\<lparr>me_Flush := True\<rparr>]" for kvs kvs'
    by (simp add: quiet_def messages_event_def)
  then show ?thesis using quiet_parts by (simp add: finalizeSuccess_def Let_def split_beta quiet_def[of "[]"])
qed

lemma quiet_flush_last: "quiet es \<Longrightarrow> quiet (flush_last es)"
  by (cases es rule: rev_cases) (auto simp: flush_last_def quiet_def)

lemma quiet_Finish: "quiet (fst (fst (Finish u s)))"
  using quiet_parts(3) quiet_finalize quiet_flush_last by (simp add: Finish_def Let_def split_beta quiet_def[of "[]"])

subsection \<open>Text and thinking\<close>

lemma feed_thinking_shown:
  "shown_text (fst (feed_thinking t s)) = ''''" "shown_thinking (fst (feed_thinking t s)) = t" "tool_input i (fst (feed_thinking t s)) = ''''"
  using quiet_shown[OF quiet_parts(1)] quiet_shown[OF quiet_parts(2)]
  by (auto simp: feed_thinking_def emitThinkingDelta_def split_beta Let_def shown_append shown_singles)

lemma feed_text_shown:
  "shown_text (fst (feed_text t s)) = t" "shown_thinking (fst (feed_text t s)) = ''''" "tool_input i (fst (feed_text t s)) = ''''"
  using quiet_shown[OF quiet_parts(1)] quiet_shown[OF quiet_parts(2)]
  by (auto simp: feed_text_def emitTextDelta_def split_beta Let_def shown_append shown_singles)

lemma feed_tool_shown: "shown_text (fst (feed_tool tc s)) = ''''" "shown_thinking (fst (feed_tool tc s)) = ''''"
  by (auto simp: feed_tool_def split_beta Let_def shown_append shown_singles)

lemma feed_tools_shown: "shown_text (fst (feed_tools tcs s)) = '''' \<and> shown_thinking (fst (feed_tools tcs s)) = ''''"
  by (induction tcs arbitrary: s) (simp_all add: split_beta shown_append feed_tool_shown)

lemma feed_calls_shown: "shown_text (fst (feed_calls tcs s)) = ''''" "shown_thinking (fst (feed_calls tcs s)) = ''''"
  using quiet_shown[OF quiet_parts(1)] by (simp_all add: feed_calls_def split_beta shown_append feed_tools_shown)

lemma FeedJSON_shown:
  assumes "\<not> cm_finished s"
  shows "shown_text (fst (fst (FeedJSON f s))) = frame_text f" "shown_thinking (fst (fst (FeedJSON f s))) = frame_thinking f"
  using assms
  by (auto simp: FeedJSON_def feed_chunk_def feed_delta_def frame_text_def frame_thinking_def frame_delta_def split_beta Let_def shown_append
      feed_thinking_shown feed_text_shown feed_calls_shown split: chat_frame.splits option.splits list.splits)

lemma feed_all_shown:
  assumes "\<not> cm_finished s"
  shows "shown_text (fst (feed_all fs s)) = concat (map frame_text fs) \<and> shown_thinking (fst (feed_all fs s)) = concat (map frame_thinking fs)"
  using assms
proof (induction fs arbitrary: s)
  case (Cons f fs)
  have "\<not> cm_finished (snd (FeedJSON f s))" using FeedJSON_flags[OF Cons.prems, of f] by (simp add: flags_def)
  then show ?case using Cons FeedJSON_shown by (simp add: split_beta shown_append)
qed simp

subsection \<open>Tool calls\<close>

text \<open>
  What the events sent so far say about the calls of the upstream: every call index has its own block, the block holds the arguments
  received for it, and blocks not yet used hold nothing.
\<close>

definition calls_ok :: "MessagesStreamEvent list \<Rightarrow> ToolCallDelta list \<Rightarrow> ChatToMessagesStream \<Rightarrow> bool" where
  "calls_ok es tcs s \<longleftrightarrow>
     dom (cm_oaiToAnthropicIndex s) = tcd_Index ` set tcs
   \<and> inj_on (cm_oaiToAnthropicIndex s) (dom (cm_oaiToAnthropicIndex s))
   \<and> ran (cm_oaiToAnthropicIndex s) \<subseteq> {..<cm_nextBlockIndex s}
   \<and> (\<forall>i\<ge>cm_nextBlockIndex s. tool_input i es = '''')
   \<and> (\<forall>k i. cm_oaiToAnthropicIndex s k = Some i \<longrightarrow> tool_input i es = call_arguments k tcs)"

lemma calls_ok_quiet:
  assumes "calls_ok es tcs s" "\<And>i. tool_input i es' = ''''"
    "cm_oaiToAnthropicIndex s' = cm_oaiToAnthropicIndex s" "cm_nextBlockIndex s \<le> cm_nextBlockIndex s'"
  shows "calls_ok (es @ es') tcs s'"
  using assms by (fastforce simp: calls_ok_def shown_append)

lemma call_arguments_snoc: "call_arguments k (tcs @ [tc]) = call_arguments k tcs @ (if tcd_Index tc = k then tcd_Arguments tc else '''')"
  by (simp add: call_arguments_def)

lemma call_arguments_new: "k \<notin> tcd_Index ` set tcs \<Longrightarrow> call_arguments k tcs = ''''"
  by (induction tcs) (auto simp: call_arguments_def)

lemma feed_tool_input:
  assumes "feed_tool tc s = (es, s', fl)"
  shows "\<exists>i. cm_oaiToAnthropicIndex s' (tcd_Index tc) = Some i \<and> (\<forall>j. tool_input j es = (if j = i then tcd_Arguments tc else ''''))
    \<and> (case cm_oaiToAnthropicIndex s (tcd_Index tc) of
         Some i' \<Rightarrow> i = i' \<and> cm_oaiToAnthropicIndex s' = cm_oaiToAnthropicIndex s \<and> cm_nextBlockIndex s' = cm_nextBlockIndex s
       | None \<Rightarrow> i = cm_nextBlockIndex s \<and> cm_oaiToAnthropicIndex s' = (cm_oaiToAnthropicIndex s)(tcd_Index tc \<mapsto> i)
                 \<and> cm_nextBlockIndex s' = cm_nextBlockIndex s + 1)"
proof -
  have q: "tool_input j (if b then [] else [block_start x y]) = ''''"
    "tool_input j (if b then [block_delta x ''input_json_delta'' ''partial_json'' t] else []) = (if b \<and> j = x then t else '''')" for j b x y t
    by (simp_all add: shown_singles)
  have two: "tool_input j (x # y # xs) = tool_input j [x] @ tool_input j (y # xs)" for j x y xs
    by (simp add: tool_input_def)
  show ?thesis using assms
    by (auto simp: feed_tool_def Let_def shown_append shown_singles q two split: option.splits if_splits)
qed

lemma feed_tool_calls_ok:
  assumes ok: "calls_ok es tcs s" and f: "feed_tool tc s = (es', s', fl)"
  shows "calls_ok (es @ es') (tcs @ [tc]) s'"
proof -
  let ?m = "cm_oaiToAnthropicIndex s" let ?n = "cm_nextBlockIndex s" let ?k = "tcd_Index tc"
  obtain i where i: "cm_oaiToAnthropicIndex s' ?k = Some i" "\<And>j. tool_input j es' = (if j = i then tcd_Arguments tc else '''')"
    and c: "case ?m ?k of
         Some i' \<Rightarrow> i = i' \<and> cm_oaiToAnthropicIndex s' = ?m \<and> cm_nextBlockIndex s' = ?n
       | None \<Rightarrow> i = ?n \<and> cm_oaiToAnthropicIndex s' = ?m(?k \<mapsto> i) \<and> cm_nextBlockIndex s' = ?n + 1"
    using feed_tool_input[OF f] by auto
  have inj: "?m a = Some x \<Longrightarrow> ?m b = Some x \<Longrightarrow> a = b" and below: "?m a = Some x \<Longrightarrow> x < ?n" for a b x
    using ok by (auto simp: calls_ok_def inj_on_def dom_def intro: ranI)
  show ?thesis
  proof (cases "?m ?k")
    case (Some i')
    then have "?k \<in> tcd_Index ` set tcs" "\<not> ?n \<le> i'" using ok below by (auto simp: calls_ok_def not_le)
    then show ?thesis using ok c i Some inj
      by (auto simp: calls_ok_def shown_append call_arguments_snoc insert_absorb)
  next
    case None
    then have new: "call_arguments ?k tcs = ''''" using ok by (intro call_arguments_new) (auto simp: calls_ok_def domIff)
    have "inj_on (?m(?k \<mapsto> ?n)) (insert ?k (dom ?m))" using below inj None by (fastforce simp: inj_on_def dom_def split: if_splits)
    moreover have "ran (?m(?k \<mapsto> ?n)) \<subseteq> {..<?n + 1}" using below None by (force simp: ran_def split: if_splits)
    moreover have "tool_input j (es @ es') = call_arguments k (tcs @ [tc])" if "(?m(?k \<mapsto> ?n)) k = Some j" for k j
      using that ok i c None new below by (fastforce simp: calls_ok_def shown_append call_arguments_snoc split: if_splits)
    ultimately show ?thesis using ok c i None by (auto simp: calls_ok_def shown_append)
  qed
qed

lemma feed_tools_calls_ok: "calls_ok es tcs s \<Longrightarrow> calls_ok (es @ fst (feed_tools tcs' s)) (tcs @ tcs') (fst (snd (feed_tools tcs' s)))"
proof (induction tcs' arbitrary: es tcs s)
  case (Cons tc tcs')
  obtain e1 s1 f1 where 1: "feed_tool tc s = (e1, s1, f1)" by (metis surj_pair)
  show ?case using Cons.IH[OF feed_tool_calls_ok[OF Cons.prems 1]] 1 by (simp add: split_beta)
qed simp

lemma blocks_kept:
  "cm_oaiToAnthropicIndex (snd (startMessage s)) = cm_oaiToAnthropicIndex s" "cm_nextBlockIndex (snd (startMessage s)) = cm_nextBlockIndex s"
  "cm_oaiToAnthropicIndex (snd (snd (ensureBlock ty s))) = cm_oaiToAnthropicIndex s"
  "cm_nextBlockIndex s \<le> cm_nextBlockIndex (snd (snd (ensureBlock ty s)))"
  by (simp_all add: startMessage_def ensureBlock_def Let_def)

lemma parts_kept:
  "cm_oaiToAnthropicIndex (snd (feed_thinking t s)) = cm_oaiToAnthropicIndex s" "cm_nextBlockIndex s \<le> cm_nextBlockIndex (snd (feed_thinking t s))"
  "cm_oaiToAnthropicIndex (snd (feed_text t s)) = cm_oaiToAnthropicIndex s" "cm_nextBlockIndex s \<le> cm_nextBlockIndex (snd (feed_text t s))"
  using blocks_kept(4)[of "snd (startMessage s)"]
  by (simp_all add: feed_thinking_def feed_text_def emitThinkingDelta_def emitTextDelta_def split_beta Let_def blocks_kept)

lemma feed_calls_calls_ok:
  assumes "calls_ok es tcs s" shows "calls_ok (es @ fst (feed_calls tcs' s)) (tcs @ tcs') (fst (snd (feed_calls tcs' s)))"
proof -
  have "calls_ok (es @ fst (startMessage s)) tcs (snd (startMessage s))"
    using calls_ok_quiet[OF assms quiet_shown(3)[OF quiet_parts(1)]] by (simp add: blocks_kept)
  from feed_tools_calls_ok[OF this, of tcs'] assms show ?thesis by (simp add: feed_calls_def split_beta)
qed

lemma feed_delta_calls_ok:
  assumes "calls_ok es tcs s" shows "calls_ok (es @ fst (feed_delta d s)) (tcs @ cd_ToolCalls d) (fst (snd (feed_delta d s)))"
proof -
  let ?s1 = "snd (feed_thinking (chatMessagesStreamReasoning d) s)" let ?s2 = "snd (feed_text (cd_Content d) ?s1)"
  have 1: "calls_ok (es @ fst (feed_thinking (chatMessagesStreamReasoning d) s)) tcs ?s1"
    using calls_ok_quiet[OF assms feed_thinking_shown(3)] by (simp add: parts_kept)
  have "calls_ok ((es @ fst (feed_thinking (chatMessagesStreamReasoning d) s)) @ fst (feed_text (cd_Content d) ?s1)) tcs ?s2"
    using calls_ok_quiet[OF 1 feed_text_shown(3)] by (simp add: parts_kept)
  note 3 = feed_calls_calls_ok[OF this, of "cd_ToolCalls d"]
  then show ?thesis by (auto simp: feed_delta_def split_beta Let_def calls_ok_def split: option.splits)
qed

lemma FeedJSON_calls_ok:
  assumes "calls_ok es tcs s" "\<not> cm_finished s"
  shows "calls_ok (es @ fst (fst (FeedJSON f s))) (tcs @ frame_calls f) (snd (FeedJSON f s))"
proof -
  have same: "calls_ok es tcs (s\<lparr>cm_sawDone := b\<rparr>)" "calls_ok es tcs (s\<lparr>cm_usage := u\<rparr>)" "calls_ok es tcs (s\<lparr>cm_usage := u, cm_lastMessageID := r\<rparr>)" for b u r
    using assms(1) by (auto simp: calls_ok_def)
  show ?thesis using assms(2) same feed_delta_calls_ok
    by (auto simp: FeedJSON_def feed_chunk_def frame_calls_def frame_delta_def split_beta Let_def split: chat_frame.splits option.splits list.splits)
qed

lemma feed_all_calls_ok:
  assumes "calls_ok es tcs s" "\<not> cm_finished s"
  shows "calls_ok (es @ fst (feed_all fs s)) (tcs @ concat (map frame_calls fs)) (snd (feed_all fs s))"
  using assms
proof (induction fs arbitrary: es tcs s)
  case (Cons f fs)
  have "\<not> cm_finished (snd (FeedJSON f s))" using FeedJSON_flags[OF Cons.prems(2), of f] by (simp add: flags_def)
  from Cons.IH[OF FeedJSON_calls_ok[OF Cons.prems] this] show ?case by (simp add: split_beta)
qed simp

subsection \<open>The client's view\<close>

lemma translated_content:
  "case translate_stream model u0 fs latest of (es, meta) \<Rightarrow>
     shown_text es = concat (map frame_text fs) \<and> shown_thinking es = concat (map frame_thinking fs)
   \<and> (\<exists>block. let ks = remdups (map tcd_Index (concat (map frame_calls fs))) in
        distinct (map block ks) \<and> map (\<lambda>k. tool_input (block k) es) ks = map (\<lambda>k. call_arguments k (concat (map frame_calls fs))) ks)"
proof -
  let ?s0 = "NewChatToMessagesStream model u0" let ?calls = "concat (map frame_calls fs)"
  obtain e1 s1 where 1: "feed_all fs ?s0 = (e1, s1)" by (metis surj_pair)
  obtain e2 m s2 where 2: "Finish latest s1 = ((e2, m), s2)" by (metis surj_pair)
  have nf: "\<not> cm_finished ?s0" by (simp add: NewChatToMessagesStream_def)
  have q: "quiet e2" using quiet_Finish[of latest s1] 2 by simp
  have "calls_ok [] [] ?s0" by (simp add: calls_ok_def NewChatToMessagesStream_def)
  from feed_all_calls_ok[OF this nf, of fs] have ok: "calls_ok e1 ?calls s1" using 1 by simp
  define block where "block k = the (cm_oaiToAnthropicIndex s1 k)" for k
  have b: "cm_oaiToAnthropicIndex s1 k = Some (block k)" if "k \<in> tcd_Index ` set ?calls" for k
    using ok that unfolding calls_ok_def block_def by (metis domIff option.collapse)
  have "inj_on block (tcd_Index ` set ?calls)"
    using ok b unfolding calls_ok_def inj_on_def by metis
  moreover have "tool_input (block k) (e1 @ e2) = call_arguments k ?calls" if "k \<in> tcd_Index ` set ?calls" for k
    using ok b[OF that] quiet_shown(3)[OF q] by (simp add: calls_ok_def shown_append)
  ultimately have "let ks = remdups (map tcd_Index ?calls) in
      distinct (map block ks) \<and> map (\<lambda>k. tool_input (block k) (e1 @ e2)) ks = map (\<lambda>k. call_arguments k ?calls) ks"
    by (simp add: distinct_map Let_def)
  moreover have "shown_text e1 = concat (map frame_text fs) \<and> shown_thinking e1 = concat (map frame_thinking fs)"
    using feed_all_shown[OF nf, of fs] 1 by simp
  ultimately show ?thesis using 1 2 quiet_shown[OF q] by (simp add: translate_stream_def shown_append) blast
qed

text \<open>
  Nothing of what the upstream says is lost, repeated or put in another place: the client reads exactly the text and the thinking of the
  frames, in order, and every tool call of the upstream has a block of its own, whose input is the concatenation of the arguments
  received for it.
\<close>

theorem translated_stream_keeps_content:
  "case translate_stream model u0 fs latest of (es, meta) \<Rightarrow>
     shown_text es = concat (map frame_text fs) \<and> shown_thinking es = concat (map frame_thinking fs)
   \<and> (\<exists>block. let ks = remdups (map tcd_Index (concat (map frame_calls fs))) in
        distinct (map block ks) \<and> map (\<lambda>k. tool_input (block k) es) ks = map (\<lambda>k. call_arguments k (concat (map frame_calls fs))) ks)"
  by (rule translated_content)

end
