(* ===== verification/Messages_Chat_Stream.thy ===== *)
theory Messages_Chat_Stream
  imports Chat_Messages_Stream
begin

text \<open>
  The translation of a Messages stream into Chat Completions chunks: \<open>src/pkg/llm/translate/messages_chat_stream.go\<close>. A frame is what
  decoding its text into a map gives (\<open>None\<close> when it fails, \<open>JNull\<close> for the nil map); a chunk is the value that is encoded.
\<close>

record MessagesToChatStream =
  mc_model :: string
  mc_id :: string
  mc_created :: int
  mc_toolIndex :: "int \<rightharpoonup> int"
  mc_nextTool :: int
  mc_blockTypes :: "int \<rightharpoonup> string"
  mc_sawToolUse :: bool
  mc_finishSent :: bool

datatype message_frame = MessagesDone | MessagesFrame "json option"

text \<open>The clock reading is an argument.\<close>

definition NewMessagesToChatStream :: "string \<Rightarrow> int \<Rightarrow> MessagesToChatStream" where
  "NewMessagesToChatStream model now = \<lparr>mc_model = model, mc_id = ''chatcmpl-stream'', mc_created = now, mc_toolIndex = Map.empty, mc_nextTool = 0,
     mc_blockTypes = Map.empty, mc_sawToolUse = False, mc_finishSent = False\<rparr>"

subsection \<open>Reading\<close>

definition decoded_map :: "json option \<Rightarrow> json option" where
  "decoded_map v = (case v of Some (JObj kvs) \<Rightarrow> Some (JObj kvs) | Some JNull \<Rightarrow> Some JNull | _ \<Rightarrow> None)"

definition jint :: "json option \<Rightarrow> int option" where
  "jint v = map_option int64_of (jnum v)"

definition intFrom :: "json option \<Rightarrow> int" where
  "intFrom v = (case jint v of Some n \<Rightarrow> n | None \<Rightarrow> 0)"

definition int_or :: "int \<Rightarrow> string \<Rightarrow> json \<Rightarrow> int" where
  "int_or old k j = (case jint (jget k j) of Some n \<Rightarrow> n | None \<Rightarrow> old)"

definition thinkingText :: "json \<Rightarrow> string" where
  "thinkingText block = jstr (jget ''thinking'' block)"

definition stripMsgPrefix :: "string \<Rightarrow> string" where
  "stripMsgPrefix msgID = (if length msgID > 4 \<and> take 4 msgID = ''msg_'' then drop 4 msgID else msgID)"

definition read_usage :: "json \<Rightarrow> StreamChunkMeta \<Rightarrow> StreamChunkMeta" where
  "read_usage u m = m\<lparr>sm_InputTokens := int_or (sm_InputTokens m) ''input_tokens'' u, sm_OutputTokens := int_or (sm_OutputTokens m) ''output_tokens'' u,
     sm_CachedTokens := int_or (sm_CachedTokens m) ''cache_read_input_tokens'' u,
     sm_CacheCreationTokens := int_or (sm_CacheCreationTokens m) ''cache_creation_input_tokens'' u\<rparr>"

text \<open>The usage of the event, when it has one.\<close>

definition usage_of :: "json \<Rightarrow> StreamChunkMeta \<Rightarrow> StreamChunkMeta" where
  "usage_of j m = (case jobj (jget ''usage'' j) of Some u \<Rightarrow> read_usage u m | None \<Rightarrow> m)"

text \<open>The usage of its message: an output count already read is kept.\<close>

definition message_usage :: "json \<Rightarrow> StreamChunkMeta \<Rightarrow> StreamChunkMeta" where
  "message_usage j m = (case jobj (jget ''usage'' j) of None \<Rightarrow> m
     | Some u \<Rightarrow> (read_usage u m)\<lparr>sm_OutputTokens := (if sm_OutputTokens m = 0 then int_or 0 ''output_tokens'' u else sm_OutputTokens m)\<rparr>)"

definition read_message :: "json \<Rightarrow> StreamChunkMeta \<Rightarrow> MessagesToChatStream \<Rightarrow> StreamChunkMeta \<times> MessagesToChatStream" where
  "read_message ev m s = (case jobj (jget ''message'' ev) of None \<Rightarrow> (m, s)
     | Some msg \<Rightarrow>
         let s1 = (if jstr (jget ''id'' msg) \<noteq> '''' then s\<lparr>mc_id := ''chatcmpl-'' @ stripMsgPrefix (jstr (jget ''id'' msg))\<rparr> else s);
             s2 = (if jstr (jget ''model'' msg) \<noteq> '''' then s1\<lparr>mc_model := jstr (jget ''model'' msg)\<rparr> else s1)
         in (message_usage msg m, s2))"

subsection \<open>Chunks\<close>

definition baseChunk :: "json \<Rightarrow> MessagesToChatStream \<Rightarrow> json" where
  "baseChunk choice s = JObj [(''id'', JStr (mc_id s)), (''object'', JStr ''chat.completion.chunk''), (''created'', JInt (mc_created s)),
     (''model'', JStr (mc_model s)), (''choices'', JArr [choice])]"

definition delta_choice :: "string \<Rightarrow> json \<Rightarrow> json" where
  "delta_choice k v = JObj [(''index'', JInt 0), (''delta'', JObj [(k, v)])]"

definition finish_choice :: "string \<Rightarrow> json" where
  "finish_choice r = JObj [(''index'', JInt 0), (''delta'', JObj []), (''finish_reason'', JStr r)]"

definition mapStopReasonToFinish :: "string \<Rightarrow> bool \<Rightarrow> string" where
  "mapStopReasonToFinish sr sawTool = (if sr = ''max_tokens'' then ''length'' else if sr = ''tool_use'' then ''tool_calls''
     else if sawTool then ''tool_calls'' else ''stop'')"

type_synonym chat_out = "(json list \<times> StreamChunkMeta) \<times> MessagesToChatStream"

definition on_block_start :: "json \<Rightarrow> StreamChunkMeta \<Rightarrow> MessagesToChatStream \<Rightarrow> chat_out" where
  "on_block_start ev m s = (case jobj (jget ''content_block'' ev) of None \<Rightarrow> (([], m), s)
     | Some cb \<Rightarrow>
         let idx = intFrom (jget ''index'' ev); cbType = jstr (jget ''type'' cb); s1 = s\<lparr>mc_blockTypes := (mc_blockTypes s)(idx \<mapsto> cbType)\<rparr>
         in if cbType = ''tool_use''
            then let toolIdx = mc_nextTool s1;
                     s2 = s1\<lparr>mc_sawToolUse := True, mc_toolIndex := (mc_toolIndex s1)(idx \<mapsto> toolIdx), mc_nextTool := toolIdx + 1\<rparr>
                 in (([baseChunk (delta_choice ''tool_calls'' (JArr [JObj [(''index'', JInt toolIdx), (''id'', JStr (jstr (jget ''id'' cb))),
                        (''type'', JStr ''function''), (''function'', JObj [(''name'', JStr (jstr (jget ''name'' cb))), (''arguments'', JStr '''')])]])) s2], m), s2)
            else (([], m), s1))"

definition on_block_delta :: "json \<Rightarrow> StreamChunkMeta \<Rightarrow> MessagesToChatStream \<Rightarrow> chat_out" where
  "on_block_delta ev m s = (case jobj (jget ''delta'' ev) of None \<Rightarrow> (([], m), s)
     | Some delta \<Rightarrow>
         let idx = intFrom (jget ''index'' ev); dt = jstr (jget ''type'' delta)
         in if dt = ''thinking_delta'' then
              let thinking = thinkingText delta in
              if thinking = '''' then (([], m), s)
              else (([baseChunk (delta_choice ''reasoning_content'' (JStr thinking)) s], m\<lparr>sm_TransmittedChars := length thinking\<rparr>), s)
            else if dt = ''text_delta'' then
              let text = jstr (jget ''text'' delta) in
              if text = '''' then (([], m), s)
              else (([baseChunk (delta_choice ''content'' (JStr text)) s], m\<lparr>sm_TransmittedChars := length text\<rparr>), s)
            else if dt = ''input_json_delta'' then
              let partial = jstr (jget ''partial_json'' delta) in
              if partial = '''' then (([], m), s)
              else let (toolIdx, s1) = (case mc_toolIndex s idx of Some t \<Rightarrow> (t, s)
                     | None \<Rightarrow> (mc_nextTool s, s\<lparr>mc_toolIndex := (mc_toolIndex s)(idx \<mapsto> mc_nextTool s), mc_nextTool := mc_nextTool s + 1, mc_sawToolUse := True\<rparr>))
                   in (([baseChunk (delta_choice ''tool_calls'' (JArr [JObj [(''index'', JInt toolIdx), (''function'', JObj [(''arguments'', JStr partial)])]])) s1],
                        m\<lparr>sm_TransmittedChars := length partial\<rparr>), s1)
            else (([], m), s))"

definition send_finish :: "string \<Rightarrow> MessagesToChatStream \<Rightarrow> json list \<times> MessagesToChatStream" where
  "send_finish finish s = (if mc_finishSent s then ([], s)
     else let s1 = s\<lparr>mc_finishSent := True\<rparr> in ([baseChunk (finish_choice finish) s1], s1))"

definition on_message_delta :: "json \<Rightarrow> StreamChunkMeta \<Rightarrow> MessagesToChatStream \<Rightarrow> chat_out" where
  "on_message_delta ev m s =
     (let m1 = usage_of ev m;
          f1 = (case jobj (jget ''delta'' ev) of Some d \<Rightarrow>
                  (case jget ''stop_reason'' d of Some (JStr sr) \<Rightarrow> mapStopReasonToFinish sr (mc_sawToolUse s) | _ \<Rightarrow> ''stop'') | None \<Rightarrow> ''stop'');
          finish = (if mc_sawToolUse s \<and> f1 = ''stop'' then ''tool_calls'' else f1);
          (cs, s1) = send_finish finish s
      in ((cs, m1), s1))"

definition on_message_stop :: "StreamChunkMeta \<Rightarrow> MessagesToChatStream \<Rightarrow> chat_out" where
  "on_message_stop m s = (let (cs, s1) = send_finish (if mc_sawToolUse s then ''tool_calls'' else ''stop'') s in ((cs, m\<lparr>sm_EmitDone := True\<rparr>), s1))"

definition on_error :: "json \<Rightarrow> StreamChunkMeta \<Rightarrow> MessagesToChatStream \<Rightarrow> chat_out" where
  "on_error ev m s =
     (let given = (case jobj (jget ''error'' ev) of Some e \<Rightarrow> jstr (jget ''message'' e) | None \<Rightarrow> '''');
          msg = (if given = '''' then ''upstream anthropic error'' else given)
      in (([JObj [(''error'', JObj [(''message'', JStr msg), (''type'', JStr ''anthropic_error'')])]], m\<lparr>sm_ErrorMessage := msg\<rparr>), s))"

definition FeedMessages :: "message_frame \<Rightarrow> MessagesToChatStream \<Rightarrow> chat_out" where
  "FeedMessages frame s = (case frame of
     MessagesDone \<Rightarrow> (([], zero_meta\<lparr>sm_EmitDone := True\<rparr>), s)
   | MessagesFrame data \<Rightarrow>
       (case decoded_map data of None \<Rightarrow> (([], zero_meta), s)
        | Some ev \<Rightarrow>
            let (m, s1) = read_message ev (usage_of ev zero_meta) s; eventType = jstr (jget ''type'' ev)
            in if eventType = ''message_start'' then (([], m), s1)
               else if eventType = ''content_block_start'' then on_block_start ev m s1
               else if eventType = ''content_block_delta'' then on_block_delta ev m s1
               else if eventType = ''message_delta'' then on_message_delta ev m s1
               else if eventType = ''message_stop'' then on_message_stop m s1
               else if eventType = ''error'' then on_error ev m s1
               else (([], m), s1)))"

fun feed_messages :: "message_frame list \<Rightarrow> MessagesToChatStream \<Rightarrow> json list \<times> MessagesToChatStream" where
  "feed_messages [] s = ([], s)"
| "feed_messages (f # fs) s = (let ((cs, _), s1) = FeedMessages f s; (cs', s2) = feed_messages fs s1 in (cs @ cs', s2))"

end
