(* ===== verification/Stream_Roundtrip.thy ===== *)
theory Stream_Roundtrip
  imports Messages_Content Messages_Chat_Stream
begin

text \<open>
  The two stream translators after one another: a Chat stream translated into a Messages stream and back, as it happens when a Messages
  client's gateway sits before a Chat client's. Frames are compared by what a Chat client reads in them.
\<close>

subsection \<open>A chunk as a Chat frame\<close>

definition call_delta :: "json \<Rightarrow> ToolCallDelta" where
  "call_delta c = (let f = (case jobj (jget ''function'' c) of Some f \<Rightarrow> f | None \<Rightarrow> JNull)
     in \<lparr>tcd_Index = (case jget ''index'' c of Some (JNum r) \<Rightarrow> \<lfloor>r\<rfloor> | _ \<Rightarrow> 0), tcd_ID = jstr (jget ''id'' c), tcd_Name = jstr (jget ''name'' f),
         tcd_Arguments = jstr (jget ''arguments'' f)\<rparr>)"

definition choice_delta :: "json \<Rightarrow> ChatDelta" where
  "choice_delta ch = (let d = (case jobj (jget ''delta'' ch) of Some d \<Rightarrow> d | None \<Rightarrow> JNull)
     in \<lparr>cd_Content = jstr (jget ''content'' d), cd_ReasoningContent = jstr (jget ''reasoning_content'' d), cd_Thinking = jstr (jget ''thinking'' d),
         cd_Reasoning = jstr (jget ''reasoning'' d), cd_Thought = jstr (jget ''thought'' d),
         cd_ToolCalls = map call_delta (case jlist (jget ''tool_calls'' d) of Some cs \<Rightarrow> cs | None \<Rightarrow> []),
         cd_FinishReason = (case jget ''finish_reason'' ch of Some (JStr r) \<Rightarrow> Some r | _ \<Rightarrow> None)\<rparr>)"

definition chunk_frame :: "json \<Rightarrow> chat_frame" where
  "chunk_frame c = ChatFrame zero_tokens (Some \<lparr>ck_ID = jstr (jget ''id'' c),
     ck_Choices = map choice_delta (case jlist (jget ''choices'' c) of Some cs \<Rightarrow> cs | None \<Rightarrow> [])\<rparr>)"

abbreviation wire :: "MessagesStreamEvent \<Rightarrow> message_frame" where
  "wire e \<equiv> MessagesFrame (Some (me_Data e))"

definition chat_again :: "MessagesStreamEvent list \<Rightarrow> MessagesToChatStream \<Rightarrow> chat_frame list" where
  "chat_again es s = map chunk_frame (fst (feed_messages (map wire es) s))"

lemma frames_of_chunks:
  "frame_text (chunk_frame (baseChunk (delta_choice ''content'' (JStr t)) s)) = t"
  "frame_thinking (chunk_frame (baseChunk (delta_choice ''content'' (JStr t)) s)) = ''''"
  "frame_calls (chunk_frame (baseChunk (delta_choice ''content'' (JStr t)) s)) = []"
  "frame_text (chunk_frame (baseChunk (delta_choice ''reasoning_content'' (JStr t)) s)) = ''''"
  "frame_thinking (chunk_frame (baseChunk (delta_choice ''reasoning_content'' (JStr t)) s)) = t"
  "frame_calls (chunk_frame (baseChunk (delta_choice ''reasoning_content'' (JStr t)) s)) = []"
  "frame_text (chunk_frame (baseChunk (delta_choice ''tool_calls'' v) s)) = ''''"
  "frame_thinking (chunk_frame (baseChunk (delta_choice ''tool_calls'' v) s)) = ''''"
  "frame_calls (chunk_frame (baseChunk (delta_choice ''tool_calls'' (JArr cs)) s)) = map call_delta cs"
  "frame_text (chunk_frame (baseChunk (finish_choice r) s)) = ''''"
  "frame_thinking (chunk_frame (baseChunk (finish_choice r) s)) = ''''"
  "frame_calls (chunk_frame (baseChunk (finish_choice r) s)) = []"
  "frame_delta (chunk_frame (JObj [(''error'', e)])) = None"
  by (simp_all add: chunk_frame_def baseChunk_def delta_choice_def finish_choice_def choice_delta_def frame_text_def frame_thinking_def frame_calls_def
      frame_delta_def chatMessagesStreamReasoning_def)

text \<open>The name of an event is the type in its data.\<close>

definition named :: "MessagesStreamEvent \<Rightarrow> bool" where
  "named e \<longleftrightarrow> (\<exists>kvs. me_Data e = JObj ((''type'', JStr (me_Event e)) # kvs))"

lemma named_event [simp]:
  "named (messages_event ty kvs)" "named (e\<lparr>me_Flush := b\<rparr>) = named e" "named (e\<lparr>me_TransmittedChars := n\<rparr>) = named e"
  by (simp_all add: named_def messages_event_def)

lemma named_flush_last [simp]: "list_all named (flush_last es) = list_all named es"
  by (cases es rule: rev_cases) (simp_all add: flush_last_def)

lemma named_parts:
  "list_all named (fst (startMessage s))" "list_all named (fst (snd (ensureBlock ty s)))" "list_all named (fst (closeOpenBlocks s))"
  by (simp_all add: startMessage_def ensureBlock_def closeOpenBlocks_def Let_def block_start_def list_all_iff)

lemma named_tool: "list_all named (fst (feed_tool tc s))"
  by (simp add: feed_tool_def Let_def split_beta block_start_def block_delta_def)

lemma named_tools: "list_all named (fst (feed_tools tcs s))"
  by (induction tcs arbitrary: s) (simp_all add: split_beta named_tool)

lemma named_delta: "list_all named (fst (feed_delta d s))"
  by (simp add: feed_delta_def feed_thinking_def feed_text_def feed_calls_def emitThinkingDelta_def emitTextDelta_def block_delta_def Let_def split_beta
      named_parts named_tools)

lemma named_feed: "list_all named (fst (fst (FeedJSON f s)))"
  by (simp add: FeedJSON_def feed_chunk_def Let_def split_beta named_delta split: chat_frame.split option.split list.split)

lemma named_feed_all: "list_all named (fst (feed_all fs s))"
  by (induction fs arbitrary: s) (simp_all add: split_beta named_feed)

lemma named_Finish: "list_all named (fst (fst (Finish u s)))"
  by (simp add: Finish_def finalizeSuccess_def Let_def split_beta named_parts)

lemma named_stream: "list_all named (fst (translate_stream model u0 fs latest))"
  by (simp add: translate_stream_def split_beta named_feed_all named_Finish)

subsection \<open>What one event becomes\<close>

text \<open>Ids, models and usage play no part in the content.\<close>

definition same_tools :: "MessagesToChatStream \<Rightarrow> MessagesToChatStream \<Rightarrow> bool" where
  "same_tools s s' \<longleftrightarrow> mc_toolIndex s' = mc_toolIndex s \<and> mc_nextTool s' = mc_nextTool s \<and> mc_sawToolUse s' = mc_sawToolUse s \<and> mc_finishSent s' = mc_finishSent s"

lemma read_message_same: "same_tools s (snd (read_message ev m s))"
  by (simp add: read_message_def same_tools_def Let_def split: option.split)

lemma FeedMessages_wire:
  assumes "named e"
  obtains m s1 where "same_tools s s1" and "FeedMessages (wire e) s =
      (if me_Event e = ''content_block_start'' then on_block_start (me_Data e) m s1
       else if me_Event e = ''content_block_delta'' then on_block_delta (me_Data e) m s1
       else if me_Event e = ''message_delta'' then on_message_delta (me_Data e) m s1
       else if me_Event e = ''message_stop'' then on_message_stop m s1
       else if me_Event e = ''error'' then on_error (me_Data e) m s1
       else (([], m), s1))"
proof -
  obtain kvs where d: "me_Data e = JObj ((''type'', JStr (me_Event e)) # kvs)" using assms by (auto simp: named_def)
  obtain m s1 where r: "read_message (me_Data e) (usage_of (me_Data e) zero_meta) s = (m, s1)" by (metis surj_pair)
  have "same_tools s s1" using read_message_same[of s "me_Data e" "usage_of (me_Data e) zero_meta"] r by simp
  moreover have "jstr (jget ''type'' (me_Data e)) = me_Event e" "decoded_map (Some (me_Data e)) = Some (me_Data e)" by (simp_all add: d decoded_map_def)
  ultimately show ?thesis using r by (intro that[of s1 m]) (simp_all add: FeedMessages_def Let_def)
qed

definition chunk_texts :: "json list \<Rightarrow> string" where "chunk_texts cs = concat (map (\<lambda>c. frame_text (chunk_frame c)) cs)"
definition chunk_thinkings :: "json list \<Rightarrow> string" where "chunk_thinkings cs = concat (map (\<lambda>c. frame_thinking (chunk_frame c)) cs)"
definition chunk_calls :: "json list \<Rightarrow> ToolCallDelta list" where "chunk_calls cs = concat (map (\<lambda>c. frame_calls (chunk_frame c)) cs)"

lemmas chunk_defs = chunk_texts_def chunk_thinkings_def chunk_calls_def

lemma error_chunk:
  "frame_text (chunk_frame (JObj [(''error'', e)])) = ''''" "frame_thinking (chunk_frame (JObj [(''error'', e)])) = ''''"
  "frame_calls (chunk_frame (JObj [(''error'', e)])) = []"
  by (simp_all add: frame_text_def frame_thinking_def frame_calls_def frames_of_chunks(13))

lemma quiet_handlers:
  "chunk_texts (fst (fst (on_block_start ev m s))) = ''''" "chunk_thinkings (fst (fst (on_block_start ev m s))) = ''''"
  "chunk_texts (fst (send_finish r s)) = ''''" "chunk_thinkings (fst (send_finish r s)) = ''''" "chunk_calls (fst (send_finish r s)) = []"
  "chunk_texts (fst (fst (on_error ev m s))) = ''''" "chunk_thinkings (fst (fst (on_error ev m s))) = ''''" "chunk_calls (fst (fst (on_error ev m s))) = []"
  by (simp_all add: on_block_start_def send_finish_def on_error_def Let_def chunk_defs frames_of_chunks error_chunk split: option.split)

lemma delta_handler:
  assumes "jobj (jget ''delta'' ev) = d"
  shows "chunk_texts (fst (fst (on_block_delta ev m s))) = (case d of Some d \<Rightarrow> if jstr (jget ''type'' d) = ''text_delta'' then jstr (jget ''text'' d) else '''' | None \<Rightarrow> '''')"
    "chunk_thinkings (fst (fst (on_block_delta ev m s))) = (case d of Some d \<Rightarrow> if jstr (jget ''type'' d) = ''thinking_delta'' then jstr (jget ''thinking'' d) else '''' | None \<Rightarrow> '''')"
  using assms by (simp_all add: on_block_delta_def Let_def chunk_defs frames_of_chunks thinkingText_def split_beta split: option.split)

lemma event_shown:
  assumes "named e"
  shows "chunk_texts (fst (fst (FeedMessages (wire e) s))) = delta_part ''text_delta'' ''text'' e"
    "chunk_thinkings (fst (fst (FeedMessages (wire e) s))) = delta_part ''thinking_delta'' ''thinking'' e"
proof -
  obtain m s1 where w: "FeedMessages (wire e) s =
      (if me_Event e = ''content_block_start'' then on_block_start (me_Data e) m s1
       else if me_Event e = ''content_block_delta'' then on_block_delta (me_Data e) m s1
       else if me_Event e = ''message_delta'' then on_message_delta (me_Data e) m s1
       else if me_Event e = ''message_stop'' then on_message_stop m s1
       else if me_Event e = ''error'' then on_error (me_Data e) m s1
       else (([], m), s1))" by (rule FeedMessages_wire[OF assms, of s])
  have j: "(case jobj v of Some d \<Rightarrow> f d | None \<Rightarrow> '''') = (case v of Some d \<Rightarrow> f d | None \<Rightarrow> '''')" if "\<And>d. jobj (Some d) = None \<Longrightarrow> f d = ''''" for v and f :: "json \<Rightarrow> string"
    using that by (auto simp: jobj_def split: option.split json.split)
  have nn: "jobj (Some d) = None \<Longrightarrow> jget k d = None" for d k by (auto simp: jobj_def jget_def split: json.splits)
  show "chunk_texts (fst (fst (FeedMessages (wire e) s))) = delta_part ''text_delta'' ''text'' e"
    by (simp add: w delta_part_def quiet_handlers delta_handler[OF refl] on_message_delta_def on_message_stop_def Let_def split_beta) (simp add: j nn chunk_defs)
  show "chunk_thinkings (fst (fst (FeedMessages (wire e) s))) = delta_part ''thinking_delta'' ''thinking'' e"
    by (simp add: w delta_part_def quiet_handlers delta_handler[OF refl] on_message_delta_def on_message_stop_def Let_def split_beta) (simp add: j nn chunk_defs)
qed

subsection \<open>Tool calls\<close>

text \<open>The translator's tool indices follow the blocks: each block with input has its own call, with exactly that input.\<close>

definition tools_ok :: "MessagesStreamEvent list \<Rightarrow> ToolCallDelta list \<Rightarrow> MessagesToChatStream \<Rightarrow> bool" where
  "tools_ok es tcs s \<longleftrightarrow>
     inj_on (mc_toolIndex s) (dom (mc_toolIndex s))
   \<and> ran (mc_toolIndex s) \<subseteq> {..<mc_nextTool s}
   \<and> (\<forall>t\<ge>mc_nextTool s. call_arguments t tcs = '''')
   \<and> (\<forall>i. tool_input i es = (case mc_toolIndex s i of Some t \<Rightarrow> call_arguments t tcs | None \<Rightarrow> ''''))"

text \<open>Blocks that have not started have no call.\<close>

definition room :: "conversation \<Rightarrow> MessagesToChatStream \<Rightarrow> bool" where
  "room c s = (case c of Fresh \<Rightarrow> mc_toolIndex s = Map.empty | Running n A \<Rightarrow> dom (mc_toolIndex s) \<subseteq> {..<n} \<and> A \<subseteq> {..<n} | _ \<Rightarrow> True)"

lemma call_arguments_one: "call_arguments t [tc] = (if tcd_Index tc = t then tcd_Arguments tc else '''')"
  by (simp add: call_arguments_def)

lemma call_arguments_append: "call_arguments t (a @ b) = call_arguments t a @ call_arguments t b"
  by (simp add: call_arguments_def)

text \<open>A call with a new index for block \<open>i\<close>, and more input for a known one.\<close>

lemma tools_ok_new:
  assumes ok: "tools_ok es tcs s" and i: "mc_toolIndex s i = None"
    and s': "mc_toolIndex s' = (mc_toolIndex s)(i \<mapsto> mc_nextTool s)" "mc_nextTool s' = mc_nextTool s + 1"
    and e: "\<And>j. tool_input j es' = (if j = i then a else '''')"
  shows "tools_ok (es @ es') (tcs @ [\<lparr>tcd_Index = mc_nextTool s, tcd_ID = x, tcd_Name = y, tcd_Arguments = a\<rparr>]) s'"
proof -
  have below: "mc_toolIndex s j = Some t \<Longrightarrow> t < mc_nextTool s" and inj: "mc_toolIndex s j = Some t \<Longrightarrow> mc_toolIndex s k = Some t \<Longrightarrow> j = k" for j k t
    using ok by (auto simp: tools_ok_def inj_on_def dom_def intro: ranI)
  have "inj_on ((mc_toolIndex s)(i \<mapsto> mc_nextTool s)) (insert i (dom (mc_toolIndex s)))"
    using below inj i by (fastforce simp: inj_on_def dom_def split: if_splits)
  moreover have "ran ((mc_toolIndex s)(i \<mapsto> mc_nextTool s)) \<subseteq> {..<mc_nextTool s + 1}" using below i by (force simp: ran_def split: if_splits)
  moreover have "tool_input j (es @ es') = (case ((mc_toolIndex s)(i \<mapsto> mc_nextTool s)) j of
      Some t \<Rightarrow> call_arguments t (tcs @ [\<lparr>tcd_Index = mc_nextTool s, tcd_ID = x, tcd_Name = y, tcd_Arguments = a\<rparr>]) | None \<Rightarrow> '''')" for j
    using ok i e below[of j] by (auto simp: tools_ok_def shown_append call_arguments_append call_arguments_one split: option.split)
  ultimately show ?thesis using ok s' by (simp add: tools_ok_def call_arguments_append call_arguments_one)
qed

lemma tools_ok_more:
  assumes ok: "tools_ok es tcs s" and i: "mc_toolIndex s i = Some t" and s': "mc_toolIndex s' = mc_toolIndex s" "mc_nextTool s' = mc_nextTool s"
    and e: "\<And>j. tool_input j es' = (if j = i then a else '''')"
  shows "tools_ok (es @ es') (tcs @ [\<lparr>tcd_Index = t, tcd_ID = x, tcd_Name = y, tcd_Arguments = a\<rparr>]) s'"
proof -
  have below: "mc_toolIndex s j = Some t \<Longrightarrow> t < mc_nextTool s" and inj: "mc_toolIndex s j = Some t \<Longrightarrow> mc_toolIndex s k = Some t \<Longrightarrow> j = k" for j k t
    using ok by (auto simp: tools_ok_def inj_on_def dom_def intro: ranI)
  have "tool_input j (es @ es') = (case mc_toolIndex s j of
      Some u \<Rightarrow> call_arguments u (tcs @ [\<lparr>tcd_Index = t, tcd_ID = x, tcd_Name = y, tcd_Arguments = a\<rparr>]) | None \<Rightarrow> '''')" for j
  proof -
    have old: "tool_input j es = (case mc_toolIndex s j of Some t \<Rightarrow> call_arguments t tcs | None \<Rightarrow> '''')" using ok by (simp add: tools_ok_def)
    show ?thesis
    proof (cases "mc_toolIndex s j")
      case None
      with i have "j \<noteq> i" by auto
      then show ?thesis using None old e by (simp add: shown_append)
    next
      case (Some u)
      then have "t = u \<longleftrightarrow> j = i" using i inj by auto
      then show ?thesis using Some old e by (simp add: shown_append call_arguments_append call_arguments_one)
    qed
  qed
  moreover have "\<not> mc_nextTool s \<le> t" using below i by fastforce
  ultimately show ?thesis using ok s' by (auto simp: tools_ok_def call_arguments_append call_arguments_one)
qed

lemma tools_ok_quiet:
  assumes "tools_ok es tcs s" "mc_toolIndex s' = mc_toolIndex s" "mc_nextTool s' = mc_nextTool s" "\<And>i. tool_input i es' = ''''"
  shows "tools_ok (es @ es') (tcs @ []) s'"
  using assms by (simp add: tools_ok_def shown_append)

lemma intFrom_index:
  assumes "event_index e = Some i" "\<bar>i\<bar> \<le> 2 ^ 53" shows "intFrom (jget ''index'' (me_Data e)) = i"
proof -
  have "jget ''index'' (me_Data e) = Some (JNum (of_int i))" using assms(1) by (auto simp: event_index_def split: option.splits json.splits if_splits)
  then show ?thesis using int64_of_float64[OF assms(2)] by (simp add: intFrom_def jint_def jnum_def float64_def)
qed

lemma tool_input_one: "tool_input i [e] = (if event_index e = Some i then delta_part ''input_json_delta'' ''partial_json'' e else '''')"
  by (simp add: tool_input_def)

lemma on_block_start_tools:
  assumes ok: "tools_ok es tcs s" and new: "mc_toolIndex s (intFrom (jget ''index'' ev)) = None" and q: "\<And>j. tool_input j es' = ''''"
    and f: "on_block_start ev m s = ((cs, m'), s')"
  shows "tools_ok (es @ es') (tcs @ chunk_calls cs) s' \<and> dom (mc_toolIndex s') \<subseteq> insert (intFrom (jget ''index'' ev)) (dom (mc_toolIndex s))"
proof (cases "jobj (jget ''content_block'' ev)")
  case (Some cb)
  let ?i = "intFrom (jget ''index'' ev)"
  have same: "tools_ok es tcs (s\<lparr>mc_blockTypes := b\<rparr>)" for b using ok by (simp add: tools_ok_def)
  show ?thesis
  proof (cases "jstr (jget ''type'' cb) = ''tool_use''")
    case True
    have "chunk_calls cs = [\<lparr>tcd_Index = mc_nextTool s, tcd_ID = jstr (jget ''id'' cb), tcd_Name = jstr (jget ''name'' cb), tcd_Arguments = ''''\<rparr>]"
      "mc_toolIndex s' = (mc_toolIndex s)(?i \<mapsto> mc_nextTool s)" "mc_nextTool s' = mc_nextTool s + 1"
      using f Some True by (auto simp: on_block_start_def Let_def chunk_calls_def frames_of_chunks call_delta_def JInt_def)
    then show ?thesis using tools_ok_new[OF ok new, of s' es' "''''"] q by auto
  next
    case False
    then show ?thesis using f Some tools_ok_quiet[OF ok, of s' es'] q by (auto simp: on_block_start_def Let_def chunk_calls_def)
  qed
qed (use f tools_ok_quiet[OF ok, of s' es'] q in \<open>auto simp: on_block_start_def chunk_calls_def\<close>)

lemma on_block_delta_tools:
  assumes ok: "tools_ok es tcs s" and e: "me_Event e = ''content_block_delta''" "event_index e = Some i" and i: "intFrom (jget ''index'' (me_Data e)) = i"
    and f: "on_block_delta (me_Data e) m s = ((cs, m'), s')"
  shows "tools_ok (es @ [e]) (tcs @ chunk_calls cs) s' \<and> dom (mc_toolIndex s') \<subseteq> insert i (dom (mc_toolIndex s))"
proof -
  define a where "a = delta_part ''input_json_delta'' ''partial_json'' e"
  have in1: "tool_input j [e] = (if j = i then a else '''')" for j using e by (simp add: tool_input_one a_def)
  show ?thesis
  proof (cases "a = ''''")
    case True
    have "chunk_calls cs = [] \<and> s' = s"
    proof (cases "jobj (jget ''delta'' (me_Data e))")
      case (Some d)
      then have "jget ''delta'' (me_Data e) = Some d" by (auto simp: jobj_def split: option.splits json.splits)
      then show ?thesis using f Some True e by (auto simp: on_block_delta_def a_def delta_part_def Let_def chunk_calls_def frames_of_chunks split: if_splits)
    qed (use f in \<open>simp add: on_block_delta_def chunk_calls_def\<close>)
    then show ?thesis using tools_ok_quiet[OF ok, of s' "[e]"] in1 True by auto
  next
    case False
    obtain d where d: "jget ''delta'' (me_Data e) = Some d" "jstr (jget ''type'' d) = ''input_json_delta''" "jstr (jget ''partial_json'' d) = a"
      using False e(1) by (auto simp: a_def delta_part_def split: option.splits if_splits)
    have jd: "jobj (Some d) = Some d" using d(2) by (cases d) (simp_all add: jobj_def jget_def)
    show ?thesis
    proof (cases "mc_toolIndex s i")
      case None
      have "chunk_calls cs = [\<lparr>tcd_Index = mc_nextTool s, tcd_ID = '''', tcd_Name = '''', tcd_Arguments = a\<rparr>]"
        "mc_toolIndex s' = (mc_toolIndex s)(i \<mapsto> mc_nextTool s)" "mc_nextTool s' = mc_nextTool s + 1"
        using f d jd None False i by (auto simp: on_block_delta_def Let_def chunk_calls_def frames_of_chunks call_delta_def JInt_def)
      then show ?thesis using tools_ok_new[OF ok None, of s' "[e]" a] in1 by auto
    next
      case (Some t)
      have "chunk_calls cs = [\<lparr>tcd_Index = t, tcd_ID = '''', tcd_Name = '''', tcd_Arguments = a\<rparr>]" "s' = s"
        using f d jd Some False i by (auto simp: on_block_delta_def Let_def chunk_calls_def frames_of_chunks call_delta_def JInt_def)
      then show ?thesis using tools_ok_more[OF ok Some, of s' "[e]" a] in1 by auto
    qed
  qed
qed

lemma hear_event_room:
  assumes "hear_event ty idx c = Some c'" "room c s"
  shows "room c' s \<and> (ty = ''content_block_start'' \<longrightarrow> (\<exists>i. idx = Some i \<and> mc_toolIndex s i = None \<and> (\<forall>s'. dom (mc_toolIndex s') \<subseteq> insert i (dom (mc_toolIndex s)) \<longrightarrow> room c' s')))
    \<and> (ty = ''content_block_delta'' \<longrightarrow> (\<exists>i. idx = Some i \<and> (\<forall>s'. dom (mc_toolIndex s') \<subseteq> insert i (dom (mc_toolIndex s)) \<longrightarrow> room c' s')))"
proof (cases c)
  case (Running n A)
  have "room (Running (n + 1) (insert n A)) s'" if "dom (mc_toolIndex s') \<subseteq> insert n (dom (mc_toolIndex s))" for s'
    using that assms(2) Running by (force simp: room_def)
  moreover have "room (Running n A) s'" if "i \<in> A" "dom (mc_toolIndex s') \<subseteq> insert i (dom (mc_toolIndex s))" for i s'
    using that assms(2) Running by (force simp: room_def)
  moreover have "mc_toolIndex s n = None" using assms(2) Running by (auto simp: room_def)
  moreover have "room (Running (n + 1) (insert n A)) s" "room (Running n (A - {i})) s" for i using assms(2) Running by (force simp: room_def)+
  moreover have "room Closing s" by (simp add: room_def)
  ultimately show ?thesis using assms Running by (auto split: option.splits if_splits)
next
  case Fresh then show ?thesis using assms by (auto simp: room_def split: if_splits)
next
  case Closing then show ?thesis using assms by (auto simp: room_def split: if_splits)
qed (use assms in simp)

definition block_index_ok :: "MessagesStreamEvent \<Rightarrow> bool" where
  "block_index_ok e \<longleftrightarrow> (me_Event e \<in> {''content_block_start'', ''content_block_delta''} \<longrightarrow> (\<forall>i. event_index e = Some i \<longrightarrow> \<bar>i\<bar> \<le> 2 ^ 53))"

lemma event_tools:
  assumes n: "named e" and h: "hear_event (me_Event e) (event_index e) c = Some c'" and b: "block_index_ok e"
    and ok: "tools_ok es tcs s" "room c s" and f: "FeedMessages (wire e) s = ((cs, m'), s')"
  shows "tools_ok (es @ [e]) (tcs @ chunk_calls cs) s' \<and> room c' s'"
proof -
  obtain m s1 where same: "same_tools s s1" and w: "FeedMessages (wire e) s =
      (if me_Event e = ''content_block_start'' then on_block_start (me_Data e) m s1
       else if me_Event e = ''content_block_delta'' then on_block_delta (me_Data e) m s1
       else if me_Event e = ''message_delta'' then on_message_delta (me_Data e) m s1
       else if me_Event e = ''message_stop'' then on_message_stop m s1
       else if me_Event e = ''error'' then on_error (me_Data e) m s1
       else (([], m), s1))" by (rule FeedMessages_wire[OF n, of s])
  have ok1: "tools_ok es tcs s1" "room c s1" using ok same by (simp_all add: tools_ok_def room_def same_tools_def split: conversation.splits)
  note r = hear_event_room[OF h ok1(2)]
  have bi: "event_index e = Some i \<Longrightarrow> \<bar>i\<bar> \<le> 2 ^ 53" if "me_Event e \<in> {''content_block_start'', ''content_block_delta''}" for i
    using b that unfolding block_index_ok_def by blast
  consider (start) "me_Event e = ''content_block_start''" | (delta) "me_Event e = ''content_block_delta''"
    | (rest) "me_Event e \<noteq> ''content_block_start''" "me_Event e \<noteq> ''content_block_delta''" by blast
  then show ?thesis
  proof cases
    case start
    then obtain i where i: "event_index e = Some i" "mc_toolIndex s1 i = None"
      "\<And>s'. dom (mc_toolIndex s') \<subseteq> insert i (dom (mc_toolIndex s1)) \<Longrightarrow> room c' s'" using r by auto
    have "tool_input j [e] = ''''" for j using start by (simp add: tool_input_one delta_part_def)
    moreover have "intFrom (jget ''index'' (me_Data e)) = i" using intFrom_index[OF i(1) bi[OF _ i(1)]] start by simp
    ultimately show ?thesis using on_block_start_tools[OF ok1(1), of "me_Data e" "[e]" m cs m' s'] i(2,3) w f start by auto
  next
    case delta
    then obtain i where i: "event_index e = Some i" "\<And>s'. dom (mc_toolIndex s') \<subseteq> insert i (dom (mc_toolIndex s1)) \<Longrightarrow> room c' s'" using r by auto
    have "intFrom (jget ''index'' (me_Data e)) = i" using intFrom_index[OF i(1) bi[OF _ i(1)]] delta by simp
    then show ?thesis using on_block_delta_tools[OF ok1(1) delta i(1), of m cs m' s'] w f delta i(2) by auto
  next
    case rest
    have "tool_input j [e] = ''''" for j using rest by (simp add: tool_input_one delta_part_def)
    moreover have "chunk_calls cs = [] \<and> mc_toolIndex s' = mc_toolIndex s1 \<and> mc_nextTool s' = mc_nextTool s1"
      using w f rest quiet_handlers(5,8) by (auto simp: on_message_delta_def on_message_stop_def send_finish_def on_error_def Let_def chunk_calls_def
          frames_of_chunks error_chunk split: if_splits)
    ultimately show ?thesis using tools_ok_quiet[OF ok1(1), of s' "[e]"] r by (cases c') (auto simp: room_def)
  qed
qed

subsection \<open>The round trip\<close>

lemma hear_event_indices:
  assumes "hear_event (me_Event e) (event_index e) c = Some c'" "case c of Running n A \<Rightarrow> 0 \<le> n \<and> n \<le> k \<and> A \<subseteq> {0..<n} | _ \<Rightarrow> True" "k < 2 ^ 53" "0 \<le> k"
  shows "block_index_ok e \<and> (case c' of Running n A \<Rightarrow> 0 \<le> n \<and> n \<le> k + 1 \<and> A \<subseteq> {0..<n} | _ \<Rightarrow> True)"
proof (cases c)
  case (Running n A)
  then have n: "0 \<le> n" "n \<le> k" "A \<subseteq> {0..<n}" using assms(2) by auto
  have sub: "insert n A \<subseteq> {0..<n + 1}" using n by auto
  have le: "\<bar>n\<bar> \<le> 2 ^ 53" "i \<in> A \<Longrightarrow> \<bar>i\<bar> \<le> 2 ^ 53" for i using n assms(3) by auto
  show ?thesis using assms(1) n le sub unfolding Running block_index_ok_def by (auto split: option.splits if_splits)
qed (use assms in \<open>auto simp: block_index_ok_def split: if_splits\<close>)

lemma hear_indices:
  assumes "hear es c = Some c'" "case c of Running n A \<Rightarrow> 0 \<le> n \<and> n \<le> k \<and> A \<subseteq> {0..<n} | _ \<Rightarrow> True" "k + int (length es) < 2 ^ 53" "0 \<le> k"
  shows "list_all block_index_ok es"
  using assms
proof (induction es arbitrary: c k)
  case (Cons e es)
  obtain d where d: "hear_event (me_Event e) (event_index e) c = Some d" "hear es d = Some c'" using Cons.prems(1) by (auto split: option.splits)
  have "block_index_ok e \<and> (case d of Running n A \<Rightarrow> 0 \<le> n \<and> n \<le> k + 1 \<and> A \<subseteq> {0..<n} | _ \<Rightarrow> True)"
    using hear_event_indices[OF d(1) Cons.prems(2)] Cons.prems(3,4) by simp
  then show ?case using Cons.IH[OF d(2), of "k + 1"] Cons.prems(3,4) by simp
qed simp

lemma feed_messages_content:
  assumes "hear es c = Some c'" "list_all named es" "list_all block_index_ok es" "tools_ok es0 tcs s" "room c s"
    "feed_messages (map wire es) s = (cs, s')"
  shows "tools_ok (es0 @ es) (tcs @ chunk_calls cs) s' \<and> chunk_texts cs = shown_text es \<and> chunk_thinkings cs = shown_thinking es"
  using assms
proof (induction es arbitrary: c es0 tcs s cs s')
  case (Cons e es)
  obtain d where d: "hear_event (me_Event e) (event_index e) c = Some d" "hear es d = Some c'" using Cons.prems(1) by (auto split: option.splits)
  obtain c1 m s1 c2 s2 where f: "FeedMessages (wire e) s = ((c1, m), s1)" "feed_messages (map wire es) s1 = (c2, s2)" by (metis surj_pair)
  have cs: "cs = c1 @ c2" "s' = s2" using Cons.prems(6) f by auto
  have n: "named e" "block_index_ok e" "list_all named es" "list_all block_index_ok es" using Cons.prems by simp_all
  note t = event_tools[OF n(1) d(1) n(2) Cons.prems(4,5) f(1)]
  have ih: "tools_ok ((es0 @ [e]) @ es) ((tcs @ chunk_calls c1) @ chunk_calls c2) s2 \<and> chunk_texts c2 = shown_text es \<and> chunk_thinkings c2 = shown_thinking es"
    using Cons.IH[OF d(2) n(3,4)] t f(2) by blast
  have "chunk_texts c1 = shown_text [e]" "chunk_thinkings c1 = shown_thinking [e]"
    using event_shown[OF n(1), of s] f(1) by (simp_all add: shown_text_def shown_thinking_def)
  then show ?case using ih shown_append(1,2)[of "[e]" es] by (simp add: cs chunk_defs)
qed (simp add: chunk_defs)

text \<open>(C19) 
  A Chat stream that is translated into a Messages stream and back again carries the same text, the same thinking and, for every tool
  call with arguments, the same arguments in a call of its own. Block numbers pass through a float64, so the stream must have fewer than
  \<open>2 ^ 53\<close> events.
\<close>

theorem chat_stream_survives_messages:
  assumes len: "int (length (fst (translate_stream model u0 fs latest))) < 2 ^ 53"
  shows "let gs = chat_again (fst (translate_stream model u0 fs latest)) (NewMessagesToChatStream model' now); calls = concat (map frame_calls fs) in
    concat (map frame_text gs) = concat (map frame_text fs) \<and> concat (map frame_thinking gs) = concat (map frame_thinking fs)
    \<and> (\<exists>call. let ks = filter (\<lambda>k. call_arguments k calls \<noteq> '''') (remdups (map tcd_Index calls)) in
         distinct (map call ks) \<and> map (\<lambda>k. call_arguments (call k) (concat (map frame_calls gs))) ks = map (\<lambda>k. call_arguments k calls) ks)"
proof -
  obtain es meta where es: "translate_stream model u0 fs latest = (es, meta)" by (metis surj_pair)
  obtain cs s' where cs: "feed_messages (map wire es) (NewMessagesToChatStream model' now) = (cs, s')" by (metis surj_pair)
  define gs where "gs = chat_again (fst (translate_stream model u0 fs latest)) (NewMessagesToChatStream model' now)"
  define calls where "calls = concat (map frame_calls fs)"
  have gs: "gs = map chunk_frame cs" using es cs by (simp add: gs_def chat_again_def)
  have "\<exists>c. hear es Fresh = Some c" using hear_translated[of model u0 fs latest] es by simp
  then obtain c where c: "hear es Fresh = Some c" by (elim exE)
  have init: "tools_ok [] [] (NewMessagesToChatStream model' now)" "room Fresh (NewMessagesToChatStream model' now)"
    by (simp_all add: tools_ok_def room_def NewMessagesToChatStream_def call_arguments_def)
  have idx: "list_all block_index_ok es" using hear_indices[OF c, where k = 0] len es by simp
  have nm: "list_all named es" using named_stream[of model u0 fs latest] es by simp
  have ok: "tools_ok es (chunk_calls cs) s'" and sh: "chunk_texts cs = shown_text es" "chunk_thinkings cs = shown_thinking es"
    using feed_messages_content[OF c nm idx init cs] by simp_all
  obtain block where block: "distinct (map block (remdups (map tcd_Index calls)))"
    "map (\<lambda>k. tool_input (block k) es) (remdups (map tcd_Index calls)) = map (\<lambda>k. call_arguments k calls) (remdups (map tcd_Index calls))"
    and src: "shown_text es = concat (map frame_text fs)" "shown_thinking es = concat (map frame_thinking fs)"
    using translated_content[where model = model and ?u0.0 = u0 and fs = fs and latest = latest] es by (auto simp: calls_def Let_def)
  define ks where "ks = filter (\<lambda>k. call_arguments k calls \<noteq> '''') (remdups (map tcd_Index calls))"
  define call where "call k = the (mc_toolIndex s' (block k))" for k
  have in_ks: "tool_input (block k) es = call_arguments k calls" "call_arguments k calls \<noteq> ''''" if "k \<in> set ks" for k
    using that block(2) by (auto simp: ks_def)
  have call: "mc_toolIndex s' (block k) = Some (call k)" "call_arguments (call k) (chunk_calls cs) = call_arguments k calls" if "k \<in> set ks" for k
    using in_ks[OF that] ok by (auto simp: tools_ok_def call_def split: option.splits)
  have "inj_on block (set ks)" using block(1) by (auto simp: distinct_map ks_def intro: inj_on_subset)
  then have "inj_on call (set ks)" using call(1) ok unfolding tools_ok_def inj_on_def by (metis domI)
  then have "distinct (map call ks)" by (simp add: distinct_map ks_def)
  moreover have "concat (map frame_calls gs) = chunk_calls cs" by (simp add: gs chunk_calls_def o_def)
  ultimately have "let ks = ks in distinct (map call ks) \<and> map (\<lambda>k. call_arguments (call k) (concat (map frame_calls gs))) ks = map (\<lambda>k. call_arguments k calls) ks"
    using call(2) by simp
  then have "\<exists>call. let ks = ks in distinct (map call ks) \<and> map (\<lambda>k. call_arguments (call k) (concat (map frame_calls gs))) ks = map (\<lambda>k. call_arguments k calls) ks"
    by (intro exI[of _ call])
  moreover have "concat (map frame_text gs) = concat (map frame_text fs)" "concat (map frame_thinking gs) = concat (map frame_thinking fs)"
    using sh src by (simp_all add: gs chunk_texts_def chunk_thinkings_def o_def)
  ultimately show ?thesis unfolding ks_def gs_def calls_def by (simp only: Let_def simp_thms)
qed

theorem chat_stream_survives_messages_witness:
  "let d = \<lparr>cd_Content = ''Hi'', cd_ReasoningContent = '''', cd_Thinking = ''hm'', cd_Reasoning = '''', cd_Thought = '''',
         cd_ToolCalls = [\<lparr>tcd_Index = 7, tcd_ID = ''call_1'', tcd_Name = ''f'', tcd_Arguments = ''{}''\<rparr>], cd_FinishReason = None\<rparr>;
       fs = [ChatFrame zero_tokens (Some \<lparr>ck_ID = ''x'', ck_Choices = [d]\<rparr>), ChatDone];
       es = fst (translate_stream ''m'' zero_tokens fs zero_tokens); gs = chat_again es (NewMessagesToChatStream ''n'' 0)
   in length es = 12 \<and> concat (map frame_text gs) = ''Hi'' \<and> concat (map frame_thinking gs) = ''hm''"
proof -
  let ?d = "\<lparr>cd_Content = ''Hi'', cd_ReasoningContent = '''', cd_Thinking = ''hm'', cd_Reasoning = '''', cd_Thought = '''',
         cd_ToolCalls = [\<lparr>tcd_Index = 7, tcd_ID = ''call_1'', tcd_Name = ''f'', tcd_Arguments = ''{}''\<rparr>], cd_FinishReason = None\<rparr>"
  let ?fs = "[ChatFrame zero_tokens (Some \<lparr>ck_ID = ''x'', ck_Choices = [?d]\<rparr>), ChatDone]"
  have len: "length (fst (translate_stream ''m'' zero_tokens ?fs zero_tokens)) = 12" by code_simp
  have "concat (map frame_text ?fs) = ''Hi''" "concat (map frame_thinking ?fs) = ''hm''" by code_simp+
  then show ?thesis using chat_stream_survives_messages[of "''m''" zero_tokens ?fs zero_tokens "''n''" 0] len by (simp add: Let_def)
qed

subsection \<open>The end of a stream\<close>

text \<open>Whatever frames arrive, the client gets at most one finish reason.\<close>

lemma handler_reasons:
  "frame_reason (chunk_frame (baseChunk (delta_choice k v) s)) = ''''" "frame_reason (chunk_frame (JObj [(''error'', e)])) = ''''"
  by (simp_all add: frame_reason_def chunk_frame_def baseChunk_def delta_choice_def choice_delta_def)

definition reasons :: "json list \<Rightarrow> nat" where
  "reasons cs = length (filter (\<lambda>c. frame_reason (chunk_frame c) \<noteq> '''') cs)"

lemma FeedMessages_reasons:
  "reasons (fst (fst (FeedMessages f s))) \<le> (if mc_finishSent s then 0 else 1)
   \<and> (reasons (fst (fst (FeedMessages f s))) = 1 \<or> mc_finishSent s \<longrightarrow> mc_finishSent (snd (FeedMessages f s)))"
proof -
  have start: "reasons (fst (fst (on_block_start ev m s))) = 0 \<and> mc_finishSent (snd (on_block_start ev m s)) = mc_finishSent s" for ev m s
    by (simp add: on_block_start_def Let_def reasons_def handler_reasons split: option.split)
  have delta: "reasons (fst (fst (on_block_delta ev m s))) = 0 \<and> mc_finishSent (snd (on_block_delta ev m s)) = mc_finishSent s" for ev m s
    by (simp add: on_block_delta_def Let_def reasons_def handler_reasons split_beta split: option.split)
  have err: "reasons (fst (fst (on_error ev m s))) = 0 \<and> mc_finishSent (snd (on_error ev m s)) = mc_finishSent s" for ev m s
    by (simp add: on_error_def Let_def reasons_def handler_reasons)
  have send: "reasons (fst (send_finish r s)) \<le> (if mc_finishSent s then 0 else 1) \<and> mc_finishSent (snd (send_finish r s))" for r s
    by (simp add: send_finish_def reasons_def Let_def)
  have rd: "mc_finishSent (snd (read_message ev m s)) = mc_finishSent s" for ev m
    using read_message_same[of s ev m] by (simp add: same_tools_def)
  have nil: "reasons [] = 0" by (simp add: reasons_def)
  show ?thesis
  proof (cases f)
    case (MessagesFrame data)
    show ?thesis
    proof (cases "decoded_map data")
      case (Some ev)
      obtain m s1 where r: "read_message ev (usage_of ev zero_meta) s = (m, s1)" by (metis surj_pair)
      have fs: "mc_finishSent s1 = mc_finishSent s" using rd[of ev "usage_of ev zero_meta"] r by simp
      show ?thesis using MessagesFrame Some r fs start[of ev m s1] delta[of ev m s1] err[of ev m s1] nil send[of _ s1]
        by (auto simp: FeedMessages_def Let_def on_message_delta_def on_message_stop_def split_beta)
    qed (simp add: FeedMessages_def MessagesFrame nil)
  qed (simp add: FeedMessages_def nil)
qed

lemma finish_at_most_once: "reasons (fst (feed_messages fs s)) \<le> (if mc_finishSent s then 0 else 1)"
proof (induction fs arbitrary: s)
  case (Cons f fs)
  have "reasons (a @ b) = reasons a + reasons b" for a b by (simp add: reasons_def)
  then show ?case using Cons.IH[of "snd (FeedMessages f s)"] FeedMessages_reasons[of f s] by (auto simp: split_beta split: if_splits)
qed (simp add: reasons_def)

text \<open>A finish reason survives the way there and back when the gateway knows it.\<close>

lemma finish_reason_round_trip:
  "r \<in> {''stop'', ''length'', ''tool_calls''} \<Longrightarrow> mapStopReasonToFinish (mapOpenAIFinishReason r) (r = ''tool_calls'') = r"
  by (auto simp: mapStopReasonToFinish_def mapOpenAIFinishReason_def)

end
