(* ===== verification/Sse_Parser.thy ===== *)
theory Sse_Parser
  imports Tool_Names
begin

text \<open>
  The incremental parser of server-sent events, \<open>pkg/llm/sse_parser.go\<close>, and the search for complete frames
  in a buffer, \<open>completeSSEPrefixLen\<close> of \<open>pkg/llm/providers/openai.go\<close>. The bytes of a stream are a \<open>string\<close>. Decoding an event's
  data into the structure that holds the token counts (\<open>encoding/json\<close>) is an argument: \<open>None\<close> is a decoding error.

  The theorems: what the parser finds does not depend on how the bytes were cut into reads; the search that resumes three bytes before the
  new ones finds what a search from the start finds; and what the search calls complete leaves no part of an event in the parser.
\<close>

subsection \<open>Strings of the standard library\<close>

abbreviation LF :: char where "LF \<equiv> CHR 0x0A"
abbreviation CR :: char where "CR \<equiv> CHR 0x0D"

text \<open>The number of bytes of the white-space rune a string starts with, \<open>0\<close> if it starts with another: \<open>unicode.IsSpace\<close> on UTF-8.\<close>

definition space_len :: "string \<Rightarrow> nat" where
  "space_len s = (case map of_char (take 3 s) :: nat list of
       a # r \<Rightarrow> if 9 \<le> a \<and> a \<le> 13 \<or> a = 32 then 1
         else (case r of b # r' \<Rightarrow> if a = 0xC2 \<and> (b = 0x85 \<or> b = 0xA0) then 2
           else (case r' of c # _ \<Rightarrow>
               if a = 0xE1 \<and> b = 0x9A \<and> c = 0x80 \<or> a = 0xE2 \<and> b = 0x80 \<and> (0x80 \<le> c \<and> c \<le> 0x8A \<or> c = 0xA8 \<or> c = 0xA9 \<or> c = 0xAF)
                 \<or> a = 0xE2 \<and> b = 0x81 \<and> c = 0x9F \<or> a = 0xE3 \<and> b = 0x80 \<and> c = 0x80 then 3 else 0
             | [] \<Rightarrow> 0)
           | [] \<Rightarrow> 0)
     | [] \<Rightarrow> 0)"

lemma space_len_Nil [simp]: "space_len [] = 0"
  by (simp add: space_len_def)

lemma space_len_nonempty: "0 < space_len s \<Longrightarrow> s \<noteq> []"
  by auto

function trim_left :: "string \<Rightarrow> string" where
  "trim_left s = (if space_len s = 0 then s else trim_left (drop (space_len s) s))"
  by pat_completeness auto
termination
  by (relation "measure length") (auto intro!: diff_less dest: space_len_nonempty)

declare trim_left.simps [simp del]

text \<open>The suffixes of one to three bytes are tried in turn: at most one of them can be a white-space rune.\<close>

definition trailing_space :: "string \<Rightarrow> nat" where
  "trailing_space s = (case filter (\<lambda>n. n \<le> length s \<and> space_len (drop (length s - n) s) = n) [1, 2, 3] of [] \<Rightarrow> 0 | n # _ \<Rightarrow> n)"

function trim_right :: "string \<Rightarrow> string" where
  "trim_right s = (if trailing_space s = 0 then s else trim_right (take (length s - trailing_space s) s))"
  by pat_completeness auto
termination
  by (relation "measure length") (auto simp: trailing_space_def split: list.splits if_splits)

declare trim_right.simps [simp del]

definition TrimSpace :: "string \<Rightarrow> string" where
  "TrimSpace s = trim_right (trim_left s)"

text \<open>\<open>strings.Split(s, "\n")\<close>: never empty.\<close>

fun split_lines :: "string \<Rightarrow> string list" where
  "split_lines [] = [[]]"
| "split_lines (c # s) = (if c = LF then [] # split_lines s else (case split_lines s of l # ls \<Rightarrow> (c # l) # ls | [] \<Rightarrow> [[c]]))"

definition TrimSuffix_CR :: "string \<Rightarrow> string" where
  "TrimSuffix_CR s = (if s \<noteq> [] \<and> last s = CR then butlast s else s)"

text \<open>\<open>strings.ReplaceAll(s, "\r\n", "\n")\<close> and \<open>strings.ReplaceAll(s, "\r", "\n")\<close>.\<close>

fun replace_crlf :: "string \<Rightarrow> string" where
  "replace_crlf [] = []"
| "replace_crlf [c] = [c]"
| "replace_crlf (c # d # s) = (if c = CR \<and> d = LF then LF # replace_crlf s else c # replace_crlf (d # s))"

definition replace_cr :: "string \<Rightarrow> string" where
  "replace_cr s = map (\<lambda>c. if c = CR then LF else c) s"

text \<open>\<open>strings.Index(s, "\n\n")\<close>, with the text before it and the text after it.\<close>

fun cut_block :: "string \<Rightarrow> (string \<times> string) option" where
  "cut_block [] = None"
| "cut_block [c] = None"
| "cut_block (c # d # s) = (if c = LF \<and> d = LF then Some ([], s) else map_option (\<lambda>(b, r). (c # b, r)) (cut_block (d # s)))"

lemma cut_block_shorter: "cut_block s = Some (b, r) \<Longrightarrow> length r < length s"
  by (induction s arbitrary: b rule: cut_block.induct) (auto split: if_splits)

subsection \<open>Token counts of an OpenAI payload\<close>

type_synonym tokens = "int \<times> int \<times> int \<times> int"

record OpenAIUsage =
  ou_PromptTokens :: int
  ou_CompletionTokens :: int
  ou_PromptTokensDetails :: "int option"

text \<open>The decoder gives \<open>None\<close> for an error and \<open>Some None\<close> for a payload without usage.\<close>

definition OpenAITokenExtractor :: "(string \<Rightarrow> OpenAIUsage option option) \<Rightarrow> string \<Rightarrow> tokens" where
  "OpenAITokenExtractor unmarshal data = (case unmarshal data of Some (Some u) \<Rightarrow>
       (ou_PromptTokens u, ou_CompletionTokens u, case ou_PromptTokensDetails u of Some c \<Rightarrow> c | None \<Rightarrow> 0, 0)
     | _ \<Rightarrow> (0, 0, 0, 0))"

subsection \<open>The parser\<close>

record SSEEvent =
  ev_Data :: string
  ev_Done :: bool
  ev_Tokens :: tokens

record SSEParser =
  sp_buf :: string
  sp_skipLeadingLF :: bool

definition NewSSEParser :: SSEParser where
  "NewSSEParser = \<lparr>sp_buf = [], sp_skipLeadingLF = False\<rparr>"

definition data_line :: "string \<Rightarrow> string option" where
  "data_line l = (let line = TrimSuffix_CR l in
     if line = [] then None
     else if prefix ''data:'' line then Some (trim_prefix '' '' (trim_prefix ''data:'' line)) else None)"

definition parseBlock :: "(string \<Rightarrow> OpenAIUsage option option) \<Rightarrow> string \<Rightarrow> SSEEvent option" where
  "parseBlock unmarshal block = (let dataLines = List.map_filter data_line (split_lines block) in
     if dataLines = [] then None
     else let data = str_join [LF] dataLines in
       if TrimSpace data = ''[DONE]'' then Some \<lparr>ev_Data = data, ev_Done = True, ev_Tokens = (0, 0, 0, 0)\<rparr>
       else Some \<lparr>ev_Data = data, ev_Done = False, ev_Tokens = OpenAITokenExtractor unmarshal data\<rparr>)"

text \<open>The loop over the complete blocks: their events and the text that remains.\<close>

function block_loop :: "(string \<Rightarrow> OpenAIUsage option option) \<Rightarrow> string \<Rightarrow> SSEEvent list \<times> string" where
  "block_loop unmarshal fullText = (case cut_block fullText of
       None \<Rightarrow> ([], fullText)
     | Some (block, rest) \<Rightarrow> (case block_loop unmarshal rest of (events, r) \<Rightarrow>
         (case parseBlock unmarshal block of Some ev \<Rightarrow> ev # events | None \<Rightarrow> events, r)))"
  by pat_completeness auto
termination
  by (relation "measure (length \<circ> snd)") (auto dest: cut_block_shorter)

declare block_loop.simps [simp del]

definition skip_lf :: "SSEParser \<Rightarrow> string \<Rightarrow> string" where
  "skip_lf p data = (if sp_skipLeadingLF p \<and> data \<noteq> [] \<and> data ! 0 = LF then drop 1 data else data)"

definition Feed :: "(string \<Rightarrow> OpenAIUsage option option) \<Rightarrow> string \<Rightarrow> SSEParser \<Rightarrow> SSEEvent list \<times> SSEParser" where
  "Feed unmarshal data0 p = (let data = skip_lf p data0;
       skip = (if data \<noteq> [] \<and> last data = CR then True else if data0 \<noteq> [] then False else sp_skipLeadingLF p);
       normalized = replace_cr (replace_crlf data);
       (events, fullText) = block_loop unmarshal (sp_buf p @ normalized)
     in (events, \<lparr>sp_buf = fullText, sp_skipLeadingLF = skip\<rparr>))"

text \<open>A consumer given the chunks of a stream one after the other: what it puts out, and its state at the end.\<close>

fun run_chunks :: "(string \<Rightarrow> 's \<Rightarrow> 'e list \<times> 's) \<Rightarrow> string list \<Rightarrow> 's \<Rightarrow> 'e list \<times> 's" where
  "run_chunks step [] s = ([], s)"
| "run_chunks step (d # ds) s = (let (es, s1) = step d s; (es', s2) = run_chunks step ds s1 in (es @ es', s2))"

subsection \<open>Events as they are written\<close>

definition writeSSEEvent :: "string \<Rightarrow> string \<Rightarrow> string" where
  "writeSSEEvent event data = ''event: '' @ event @ [LF] @ ''data: '' @ data @ [LF, LF]"

definition writeSSEData :: "string \<Rightarrow> string" where
  "writeSSEData data = ''data: '' @ data @ [LF, LF]"

subsection \<open>Complete frames in a buffer\<close>

text \<open>The end of the frame whose final blank line starts at \<open>i\<close>, \<open>0\<close> if none does.\<close>

definition frame_end :: "string \<Rightarrow> nat \<Rightarrow> nat" where
  "frame_end data i = (let is = (\<lambda>k c. i + k < length data \<and> data ! (i + k) = c) in
     if is 0 LF then (if is 1 LF then i + 2 else if is 1 CR \<and> is 2 LF then i + 3 else 0)
     else if is 0 CR then (if is 1 CR then i + 2 else if is 1 LF \<and> is 2 LF then i + 3
       else if is 1 LF \<and> is 2 CR \<and> is 3 LF then i + 4 else 0)
     else 0)"

function prefix_loop :: "string \<Rightarrow> nat \<Rightarrow> nat \<Rightarrow> nat" where
  "prefix_loop data i completeLen = (if i < length data then
       (if frame_end data i > 0 then prefix_loop data (frame_end data i) (frame_end data i) else prefix_loop data (i + 1) completeLen)
     else completeLen)"
  by pat_completeness auto
termination
  by (relation "measure (\<lambda>(d, i, _). length d - i)") (auto simp: frame_end_def Let_def split: if_splits)

declare prefix_loop.simps [simp del]

definition completeSSEPrefixLen :: "string \<Rightarrow> int \<Rightarrow> nat" where
  "completeSSEPrefixLen data start = prefix_loop data (nat (if start < 0 then 0 else start)) 0"

subsection \<open>Consumers that do not see the cuts\<close>

locale chunked =
  fixes step :: "string \<Rightarrow> 's \<Rightarrow> 'e list \<times> 's" and ok :: "'s \<Rightarrow> bool"
  assumes step_ok: "ok s \<Longrightarrow> ok (snd (step d s))"
    and step_Nil: "ok s \<Longrightarrow> step [] s = ([], s)"
    and step_append: "ok s \<Longrightarrow> step (a @ b) s = (fst (step a s) @ fst (step b (snd (step a s))), snd (step b (snd (step a s))))"
begin

lemma run_concat: "ok s \<Longrightarrow> run_chunks step ds s = step (concat ds) s"
  by (induction ds arbitrary: s) (simp_all add: step_Nil step_append step_ok case_prod_beta Let_def)

lemma cuts_irrelevant: "ok s \<Longrightarrow> concat ds = concat ds' \<Longrightarrow> run_chunks step ds s = run_chunks step ds' s"
  by (simp add: run_concat)

end

subsection \<open>The parser does not see the cuts\<close>

abbreviation norm_nl :: "string \<Rightarrow> string" where
  "norm_nl s \<equiv> replace_cr (replace_crlf s)"

text \<open>What is left of \<open>t\<close> when it follows text that ends in a carriage return, or does not.\<close>

definition after_cr :: "bool \<Rightarrow> string \<Rightarrow> string" where
  "after_cr cr t = (if cr \<and> t \<noteq> [] \<and> t ! 0 = LF then drop 1 t else t)"

lemma after_cr_simps [simp]: "after_cr False t = t" "after_cr cr [] = []"
  by (simp_all add: after_cr_def)

lemma replace_crlf_Cons: "c \<noteq> CR \<Longrightarrow> replace_crlf (c # t) = c # replace_crlf t"
  "replace_crlf (CR # t) = (if t \<noteq> [] \<and> t ! 0 = LF then LF # replace_crlf (drop 1 t) else CR # replace_crlf t)"
  by (cases t; simp)+

lemma normalize_append: "norm_nl (s @ t) = norm_nl s @ norm_nl (after_cr (s \<noteq> [] \<and> last s = CR) t)"
  by (induction s rule: replace_crlf.induct) (auto simp: replace_cr_def replace_crlf_Cons after_cr_def)

lemma cut_block_append: "cut_block s = Some (b, r) \<Longrightarrow> cut_block (s @ t) = Some (b, r @ t)"
  by (induction s arbitrary: b rule: cut_block.induct) (auto split: if_splits)

lemma block_loop_append:
  "block_loop u (s @ t) = (fst (block_loop u s) @ fst (block_loop u (snd (block_loop u s) @ t)), snd (block_loop u (snd (block_loop u s) @ t)))"
proof (induction u s rule: block_loop.induct)
  case (1 u s)
  show ?case
  proof (cases "cut_block s")
    case None
    then show ?thesis by (simp add: block_loop.simps[of u s])
  next
    case (Some br)
    obtain b r where br: "br = (b, r)" by (cases br)
    show ?thesis
      using 1[OF Some br[symmetric]] Some br
      by (subst (1) block_loop.simps) (simp add: cut_block_append block_loop.simps[of u s] case_prod_beta split: option.split)
  qed
qed

lemma block_loop_rest: "cut_block (snd (block_loop u s)) = None"
proof (induction u s rule: block_loop.induct)
  case (1 u s)
  then show ?case by (subst block_loop.simps) (auto split: option.split simp: case_prod_beta)
qed

lemma block_loop_none: "cut_block s = None \<Longrightarrow> block_loop u s = ([], s)"
  by (simp add: block_loop.simps)

definition parser_ok :: "SSEParser \<Rightarrow> bool" where
  "parser_ok p = (cut_block (sp_buf p) = None)"

lemma Feed_eq:
  "Feed u d p = (fst (block_loop u (sp_buf p @ norm_nl (after_cr (sp_skipLeadingLF p) d))),
     \<lparr>sp_buf = snd (block_loop u (sp_buf p @ norm_nl (after_cr (sp_skipLeadingLF p) d))),
      sp_skipLeadingLF = (if d = [] then sp_skipLeadingLF p else last d = CR)\<rparr>)"
  by (cases d) (auto simp: Feed_def skip_lf_def after_cr_def Let_def case_prod_beta)

interpretation sse: chunked "Feed u" parser_ok for u
proof unfold_locales
  show "parser_ok (snd (Feed u d p))" for d p
    by (simp add: parser_ok_def Feed_eq block_loop_rest)
  show "Feed u [] p = ([], p)" if "parser_ok p" for p
    using that by (simp add: parser_ok_def Feed_eq block_loop_none replace_cr_def)
  show "Feed u (a @ b) p = (fst (Feed u a p) @ fst (Feed u b (snd (Feed u a p))), snd (Feed u b (snd (Feed u a p))))" if "parser_ok p" for a b p
  proof (cases "a = []")
    case True
    then show ?thesis using that by (simp add: parser_ok_def Feed_eq block_loop_none replace_cr_def)
  next
    case False
    have "after_cr (sp_skipLeadingLF p) (a @ b) = after_cr (sp_skipLeadingLF p) a @ b"
      using False by (cases a) (simp_all add: after_cr_def)
    moreover have "after_cr (after_cr (sp_skipLeadingLF p) a \<noteq> [] \<and> last (after_cr (sp_skipLeadingLF p) a) = CR) b = after_cr (last a = CR) b"
      using False by (cases a) (auto simp: after_cr_def)
    ultimately show ?thesis
      using False by (simp add: Feed_eq normalize_append block_loop_append[of u "sp_buf p @ x" for x, simplified])
  qed
qed

lemma parser_ok_New [simp]: "parser_ok NewSSEParser"
  by (simp add: parser_ok_def NewSSEParser_def)

subsection \<open>The search for complete frames\<close>

definition no_frame :: "string \<Rightarrow> bool" where
  "no_frame data = (\<forall>i. frame_end data i = 0)"

lemma frame_end_beyond: "length data \<le> i \<Longrightarrow> frame_end data i = 0"
  by (simp add: frame_end_def)

lemma frame_end_bounds: "0 < frame_end data i \<Longrightarrow> i < frame_end data i \<and> frame_end data i \<le> length data"
  by (auto simp: frame_end_def Let_def split: if_splits)

text \<open>Only four bytes matter.\<close>

lemma frame_end_append: "i + 4 \<le> length data \<Longrightarrow> frame_end (data @ new) i = frame_end data i"
  by (simp add: frame_end_def nth_append)

lemma frame_end_drop: "0 < frame_end (drop k data) i \<Longrightarrow> 0 < frame_end data (k + i)"
  by (auto simp: frame_end_def Let_def algebra_simps less_diff_conv split: if_splits)

text \<open>The five ways a blank line can end a frame.\<close>

definition frame_tails :: "string list" where
  "frame_tails = [[LF, LF], [LF, CR, LF], [CR, CR], [CR, LF, LF], [CR, LF, CR, LF]]"


lemma frame_end_tail:
  assumes "0 < frame_end data i"
  obtains t where "t \<in> set frame_tails" and "take (frame_end data i) data = take i data @ t"
  by (rule that[of "drop i (take (frame_end data i) data)"])
    (use assms in \<open>auto simp: frame_end_def frame_tails_def Let_def take_Suc_conv_app_nth numeral_eq_Suc split: if_splits\<close>)

lemma prefix_loop_skip:
  assumes "i \<le> j" and "j \<le> length data" and "\<And>k. i \<le> k \<Longrightarrow> k < j \<Longrightarrow> frame_end data k = 0"
  shows "prefix_loop data i n = prefix_loop data j n"
  using assms
proof (induction rule: inc_induct)
  case base
  then show ?case by simp
next
  case (step k)
  then show ?case by (subst prefix_loop.simps) simp
qed

lemma prefix_loop_end:
  "prefix_loop data i n = n \<or> (\<exists>j. 0 < frame_end data j \<and> prefix_loop data i n = frame_end data j)"
proof (induction data i n rule: prefix_loop.induct)
  case (1 data i n)
  then show ?case by (cases "i < length data"; cases "0 < frame_end data i") (auto simp: prefix_loop.simps[of data i n])
qed

lemma prefix_loop_rest:
  assumes "n \<le> i" and "\<And>k. n \<le> k \<Longrightarrow> k < i \<Longrightarrow> frame_end data k = 0" and "prefix_loop data i n \<le> k"
  shows "frame_end data k = 0"
  using assms
proof (induction data i n rule: prefix_loop.induct)
  case (1 data i n)
  show ?case
  proof (cases "i < length data")
    case False
    then show ?thesis using 1(3-5) by (cases "k < i") (auto simp: prefix_loop.simps[of data i] frame_end_beyond)
  next
    case True
    show ?thesis
    proof (cases "0 < frame_end data i")
      case found: True
      show ?thesis using 1(1)[OF True found] 1(5) True found by (simp add: prefix_loop.simps[of data i])
    next
      case False
      have "frame_end data j = 0" if "n \<le> j" "j < i + 1" for j
        using that 1(4)[of j] False by (cases "j = i") auto
      then show ?thesis using 1(2)[OF True False] 1(3,5) True False by (simp add: prefix_loop.simps[of data i])
    qed
  qed
qed

lemma complete_no_frame: "no_frame (drop (completeSSEPrefixLen data 0) data)"
proof -
  have "frame_end data k = 0" if "prefix_loop data 0 0 \<le> k" for k
    using prefix_loop_rest[of 0 0 data k] that by simp
  then show ?thesis
    unfolding no_frame_def completeSSEPrefixLen_def using frame_end_drop[of "prefix_loop data 0 0" data] by (metis le_add1 less_numeral_extra(3) nat_0 neq0_conv)
qed

lemma resumed_search:
  assumes "no_frame pending"
  shows "completeSSEPrefixLen (pending @ new) (max 0 (int (length pending) - 3)) = completeSSEPrefixLen (pending @ new) 0"
proof -
  let ?j = "length pending - 3"
  have "frame_end (pending @ new) k = 0" if "k < ?j" for k
    using that assms frame_end_append[of k pending new] by (simp add: no_frame_def)
  then have "prefix_loop (pending @ new) 0 0 = prefix_loop (pending @ new) ?j 0"
    by (intro prefix_loop_skip) auto
  moreover have "nat (max 0 (int (length pending) - 3)) = ?j" by auto
  ultimately show ?thesis by (simp add: completeSSEPrefixLen_def)
qed

subsection \<open>Complete frames leave nothing in the parser\<close>

lemma normalize_tail:
  assumes "t \<in> set frame_tails"
  shows "\<exists>x. norm_nl (w @ t) = x @ [LF, LF]"
proof -
  have w: "\<exists>x. norm_nl w = x @ [LF]" if "w \<noteq> []" "last w = CR"
  proof -
    have "norm_nl (butlast w @ [CR]) = norm_nl (butlast w) @ [LF]"
      by (subst normalize_append) (simp add: after_cr_def replace_cr_def)
    then show ?thesis using that append_butlast_last_id[of w] by auto
  qed
  have t: "norm_nl t \<in> {[LF, LF]} \<and> norm_nl (after_cr True t) \<in> {[LF], [LF, LF]}"
    using assms by (auto simp: frame_tails_def after_cr_def replace_cr_def)
  show ?thesis
    using w t unfolding normalize_append[of w t] by (cases "w \<noteq> [] \<and> last w = CR") auto
qed

lemma cut_block_suffix: "cut_block s = Some (b, r) \<Longrightarrow> suffix r s"
  by (induction s arbitrary: b rule: cut_block.induct) (auto split: if_splits simp: suffix_ConsI suffix_Cons)

lemma block_loop_suffix: "suffix (snd (block_loop u s)) s"
proof (induction u s rule: block_loop.induct)
  case (1 u s)
  show ?case
  proof (cases "cut_block s")
    case None
    then show ?thesis by (simp add: block_loop_none)
  next
    case (Some br)
    obtain b r where br: "br = (b, r)" by (cases br)
    show ?thesis
      using 1[OF Some br[symmetric]] cut_block_suffix[of s b r] Some br
      by (simp add: block_loop.simps[of u s] case_prod_beta)
  qed
qed

lemma cut_block_found: "cut_block (x @ [LF, LF]) \<noteq> None"
  by (induction x rule: cut_block.induct) auto

lemma block_loop_consumes: "snd (block_loop u (x @ [LF, LF])) \<in> {[], [LF]}"
proof -
  obtain z where z: "x @ [LF, LF] = z @ snd (block_loop u (x @ [LF, LF]))"
    using block_loop_suffix[of u "x @ [LF, LF]"] by (auto simp: suffix_def)
  have "cut_block (y @ [LF, LF]) \<noteq> cut_block (snd (block_loop u (x @ [LF, LF])))" for y
    using block_loop_rest cut_block_found by metis
  then have "snd (block_loop u (x @ [LF, LF])) \<noteq> y @ [LF, LF]" for y by metis
  then show ?thesis
    using z by (cases "snd (block_loop u (x @ [LF, LF]))" rule: rev_cases; cases "butlast (snd (block_loop u (x @ [LF, LF])))" rule: rev_cases) auto
qed

lemma frames_consumed:
  assumes "t \<in> set frame_tails"
  shows "sp_buf (snd (Feed u (w @ t) NewSSEParser)) \<in> {[], [LF]}"
proof -
  obtain x where "norm_nl (w @ t) = x @ [LF, LF]" using normalize_tail[OF assms] by blast
  then show ?thesis using block_loop_consumes[of u x] by (simp add: Feed_eq NewSSEParser_def)
qed

lemma complete_prefix_tail:
  "completeSSEPrefixLen data 0 = 0 \<or> (\<exists>w. \<exists>t\<in>set frame_tails. take (completeSSEPrefixLen data 0) data = w @ t)"
  using prefix_loop_end[of data 0 0] frame_end_tail[of data] unfolding completeSSEPrefixLen_def by (metis nat_0)

subsection \<open>Reading back what was written\<close>

definition one_line :: "string \<Rightarrow> bool" where
  "one_line s = (LF \<notin> set s \<and> CR \<notin> set s)"

lemma norm_nl_id: "CR \<notin> set s \<Longrightarrow> norm_nl s = s"
  by (induction s rule: replace_crlf.induct) (auto simp: replace_cr_def)

lemma cut_block_line: "LF \<notin> set l \<Longrightarrow> cut_block (l @ LF # LF # r) = Some (l, r)"
  by (induction l rule: cut_block.induct) auto

lemma cut_block_lines: "LF \<notin> set l \<Longrightarrow> l' \<noteq> [] \<Longrightarrow> LF \<notin> set l' \<Longrightarrow> cut_block (l @ LF # l' @ LF # LF # r) = Some (l @ LF # l', r)"
  by (induction l rule: cut_block.induct; cases l') (auto simp: cut_block_line[where l = "_ # _", simplified])

lemma split_lines_line: "LF \<notin> set l \<Longrightarrow> split_lines l = [l]"
  by (induction l) auto

lemma split_lines_lines: "LF \<notin> set l \<Longrightarrow> split_lines (l @ LF # r) = l # split_lines r"
  by (induction l) auto

lemma data_line_one: "one_line s \<Longrightarrow> data_line (''data: '' @ s) = Some s"
  by (auto simp: data_line_def TrimSuffix_CR_def one_line_def trim_prefix_def dest: last_in_set)

lemma data_line_event: "one_line s \<Longrightarrow> data_line (''event: '' @ s) = None"
  by (auto simp: data_line_def TrimSuffix_CR_def one_line_def dest: last_in_set)

lemma parseBlock_event:
  assumes "one_line e" and "one_line d"
  shows "\<exists>ev. parseBlock u (''event: '' @ e @ LF # ''data: '' @ d) = Some ev \<and> ev_Data ev = d"
proof -
  have "split_lines (''event: '' @ e @ LF # ''data: '' @ d) = [''event: '' @ e, ''data: '' @ d]"
    using assms split_lines_lines[of "''event: '' @ e" "''data: '' @ d"] split_lines_line[of "''data: '' @ d"] by (simp add: one_line_def)
  then show ?thesis
    using data_line_one[OF assms(2)] data_line_event[OF assms(1)] by (simp add: parseBlock_def Let_def List.map_filter_def)
qed

lemma block_loop_event:
  assumes "one_line e" and "one_line d"
  shows "map ev_Data (fst (block_loop u (writeSSEEvent e d @ r))) = d # map ev_Data (fst (block_loop u r))"
    and "snd (block_loop u (writeSSEEvent e d @ r)) = snd (block_loop u r)"
proof -
  have "cut_block (writeSSEEvent e d @ r) = Some (''event: '' @ e @ LF # ''data: '' @ d, r)"
    using assms cut_block_lines[of "''event: '' @ e" "''data: '' @ d" r] by (simp add: writeSSEEvent_def one_line_def)
  then show "map ev_Data (fst (block_loop u (writeSSEEvent e d @ r))) = d # map ev_Data (fst (block_loop u r))"
    "snd (block_loop u (writeSSEEvent e d @ r)) = snd (block_loop u r)"
    using parseBlock_event[OF assms, of u] by (auto simp: block_loop.simps[of u "writeSSEEvent e d @ r"] case_prod_beta)
qed

abbreviation write_all :: "(string \<times> string) list \<Rightarrow> string" where
  "write_all evs \<equiv> concat (map (\<lambda>(e, d). writeSSEEvent e d) evs)"

lemma write_all_read:
  assumes "\<forall>(e, d)\<in>set evs. one_line e \<and> one_line d"
  shows "map ev_Data (fst (Feed u (write_all evs) NewSSEParser)) = map snd evs \<and> sp_buf (snd (Feed u (write_all evs) NewSSEParser)) = []"
proof -
  have "CR \<notin> set (writeSSEEvent e d)" if "one_line e" "one_line d" for e d
    using that by (simp add: writeSSEEvent_def one_line_def)
  then have "CR \<notin> set (write_all evs)"
    using assms by (induction evs) (simp_all add: case_prod_beta)
  moreover have "map ev_Data (fst (block_loop u (write_all evs))) = map snd evs \<and> snd (block_loop u (write_all evs)) = []"
    using assms by (induction evs) (simp_all add: block_loop_event block_loop_none case_prod_beta)
  ultimately show ?thesis
    by (simp add: Feed_eq NewSSEParser_def norm_nl_id)
qed

subsection \<open>Properties\<close>

text \<open>(C17) What the parser reads from a stream is determined by its bytes: two ways of cutting the same bytes into reads give the same events
  and leave the parser in the same state.\<close>

theorem events_do_not_depend_on_cuts:
  assumes "concat reads = concat reads'"
  shows "run_chunks (Feed unmarshal) reads NewSSEParser = run_chunks (Feed unmarshal) reads' NewSSEParser"
  by (rule sse.cuts_irrelevant[OF parser_ok_New assms])

text \<open>The search for complete frames that resumes three bytes before the new bytes finds the same prefix as a search of the whole buffer; the prefix it
  finds leaves at most a line feed in the parser, and what is kept back holds no complete frame, so that the next resumed search is right as well.\<close>

theorem resumed_frame_search_is_complete:
  assumes "no_frame pending"
  shows "let n = completeSSEPrefixLen (pending @ new) (max 0 (int (length pending) - 3))
     in n = completeSSEPrefixLen (pending @ new) 0 \<and> no_frame (drop n (pending @ new))
       \<and> sp_buf (snd (Feed unmarshal (take n (pending @ new)) NewSSEParser)) \<in> {[], [LF]}"
proof -
  have "sp_buf (snd (Feed unmarshal (take (completeSSEPrefixLen d 0) d) NewSSEParser)) \<in> {[], [LF]}" for d
  proof (cases "completeSSEPrefixLen d 0 = 0")
    case True
    then show ?thesis by (simp add: Feed_eq NewSSEParser_def block_loop_none replace_cr_def)
  next
    case False
    then show ?thesis using complete_prefix_tail[of d] frames_consumed[of _ unmarshal] by metis
  qed
  then show ?thesis
    unfolding Let_def resumed_search[OF assms] using complete_no_frame by blast
qed

text \<open>Events written to a client, on single lines, are read back by the parser with their data unchanged and in order, however the bytes are cut
  on their way.\<close>

theorem written_events_are_read_back:
  assumes "\<forall>(event, data)\<in>set evs. one_line event \<and> one_line data" and "concat reads = concat (map (\<lambda>(event, data). writeSSEEvent event data) evs)"
  shows "map ev_Data (fst (run_chunks (Feed unmarshal) reads NewSSEParser)) = map snd evs"
  using write_all_read[OF assms(1), of unmarshal] assms(2) by (simp add: sse.run_concat)

subsection \<open>Witnesses\<close>

theorem events_do_not_depend_on_cuts_witness:
  "concat [''data: a'' @ [CR], [LF, CR], [LF] @ ''data: b'' @ [LF, LF]] = concat [''data: a'' @ [CR, LF, CR, LF], ''data: b'' @ [LF, LF]]
   \<and> run_chunks (Feed (\<lambda>_. None)) [''data: a'' @ [CR], [LF, CR], [LF] @ ''data: b'' @ [LF, LF]] NewSSEParser
     = run_chunks (Feed (\<lambda>_. None)) [''data: a'' @ [CR, LF, CR, LF], ''data: b'' @ [LF, LF]] NewSSEParser
   \<and> map ev_Data (fst (run_chunks (Feed (\<lambda>_. None)) [''data: a'' @ [CR], [LF, CR], [LF] @ ''data: b'' @ [LF, LF]] NewSSEParser)) = [''a'', ''b'']"
  (is "?c \<and> ?r \<and> ?e")
proof -
  have c: ?c by simp
  have e: ?e by code_simp
  show ?thesis using c e events_do_not_depend_on_cuts[OF c] by blast
qed

theorem resumed_frame_search_is_complete_witness:
  "no_frame (''x'' @ [CR, LF, CR]) \<and> completeSSEPrefixLen ((''x'' @ [CR, LF, CR]) @ [LF]) (max 0 (int (length (''x'' @ [CR, LF, CR])) - 3)) = 5
   \<and> no_frame (drop 5 ((''x'' @ [CR, LF, CR]) @ [LF]))"
proof -
  have n: "no_frame (''x'' @ [CR, LF, CR])"
    using complete_no_frame[of "''x'' @ [CR, LF, CR]"] by (simp add: completeSSEPrefixLen_def prefix_loop.simps frame_end_def Let_def)
  have "completeSSEPrefixLen ((''x'' @ [CR, LF, CR]) @ [LF]) (max 0 (int (length (''x'' @ [CR, LF, CR])) - 3)) = 5"
    by code_simp
  then show ?thesis
    using n resumed_frame_search_is_complete[OF n, of "[LF]" "\<lambda>_. None"] unfolding Let_def by metis
qed

theorem written_events_are_read_back_witness:
  "map ev_Data (fst (run_chunks (Feed (\<lambda>_. None)) [''event: m'' @ [LF] @ ''da'', ''ta: {}'' @ [LF], [LF]] NewSSEParser)) = map snd [(''m'', ''{}'')]"
  by (rule written_events_are_read_back) (simp_all add: one_line_def writeSSEEvent_def)

end
