(* ===== verification/Sse_Stream.thy ===== *)
theory Sse_Stream
  imports Sse_Parser Settlement
begin

text \<open>
  Streaming responses on their way to the client: the token extractors (\<open>pkg/llm/token_extractors.go\<close>), the writer that reads the usage off the
  passing events (\<open>pkg/llm/sse_intercept_writer.go\<close>), the verbatim relay (\<open>pkg/llm/passthrough_stream.go\<close>) and the relay of an OpenAI stream
  that holds frames back until they are complete and free of errors (\<open>handleOpenAIStream\<close> of \<open>pkg/llm/providers/openai.go\<close>).

  The reads of the upstream body are a list: the bytes of a read, its error, what the client's connection does with the bytes written after it,
  and the time since the start of the request. A run that uses up the list is still waiting for the upstream. Decoding JSON into the
  structures of the source is an argument (\<open>Decoders\<close>); a decoder gives \<open>None\<close> for an error.
\<close>

subsection \<open>Token extractors\<close>

record AnthropicUsage =
  au_InputTokens :: int
  au_OutputTokens :: int
  au_CacheCreationInputTokens :: int
  au_CacheReadInputTokens :: int

record AnthropicEvent =
  ae_Type :: string
  ae_MessageUsage :: "AnthropicUsage option"
  ae_Usage :: "AnthropicUsage option"

record ResponsesUsage =
  ru_InputTokens :: int
  ru_OutputTokens :: int
  ru_InputTokensDetails :: "int option"

record ErrChunk =
  ec_Message :: string
  ec_Type :: string
  ec_Cause :: string

record RespChunk =
  rc_ResponseID :: string
  rc_Response :: "(string \<times> string) option"
  rc_Model :: string

text \<open>The structures the source decodes into. \<open>dc_responses\<close> gives the usage at the top and the usage under the response;
  \<open>dc_error\<close> the error object, if there is one; \<open>dc_cause\<close> the message of the nested error; \<open>dc_plain\<close> the messages of a plain JSON body.\<close>

record Decoders =
  dc_openai :: "string \<Rightarrow> OpenAIUsage option option"
  dc_anthropic :: "string \<Rightarrow> AnthropicEvent option"
  dc_responses :: "string \<Rightarrow> (ResponsesUsage option \<times> ResponsesUsage option) option"
  dc_gemini :: "string \<Rightarrow> (int \<times> int) option option"
  dc_delta_text :: "string \<Rightarrow> string option option"
  dc_gemini_texts :: "string \<Rightarrow> string list list option"
  dc_choices :: "string \<Rightarrow> string list option"
  dc_type :: "string \<Rightarrow> string option"
  dc_resp :: "string \<Rightarrow> RespChunk option"
  dc_error :: "string \<Rightarrow> ErrChunk option option"
  dc_cause :: "string \<Rightarrow> string option"
  dc_plain :: "string \<Rightarrow> (string \<times> string) option"

definition total_input :: "AnthropicUsage \<Rightarrow> int" where
  "total_input u = wrap64 (wrap64 (au_InputTokens u + au_CacheReadInputTokens u) + au_CacheCreationInputTokens u)"

definition AnthropicTokenExtractor :: "Decoders \<Rightarrow> string \<Rightarrow> tokens" where
  "AnthropicTokenExtractor D data = (case dc_anthropic D data of None \<Rightarrow> (0, 0, 0, 0) | Some ev \<Rightarrow>
     if ae_Type ev = ''message_start'' then
       (case ae_MessageUsage ev of None \<Rightarrow> (0, 0, 0, 0)
        | Some u \<Rightarrow> (total_input u, 0, au_CacheReadInputTokens u, au_CacheCreationInputTokens u))
     else if ae_Type ev = ''message_delta'' then
       (case ae_Usage ev of None \<Rightarrow> (0, 0, 0, 0)
        | Some u \<Rightarrow> (if au_InputTokens u > 0 \<or> au_CacheReadInputTokens u > 0 \<or> au_CacheCreationInputTokens u > 0 then total_input u else 0,
            au_OutputTokens u, au_CacheReadInputTokens u, au_CacheCreationInputTokens u))
     else
       (case ae_Usage ev of None \<Rightarrow> (0, 0, 0, 0)
        | Some u \<Rightarrow> (total_input u, au_OutputTokens u, au_CacheReadInputTokens u, au_CacheCreationInputTokens u)))"

definition ResponsesTokenExtractor :: "Decoders \<Rightarrow> string \<Rightarrow> tokens" where
  "ResponsesTokenExtractor D data = (case dc_responses D data of None \<Rightarrow> (0, 0, 0, 0) | Some (outer, nested) \<Rightarrow>
     (case (case outer of Some u \<Rightarrow> Some u | None \<Rightarrow> nested) of None \<Rightarrow> (0, 0, 0, 0)
      | Some u \<Rightarrow> (ru_InputTokens u, ru_OutputTokens u, case ru_InputTokensDetails u of Some c \<Rightarrow> c | None \<Rightarrow> 0, 0)))"

definition GeminiTokenExtractor :: "Decoders \<Rightarrow> string \<Rightarrow> tokens" where
  "GeminiTokenExtractor D data = (case dc_gemini D data of Some (Some (prompt, candidates)) \<Rightarrow> (prompt, candidates, 0, 0) | _ \<Rightarrow> (0, 0, 0, 0))"

definition ExtractContentLength :: "Decoders \<Rightarrow> string \<Rightarrow> string \<Rightarrow> int" where
  "ExtractContentLength D protocol data = (if data = '''' \<or> data = ''[DONE]'' then 0
     else if protocol = ''anthropic'' then (case dc_delta_text D data of Some (Some t) \<Rightarrow> int (length t) | _ \<Rightarrow> 0)
     else if protocol = ''gemini'' then (case dc_gemini_texts D data of Some cs \<Rightarrow> int (length (concat (concat cs))) | None \<Rightarrow> 0)
     else (case dc_choices D data of Some (c # _) \<Rightarrow> int (length c) | _ \<Rightarrow> 0))"

definition ApplyUsage :: "tokens \<Rightarrow> Usage \<Rightarrow> Usage" where
  "ApplyUsage t u = (case t of (i, out, cached, cacheCreated) \<Rightarrow>
     let u1 = (if i > 0 then u\<lparr>u_InputTokens := i\<rparr> else u);
         u2 = (if out > 0 then u1\<lparr>u_OutputTokens := out\<rparr> else u1);
         u3 = (if cached > 0 then u2\<lparr>u_CachedTokens := cached\<rparr> else u2)
     in if cacheCreated > 0 then u3\<lparr>u_CacheCreationTokens := cacheCreated\<rparr> else u3)"

subsection \<open>The intercepting writer\<close>

definition TriggerFirstByte :: "duration \<Rightarrow> GatewayContext \<Rightarrow> GatewayContext" where
  "TriggerFirstByte elapsed g = (if g_TTFT g = 0 then g\<lparr>g_TTFT := elapsed\<rparr> else g)"

text \<open>The underlying response writer is the headers and status sent and the bytes the connection took.\<close>

record SSEInterceptWriter =
  iw_g :: GatewayContext
  iw_u :: Usage
  iw_parser :: SSEParser
  iw_firstByte :: bool
  iw_headers :: "(string \<times> string) list"
  iw_status :: "int option"
  iw_sent :: string

definition NewSSEInterceptWriter :: "GatewayContext \<Rightarrow> Usage \<Rightarrow> SSEInterceptWriter" where
  "NewSSEInterceptWriter g u = \<lparr>iw_g = g, iw_u = u, iw_parser = NewSSEParser, iw_firstByte = False,
     iw_headers = [(''X-Accel-Buffering'', ''no'')], iw_status = None, iw_sent = []\<rparr>"

definition isAnthropicMessageStop :: "Decoders \<Rightarrow> string \<Rightarrow> bool" where
  "isAnthropicMessageStop D data0 = (let data = TrimSpace data0 in
     if data = '''' \<or> data = ''[DONE]'' then False
     else if \<not> str_contains data ''message_stop'' then False
     else dc_type D data = Some ''message_stop'')"

definition first_byte :: "duration \<Rightarrow> SSEInterceptWriter \<Rightarrow> SSEInterceptWriter" where
  "first_byte elapsed w = (if iw_firstByte w then w else w\<lparr>iw_firstByte := True, iw_g := TriggerFirstByte elapsed (iw_g w)\<rparr>)"

definition event_tokens :: "(string \<Rightarrow> tokens) option \<Rightarrow> SSEEvent \<Rightarrow> tokens" where
  "event_tokens te ev = (case te of Some f \<Rightarrow> f (ev_Data ev) | None \<Rightarrow> ev_Tokens ev)"

text \<open>The body of the loop over the events, on the accounting fields and on the rest of the context.\<close>

definition protocol_of :: "GatewayContext \<Rightarrow> string" where
  "protocol_of g = (case g_SelectedEndpoint g of Some ep \<Rightarrow> ep_ProviderProtocol ep | None \<Rightarrow> '''')"

definition event_usage :: "Decoders \<Rightarrow> (string \<Rightarrow> tokens) option \<Rightarrow> string \<Rightarrow> SSEEvent \<Rightarrow> Usage \<Rightarrow> Usage" where
  "event_usage D te protocol ev u = (let u1 = ApplyUsage (event_tokens te ev) u
     in u1\<lparr>u_TransmittedChars := u_TransmittedChars u1 + ExtractContentLength D protocol (ev_Data ev)\<rparr>)"

definition event_stop :: "Decoders \<Rightarrow> SSEEvent \<Rightarrow> GatewayContext \<Rightarrow> GatewayContext" where
  "event_stop D ev g = (if g_RequestType g = RequestTypeMessages \<and> isAnthropicMessageStop D (ev_Data ev)
     then g\<lparr>g_Tags := (g_Tags g)(''message_stop_sent'' \<mapsto> ''true'')\<rparr> else g)"

definition on_event :: "Decoders \<Rightarrow> (string \<Rightarrow> tokens) option \<Rightarrow> SSEEvent \<Rightarrow> SSEInterceptWriter \<Rightarrow> SSEInterceptWriter" where
  "on_event D te ev w = w\<lparr>iw_u := event_usage D te (protocol_of (iw_g w)) ev (iw_u w), iw_g := event_stop D ev (iw_g w)\<rparr>"

text \<open>The connection takes all the bytes, or only some and reports an error.\<close>

definition Write :: "Decoders \<Rightarrow> (string \<Rightarrow> tokens) option \<Rightarrow> duration \<Rightarrow> (nat \<times> string) option \<Rightarrow> string \<Rightarrow> SSEInterceptWriter \<Rightarrow>
    SSEInterceptWriter \<times> string option" where
  "Write D te elapsed conn p w0 = (let w1 = first_byte elapsed w0;
       (events, parser) = Feed (dc_openai D) p (iw_parser w1);
       w2 = fold (on_event D te) events (w1\<lparr>iw_parser := parser\<rparr>)
     in case conn of None \<Rightarrow> (w2\<lparr>iw_sent := iw_sent w2 @ p, iw_status := Some (case iw_status w2 of None \<Rightarrow> 200 | Some c \<Rightarrow> c)\<rparr>, None)
        | Some (n, e) \<Rightarrow> (w2\<lparr>iw_sent := iw_sent w2 @ take n p, iw_status := Some (case iw_status w2 of None \<Rightarrow> 200 | Some c \<Rightarrow> c)\<rparr>, Some e))"

definition WriteHeader :: "duration \<Rightarrow> int \<Rightarrow> SSEInterceptWriter \<Rightarrow> SSEInterceptWriter" where
  "WriteHeader elapsed statusCode w0 = (let w = first_byte elapsed w0
     in w\<lparr>iw_status := Some (case iw_status w of None \<Rightarrow> statusCode | Some c \<Rightarrow> c)\<rparr>)"


definition set_header :: "string \<Rightarrow> string \<Rightarrow> SSEInterceptWriter \<Rightarrow> SSEInterceptWriter" where
  "set_header k v w = w\<lparr>iw_headers := (k, v) # filter (\<lambda>(k', _). k' \<noteq> k) (iw_headers w)\<rparr>"

definition stream_headers :: "SSEInterceptWriter \<Rightarrow> SSEInterceptWriter" where
  "stream_headers w = set_header ''Connection'' ''keep-alive'' (set_header ''Cache-Control'' ''no-cache'' (set_header ''Content-Type'' ''text/event-stream'' w))"

subsection \<open>The upstream body\<close>

datatype read_err = EOF | Canceled | ReadErr string

record Read =
  rd_bytes :: string
  rd_err :: "read_err option"
  rd_conn :: "(nat \<times> string) option"
  rd_clientGone :: bool
  rd_elapsed :: duration

text \<open>A read error as it is reported: \<open>Plain\<close> as it is, otherwise what it was traced back to.\<close>

datatype read_failure = Plain read_err | ClientGone read_err | Cause string | ContextCanceled

datatype stream_err = FrameTooLarge | UpstreamEvent string | JSONError string | WriteErr string | IncompleteFrame | ClosedEarly
  | Disconnected read_err | ReadFailed read_failure

datatype stream_result = Finished | Failed stream_err | Waiting

subsection \<open>The verbatim relay\<close>

text \<open>\<open>cause\<close> is the cause of the cancelled context of the gateway, when it is another error than the cancellation itself.\<close>

definition classifyStreamReadError :: "bool \<Rightarrow> string option \<Rightarrow> read_err \<Rightarrow> read_failure" where
  "classifyStreamReadError clientGone cause err = (if clientGone then ClientGone err
     else case cause of Some c \<Rightarrow> Cause c | None \<Rightarrow> if err = Canceled then ContextCanceled else Plain err)"

fun passthrough_loop :: "Decoders \<Rightarrow> (string \<Rightarrow> tokens) \<Rightarrow> string option \<Rightarrow> Read list \<Rightarrow> SSEInterceptWriter \<Rightarrow> SSEInterceptWriter \<times> stream_result" where
  "passthrough_loop D te cause [] w = (w, Waiting)"
| "passthrough_loop D te cause (r # rs) w = (case (if rd_bytes r \<noteq> [] then Write D (Some te) (rd_elapsed r) (rd_conn r) (rd_bytes r) w else (w, None)) of
       (w1, Some e) \<Rightarrow> (w1, Failed (WriteErr e))
     | (w1, None) \<Rightarrow> (case rd_err r of
         None \<Rightarrow> passthrough_loop D te cause rs w1
       | Some EOF \<Rightarrow> (w1, Finished)
       | Some err \<Rightarrow> (w1, Failed (ReadFailed (classifyStreamReadError (rd_clientGone r) cause err)))))"

definition PassthroughStream :: "Decoders \<Rightarrow> (string \<Rightarrow> tokens) \<Rightarrow> string option \<Rightarrow> GatewayContext \<Rightarrow> Usage \<Rightarrow> Read list \<Rightarrow>
    SSEInterceptWriter \<times> stream_result" where
  "PassthroughStream D te cause g u reads =
     passthrough_loop D te cause reads (set_header ''X-Accel-Buffering'' ''no'' (stream_headers (NewSSEInterceptWriter g u)))"

subsection \<open>The relay of an OpenAI stream\<close>

definition maxOpenAISSEFrameBytes :: int where
  "maxOpenAISSEFrameBytes = 1048576"

definition clean_data :: "string \<Rightarrow> string" where
  "clean_data data = (let c = TrimSpace data in if prefix ''data:'' c then TrimSpace (trim_prefix ''data:'' c) else c)"

definition openAIStreamEventError :: "Decoders \<Rightarrow> string \<Rightarrow> string option" where
  "openAIStreamEventError D data = (if \<not> str_contains data (CHR 0x22 # ''error'' @ [CHR 0x22]) then None
     else case dc_error D (clean_data data) of
       Some (Some e) \<Rightarrow> if ec_Message e = '''' \<and> ec_Type e = '''' then None
         else Some (''upstream stream returned error event: '' @ (if ec_Cause e \<noteq> '''' then (case dc_cause D (ec_Cause e) of
                 Some m \<Rightarrow> if m \<noteq> '''' then ec_Message e @ '' (cause: '' @ m @ '')'' else ec_Message e @ '' (cause: '' @ ec_Cause e @ '')''
               | None \<Rightarrow> ec_Message e @ '' (cause: '' @ ec_Cause e @ '')'')
             else ec_Message e))
     | _ \<Rightarrow> None)"

definition openAIJSONStreamError :: "Decoders \<Rightarrow> string \<Rightarrow> string option" where
  "openAIJSONStreamError D data = (let trimmed = TrimSpace data in
     if \<not> prefix ''{'' trimmed then None
     else Some (case dc_plain D trimmed of Some (errMessage, message) \<Rightarrow>
         let m = (if errMessage = '''' then message else errMessage) in ''upstream returned JSON error: '' @ (if m = '''' then trimmed else m)
       | None \<Rightarrow> ''upstream stream returned JSON error body: '' @ trimmed))"

text \<open>The tags an event of a Responses stream leaves in the context.\<close>

definition response_id_of :: "string \<Rightarrow> string" where
  "response_id_of respID = (if prefix ''chatcmpl-'' respID then ''resp_'' @ drop 9 respID
     else if \<not> prefix ''resp_'' respID then ''resp_'' @ respID else respID)"

definition tag :: "string \<Rightarrow> string \<Rightarrow> GatewayContext \<Rightarrow> GatewayContext" where
  "tag k v g = g\<lparr>g_Tags := (g_Tags g)(k \<mapsto> v)\<rparr>"

definition tag_response :: "Decoders \<Rightarrow> string \<Rightarrow> GatewayContext \<Rightarrow> GatewayContext" where
  "tag_response D data g = (if g_RequestType g = RequestTypeResponses \<and> GetTagValue g ''response_id'' = '''' then
       (case dc_resp D (clean_data data) of None \<Rightarrow> g | Some rc \<Rightarrow>
          let respID = (if rc_ResponseID rc = '''' then (case rc_Response rc of Some (i, _) \<Rightarrow> i | None \<Rightarrow> '''') else rc_ResponseID rc);
              g1 = (if respID \<noteq> '''' then tag ''response_id'' (response_id_of respID) g else g);
              model = (if rc_Model rc = '''' then (case rc_Response rc of Some (_, m) \<Rightarrow> m | None \<Rightarrow> '''') else rc_Model rc)
          in if model \<noteq> '''' then tag ''response_model'' model g1 else g1)
     else g)"

definition tag_completed :: "Decoders \<Rightarrow> string \<Rightarrow> GatewayContext \<Rightarrow> GatewayContext" where
  "tag_completed D data g = (if g_RequestType g = RequestTypeResponses \<and> dc_type D (clean_data data) \<in> {Some ''response.done'', Some ''response.completed''}
     then tag ''response_completed_sent'' ''true'' g else g)"

fun sniff :: "Decoders \<Rightarrow> SSEEvent list \<Rightarrow> GatewayContext \<Rightarrow> GatewayContext \<times> string option" where
  "sniff D [] g = (g, None)"
| "sniff D (ev # evs) g = (let g1 = tag_completed D (ev_Data ev) (tag_response D (ev_Data ev) g)
     in case openAIStreamEventError D (ev_Data ev) of Some e \<Rightarrow> (g1, Some e) | None \<Rightarrow> sniff D evs g1)"

record OpenAIStream =
  os_writer :: SSEInterceptWriter
  os_pending :: string
  os_parser :: SSEParser
  os_headersSent :: bool

text \<open>The extractor the writer is given.\<close>

definition stream_extractor :: "Decoders \<Rightarrow> GatewayContext \<Rightarrow> (string \<Rightarrow> tokens) option" where
  "stream_extractor D g = (if g_RequestType g = RequestTypeResponses then Some (ResponsesTokenExtractor D) else None)"

text \<open>The complete frames of a read: sniffed for errors, then written. \<open>None\<close> as a result is going on.\<close>

definition relay_frames :: "Decoders \<Rightarrow> (string \<Rightarrow> tokens) option \<Rightarrow> Read \<Rightarrow> nat \<Rightarrow> OpenAIStream \<Rightarrow> OpenAIStream \<times> stream_result option" where
  "relay_frames D te r completeLen s = (let rawFrames = take completeLen (os_pending s);
       (events, parser) = Feed (dc_openai D) rawFrames (os_parser s);
       (g, err) = sniff D events (iw_g (os_writer s));
       s1 = s\<lparr>os_parser := parser, os_writer := (os_writer s)\<lparr>iw_g := g\<rparr>\<rparr>
     in case err of Some e \<Rightarrow> (s1, Some (Failed (UpstreamEvent e)))
     | None \<Rightarrow> (case (if os_headersSent s1 then None else openAIJSONStreamError D rawFrames) of
         Some e \<Rightarrow> (s1, Some (Failed (JSONError e)))
       | None \<Rightarrow>
          let s2 = (if os_headersSent s1 then s1
                    else s1\<lparr>os_writer := WriteHeader (rd_elapsed r) 200 (stream_headers (os_writer s1)), os_headersSent := True\<rparr>);
              (w, werr) = Write D te (rd_elapsed r) (rd_conn r) rawFrames (os_writer s2);
              s3 = s2\<lparr>os_writer := w\<rparr>
          in (case werr of Some e \<Rightarrow> (s3, Some (Failed (WriteErr e)))
              | None \<Rightarrow> let s4 = s3\<lparr>os_pending := drop completeLen (os_pending s3)\<rparr>
                  in (s4, if int (length (os_pending s4)) > maxOpenAISSEFrameBytes then Some (Failed FrameTooLarge) else None))))"

text \<open>The end of the body, and other read errors.\<close>

definition at_eof :: "Decoders \<Rightarrow> OpenAIStream \<Rightarrow> stream_result" where
  "at_eof D s = (if TrimSpace (os_pending s) \<noteq> [] then
       (case openAIJSONStreamError D (os_pending s) of Some e \<Rightarrow> Failed (JSONError e)
        | None \<Rightarrow> (case List.map_filter (\<lambda>ev. openAIStreamEventError D (ev_Data ev)) (fst (Feed (dc_openai D) (os_pending s @ [LF, LF]) NewSSEParser)) of
            e # _ \<Rightarrow> Failed (UpstreamEvent e) | [] \<Rightarrow> Failed IncompleteFrame))
     else if \<not> os_headersSent s then Failed ClosedEarly else Finished)"

definition at_read_error :: "Decoders \<Rightarrow> Read \<Rightarrow> read_err \<Rightarrow> OpenAIStream \<Rightarrow> stream_result" where
  "at_read_error D r err s = (if err = EOF then at_eof D s
     else if err = Canceled \<and> rd_clientGone r then
       (if GetTagValue (iw_g (os_writer s)) ''response_completed_sent'' = ''true'' then Finished else Failed (Disconnected err))
     else Failed (ReadFailed (Plain err)))"

text \<open>One round of the loop.\<close>

definition stream_step :: "Decoders \<Rightarrow> (string \<Rightarrow> tokens) option \<Rightarrow> Read \<Rightarrow> OpenAIStream \<Rightarrow> OpenAIStream \<times> stream_result option" where
  "stream_step D te r s0 = (let previousPendingLen = length (os_pending s0);
       s = s0\<lparr>os_pending := os_pending s0 @ rd_bytes r\<rparr>;
       completeLen = completeSSEPrefixLen (os_pending s) (max 0 (int previousPendingLen - 3))
     in if completeLen = 0 \<and> int (length (os_pending s)) > maxOpenAISSEFrameBytes then (s, Some (Failed FrameTooLarge))
        else case (if completeLen > 0 then relay_frames D te r completeLen s else (s, None)) of
            (s', Some res) \<Rightarrow> (s', Some res)
          | (s', None) \<Rightarrow> (s', map_option (\<lambda>err. at_read_error D r err s') (rd_err r)))"

fun stream_loop :: "Decoders \<Rightarrow> (string \<Rightarrow> tokens) option \<Rightarrow> Read list \<Rightarrow> OpenAIStream \<Rightarrow> OpenAIStream \<times> stream_result" where
  "stream_loop D te [] s = (s, Waiting)"
| "stream_loop D te (r # rs) s = (case stream_step D te r s of
       (s', Some res) \<Rightarrow> (s', res) | (s', None) \<Rightarrow> stream_loop D te rs s')"

definition start_stream :: "GatewayContext \<Rightarrow> Usage \<Rightarrow> OpenAIStream" where
  "start_stream g u = \<lparr>os_writer = NewSSEInterceptWriter g u, os_pending = [], os_parser = NewSSEParser, os_headersSent = False\<rparr>"

text \<open>A stream that ended well without a frame still gets its headers.\<close>

definition handleOpenAIStream :: "Decoders \<Rightarrow> GatewayContext \<Rightarrow> Usage \<Rightarrow> duration \<Rightarrow> Read list \<Rightarrow> OpenAIStream \<times> stream_result" where
  "handleOpenAIStream D g u elapsed reads = (case stream_loop D (stream_extractor D g) reads (start_stream g u) of (s, res) \<Rightarrow>
     (if res = Finished \<and> \<not> os_headersSent s
      then s\<lparr>os_writer := WriteHeader elapsed 200 (stream_headers (os_writer s))\<rparr> else s, res))"

subsection \<open>What the writer keeps of the context\<close>

text \<open>The parts of the context no event changes.\<close>

definition same_request :: "GatewayContext \<Rightarrow> GatewayContext \<Rightarrow> bool" where
  "same_request g g' = (g_TTFT g' = g_TTFT g \<and> g_SelectedEndpoint g' = g_SelectedEndpoint g \<and> g_RequestType g' = g_RequestType g)"

lemma same_request_refl [simp]: "same_request g g"
  by (simp add: same_request_def)

lemma same_request_trans: "same_request g g' \<Longrightarrow> same_request g' g'' \<Longrightarrow> same_request g g''"
  by (simp add: same_request_def)

lemma same_request_event_stop: "same_request g (event_stop D ev g)"
  by (simp add: same_request_def event_stop_def)

lemma same_request_stops: "same_request g (fold (event_stop D) evs g)"
  by (induction evs arbitrary: g) (auto intro: same_request_trans same_request_event_stop)

lemma same_request_tags: "same_request g (tag_completed D d (tag_response D d' g))"
  by (auto simp: same_request_def tag_completed_def tag_response_def tag_def Let_def split: option.split)

lemma sniff_spec: "(snd (sniff D evs g) = None) = list_all (\<lambda>ev. openAIStreamEventError D (ev_Data ev) = None) evs \<and> same_request g (fst (sniff D evs g))"
proof (induction evs arbitrary: g)
  case (Cons ev evs)
  show ?case
    using Cons.IH[of "tag_completed D (ev_Data ev) (tag_response D (ev_Data ev) g)"] same_request_tags[of g D "ev_Data ev" "ev_Data ev"]
    by (auto simp: Let_def split: option.split intro: same_request_trans)
qed simp

lemma protocol_of_same: "same_request g g' \<Longrightarrow> protocol_of g' = protocol_of g"
  by (simp add: protocol_of_def same_request_def)

lemma fold_on_event:
  "fold (on_event D te) evs w = w\<lparr>iw_u := fold (event_usage D te (protocol_of (iw_g w))) evs (iw_u w), iw_g := fold (event_stop D) evs (iw_g w)\<rparr>"
  by (induction evs arbitrary: w) (simp_all add: on_event_def protocol_of_same[OF same_request_event_stop])

lemma first_byte_simps [simp]:
  "iw_u (first_byte e w) = iw_u w" "iw_parser (first_byte e w) = iw_parser w" "iw_sent (first_byte e w) = iw_sent w"
  "iw_status (first_byte e w) = iw_status w" "iw_firstByte (first_byte e w) = True"
  "g_SelectedEndpoint (iw_g (first_byte e w)) = g_SelectedEndpoint (iw_g w)" "protocol_of (iw_g (first_byte e w)) = protocol_of (iw_g w)"
  by (simp_all add: first_byte_def TriggerFirstByte_def protocol_of_def)

text \<open>The effect of a write, field by field.\<close>

lemma Write_fields:
  assumes "Write D te e conn p w = (w', err)"
  shows "iw_parser w' = snd (Feed (dc_openai D) p (iw_parser w))"
    and "iw_u w' = fold (event_usage D te (protocol_of (iw_g w))) (fst (Feed (dc_openai D) p (iw_parser w))) (iw_u w)"
    and "iw_firstByte w'"
    and "same_request (iw_g (first_byte e w)) (iw_g w')"
    and "err = map_option snd conn"
    and "iw_sent w' = iw_sent w @ (case conn of None \<Rightarrow> p | Some (n, _) \<Rightarrow> take n p)"
  using assms by (auto simp: Write_def Let_def case_prod_beta fold_on_event same_request_stops split: option.splits)

subsection \<open>The invariant of the OpenAI relay\<close>

definition error_free :: "Decoders \<Rightarrow> string \<Rightarrow> bool" where
  "error_free D bytes = list_all (\<lambda>ev. openAIStreamEventError D (ev_Data ev) = None) (fst (Feed (dc_openai D) bytes NewSSEParser))"

definition usage_of_bytes :: "Decoders \<Rightarrow> (string \<Rightarrow> tokens) option \<Rightarrow> GatewayContext \<Rightarrow> Usage \<Rightarrow> string \<Rightarrow> Usage" where
  "usage_of_bytes D te g u bytes = fold (event_usage D te (protocol_of g)) (fst (Feed (dc_openai D) bytes NewSSEParser)) u"

lemma Feed_Nil [simp]: "Feed u [] NewSSEParser = ([], NewSSEParser)"
  by (simp add: sse.step_Nil)

lemma error_free_append:
  "error_free D (a @ b) = (error_free D a \<and>
     list_all (\<lambda>ev. openAIStreamEventError D (ev_Data ev) = None) (fst (Feed (dc_openai D) b (snd (Feed (dc_openai D) a NewSSEParser)))))"
  by (simp add: error_free_def sse.step_append)

lemma error_free_Nil [simp]: "error_free D []"
  by (simp add: error_free_def)

lemma error_free_take: "error_free D (a @ b) \<Longrightarrow> error_free D (a @ take n b)"
  using error_free_append[of D "a @ take n b" "drop n b"] by simp

text \<open>What holds of the writer at every moment, when \<open>bytes\<close> have been read: what was sent is a part of it from the start, without an error
  event, and the first byte is marked before anything is sent.\<close>

definition sent_ok :: "Decoders \<Rightarrow> string \<Rightarrow> SSEInterceptWriter \<Rightarrow> bool" where
  "sent_ok D bytes w = (prefix (iw_sent w) bytes \<and> error_free D (iw_sent w) \<and> (iw_sent w \<noteq> [] \<longrightarrow> g_TTFT (iw_g w) \<noteq> 0))"

text \<open>What holds during a round of the loop, and what holds between two rounds.\<close>

definition stream_base :: "Decoders \<Rightarrow> (string \<Rightarrow> tokens) option \<Rightarrow> GatewayContext \<Rightarrow> Usage \<Rightarrow> string \<Rightarrow> OpenAIStream \<Rightarrow> bool" where
  "stream_base D te g u bytes s = (let w = os_writer s in
       bytes = iw_sent w @ os_pending s
     \<and> error_free D (iw_sent w)
     \<and> (iw_firstByte w \<longrightarrow> g_TTFT (iw_g w) \<noteq> 0) \<and> (os_headersSent s \<longrightarrow> iw_firstByte w) \<and> (iw_sent w \<noteq> [] \<longrightarrow> os_headersSent s)
     \<and> os_parser s = snd (Feed (dc_openai D) (iw_sent w) NewSSEParser) \<and> iw_parser w = os_parser s
     \<and> protocol_of (iw_g w) = protocol_of g
     \<and> iw_u w = usage_of_bytes D te g u (iw_sent w))"

definition stream_inv :: "Decoders \<Rightarrow> (string \<Rightarrow> tokens) option \<Rightarrow> GatewayContext \<Rightarrow> Usage \<Rightarrow> string \<Rightarrow> OpenAIStream \<Rightarrow> bool" where
  "stream_inv D te g u bytes s = (stream_base D te g u bytes s \<and> no_frame (os_pending s) \<and> int (length (os_pending s)) \<le> maxOpenAISSEFrameBytes)"

lemma stream_inv_sent_ok: "stream_inv D te g u bytes s \<Longrightarrow> sent_ok D (bytes @ rest) (os_writer s)"
  by (auto simp: stream_inv_def stream_base_def sent_ok_def Let_def)

lemma no_frame_Nil [simp]: "no_frame []"
  by (simp add: no_frame_def frame_end_beyond)

lemma start_inv: "stream_inv D te g u [] (start_stream g u)"
  by (simp add: stream_inv_def stream_base_def start_stream_def NewSSEInterceptWriter_def usage_of_bytes_def maxOpenAISSEFrameBytes_def)

lemma first_byte_TTFT: "e \<noteq> 0 \<Longrightarrow> (iw_firstByte w \<longrightarrow> g_TTFT (iw_g w) \<noteq> 0) \<Longrightarrow> g_TTFT (iw_g (first_byte e w)) \<noteq> 0"
  by (auto simp: first_byte_def TriggerFirstByte_def)

lemma WriteHeader_simps [simp]:
  "iw_u (WriteHeader e c w) = iw_u w" "iw_parser (WriteHeader e c w) = iw_parser w" "iw_sent (WriteHeader e c w) = iw_sent w"
  "iw_firstByte (WriteHeader e c w)" "protocol_of (iw_g (WriteHeader e c w)) = protocol_of (iw_g w)"
  "g_TTFT (iw_g (WriteHeader e c w)) = g_TTFT (iw_g (first_byte e w))"
  by (simp_all add: WriteHeader_def Let_def)

lemma stream_headers_simps [simp]:
  "iw_u (stream_headers w) = iw_u w" "iw_parser (stream_headers w) = iw_parser w" "iw_sent (stream_headers w) = iw_sent w"
  "iw_firstByte (stream_headers w) = iw_firstByte w" "iw_g (stream_headers w) = iw_g w"
  by (simp_all add: stream_headers_def set_header_def)

text \<open>The writer as \<open>relay_frames\<close> uses it: the headers if they are due, then the frames.\<close>

definition send_frames :: "Decoders \<Rightarrow> (string \<Rightarrow> tokens) option \<Rightarrow> Read \<Rightarrow> bool \<Rightarrow> string \<Rightarrow> SSEInterceptWriter \<Rightarrow> SSEInterceptWriter \<times> string option" where
  "send_frames D te r headersSent rawFrames w = Write D te (rd_elapsed r) (rd_conn r) rawFrames
     (if headersSent then w else WriteHeader (rd_elapsed r) 200 (stream_headers w))"

lemma send_frames_spec:
  assumes "send_frames D te r hs raw w = (w', err)" and "rd_elapsed r \<noteq> 0" and "iw_firstByte w \<longrightarrow> g_TTFT (iw_g w) \<noteq> 0" and "hs \<longrightarrow> iw_firstByte w"
  shows "iw_parser w' = snd (Feed (dc_openai D) raw (iw_parser w))"
    and "iw_u w' = fold (event_usage D te (protocol_of (iw_g w))) (fst (Feed (dc_openai D) raw (iw_parser w))) (iw_u w)"
    and "iw_firstByte w'" and "g_TTFT (iw_g w') \<noteq> 0" and "protocol_of (iw_g w') = protocol_of (iw_g w)"
    and "err = map_option snd (rd_conn r)"
    and "iw_sent w' = iw_sent w @ (case rd_conn r of None \<Rightarrow> raw | Some (n, _) \<Rightarrow> take n raw)"
proof -
  define v where "v = (if hs then w else WriteHeader (rd_elapsed r) 200 (stream_headers w))"
  have wr: "Write D te (rd_elapsed r) (rd_conn r) raw v = (w', err)"
    using assms(1) by (simp add: send_frames_def v_def)
  note F = Write_fields[OF wr]
  have v: "iw_parser v = iw_parser w" "iw_u v = iw_u w" "iw_sent v = iw_sent w" "protocol_of (iw_g v) = protocol_of (iw_g w)" "iw_firstByte v"
    using assms(4) by (auto simp: v_def)
  have tt: "g_TTFT (iw_g v) \<noteq> 0"
    using assms(2-4) first_byte_TTFT[of "rd_elapsed r" "stream_headers w"] by (simp add: v_def)
  show "iw_parser w' = snd (Feed (dc_openai D) raw (iw_parser w))"
    "iw_u w' = fold (event_usage D te (protocol_of (iw_g w))) (fst (Feed (dc_openai D) raw (iw_parser w))) (iw_u w)"
    "iw_firstByte w'" "err = map_option snd (rd_conn r)"
    "iw_sent w' = iw_sent w @ (case rd_conn r of None \<Rightarrow> raw | Some (n, _) \<Rightarrow> take n raw)"
    using F v by simp_all
  have "first_byte (rd_elapsed r) v = v" using v(5) by (simp add: first_byte_def)
  then show "g_TTFT (iw_g w') \<noteq> 0" "protocol_of (iw_g w') = protocol_of (iw_g w)"
    using F(4) tt v(4) protocol_of_same[OF F(4)] by (simp_all add: same_request_def)
qed

lemma relay_frames_eq:
  "relay_frames D te r n s = (let raw = take n (os_pending s);
       (events, parser) = Feed (dc_openai D) raw (os_parser s);
       (g, err) = sniff D events (iw_g (os_writer s));
       w = (os_writer s)\<lparr>iw_g := g\<rparr>
     in case err of Some e \<Rightarrow> (s\<lparr>os_parser := parser, os_writer := w\<rparr>, Some (Failed (UpstreamEvent e)))
     | None \<Rightarrow> (case (if os_headersSent s then None else openAIJSONStreamError D raw) of
         Some e \<Rightarrow> (s\<lparr>os_parser := parser, os_writer := w\<rparr>, Some (Failed (JSONError e)))
       | None \<Rightarrow> (case send_frames D te r (os_headersSent s) raw w of (w', werr) \<Rightarrow>
           (case werr of Some e \<Rightarrow> (s\<lparr>os_parser := parser, os_writer := w', os_headersSent := True\<rparr>, Some (Failed (WriteErr e)))
            | None \<Rightarrow> (s\<lparr>os_parser := parser, os_writer := w', os_headersSent := True, os_pending := drop n (os_pending s)\<rparr>,
                if int (length (drop n (os_pending s))) > maxOpenAISSEFrameBytes then Some (Failed FrameTooLarge) else None)))))"
  by (cases s) (auto simp: relay_frames_def send_frames_def Let_def case_prod_beta split: option.split)

lemma relay_frames_inv:
  assumes base: "stream_base D te g u bytes s" and "n = completeSSEPrefixLen (os_pending s) 0" and "rd_elapsed r \<noteq> 0"
    and run: "relay_frames D te r n s = (s', res)"
  shows "sent_ok D bytes (os_writer s') \<and> (res = None \<longrightarrow> stream_inv D te g u bytes s') \<and> res \<noteq> Some Finished \<and> res \<noteq> Some Waiting"
proof -
  let ?raw = "take n (os_pending s)" and ?w = "os_writer s"
  obtain events parser where fd: "Feed (dc_openai D) ?raw (os_parser s) = (events, parser)" by fastforce
  obtain g' err where sn: "sniff D events (iw_g ?w) = (g', err)" by fastforce
  have req: "same_request (iw_g ?w) g'" and err: "(err = None) = list_all (\<lambda>ev. openAIStreamEventError D (ev_Data ev) = None) events"
    using sniff_spec[of D events "iw_g ?w"] sn by simp_all
  define w where "w = ?w\<lparr>iw_g := g'\<rparr>"
  note b = base[unfolded stream_base_def Let_def]
  have w: "iw_sent w = iw_sent ?w" "iw_parser w = os_parser s" "iw_firstByte w \<longrightarrow> g_TTFT (iw_g w) \<noteq> 0" "os_headersSent s \<longrightarrow> iw_firstByte w"
      "protocol_of (iw_g w) = protocol_of g" "iw_u w = usage_of_bytes D te g u (iw_sent w)"
    using b req protocol_of_same[OF req] by (simp_all add: w_def same_request_def)
  have sent: "sent_ok D bytes w"
    using b req by (auto simp: sent_ok_def w_def same_request_def)
  show ?thesis
  proof (cases "err = None \<and> (os_headersSent s \<or> openAIJSONStreamError D ?raw = None)")
    case False
    then show ?thesis using run fd sn sent by (auto simp: relay_frames_eq w_def Let_def split: option.splits if_splits)
  next
    case True
    obtain w' werr where sf: "send_frames D te r (os_headersSent s) ?raw w = (w', werr)" by fastforce
    note S = send_frames_spec[OF sf assms(3) w(3) w(4)]
    have ef: "error_free D (iw_sent ?w @ ?raw)"
      using b fd True err by (simp add: error_free_append)
    have pre: "prefix (iw_sent ?w @ take k (os_pending s)) bytes" for k using b by (metis append_assoc append_take_drop_id prefixI)
    have ok: "sent_ok D bytes w'"
      using S(4,7) w(1) ef error_free_take[OF ef] pre by (auto simp: sent_ok_def split: option.splits)
    have inv: "stream_inv D te g u bytes (s\<lparr>os_parser := parser, os_writer := w', os_headersSent := True, os_pending := drop n (os_pending s)\<rparr>)"
      if "werr = None" "int (length (drop n (os_pending s))) \<le> maxOpenAISSEFrameBytes"
    proof -
      have c: "rd_conn r = None" using that(1) S(6) by simp
      show ?thesis
        using S c b fd w ef that(2) complete_no_frame[of "os_pending s"] assms(2)
        by (simp add: stream_inv_def stream_base_def usage_of_bytes_def sse.step_append)
    qed
    show ?thesis
      using run fd sn True sf ok inv by (auto simp: relay_frames_eq w_def Let_def split: option.splits if_splits)
  qed
qed

lemma stream_step_inv:
  assumes inv: "stream_inv D te g u bytes s" and "rd_elapsed r \<noteq> 0" and run: "stream_step D te r s = (s', res)"
  shows "sent_ok D (bytes @ rd_bytes r) (os_writer s') \<and> (res \<in> {None, Some Finished} \<longrightarrow> stream_inv D te g u (bytes @ rd_bytes r) s') \<and> res \<noteq> Some Waiting"
    and "res = Some Finished \<Longrightarrow> TrimSpace (os_pending s') = [] \<or> GetTagValue (iw_g (os_writer s')) ''response_completed_sent'' = ''true''"
proof -
  let ?b = "bytes @ rd_bytes r"
  define t where "t = s\<lparr>os_pending := os_pending s @ rd_bytes r\<rparr>"
  define n where "n = completeSSEPrefixLen (os_pending t) (max 0 (int (length (os_pending s)) - 3))"
  have n: "n = completeSSEPrefixLen (os_pending t) 0"
    using inv resumed_search[of "os_pending s" "rd_bytes r"] by (simp add: n_def t_def stream_inv_def)
  have base: "stream_base D te g u ?b t"
    using inv by (simp add: stream_inv_def stream_base_def t_def)
  have sent: "sent_ok D ?b (os_writer t)"
    using stream_inv_sent_ok[OF inv] by (simp add: t_def)
  have step: "stream_step D te r s = (if n = 0 \<and> int (length (os_pending t)) > maxOpenAISSEFrameBytes then (t, Some (Failed FrameTooLarge))
      else case (if n > 0 then relay_frames D te r n t else (t, None)) of (s', Some res) \<Rightarrow> (s', Some res)
          | (s', None) \<Rightarrow> (s', map_option (\<lambda>err. at_read_error D r err s') (rd_err r)))"
    by (simp only: stream_step_def Let_def t_def[symmetric] n_def[symmetric])
  define m where "m = (if n > 0 then relay_frames D te r n t else (t, None))"
  have m: "sent_ok D ?b (os_writer (fst m)) \<and> (snd m = None \<longrightarrow> stream_inv D te g u ?b (fst m)) \<and> snd m \<noteq> Some Finished \<and> snd m \<noteq> Some Waiting"
    if "\<not> (n = 0 \<and> int (length (os_pending t)) > maxOpenAISSEFrameBytes)"
  proof (cases "n > 0")
    case True
    then show ?thesis using relay_frames_inv[OF base n assms(2)] by (cases m) (simp add: m_def)
  next
    case False
    then show ?thesis using that sent base complete_no_frame[of "os_pending t"] n by (simp add: m_def stream_inv_def)
  qed
  have aw: "at_read_error D r e x \<noteq> Waiting" for e x
    by (auto simp: at_read_error_def at_eof_def split: option.splits list.splits)
  show "sent_ok D ?b (os_writer s') \<and> (res \<in> {None, Some Finished} \<longrightarrow> stream_inv D te g u ?b s') \<and> res \<noteq> Some Waiting"
    using run step m sent aw by (auto simp: m_def[symmetric] split: if_splits option.splits prod.splits)
  have fin: "TrimSpace (os_pending x) = [] \<or> GetTagValue (iw_g (os_writer x)) ''response_completed_sent'' = ''true''"
    if "at_read_error D r e x = Finished" for e x
    using that by (auto simp: at_read_error_def at_eof_def split: if_splits option.splits list.splits)
  show "TrimSpace (os_pending s') = [] \<or> GetTagValue (iw_g (os_writer s')) ''response_completed_sent'' = ''true''" if "res = Some Finished"
    using run step m that fin by (auto simp: m_def[symmetric] split: if_splits option.splits prod.splits)
qed

lemma stream_loop_inv:
  assumes "stream_inv D te g u bytes s" and "\<forall>r\<in>set reads. rd_elapsed r \<noteq> 0" and "stream_loop D te reads s = (s', res)"
  shows "\<exists>k\<le>length reads. let all = bytes @ concat (map rd_bytes (take k reads)) in
       sent_ok D all (os_writer s') \<and> (res \<in> {Waiting, Finished} \<longrightarrow> stream_inv D te g u all s')
     \<and> (res = Waiting \<longrightarrow> k = length reads)
     \<and> (res = Finished \<longrightarrow> TrimSpace (os_pending s') = [] \<or> GetTagValue (iw_g (os_writer s')) ''response_completed_sent'' = ''true'')"
  using assms
proof (induction reads arbitrary: s bytes)
  case Nil
  then show ?case using stream_inv_sent_ok[of D te g u bytes s "[]"] by (auto simp: Let_def)
next
  case (Cons r rs)
  obtain s1 res1 where step: "stream_step D te r s = (s1, res1)" by fastforce
  note S = stream_step_inv[OF Cons.prems(1) _ step]
  have el: "rd_elapsed r \<noteq> 0" using Cons.prems(2) by simp
  show ?case
  proof (cases res1)
    case (Some x)
    then have "s' = s1" "res = x" using Cons.prems(3) step by auto
    then show ?thesis using S[OF el] Some by (intro exI[of _ 1]) (auto simp: Let_def)
  next
    case None
    then have "stream_inv D te g u (bytes @ rd_bytes r) s1" using S(1)[OF el] by simp
    from Cons.IH[OF this] obtain k where "k \<le> length rs" and
      "let all = (bytes @ rd_bytes r) @ concat (map rd_bytes (take k rs)) in
       sent_ok D all (os_writer s') \<and> (res \<in> {Waiting, Finished} \<longrightarrow> stream_inv D te g u all s')
     \<and> (res = Waiting \<longrightarrow> k = length rs)
     \<and> (res = Finished \<longrightarrow> TrimSpace (os_pending s') = [] \<or> GetTagValue (iw_g (os_writer s')) ''response_completed_sent'' = ''true'')"
      using Cons.prems(2,3) step None by auto
    then show ?thesis by (intro exI[of _ "Suc k"]) (auto simp: Let_def)
  qed
qed

subsection \<open>The verbatim relay forwards everything\<close>

lemma passthrough_loop_spec:
  assumes "passthrough_loop D te cause reads w = (w', res)" and "parser_ok (iw_parser w)" and "\<forall>r\<in>set reads. rd_conn r = None"
  shows "\<exists>k\<le>length reads. let bytes = concat (map rd_bytes (take k reads)) in
       iw_sent w' = iw_sent w @ bytes
     \<and> iw_u w' = fold (event_usage D (Some te) (protocol_of (iw_g w))) (fst (Feed (dc_openai D) bytes (iw_parser w))) (iw_u w)
     \<and> (res = Waiting \<longrightarrow> k = length reads)"
  using assms
proof (induction reads arbitrary: w)
  case Nil
  then show ?case by (simp add: Let_def sse.step_Nil)
next
  case (Cons r rs)
  define w1 where "w1 = (if rd_bytes r \<noteq> [] then fst (Write D (Some te) (rd_elapsed r) (rd_conn r) (rd_bytes r) w) else w)"
  have c: "rd_conn r = None" using Cons.prems(3) by simp
  obtain v where v: "Write D (Some te) (rd_elapsed r) None (rd_bytes r) w = (v, None)"
    using Write_fields(5)[of D "Some te" "rd_elapsed r" None "rd_bytes r" w] by (cases "Write D (Some te) (rd_elapsed r) None (rd_bytes r) w") simp
  have w1: "iw_sent w1 = iw_sent w @ rd_bytes r" "iw_parser w1 = snd (Feed (dc_openai D) (rd_bytes r) (iw_parser w))"
      "iw_u w1 = fold (event_usage D (Some te) (protocol_of (iw_g w))) (fst (Feed (dc_openai D) (rd_bytes r) (iw_parser w))) (iw_u w)"
      "protocol_of (iw_g w1) = protocol_of (iw_g w)"
    using Write_fields(1,2,6)[OF v] protocol_of_same[OF Write_fields(4)[OF v]] v c Cons.prems(2) by (simp_all add: w1_def sse.step_Nil)
  have run: "passthrough_loop D te cause (r # rs) w = (case rd_err r of None \<Rightarrow> passthrough_loop D te cause rs w1 | Some EOF \<Rightarrow> (w1, Finished)
      | Some err \<Rightarrow> (w1, Failed (ReadFailed (classifyStreamReadError (rd_clientGone r) cause err))))"
    using v c by (cases "rd_bytes r = []") (simp_all add: w1_def split: option.split read_err.split)
  have ok: "parser_ok (iw_parser w1)" using w1(2) Cons.prems(2) by (simp add: sse.step_ok)
  show ?case
  proof (cases "rd_err r")
    case None
    from Cons.IH[OF _ ok] obtain k where k: "k \<le> length rs" "let bytes = concat (map rd_bytes (take k rs)) in
       iw_sent w' = iw_sent w1 @ bytes
     \<and> iw_u w' = fold (event_usage D (Some te) (protocol_of (iw_g w1))) (fst (Feed (dc_openai D) bytes (iw_parser w1))) (iw_u w1)
     \<and> (res = Waiting \<longrightarrow> k = length rs)"
      using Cons.prems(1,3) run None by auto
    then show ?thesis using w1 Cons.prems(2) by (intro exI[of _ "Suc k"]) (auto simp: Let_def sse.step_append)
  next
    case (Some err)
    then have "w' = w1 \<and> res \<noteq> Waiting" using Cons.prems(1) run by (auto split: read_err.splits)
    then show ?thesis using w1 by (intro exI[of _ 1]) (simp add: Let_def)
  qed
qed

subsection \<open>Properties\<close>

text \<open>(C16) Whatever the upstream sends and however it is cut into reads, the bytes the client gets from an OpenAI stream are a part of the upstream's bytes from
  the start, and no event in them is an error event: an error is seen before the frame that holds it is forwarded. And as long as the time to
  the first byte is not set, which is what lets the retry loop try again, the client has been sent nothing.\<close>

theorem no_error_event_is_forwarded:
  assumes "\<forall>r\<in>set reads. rd_elapsed r \<noteq> 0" and "handleOpenAIStream D g u elapsed reads = (s, res)"
  shows "prefix (iw_sent (os_writer s)) (concat (map rd_bytes reads))
     \<and> (\<forall>ev\<in>set (fst (Feed (dc_openai D) (iw_sent (os_writer s)) NewSSEParser)). openAIStreamEventError D (ev_Data ev) = None)
     \<and> (g_TTFT (iw_g (os_writer s)) = 0 \<longrightarrow> iw_sent (os_writer s) = [])"
proof -
  obtain s0 where run: "stream_loop D (stream_extractor D g) reads (start_stream g u) = (s0, res)"
    using assms(2) by (auto simp: handleOpenAIStream_def split: prod.splits)
  obtain k where k: "sent_ok D (concat (map rd_bytes (take k reads))) (os_writer s0)"
    and inv: "res = Finished \<longrightarrow> stream_inv D (stream_extractor D g) g u (concat (map rd_bytes (take k reads))) s0"
    using stream_loop_inv[OF start_inv assms(1) run] by (auto simp: Let_def)
  have s: "iw_sent (os_writer s) = iw_sent (os_writer s0)" "s = s0 \<or> (res = Finished \<and> \<not> os_headersSent s0)"
    using assms(2) run by (auto simp: handleOpenAIStream_def split: if_splits)
  have "prefix (concat (map rd_bytes (take k reads))) (concat (map rd_bytes reads))"
    by (metis append_take_drop_id concat_append map_append prefixI)
  then show ?thesis
    using k s inv by (auto simp: sent_ok_def error_free_def list_all_iff stream_inv_def stream_base_def Let_def intro: prefix_order.trans)
qed

text \<open>An OpenAI stream that ended well was forwarded whole: all that was read up to its end was sent, but for white space after the last frame (or
  what followed the event that completed the response, when the client hung up after it). The usage recorded for settlement is the one of
  the events in the bytes sent, wherever the reads cut them.\<close>

theorem finished_stream_was_forwarded:
  assumes "\<forall>r\<in>set reads. rd_elapsed r \<noteq> 0" and "handleOpenAIStream D g u elapsed reads = (s, Finished)"
  shows "(\<exists>k rest. concat (map rd_bytes (take k reads)) = iw_sent (os_writer s) @ rest
       \<and> (TrimSpace rest = [] \<or> GetTagValue (iw_g (os_writer s)) ''response_completed_sent'' = ''true''))
     \<and> iw_u (os_writer s) = usage_of_bytes D (stream_extractor D g) g u (iw_sent (os_writer s))"
proof -
  obtain s0 where run: "stream_loop D (stream_extractor D g) reads (start_stream g u) = (s0, Finished)"
    using assms(2) by (auto simp: handleOpenAIStream_def split: prod.splits)
  obtain k where "stream_inv D (stream_extractor D g) g u (concat (map rd_bytes (take k reads))) s0"
    and "TrimSpace (os_pending s0) = [] \<or> GetTagValue (iw_g (os_writer s0)) ''response_completed_sent'' = ''true''"
    using stream_loop_inv[OF start_inv assms(1) run] by (auto simp: Let_def)
  moreover have "iw_sent (os_writer s) = iw_sent (os_writer s0)" "iw_u (os_writer s) = iw_u (os_writer s0)"
      "g_Tags (iw_g (os_writer s)) = g_Tags (iw_g (os_writer s0))"
    using assms(2) run by (auto simp: handleOpenAIStream_def WriteHeader_def first_byte_def TriggerFirstByte_def Let_def)
  ultimately show ?thesis
    by (intro conjI exI[of _ k] exI[of _ "os_pending s0"]) (simp_all add: stream_inv_def stream_base_def Let_def GetTagValue_def)
qed

text \<open>While the relay waits for the upstream it holds back less than a frame, of at most a mebibyte; everything else that was read has been sent.\<close>

theorem waiting_stream_holds_no_frame:
  assumes "\<forall>r\<in>set reads. rd_elapsed r \<noteq> 0" and "handleOpenAIStream D g u elapsed reads = (s, Waiting)"
  shows "iw_sent (os_writer s) @ os_pending s = concat (map rd_bytes reads) \<and> no_frame (os_pending s) \<and> int (length (os_pending s)) \<le> maxOpenAISSEFrameBytes"
proof -
  have run: "stream_loop D (stream_extractor D g) reads (start_stream g u) = (s, Waiting)"
    using assms(2) by (auto simp: handleOpenAIStream_def split: prod.splits)
  then show ?thesis
    using stream_loop_inv[OF start_inv assms(1) run] by (auto simp: Let_def stream_inv_def stream_base_def)
qed

text \<open>The verbatim relay sends all it has read, and records the usage of the events in it, wherever the reads cut them.\<close>

theorem passthrough_forwards_all:
  assumes "\<forall>r\<in>set reads. rd_conn r = None" and "PassthroughStream D te cause g u reads = (w, res)"
  shows "\<exists>k\<le>length reads. iw_sent w = concat (map rd_bytes (take k reads)) \<and> iw_u w = usage_of_bytes D (Some te) g u (iw_sent w)
     \<and> (res = Waiting \<longrightarrow> k = length reads)"
  using passthrough_loop_spec[OF assms(2)[unfolded PassthroughStream_def] _ assms(1)]
  by (auto simp: Let_def set_header_def NewSSEInterceptWriter_def usage_of_bytes_def stream_headers_def)

subsection \<open>Witnesses\<close>

text \<open>Decoders that know one error event and one usage event.\<close>

definition demo_error :: string where "demo_error = ''{\"error\":1}''"
definition demo_usage_data :: string where "demo_usage_data = ''{usage}''"

definition demo_decoders :: Decoders where
  "demo_decoders = \<lparr>dc_openai = (\<lambda>s. if s = demo_usage_data then Some (Some \<lparr>ou_PromptTokens = 7, ou_CompletionTokens = 3, ou_PromptTokensDetails = Some 2\<rparr>) else None),
     dc_anthropic = (\<lambda>_. None), dc_responses = (\<lambda>_. None), dc_gemini = (\<lambda>_. None), dc_delta_text = (\<lambda>_. None),
     dc_gemini_texts = (\<lambda>_. None), dc_choices = (\<lambda>_. None), dc_type = (\<lambda>_. None), dc_resp = (\<lambda>_. None),
     dc_error = (\<lambda>s. if s = demo_error then Some (Some \<lparr>ec_Message = ''boom'', ec_Type = '''', ec_Cause = ''''\<rparr>) else None),
     dc_cause = (\<lambda>_. None), dc_plain = (\<lambda>_. None)\<rparr>"

definition demo_read :: "string \<Rightarrow> read_err option \<Rightarrow> Read" where
  "demo_read b e = \<lparr>rd_bytes = b, rd_err = e, rd_conn = None, rd_clientGone = False, rd_elapsed = 5\<rparr>"

definition demo_stream :: "Read list \<Rightarrow> OpenAIStream \<times> stream_result" where
  "demo_stream = handleOpenAIStream demo_decoders zero_context zero_usage 5"

definition demo_error_reads :: "Read list" where
  "demo_error_reads = [demo_read (''data: hi'' @ [LF]) None, demo_read ([LF] @ ''data: '' @ demo_error) None, demo_read [LF, LF] None]"

theorem no_error_event_is_forwarded_witness:
  "snd (demo_stream demo_error_reads) = Failed (UpstreamEvent ''upstream stream returned error event: boom'')
   \<and> iw_sent (os_writer (fst (demo_stream demo_error_reads))) = ''data: hi'' @ [LF, LF]
   \<and> error_free demo_decoders (iw_sent (os_writer (fst (demo_stream demo_error_reads))))"
proof -
  have "snd (demo_stream demo_error_reads) = Failed (UpstreamEvent ''upstream stream returned error event: boom'')"
    by code_simp
  moreover have "iw_sent (os_writer (fst (demo_stream demo_error_reads))) = ''data: hi'' @ [LF, LF]"
    by code_simp
  moreover have "\<forall>r\<in>set demo_error_reads. rd_elapsed r \<noteq> 0" by (simp add: demo_error_reads_def demo_read_def)
  ultimately show ?thesis
    using no_error_event_is_forwarded[of demo_error_reads demo_decoders zero_context zero_usage 5 "fst (demo_stream demo_error_reads)"]
    unfolding demo_stream_def error_free_def list_all_iff by (metis prod.collapse)
qed

definition demo_good_reads :: "Read list" where
  "demo_good_reads = [demo_read (''data: '' @ demo_usage_data @ [CR, LF, CR]) None, demo_read [LF, CR, LF] (Some EOF)]"

theorem finished_stream_was_forwarded_witness:
  "snd (demo_stream demo_good_reads) = Finished
   \<and> u_InputTokens (iw_u (os_writer (fst (demo_stream demo_good_reads)))) = 7
   \<and> iw_u (os_writer (fst (demo_stream demo_good_reads)))
     = usage_of_bytes demo_decoders None zero_context zero_usage (iw_sent (os_writer (fst (demo_stream demo_good_reads))))"
proof -
  have "snd (demo_stream demo_good_reads) = Finished" by code_simp
  moreover have "u_InputTokens (iw_u (os_writer (fst (demo_stream demo_good_reads)))) = 7" by code_simp
  moreover have "stream_extractor demo_decoders zero_context = None"
    by (simp add: stream_extractor_def zero_context_def RequestTypeResponses_def RequestTypeChatCompletion_def)
  moreover have "\<forall>r\<in>set demo_good_reads. rd_elapsed r \<noteq> 0" by (simp add: demo_good_reads_def demo_read_def)
  ultimately show ?thesis
    using finished_stream_was_forwarded[of demo_good_reads demo_decoders zero_context zero_usage 5 "fst (demo_stream demo_good_reads)"]
    unfolding demo_stream_def by (metis prod.collapse)
qed

theorem waiting_stream_holds_no_frame_witness:
  "snd (demo_stream [demo_read (''data: a'' @ [LF, LF] @ ''data:'') None]) = Waiting
   \<and> os_pending (fst (demo_stream [demo_read (''data: a'' @ [LF, LF] @ ''data:'') None])) = ''data:''
   \<and> no_frame (os_pending (fst (demo_stream [demo_read (''data: a'' @ [LF, LF] @ ''data:'') None])))"
proof -
  let ?rs = "[demo_read (''data: a'' @ [LF, LF] @ ''data:'') None]"
  have "snd (demo_stream ?rs) = Waiting" by code_simp
  moreover have "os_pending (fst (demo_stream ?rs)) = ''data:''" by code_simp
  moreover have "\<forall>r\<in>set ?rs. rd_elapsed r \<noteq> 0" by (simp add: demo_read_def)
  ultimately show ?thesis
    using waiting_stream_holds_no_frame[of ?rs demo_decoders zero_context zero_usage 5 "fst (demo_stream ?rs)"]
    unfolding demo_stream_def by (metis prod.collapse)
qed

end
