(* ===== verification/Messages_Relay.thy ===== *)
theory Messages_Relay
  imports Stream_Roundtrip Sse_Stream "HOL-Library.Countable"
begin

text \<open>
  A Messages request served by an OpenAI upstream: \<open>handleMessagesStream\<close> of \<open>pkg/llm/providers/openai_messages.go\<close>. It composes the parser of
  \<open>Sse_Parser\<close>, the translator of \<open>Chat_Messages_Stream\<close> and the framing of the events sent. Decoding the chunks of the upstream and
  encoding the events for the client (\<open>encoding/json\<close>) are arguments. The client's connection takes a number of bytes before it fails,
  or takes all.

  The theorem follows a stream from the bytes the upstream sends to the bytes the client gets: read by the same parser, they are
  a well-formed Messages stream that carries what the upstream's chunks carried, and depends on the upstream's bytes only.
\<close>

subsection \<open>The handler\<close>

text \<open>Decoding the usage and the chunk of an event's data, and encoding an event.\<close>

record ChatCodec =
  cc_usage :: "string \<Rightarrow> (int \<times> int \<times> int option) option"
  cc_chunk :: "string \<Rightarrow> ChatChunk option"
  cc_encode :: "json \<Rightarrow> string"
  cc_openai :: "string \<Rightarrow> OpenAIUsage option option"

definition frame_of :: "ChatCodec \<Rightarrow> string \<Rightarrow> chat_frame" where
  "frame_of K data = (if data = ''[DONE]'' then ChatDone else ChatFrame (chatStreamUsage (cc_usage K data)) (cc_chunk K data))"

definition event_frame :: "ChatCodec \<Rightarrow> SSEEvent \<Rightarrow> chat_frame" where
  "event_frame K ev = frame_of K (if ev_Done ev then ''[DONE]'' else ev_Data ev)"

record MessagesRelay =
  mr_g :: GatewayContext
  mr_u :: Usage
  mr_stream :: ChatToMessagesStream
  mr_parser :: SSEParser
  mr_firstRead :: bool
  mr_headers :: "(string \<times> string) list"
  mr_status :: int
  mr_sent :: string

datatype relay_result = RelayOk | RelayErr string | RelayReadErr read_err | RelayWaiting

text \<open>A write to a connection that takes \<open>n\<close> bytes in all before it fails.\<close>

definition client_write :: "(nat \<times> string) option \<Rightarrow> string \<Rightarrow> string \<Rightarrow> string \<times> string option" where
  "client_write conn p sent = (case conn of None \<Rightarrow> (sent @ p, None)
     | Some (n, e) \<Rightarrow> if length sent + length p \<le> n then (sent @ p, None) else (sent @ take (n - length sent) p, Some e))"

fun writeEvents :: "ChatCodec \<Rightarrow> (nat \<times> string) option \<Rightarrow> MessagesStreamEvent list \<Rightarrow> MessagesRelay \<Rightarrow> MessagesRelay \<times> string option" where
  "writeEvents K conn [] m = (m, None)"
| "writeEvents K conn (e # es) m = (case client_write conn (writeSSEEvent (me_Event e) (cc_encode K (me_Data e))) (mr_sent m) of
       (sent, Some err) \<Rightarrow> (m\<lparr>mr_sent := sent\<rparr>, Some err)
     | (sent, None) \<Rightarrow> writeEvents K conn es (m\<lparr>mr_sent := sent,
         mr_u := (mr_u m)\<lparr>u_TransmittedChars := u_TransmittedChars (mr_u m) + int (me_TransmittedChars e)\<rparr>\<rparr>))"

definition tokens_of :: "Usage \<Rightarrow> TokenUsage" where
  "tokens_of u = \<lparr>tu_InputTokens = u_InputTokens u, tu_OutputTokens = u_OutputTokens u, tu_CachedTokens = u_CachedTokens u,
     tu_CacheCreationTokens = u_CacheCreationTokens u\<rparr>"

definition meta_usage :: "StreamChunkMeta \<Rightarrow> Usage \<Rightarrow> Usage" where
  "meta_usage meta u = (let u1 = (if sm_InputTokens meta > 0 then u\<lparr>u_InputTokens := sm_InputTokens meta\<rparr> else u)
     in if sm_OutputTokens meta > 0 then u1\<lparr>u_OutputTokens := sm_OutputTokens meta\<rparr> else u1)"

fun relay_events :: "ChatCodec \<Rightarrow> (nat \<times> string) option \<Rightarrow> SSEEvent list \<Rightarrow> MessagesRelay \<Rightarrow> MessagesRelay \<times> string option" where
  "relay_events K conn [] m = (m, None)"
| "relay_events K conn (ev # evs) m = (let ((events, meta), stream) = FeedJSON (event_frame K ev) (mr_stream m);
       (m1, err) = writeEvents K conn events (m\<lparr>mr_stream := stream, mr_u := meta_usage meta (mr_u m)\<rparr>)
     in case err of Some e \<Rightarrow> (m1, Some e) | None \<Rightarrow> relay_events K conn evs m1)"

definition html_body :: "string \<Rightarrow> bool" where
  "html_body bytes = (let t = TrimSpace bytes in prefix ''<!DOCTYPE'' t \<or> prefix ''<html'' t \<or> prefix ''<HTML'' t)"

fun relay_loop :: "ChatCodec \<Rightarrow> (nat \<times> string) option \<Rightarrow> Read list \<Rightarrow> MessagesRelay \<Rightarrow> MessagesRelay \<times> relay_result" where
  "relay_loop K conn [] m = (m, RelayWaiting)"
| "relay_loop K conn (r # rs) m = (if rd_bytes r \<noteq> [] \<and> mr_firstRead m \<and> html_body (rd_bytes r)
     then (m\<lparr>mr_firstRead := False\<rparr>, RelayErr ''upstream returned HTML error response instead of SSE stream'')
     else case (if rd_bytes r = [] then (m, None)
                else let (evs, parser) = Feed (cc_openai K) (rd_bytes r) (mr_parser m)
                  in relay_events K conn evs (m\<lparr>mr_firstRead := False, mr_g := TriggerFirstByte (rd_elapsed r) (mr_g m), mr_parser := parser\<rparr>)) of
         (m1, Some e) \<Rightarrow> (m1, RelayErr e)
       | (m1, None) \<Rightarrow> (case rd_err r of None \<Rightarrow> relay_loop K conn rs m1
           | Some EOF \<Rightarrow> (m1, RelayOk)
           | Some err \<Rightarrow> (m1, RelayReadErr err)))"

definition setStreamDiagTag :: "string \<Rightarrow> string \<Rightarrow> GatewayContext \<Rightarrow> GatewayContext" where
  "setStreamDiagTag key value g = (if value = '''' then g else tag key value g)"

text \<open>The diagnostic tags; \<open>show\<close> prints a number.\<close>

definition completed_tags :: "(int \<Rightarrow> string) \<Rightarrow> StreamChunkMeta \<Rightarrow> Usage \<Rightarrow> GatewayContext \<Rightarrow> GatewayContext" where
  "completed_tags show' meta u g = fold (\<lambda>(k, v). setStreamDiagTag k v)
     [(''upstream_finish_reason'', sm_FinishReason meta), (''anthropic_stop_reason'', sm_StopReason meta),
      (''stream_saw_done'', if sm_SawDone meta then ''true'' else ''false''), (''transmitted_chars'', show' (u_TransmittedChars u)),
      (''text_chars'', show' (int (sm_TextChars meta))), (''thinking_chars'', show' (int (sm_ThinkingChars meta)))]
     (tag ''message_stop_sent'' ''true'' g)"

text \<open>The end of the body.\<close>

definition relay_finish :: "(int \<Rightarrow> string) \<Rightarrow> ChatCodec \<Rightarrow> (nat \<times> string) option \<Rightarrow> MessagesRelay \<Rightarrow> MessagesRelay \<times> relay_result" where
  "relay_finish show' K conn m = (let ((events, meta), stream) = Finish (tokens_of (mr_u m)) (mr_stream m);
       (m1, err) = writeEvents K conn events (m\<lparr>mr_stream := stream\<rparr>)
     in if sm_ErrorMessage meta \<noteq> '''' then (m1, RelayErr (sm_ErrorMessage meta))
        else case err of Some e \<Rightarrow> (m1, RelayErr e)
        | None \<Rightarrow> (if sm_Completed meta then m1\<lparr>mr_g := completed_tags show' meta (mr_u m1) (mr_g m1)\<rparr> else m1, RelayOk))"

text \<open>The version header of the request is repeated in the answer.\<close>

definition version_header :: "GatewayContext \<Rightarrow> (string \<times> string) list" where
  "version_header g = (case g_Request g of None \<Rightarrow> [] | Some r \<Rightarrow>
     let ver = header_get r ''anthropic-version'' in if ver \<noteq> '''' then [(''anthropic-version'', ver)] else [])"

definition relay_start :: "GatewayContext \<Rightarrow> Usage \<Rightarrow> MessagesRelay" where
  "relay_start g u = \<lparr>mr_g = g, mr_u = u,
     mr_stream = NewChatToMessagesStream (if g_OriginalModel g = '''' then g_Model g else g_OriginalModel g) (tokens_of u),
     mr_parser = NewSSEParser, mr_firstRead = True,
     mr_headers = [(''Content-Type'', ''text/event-stream''), (''Cache-Control'', ''no-cache''), (''Connection'', ''keep-alive''),
       (''X-Accel-Buffering'', ''no'')] @ version_header g, mr_status = 200, mr_sent = []\<rparr>"

text \<open>An answer that is not OK: \<open>err_text\<close> is the text with the status and the body.\<close>

definition relay_bad_status :: "ChatCodec \<Rightarrow> (nat \<times> string) option \<Rightarrow> GatewayContext \<Rightarrow> Usage \<Rightarrow> int \<Rightarrow> string \<Rightarrow> string \<Rightarrow> MessagesRelay \<times> relay_result" where
  "relay_bad_status K conn g u status body err_text = (let m = relay_start (g\<lparr>g_UpstreamBody := body\<rparr>) u;
       p = cc_encode K (JObj [(''type'', JStr ''error''), (''error'', JObj [(''type'', JStr ''api_error''),
             (''message'', JStr (''Upstream API returned status '' @ err_text))])])
     in (m\<lparr>mr_headers := (''Content-Type'', ''application/json; charset=utf-8'') # version_header g, mr_status := status,
           mr_sent := fst (client_write conn p [])\<rparr>, RelayErr (''upstream returned status '' @ err_text)))"

text \<open>The bytes up to the end of the body.\<close>

fun read_all :: "Read list \<Rightarrow> string" where
  "read_all [] = []"
| "read_all (r # rs) = rd_bytes r @ (if rd_err r = None then read_all rs else [])"

definition handleMessagesStream :: "(int \<Rightarrow> string) \<Rightarrow> ChatCodec \<Rightarrow> (nat \<times> string) option \<Rightarrow> GatewayContext \<Rightarrow> Usage \<Rightarrow> int \<Rightarrow> Read list \<Rightarrow>
    MessagesRelay \<times> relay_result" where
  "handleMessagesStream show' K conn g u status reads = (if status \<noteq> 200
     then let body = read_all reads in relay_bad_status K conn g u status body (show' status @ '': '' @ body)
     else case relay_loop K conn reads (relay_start g u) of
         (m, RelayOk) \<Rightarrow> relay_finish show' K conn m
       | (m, res) \<Rightarrow> (m, res))"

subsection \<open>What goes over the wire\<close>

definition on_wire :: "ChatCodec \<Rightarrow> MessagesStreamEvent list \<Rightarrow> string" where
  "on_wire K es = concat (map (\<lambda>e. writeSSEEvent (me_Event e) (cc_encode K (me_Data e))) es)"

lemma on_wire_simps [simp]: "on_wire K [] = []" "on_wire K (es @ fs) = on_wire K es @ on_wire K fs"
  by (simp_all add: on_wire_def)

lemma writeEvents_spec:
  "writeEvents K conn es m = (m', None) \<Longrightarrow> mr_sent m' = mr_sent m @ on_wire K es \<and> mr_stream m' = mr_stream m \<and> mr_parser m' = mr_parser m"
proof (induction es arbitrary: m)
  case (Cons e es)
  have "client_write conn (writeSSEEvent (me_Event e) (cc_encode K (me_Data e))) (mr_sent m)
      = (mr_sent m @ writeSSEEvent (me_Event e) (cc_encode K (me_Data e)), None)"
    using Cons.prems by (auto simp: client_write_def split: option.splits if_splits)
  then show ?case using Cons by (fastforce simp: on_wire_def)
qed simp

lemma feed_all_append:
  "feed_all (fs @ gs) s = (fst (feed_all fs s) @ fst (feed_all gs (snd (feed_all fs s))), snd (feed_all gs (snd (feed_all fs s))))"
  by (induction fs arbitrary: s) (simp_all add: Let_def case_prod_beta)

lemma relay_events_spec:
  assumes "relay_events K conn evs m = (m', None)"
  shows "mr_sent m' = mr_sent m @ on_wire K (fst (feed_all (map (event_frame K) evs) (mr_stream m)))
     \<and> mr_stream m' = snd (feed_all (map (event_frame K) evs) (mr_stream m)) \<and> mr_parser m' = mr_parser m"
  using assms
proof (induction evs arbitrary: m)
  case (Cons ev evs)
  obtain events meta stream where f: "FeedJSON (event_frame K ev) (mr_stream m) = ((events, meta), stream)" by (metis surj_pair)
  obtain m1 where w: "writeEvents K conn events (m\<lparr>mr_stream := stream, mr_u := meta_usage meta (mr_u m)\<rparr>) = (m1, None)"
    and r: "relay_events K conn evs m1 = (m', None)"
    using Cons.prems f by (auto simp: Let_def split: prod.splits option.splits)
  show ?case using writeEvents_spec[OF w] Cons.IH[OF r] f by (simp add: Let_def case_prod_beta)
qed simp

lemma relay_loop_spec:
  assumes "relay_loop K conn reads m = (m', RelayOk)" and "parser_ok (mr_parser m)"
  shows "mr_sent m' = mr_sent m @ on_wire K (fst (feed_all (map (event_frame K) (fst (Feed (cc_openai K) (read_all reads) (mr_parser m)))) (mr_stream m)))
     \<and> mr_stream m' = snd (feed_all (map (event_frame K) (fst (Feed (cc_openai K) (read_all reads) (mr_parser m)))) (mr_stream m))"
  using assms
proof (induction reads arbitrary: m)
  case (Cons r rs)
  obtain evs parser where f: "Feed (cc_openai K) (rd_bytes r) (mr_parser m) = (evs, parser)" by fastforce
  have ok: "parser_ok parser" using sse.step_ok[OF Cons.prems(2), of "cc_openai K" "rd_bytes r"] f by simp
  obtain m1 where m1: "mr_sent m1 = mr_sent m @ on_wire K (fst (feed_all (map (event_frame K) evs) (mr_stream m)))"
      "mr_stream m1 = snd (feed_all (map (event_frame K) evs) (mr_stream m))" "mr_parser m1 = parser"
    and run: "(case rd_err r of None \<Rightarrow> relay_loop K conn rs m1 | Some EOF \<Rightarrow> (m1, RelayOk) | Some err \<Rightarrow> (m1, RelayReadErr err)) = (m', RelayOk)"
  proof (cases "rd_bytes r = []")
    case True
    then have "evs = [] \<and> parser = mr_parser m" using f sse.step_Nil[OF Cons.prems(2)] by simp
    then show thesis using that[of m] Cons.prems(1) True by simp
  next
    case False
    obtain n err where n: "relay_events K conn evs (m\<lparr>mr_firstRead := False, mr_g := TriggerFirstByte (rd_elapsed r) (mr_g m), mr_parser := parser\<rparr>) = (n, err)"
      by fastforce
    have "err = None" using Cons.prems(1) False f n by (auto split: if_splits option.splits)
    then show thesis
      using that[of n] relay_events_spec[OF n[unfolded \<open>err = None\<close>]] Cons.prems(1) False f n by (auto split: if_splits)
  qed
  show ?case
  proof (cases "rd_err r")
    case None
    then show ?thesis
      using Cons.IH[of m1] run m1 ok f sse.step_append[OF Cons.prems(2), of "cc_openai K" "rd_bytes r" "read_all rs"] by (simp add: feed_all_append)
  next
    case (Some e)
    then show ?thesis using run m1 f by (cases e) simp_all
  qed
qed simp

lemma relayed_wire:
  assumes "handleMessagesStream show' K conn g u 200 reads = (m, RelayOk)"
  defines "fs \<equiv> map (event_frame K) (fst (Feed (cc_openai K) (read_all reads) NewSSEParser))"
  shows "\<exists>model latest es meta. translate_stream model (tokens_of u) fs latest = (es, meta) \<and> mr_sent m = on_wire K es \<and> sm_ErrorMessage meta = ''''"
proof -
  obtain m0 where loop: "relay_loop K conn reads (relay_start g u) = (m0, RelayOk)" and fin: "relay_finish show' K conn m0 = (m, RelayOk)"
    using assms(1) by (auto simp: handleMessagesStream_def split: prod.splits relay_result.splits)
  obtain events meta stream where f: "Finish (tokens_of (mr_u m0)) (mr_stream m0) = ((events, meta), stream)" by (metis surj_pair)
  obtain m1 where w: "writeEvents K conn events (m0\<lparr>mr_stream := stream\<rparr>) = (m1, None)" and e: "sm_ErrorMessage meta = ''''"
      and m: "mr_sent m = mr_sent m1"
    using fin f by (auto simp: relay_finish_def Let_def split: prod.splits option.splits if_splits)
  have "mr_parser (relay_start g u) = NewSSEParser" "mr_sent (relay_start g u) = []" by (simp_all add: relay_start_def)
  then show ?thesis
    using relay_loop_spec[OF loop] writeEvents_spec[OF w] f e m
    by (intro exI[of _ "if g_OriginalModel g = '''' then g_Model g else g_OriginalModel g"] exI[of _ "tokens_of (mr_u m0)"])
      (simp add: translate_stream_def fs_def relay_start_def case_prod_beta Let_def)
qed

subsection \<open>What the client reads\<close>

text \<open>A client that parses the bytes, decodes the data of each event and takes its type for the event's name.\<close>

definition client_event :: "json \<Rightarrow> MessagesStreamEvent" where
  "client_event j = \<lparr>me_Event = jstr (jget ''type'' j), me_Data = j, me_TransmittedChars = 0, me_Flush = False\<rparr>"

definition client_reads :: "(string \<Rightarrow> json option) \<Rightarrow> string list \<Rightarrow> MessagesStreamEvent list" where
  "client_reads decode cuts = map client_event (List.map_filter (\<lambda>ev. decode (ev_Data ev)) (fst (run_chunks (Feed (\<lambda>_. None)) cuts NewSSEParser)))"

lemma hear_client: "list_all named es \<Longrightarrow> hear (map (\<lambda>e. client_event (me_Data e)) es) c = hear es c"
  by (induction es arbitrary: c) (auto simp: named_def client_event_def event_index_def split: option.split)

lemma shown_client:
  assumes "list_all named es"
  shows "shown_text (map (\<lambda>e. client_event (me_Data e)) es) = shown_text es" "shown_thinking (map (\<lambda>e. client_event (me_Data e)) es) = shown_thinking es"
  using assms by (induction es) (auto simp: named_def shown_text_def shown_thinking_def delta_part_def client_event_def)

lemma heard_names:
  assumes "hear es c = Some c'" and "e \<in> set es"
  shows "me_Event e \<in> {''message_start'', ''content_block_start'', ''content_block_delta'', ''content_block_stop'', ''message_delta'', ''message_stop'', ''ping''}"
  using assms
proof (induction es arbitrary: c)
  case (Cons x xs)
  obtain d where d: "hear_event (me_Event x) (event_index x) c = Some d" and rest: "hear xs d = Some c'"
    using Cons.prems(1) by (auto split: option.splits)
  show ?case
  proof (cases "e = x")
    case True
    then show ?thesis using d by (cases c) (auto split: if_splits option.splits)
  next
    case False
    then show ?thesis using Cons.IH[OF rest] Cons.prems(2) by simp
  qed
qed simp

lemma client_reads_wire:
  assumes "hear es Fresh = Some c" and "\<forall>j. decode (cc_encode K j) = Some j \<and> one_line (cc_encode K j)" and "concat cuts = on_wire K es"
  shows "client_reads decode cuts = map (\<lambda>e. client_event (me_Data e)) es"
proof -
  let ?evs = "map (\<lambda>e. (me_Event e, cc_encode K (me_Data e))) es"
  have "one_line (me_Event e)" if "e \<in> set es" for e
    using heard_names[OF assms(1) that] by (auto simp: one_line_def)
  then have "\<forall>(n, d)\<in>set ?evs. one_line n \<and> one_line d" using assms(2) by auto
  from write_all_read[OF this, of "\<lambda>_. None"] have "map ev_Data (fst (run_chunks (Feed (\<lambda>_. None)) cuts NewSSEParser)) = map (\<lambda>e. cc_encode K (me_Data e)) es"
    using assms(3) by (simp add: sse.run_concat on_wire_def comp_def)
  moreover have "List.map_filter (\<lambda>ev. decode (ev_Data ev)) evs = List.map_filter decode (map ev_Data evs)" for evs :: "SSEEvent list"
    by (simp add: List.map_filter_def filter_map comp_def)
  moreover have "List.map_filter decode (map (\<lambda>e. cc_encode K (me_Data e)) es) = map me_Data es"
    using assms(2) by (simp add: List.map_filter_def comp_def)
  ultimately show ?thesis
    by (simp add: client_reads_def comp_def)
qed

subsection \<open>When a stream ends well\<close>

fun read_end :: "Read list \<Rightarrow> read_err option" where
  "read_end [] = None"
| "read_end (r # rs) = (case rd_err r of None \<Rightarrow> read_end rs | Some e \<Rightarrow> Some e)"

lemma writeEvents_open: "snd (writeEvents K None es m) = None"
  by (induction es arbitrary: m) (simp_all add: client_write_def)

lemma relay_events_open: "snd (relay_events K None evs m) = None"
  by (induction evs arbitrary: m) (simp_all add: Let_def case_prod_beta writeEvents_open)

lemma relay_loop_open:
  assumes "\<forall>r\<in>set reads. \<not> html_body (rd_bytes r)"
  shows "snd (relay_loop K None reads m) = (case read_end reads of None \<Rightarrow> RelayWaiting | Some EOF \<Rightarrow> RelayOk | Some e \<Rightarrow> RelayReadErr e)"
  using assms
proof (induction reads arbitrary: m)
  case (Cons r rs)
  define x where "x = (if rd_bytes r = [] then (m, None) else let (evs, parser) = Feed (cc_openai K) (rd_bytes r) (mr_parser m)
      in relay_events K None evs (m\<lparr>mr_firstRead := False, mr_g := TriggerFirstByte (rd_elapsed r) (mr_g m), mr_parser := parser\<rparr>))"
  have "snd x = None" by (simp add: x_def case_prod_beta relay_events_open)
  then obtain m1 where x: "x = (m1, None)" by (cases x) simp
  have "relay_loop K None (r # rs) m = (case rd_err r of None \<Rightarrow> relay_loop K None rs m1 | Some EOF \<Rightarrow> (m1, RelayOk) | Some err \<Rightarrow> (m1, RelayReadErr err))"
    using Cons.prems x by (simp add: x_def)
  then show ?case using Cons by (simp split: option.split read_err.split)
qed simp

lemma relay_ok_iff:
  assumes "\<forall>r\<in>set reads. \<not> html_body (rd_bytes r)" and "read_end reads = Some EOF"
  shows "snd (handleMessagesStream show' K None g u 200 reads) = RelayOk
     \<longleftrightarrow> list_ex completes (map (event_frame K) (fst (Feed (cc_openai K) (read_all reads) NewSSEParser)))"
proof -
  let ?fs = "map (event_frame K) (fst (Feed (cc_openai K) (read_all reads) NewSSEParser))"
  let ?model = "if g_OriginalModel g = '''' then g_Model g else g_OriginalModel g"
  obtain m0 where loop: "relay_loop K None reads (relay_start g u) = (m0, RelayOk)"
    using relay_loop_open[OF assms(1), of K "relay_start g u"] assms(2) by (cases "relay_loop K None reads (relay_start g u)") simp
  obtain events meta stream where f: "Finish (tokens_of (mr_u m0)) (mr_stream m0) = ((events, meta), stream)" by (metis surj_pair)
  have st: "mr_stream m0 = snd (feed_all ?fs (NewChatToMessagesStream ?model (tokens_of u)))"
    using relay_loop_spec[OF loop] by (simp add: relay_start_def)
  have "snd (translate_stream ?model (tokens_of u) ?fs (tokens_of (mr_u m0))) = meta"
    using f st by (simp add: translate_stream_def case_prod_beta Let_def)
  then have "sm_ErrorMessage meta = '''' \<longleftrightarrow> list_ex completes ?fs"
    using stream_outcome[where model = ?model and ?u0.0 = "tokens_of u" and fs = ?fs and latest = "tokens_of (mr_u m0)"]
    by (auto split: prod.splits if_splits)
  moreover have "snd (handleMessagesStream show' K None g u 200 reads) = RelayOk \<longleftrightarrow> sm_ErrorMessage meta = ''''"
    using f writeEvents_open[of K events "m0\<lparr>mr_stream := stream\<rparr>"]
    by (simp add: handleMessagesStream_def loop relay_finish_def Let_def case_prod_beta split: option.split)
  ultimately show ?thesis by simp
qed

subsection \<open>Properties\<close>

text \<open>(C18) From the upstream's bytes to the client's: when a stream for a Messages client ended well, the upstream had completed, and a client that reads the
  bytes it got, cut in any way, reads one well-formed message with its end, whose text and thinking are those of the chunks
  in the upstream's bytes.\<close>

theorem relayed_message_reaches_client:
  assumes "handleMessagesStream show' K conn g u 200 reads = (m, RelayOk)"
    and "\<forall>j. decode (cc_encode K j) = Some j \<and> one_line (cc_encode K j)" and "concat cuts = mr_sent m"
  shows "let fs = map (event_frame K) (fst (Feed (cc_openai K) (read_all reads) NewSSEParser)) in
      list_ex completes fs \<and> hear (client_reads decode cuts) Fresh = Some Ended
    \<and> shown_text (client_reads decode cuts) = concat (map frame_text fs) \<and> shown_thinking (client_reads decode cuts) = concat (map frame_thinking fs)"
proof -
  let ?fs = "map (event_frame K) (fst (Feed (cc_openai K) (read_all reads) NewSSEParser))"
  obtain model latest es meta where t: "translate_stream model (tokens_of u) ?fs latest = (es, meta)" and s: "mr_sent m = on_wire K es"
      and e: "sm_ErrorMessage meta = ''''"
    using relayed_wire[OF assms(1)] by blast
  have c: "list_ex completes ?fs" and h: "hear es Fresh = Some Ended"
    using stream_outcome[where model = model and ?u0.0 = "tokens_of u" and fs = ?fs and latest = latest] t e by (auto split: if_splits)
  have n: "list_all named es" using named_stream[where model = model and ?u0.0 = "tokens_of u" and fs = ?fs and latest = latest] t by simp
  have r: "client_reads decode cuts = map (\<lambda>e. client_event (me_Data e)) es"
    by (rule client_reads_wire[OF h assms(2)]) (simp add: assms(3) s)
  have "shown_text es = concat (map frame_text ?fs)" "shown_thinking es = concat (map frame_thinking ?fs)"
    using translated_content[where model = model and ?u0.0 = "tokens_of u" and fs = ?fs and latest = latest] t by (simp_all add: case_prod_beta)
  then show ?thesis using c h by (simp add: Let_def r hear_client[OF n] shown_client[OF n])
qed

text \<open>An answer with another status than 200 is passed on as an error body without marking the first byte, so that the attempt still counts as one the client has
  seen nothing of.\<close>

lemma bad_status_sends_unmarked:
  assumes "status \<noteq> 200" and "cc_encode K (JObj [(''type'', JStr ''error''), (''error'', JObj [(''type'', JStr ''api_error''),
      (''message'', JStr (''Upstream API returned status '' @ show' status @ '': '' @ read_all reads))])]) \<noteq> []"
  shows "case handleMessagesStream show' K None g u status reads of (m, res) \<Rightarrow>
    mr_sent m \<noteq> [] \<and> g_TTFT (mr_g m) = g_TTFT g \<and> (\<exists>e. res = RelayErr e)"
  using assms by (simp add: handleMessagesStream_def relay_bad_status_def relay_start_def client_write_def Let_def)

subsection \<open>Witness\<close>

text \<open>A codec that writes every value on one line: the value with number \<open>n\<close> as \<open>n\<close> letters. It knows one chunk.\<close>

instance json :: countable
  by countable_datatype

definition demo_codec :: ChatCodec where
  "demo_codec = \<lparr>cc_usage = (\<lambda>_. None),
     cc_chunk = (\<lambda>s. if s = ''hi'' then Some \<lparr>ck_ID = '''', ck_Choices = [\<lparr>cd_Content = ''hello'', cd_ReasoningContent = '''', cd_Thinking = '''',
       cd_Reasoning = '''', cd_Thought = '''', cd_ToolCalls = [], cd_FinishReason = None\<rparr>]\<rparr> else None),
     cc_encode = (\<lambda>j. replicate (to_nat j) (CHR ''x'')), cc_openai = (\<lambda>_. None)\<rparr>"

definition demo_decode :: "string \<Rightarrow> json option" where
  "demo_decode s = Some (from_nat (length s))"

definition demo_chat_reads :: "Read list" where
  "demo_chat_reads = [demo_read (''data: hi'' @ [LF]) None, demo_read ([LF] @ ''data: [DONE]'' @ [LF, LF]) (Some EOF)]"

theorem relayed_message_reaches_client_witness:
  "\<exists>m. handleMessagesStream (\<lambda>_. ''0'') demo_codec None zero_context zero_usage 200 demo_chat_reads = (m, RelayOk)
    \<and> hear (client_reads demo_decode [mr_sent m]) Fresh = Some Ended \<and> shown_text (client_reads demo_decode [mr_sent m]) = ''hello''"
proof -
  let ?evs = "fst (Feed (cc_openai demo_codec) (read_all demo_chat_reads) NewSSEParser)"
  have evs: "map (\<lambda>ev. (ev_Data ev, ev_Done ev)) (fst (Feed (\<lambda>_. None) (read_all demo_chat_reads) NewSSEParser)) = [(''hi'', False), (''[DONE]'', True)]"
    by code_simp
  have k: "cc_openai demo_codec = (\<lambda>_. None)" by (simp add: demo_codec_def)
  have ef: "map (event_frame K) evs = map (\<lambda>(d, f). frame_of K (if f then ''[DONE]'' else d)) (map (\<lambda>ev. (ev_Data ev, ev_Done ev)) evs)" for K evs
    by (simp add: event_frame_def)
  have fs: "map (event_frame demo_codec) ?evs = [frame_of demo_codec ''hi'', ChatDone]"
    unfolding k ef evs by (simp add: frame_of_def)
  have "\<forall>r\<in>set demo_chat_reads. \<not> html_body (rd_bytes r)" by code_simp
  moreover have "read_end demo_chat_reads = Some EOF" by (simp add: demo_chat_reads_def demo_read_def)
  ultimately have "snd (handleMessagesStream (\<lambda>_. ''0'') demo_codec None zero_context zero_usage 200 demo_chat_reads) = RelayOk"
    using relay_ok_iff[of demo_chat_reads "\<lambda>_. ''0''" demo_codec zero_context zero_usage] fs by (simp add: completes_def)
  then obtain m where m: "handleMessagesStream (\<lambda>_. ''0'') demo_codec None zero_context zero_usage 200 demo_chat_reads = (m, RelayOk)"
    by (metis prod.collapse)
  have enc: "\<forall>j. demo_decode (cc_encode demo_codec j) = Some j \<and> one_line (cc_encode demo_codec j)"
    by (simp add: demo_decode_def demo_codec_def one_line_def)
  have "frame_text (frame_of demo_codec ''hi'') = ''hello''" "frame_text ChatDone = ''''"
    by (simp_all add: frame_text_def frame_delta_def frame_of_def demo_codec_def)
  then show ?thesis
    using m relayed_message_reaches_client[OF m enc, of "[mr_sent m]"] fs by (auto simp: Let_def)
qed

end
