(* ===== verification/Smart_Config.thy ===== *)
theory Smart_Config
  imports Sse_Parser Json Gateway_Env Inbound_Filters
begin

text \<open>
  Smart routing, the parts that decide: the configuration (\<open>pkg/core/smart_routing_config.go\<close>), what requests it accepts, the judgment and
  the range of a score (\<open>pkg/invoker/smart_request.go\<close>), and which endpoints can hold a request (\<open>smartEndpointCompatible\<close> of
  \<open>smart.go\<close>). A request body is decoded by an argument into its members, each with its text and its value; case folding is
  that of ASCII letters.

  Shown: in a validated configuration every score from 0 to 100 lies in exactly one range, higher scores in later ranges, and no target is
  the smart model itself; a judgment that is accepted is a score from 0 to 100; a compatible endpoint has room for the request.
\<close>

subsection \<open>The configuration\<close>

record SmartRoutingRange =
  rg_Min :: int
  rg_Max :: int
  rg_Model :: string

record SmartRoutingConfig =
  sc_Version :: int
  sc_JudgeModel :: string
  sc_JudgeTimeoutMs :: int
  sc_JudgeMaxInputBytes :: int
  sc_JudgeMaxOutputTokens :: int
  sc_Ranges :: "SmartRoutingRange list"

definition ApplyDefaults :: "SmartRoutingConfig \<Rightarrow> SmartRoutingConfig" where
  "ApplyDefaults c0 = (let c1 = (if sc_JudgeTimeoutMs c0 = 0 then c0\<lparr>sc_JudgeTimeoutMs := 5000\<rparr> else c0);
       c2 = (if sc_JudgeMaxInputBytes c1 = 0 then c1\<lparr>sc_JudgeMaxInputBytes := 65536\<rparr> else c1)
     in if sc_JudgeMaxOutputTokens c2 = 0 then c2\<lparr>sc_JudgeMaxOutputTokens := 256\<rparr> else c2)"

definition EqualFold :: "string \<Rightarrow> string \<Rightarrow> bool" where
  "EqualFold a b = (str_lower a = str_lower b)"

datatype config_error = ConfigRequired | BadVersion | BadJudgeModel | BadLimits | TooFewRanges | BadPartition nat | BadTarget nat | NoCover

text \<open>The loop over the ranges: the end of the last range and the distinct targets.\<close>

fun validate_ranges :: "string \<Rightarrow> nat \<Rightarrow> SmartRoutingRange list \<Rightarrow> int \<Rightarrow> string set \<Rightarrow> config_error + int \<times> string set" where
  "validate_ranges modelCode i [] end' distinct' = Inr (end', distinct')"
| "validate_ranges modelCode i (r # rs) end' distinct' =
     (if rg_Min r \<noteq> end' \<or> rg_Min r < 0 \<or> rg_Max r > 100 \<or> rg_Max r \<le> rg_Min r then Inl (BadPartition i)
      else if TrimSpace (rg_Model r) = '''' \<or> EqualFold (rg_Model r) modelCode then Inl (BadTarget i)
      else validate_ranges modelCode (i + 1) rs (rg_Max r) (insert (str_lower (rg_Model r)) distinct'))"

definition Validate :: "string \<Rightarrow> SmartRoutingConfig option \<Rightarrow> config_error option" where
  "Validate modelCode cfg = (case cfg of None \<Rightarrow> Some ConfigRequired | Some c \<Rightarrow>
     if TrimSpace modelCode = '''' \<or> sc_Version c < 1 then Some BadVersion
     else if TrimSpace (sc_JudgeModel c) = '''' \<or> EqualFold (sc_JudgeModel c) modelCode then Some BadJudgeModel
     else if sc_JudgeTimeoutMs c < 0 \<or> sc_JudgeMaxInputBytes c < 0 \<or> sc_JudgeMaxOutputTokens c < 0 then Some BadLimits
     else if length (sc_Ranges c) < 2 then Some TooFewRanges
     else case validate_ranges modelCode 0 (sc_Ranges c) 0 {} of Inl e \<Rightarrow> Some e
       | Inr (end', distinct') \<Rightarrow> if end' \<noteq> 100 \<or> card distinct' < 2 then Some NoCover else None)"

subsection \<open>The range of a score\<close>

fun range_index_from :: "nat \<Rightarrow> nat \<Rightarrow> SmartRoutingRange list \<Rightarrow> int \<Rightarrow> int" where
  "range_index_from n i [] score = -1"
| "range_index_from n i (r # rs) score =
     (if score \<ge> rg_Min r \<and> (score < rg_Max r \<or> i + 1 = n \<and> score = 100 \<and> rg_Max r = 100) then int i
      else range_index_from n (i + 1) rs score)"

definition smartRangeIndex :: "SmartRoutingRange list \<Rightarrow> int \<Rightarrow> int" where
  "smartRangeIndex ranges score = range_index_from (length ranges) 0 ranges score"

subsection \<open>Requests\<close>

text \<open>\<open>smartHTTPError\<close> with its status and reason, and the other errors of the router.\<close>

datatype smart_error = SmartHTTP int string | SmartCtx string | JudgeInputLimit | JudgeInvalid string | QuotaFiltersMissing | UnsupportedInvoker
  | ChildFilter filter_error | ChildInvoke gw_error | ChildSettle string

record smartRequest =
  rq_Messages :: string
  rq_MaxOutput :: int

definition bad_request :: smart_error where
  "bad_request = SmartHTTP 400 ''smart models support only non-streaming text chat completions without tools''"

text \<open>A JSON number as an \<open>int64\<close>: only a literal without fraction and exponent is one.\<close>

definition digit_val :: "char \<Rightarrow> int option" where
  "digit_val c = (let n = of_char c in if 48 \<le> n \<and> n \<le> 57 then Some (n - 48) else None)"

fun digits_val :: "int \<Rightarrow> string \<Rightarrow> int option" where
  "digits_val acc [] = Some acc"
| "digits_val acc (c # s) = (case digit_val c of None \<Rightarrow> None | Some d \<Rightarrow> digits_val (10 * acc + d) s)"

definition int64_literal :: "string \<Rightarrow> int option" where
  "int64_literal s0 = (let s = TrimSpace s0;
       v = (case s of [] \<Rightarrow> None | c # r \<Rightarrow> if c = CHR ''-'' then (if r = [] then None else map_option uminus (digits_val 0 r)) else digits_val 0 s)
     in case v of Some n \<Rightarrow> if - (2 ^ 63) \<le> n \<and> n < 2 ^ 63 then Some n else None | None \<Rightarrow> None)"

text \<open>One element of a content array, read into \<open>Type\<close> and \<open>Text\<close>: a member whose name matches up to case is assigned, \<open>null\<close> leaves a
  string alone and clears a pointer, another type is an error.\<close>

fun part_fields :: "(string \<times> json) list \<Rightarrow> string \<times> string option \<Rightarrow> (string \<times> string option) option" where
  "part_fields [] (ty, text) = Some (ty, text)"
| "part_fields ((k, v) # kvs) (ty, text) =
     (if EqualFold k ''type'' then (case v of JStr s \<Rightarrow> part_fields kvs (s, text) | JNull \<Rightarrow> part_fields kvs (ty, text) | _ \<Rightarrow> None)
      else if EqualFold k ''text'' then (case v of JStr s \<Rightarrow> part_fields kvs (ty, Some s) | JNull \<Rightarrow> part_fields kvs (ty, None) | _ \<Rightarrow> None)
      else part_fields kvs (ty, text))"

definition text_part :: "json \<Rightarrow> bool" where
  "text_part v = (case v of JObj kvs \<Rightarrow> (case part_fields kvs ('''', None) of Some (ty, text) \<Rightarrow> ty = ''text'' \<and> text \<noteq> None | None \<Rightarrow> False) | _ \<Rightarrow> False)"

definition text_content :: "json option \<Rightarrow> bool" where
  "text_content v = (case v of Some (JStr _) \<Rightarrow> True | Some (JArr ps) \<Rightarrow> ps \<noteq> [] \<and> list_all text_part ps | _ \<Rightarrow> False)"

definition absent :: "json option \<Rightarrow> bool" where
  "absent v = (case v of None \<Rightarrow> True | Some JNull \<Rightarrow> True | _ \<Rightarrow> False)"

definition message_ok :: "json \<Rightarrow> bool" where
  "message_ok m = (case m of JObj _ \<Rightarrow>
       jget ''role'' m \<in> {Some (JStr ''system''), Some (JStr ''developer''), Some (JStr ''user''), Some (JStr ''assistant'')}
     \<and> list_all (\<lambda>k. absent (jget k m)) [''tool_calls'', ''tool_call_id'', ''function_call'', ''audio'']
     \<and> text_content (jget ''content'' m)
   | _ \<Rightarrow> False)"

text \<open>The larger of the output limits given; \<open>None\<close> if one of them is not a positive integer.\<close>

fun max_output :: "(string \<rightharpoonup> string \<times> json) \<Rightarrow> string list \<Rightarrow> int \<Rightarrow> int option" where
  "max_output raw [] acc = Some acc"
| "max_output raw (k # ks) acc = (case raw k of None \<Rightarrow> max_output raw ks acc
     | Some (t, _) \<Rightarrow> (case int64_literal t of Some v \<Rightarrow> if v \<le> 0 then None else max_output raw ks (if v > acc then v else acc) | None \<Rightarrow> None))"

definition parseSmartRequest :: "(string \<Rightarrow> (string \<rightharpoonup> string \<times> json) option) \<Rightarrow> RequestType \<Rightarrow> string \<Rightarrow> smart_error + smartRequest" where
  "parseSmartRequest dec rt body = (if rt \<noteq> RequestTypeChatCompletion then Inl bad_request
     else case dec body of None \<Rightarrow> Inl bad_request | Some raw \<Rightarrow>
       if map_option snd (raw ''stream'') \<notin> {None, Some JNull, Some (JBool False)} then Inl bad_request
       else if \<not> list_all (\<lambda>k. absent (map_option snd (raw k))) [''tools'', ''tool_choice'', ''functions'', ''function_call'', ''audio'', ''modalities'']
       then Inl bad_request
       else case raw ''messages'' of Some (t, JArr ms) \<Rightarrow>
           if ms = [] \<or> \<not> list_all message_ok ms then Inl bad_request
           else (case max_output raw [''max_tokens'', ''max_completion_tokens''] 0 of None \<Rightarrow> Inl bad_request
             | Some n \<Rightarrow> Inr \<lparr>rq_Messages = t, rq_MaxOutput = n\<rparr>)
         | _ \<Rightarrow> Inl bad_request)"

text \<open>The request to the judge; encoding it is an argument, \<open>None\<close> if it fails.\<close>

definition buildSmartJudgeRequest :: "(SmartRoutingConfig \<Rightarrow> string \<Rightarrow> string option) \<Rightarrow> smartRequest \<Rightarrow> SmartRoutingConfig \<Rightarrow> smart_error + string" where
  "buildSmartJudgeRequest marshal req cfg = (case marshal cfg (rq_Messages req) of None \<Rightarrow> Inl (JudgeInvalid ''marshal'')
     | Some data \<Rightarrow> if int (length data) > sc_JudgeMaxInputBytes cfg then Inl JudgeInputLimit else Inr data)"

subsection \<open>The judgment\<close>

definition reason_char :: "char \<Rightarrow> bool" where
  "reason_char c = (let n = of_char c :: nat in 97 \<le> n \<and> n \<le> 122 \<or> 65 \<le> n \<and> n \<le> 90 \<or> 48 \<le> n \<and> n \<le> 57 \<or> n = 95)"

text \<open>The decoder gives the score if there is one, the flag and the reason.\<close>

definition parseSmartScore :: "(string \<Rightarrow> (int option \<times> bool \<times> string) option) \<Rightarrow> string \<Rightarrow> smart_error + int \<times> string" where
  "parseSmartScore dec data = (case dec data of None \<Rightarrow> Inl (JudgeInvalid ''invalid judgment'')
     | Some (Some score, uncertain, reason) \<Rightarrow>
         if score < 0 \<or> score > 100 \<or> uncertain then Inl (JudgeInvalid ''invalid or uncertain judgment'')
         else Inr (score, if reason = [] \<or> length reason > 64 \<or> \<not> list_all reason_char reason then ''classified'' else reason)
     | Some (None, _, _) \<Rightarrow> Inl (JudgeInvalid ''invalid or uncertain judgment''))"

subsection \<open>Endpoints with room for a request\<close>

definition smartEndpointCompatible :: "Endpoint option \<Rightarrow> smartRequest \<Rightarrow> bool" where
  "smartEndpointCompatible e req = (case e of None \<Rightarrow> False | Some ep \<Rightarrow>
     if \<not> SupportsRequestType RequestTypeChatCompletion ep then False
     else let output = (if rq_MaxOutput req = 0 then ep_MaxOutputTokens ep else rq_MaxOutput req) in
       if ep_MaxOutputTokens ep > 0 \<and> output > ep_MaxOutputTokens ep then False
       else let input = int (length (rq_Messages req)) + 128
         in ep_ContextLength ep \<le> 0 \<or> output \<le> ep_ContextLength ep \<and> input \<le> ep_ContextLength ep - output)"

definition smartCapacityRouter_Route :: "(string \<Rightarrow> (string \<rightharpoonup> string \<times> json) option) \<Rightarrow> GatewayContext \<Rightarrow> Endpoint list \<Rightarrow> Endpoint list" where
  "smartCapacityRouter_Route dec g endpoints = (case parseSmartRequest dec (g_RequestType g) (g_RawBody g) of Inl _ \<Rightarrow> []
     | Inr req \<Rightarrow> filter (\<lambda>ep. smartEndpointCompatible (Some ep) req) endpoints)"

subsection \<open>The buffer for internal answers\<close>

record smartResponseBuffer =
  sb_body :: string
  sb_limit :: int

definition newSmartResponseBuffer :: smartResponseBuffer where
  "newSmartResponseBuffer = \<lparr>sb_body = [], sb_limit = 0\<rparr>"

definition buffer_Write :: "string \<Rightarrow> smartResponseBuffer \<Rightarrow> string option \<times> smartResponseBuffer" where
  "buffer_Write p b = (if sb_limit b > 0 \<and> int (length (sb_body b)) + int (length p) > sb_limit b
     then (Some ''internal response exceeds byte limit'', b) else (None, b\<lparr>sb_body := sb_body b @ p\<rparr>))"

text \<open>The answer of an internal call: the upstream's body, else the encoded response, else what was written.\<close>

definition smartResponseBytes :: "string \<Rightarrow> (string option) option \<Rightarrow> smartResponseBuffer \<Rightarrow> string option" where
  "smartResponseBytes upstreamBody response b = (if upstreamBody \<noteq> [] then Some upstreamBody
     else case response of Some enc \<Rightarrow> enc | None \<Rightarrow> Some (sb_body b))"

subsection \<open>A validated configuration partitions the scores\<close>

text \<open>The scores of range \<open>k\<close>: the last range holds 100 as well.\<close>

definition in_range :: "SmartRoutingRange list \<Rightarrow> nat \<Rightarrow> int \<Rightarrow> bool" where
  "in_range ranges k score = (k < length ranges \<and> rg_Min (ranges ! k) \<le> score \<and> (score < rg_Max (ranges ! k) \<or> k + 1 = length ranges \<and> score = rg_Max (ranges ! k)))"

text \<open>Adjacent ranges from \<open>a\<close> to \<open>b\<close>.\<close>

fun adjacent :: "int \<Rightarrow> SmartRoutingRange list \<Rightarrow> int \<Rightarrow> bool" where
  "adjacent a [] b = (a = b)"
| "adjacent a (r # rs) b = (rg_Min r = a \<and> a < rg_Max r \<and> adjacent (rg_Max r) rs b)"

lemma validate_ranges_adjacent:
  "validate_ranges m i rs a d = Inr (b, d') \<Longrightarrow> adjacent a rs b \<and> (\<forall>r\<in>set rs. \<not> EqualFold (rg_Model r) m \<and> TrimSpace (rg_Model r) \<noteq> '''')"
  by (induction rs arbitrary: i a d) (auto split: if_splits)

lemma adjacent_le: "adjacent a rs b \<Longrightarrow> a \<le> b"
  by (induction rs arbitrary: a) fastforce+

lemma adjacent_bounds: "adjacent a rs b \<Longrightarrow> k < length rs \<Longrightarrow> a \<le> rg_Min (rs ! k) \<and> rg_Max (rs ! k) \<le> b \<and> (k + 1 = length rs \<longrightarrow> rg_Max (rs ! k) = b)"
proof (induction rs arbitrary: a k)
  case (Cons r rs)
  show ?case
  proof (cases k)
    case 0
    then show ?thesis using Cons.prems adjacent_le[of "rg_Max r" rs b] by (cases rs) auto
  next
    case (Suc j)
    show ?thesis unfolding Suc nth_Cons_Suc using Cons.IH[of "rg_Max r" j] Cons.prems[unfolded Suc] by simp
  qed
qed simp

lemma adjacent_ordered: "adjacent a rs b \<Longrightarrow> j < k \<Longrightarrow> k < length rs \<Longrightarrow> rg_Max (rs ! j) \<le> rg_Min (rs ! k)"
proof (induction rs arbitrary: a j k)
  case (Cons r rs)
  then show ?case
    using adjacent_bounds[of "rg_Max r" rs b "k - 1"] by (cases j; cases k) fastforce+
qed simp

lemma range_index_found:
  "adjacent a rs b \<Longrightarrow> rs \<noteq> [] \<Longrightarrow> n = i + length rs \<Longrightarrow> a \<le> score \<Longrightarrow> score < b \<or> score = b \<and> b = 100
   \<Longrightarrow> \<exists>k<length rs. range_index_from n i rs score = int (i + k) \<and> rg_Min (rs ! k) \<le> score
     \<and> (score < rg_Max (rs ! k) \<or> k + 1 = length rs \<and> score = rg_Max (rs ! k))"
proof (induction rs arbitrary: a i)
  case (Cons r rs)
  show ?case
  proof (cases "score < rg_Max r \<or> rs = []")
    case True
    then show ?thesis using Cons.prems by (intro exI[of _ 0]) auto
  next
    case False
    have "\<exists>k<length rs. range_index_from n (Suc i) rs score = int (Suc i + k) \<and> rg_Min (rs ! k) \<le> score
        \<and> (score < rg_Max (rs ! k) \<or> k + 1 = length rs \<and> score = rg_Max (rs ! k))"
      using False Cons.prems by (intro Cons.IH[of "rg_Max r"]) auto
    then obtain k where "k < length rs" "range_index_from n (Suc i) rs score = int (Suc i + k)" "rg_Min (rs ! k) \<le> score"
        "score < rg_Max (rs ! k) \<or> k + 1 = length rs \<and> score = rg_Max (rs ! k)" by blast
    moreover have "range_index_from n i (r # rs) score = range_index_from n (Suc i) rs score"
      using False Cons.prems by simp
    ultimately show ?thesis by (intro exI[of _ "Suc k"]) auto
  qed
qed simp

lemma Validate_parts:
  assumes "Validate m (Some c) = None"
  shows "adjacent 0 (sc_Ranges c) 100" and "2 \<le> length (sc_Ranges c)"
    and "\<forall>r\<in>set (sc_Ranges c). \<not> EqualFold (rg_Model r) m" and "\<not> EqualFold (sc_JudgeModel c) m"
proof -
  obtain b d where v: "validate_ranges m 0 (sc_Ranges c) 0 {} = Inr (b, d)" and b: "b = 100"
    using assms by (auto simp: Validate_def split: if_splits sum.splits)
  show "adjacent 0 (sc_Ranges c) 100" "\<forall>r\<in>set (sc_Ranges c). \<not> EqualFold (rg_Model r) m"
    using validate_ranges_adjacent[OF v] b by auto
  show "2 \<le> length (sc_Ranges c)" "\<not> EqualFold (sc_JudgeModel c) m"
    using assms by (auto simp: Validate_def split: if_splits)
qed

lemma range_of_score:
  assumes "Validate m (Some c) = None" and "0 \<le> score" and "score \<le> 100"
  obtains k where "smartRangeIndex (sc_Ranges c) score = int k" and "in_range (sc_Ranges c) k score"
  using range_index_found[OF Validate_parts(1)[OF assms(1)], of "length (sc_Ranges c)" 0 score] Validate_parts(2)[OF assms(1)] assms(2,3)
  by (fastforce simp: smartRangeIndex_def in_range_def)

lemma in_range_mono:
  assumes "adjacent a rs b" and "in_range rs j s" and "in_range rs k t" and "s \<le> t"
  shows "j \<le> k"
proof (rule ccontr)
  assume "\<not> j \<le> k"
  then have "rg_Max (rs ! k) \<le> rg_Min (rs ! j)" and "k + 1 \<noteq> length rs"
    using adjacent_ordered[OF assms(1), of k j] assms(2) by (auto simp: in_range_def)
  then show False using assms(2-4) by (auto simp: in_range_def)
qed

subsection \<open>Properties\<close>

text \<open>(C14) A configuration that passes validation assigns every score from 0 to 100 exactly one range, a higher score never an earlier one; none of
  its targets, nor its judge, is the smart model itself.\<close>

theorem validated_ranges_partition_scores:
  assumes "Validate m (Some c) = None" and "0 \<le> score" and "score \<le> 100"
  shows "\<exists>k. smartRangeIndex (sc_Ranges c) score = int k \<and> (\<forall>j. in_range (sc_Ranges c) j score \<longleftrightarrow> j = k)
     \<and> (\<forall>score'. score \<le> score' \<and> score' \<le> 100 \<longrightarrow> smartRangeIndex (sc_Ranges c) score \<le> smartRangeIndex (sc_Ranges c) score')
     \<and> \<not> EqualFold (rg_Model (sc_Ranges c ! k)) m \<and> \<not> EqualFold (sc_JudgeModel c) m"
proof -
  note adj = Validate_parts(1)[OF assms(1)]
  obtain k where k: "smartRangeIndex (sc_Ranges c) score = int k" "in_range (sc_Ranges c) k score"
    using range_of_score[OF assms] by blast
  have "in_range (sc_Ranges c) j score \<longleftrightarrow> j = k" for j
    using in_range_mono[OF adj _ k(2), of j score] in_range_mono[OF adj k(2), of j score] k(2) by (auto intro: antisym)
  moreover have "int k \<le> smartRangeIndex (sc_Ranges c) t" if t: "score \<le> t" "t \<le> 100" for t
  proof -
    obtain i where "smartRangeIndex (sc_Ranges c) t = int i" "in_range (sc_Ranges c) i t"
      using range_of_score[OF assms(1) order.trans[OF assms(2) t(1)] t(2)] by blast
    then show ?thesis using in_range_mono[OF adj k(2) _ t(1)] by simp
  qed
  moreover have "\<not> EqualFold (rg_Model (sc_Ranges c ! k)) m \<and> \<not> EqualFold (sc_JudgeModel c) m"
    using Validate_parts(3,4)[OF assms(1)] k(2) by (auto simp: in_range_def)
  ultimately show ?thesis unfolding k(1)[symmetric] by (intro exI[of _ k]) (simp add: k(1))
qed

text \<open>A judgment that is accepted is a score of the scale, with a reason of at most 64 letters, digits and underscores.\<close>

lemma accepted_judgment: "parseSmartScore dec data = Inr (score, reason) \<Longrightarrow> 0 \<le> score \<and> score \<le> 100 \<and> reason \<noteq> [] \<and> length reason \<le> 64"
  by (auto simp: parseSmartScore_def split: option.splits prod.splits if_splits)

text \<open>An endpoint kept by the capacity check has room for the request and its answer.\<close>

lemma compatible_endpoint_has_room:
  assumes "smartEndpointCompatible (Some ep) req" and "ep_ContextLength ep > 0" and "rq_MaxOutput req > 0"
  shows "int (length (rq_Messages req)) + 128 + rq_MaxOutput req \<le> ep_ContextLength ep"
    and "ep_MaxOutputTokens ep > 0 \<Longrightarrow> rq_MaxOutput req \<le> ep_MaxOutputTokens ep"
  using assms by (auto simp: smartEndpointCompatible_def Let_def split: if_splits)

lemma buffer_stays_within_limit: "sb_limit b > 0 \<Longrightarrow> int (length (sb_body b)) \<le> sb_limit b \<Longrightarrow> int (length (sb_body (snd (buffer_Write p b)))) \<le> sb_limit b"
  by (simp add: buffer_Write_def)

subsection \<open>Witnesses\<close>

definition demo_config :: SmartRoutingConfig where
  "demo_config = \<lparr>sc_Version = 1, sc_JudgeModel = ''judge'', sc_JudgeTimeoutMs = 5000, sc_JudgeMaxInputBytes = 65536, sc_JudgeMaxOutputTokens = 256,
     sc_Ranges = [\<lparr>rg_Min = 0, rg_Max = 40, rg_Model = ''small''\<rparr>, \<lparr>rg_Min = 40, rg_Max = 100, rg_Model = ''big''\<rparr>]\<rparr>"

lemma demo_config_valid: "Validate ''smart'' (Some demo_config) = None"
  by code_simp

theorem validated_ranges_partition_scores_witness:
  "Validate ''smart'' (Some demo_config) = None \<and> smartRangeIndex (sc_Ranges demo_config) 100 = 1
   \<and> (\<exists>k. smartRangeIndex (sc_Ranges demo_config) 100 = int k \<and> (\<forall>j. in_range (sc_Ranges demo_config) j 100 \<longleftrightarrow> j = k))"
proof -
  have "smartRangeIndex (sc_Ranges demo_config) 100 = 1" by code_simp
  then show ?thesis
    using demo_config_valid validated_ranges_partition_scores[OF demo_config_valid, of 100] by auto
qed

end
