(* ===== verification/Smart_Routing.thy ===== *)
theory Smart_Routing
  imports Smart_Config
begin

text \<open>
  Smart routing, the orchestration: \<open>pkg/invoker/smart.go\<close>, \<open>child_accounting.go\<close> and \<open>pkg/core/smart_routing_runtime.go\<close>. A request for a smart model
  is scored by a judge model and served by the model of the score's range, or by the models of higher ranges when that one is unavailable;
  without a judgment by the highest range that can serve it. Judge and targets are internal calls (children) with their own
  context, limits and settlement.

  What the router is assembled from is a record of functions over a world: configuration source, validator, policies, discovery,
  filters, invokers, decoders. The world carries the state of the gateway and tells whether the request's context is done. The durations
  in the routing record are left out. The loop over the targets also returns the calls it made, in order, with their results.
\<close>

subsection \<open>Records and contexts\<close>

record SmartEscalation =
  es_Model :: string
  es_Reason :: string

record SmartJudgeUsage =
  ju_InputTokens :: int
  ju_OutputTokens :: int
  ju_CachedTokens :: int

record SmartRoutingRecord =
  sr_Model :: string
  sr_Version :: int
  sr_PromptVersion :: string
  sr_JudgeModel :: string
  sr_Score :: "int option"
  sr_Reason :: string
  sr_MatchedModel :: string
  sr_ExecutedModel :: string
  sr_Escalations :: "SmartEscalation list"
  sr_JudgeUsage :: "SmartJudgeUsage option"

text \<open>A context with the fields the router reads and writes; \<open>x_Record\<close> is \<open>None\<close> for a request that is not for a smart model.\<close>

record SmartContext =
  x_g :: GatewayContext
  x_u :: Usage
  x_UserTenant :: string
  x_Config :: "SmartRoutingConfig option"
  x_Record :: "SmartRoutingRecord option"
  x_Sensitive :: bool
  x_History :: "AttemptRecord list"
  x_Response :: "json option"
  x_Buffer :: smartResponseBuffer
  x_MaxResponseBytes :: int
  x_Err :: "smart_error option"

record JudgeEnvelope =
  je_Choices :: "(string \<times> string) list"
  je_Usage :: "SmartJudgeUsage option"

text \<open>\<open>sm_ctx\<close> and \<open>sm_judge_ctx\<close> are the error of the request's context and of the judge's, which has a deadline of its own; \<open>sm_check\<close> puts the
  capacity router before the routers of an invoker, if it is of a known kind; \<open>sm_run\<close> runs an invoker; \<open>sm_envelope\<close>
  gives content and finish reason of each choice.\<close>

record ('w, 'i) SmartEnv =
  sm_config :: "'w \<Rightarrow> string \<Rightarrow> string + SmartRoutingConfig option"
  sm_validate :: "'w \<Rightarrow> string \<Rightarrow> string \<Rightarrow> string \<Rightarrow> string + bool"
  sm_policies :: "('w \<Rightarrow> string \<Rightarrow> string \<Rightarrow> string \<Rightarrow> string + Policy option) option"
  sm_list :: "'w \<Rightarrow> string \<Rightarrow> string + Endpoint option list"
  sm_ctx :: "'w \<Rightarrow> string option"
  sm_judge_ctx :: "'w \<Rightarrow> string option"
  sm_auth :: "(GatewayContext \<Rightarrow> filter_error option) option"
  sm_limits :: "(SmartContext \<Rightarrow> 'w \<Rightarrow> filter_error option \<times> SmartContext \<times> 'w) option"
  sm_settle :: "(SmartContext \<Rightarrow> 'w \<Rightarrow> string option \<times> SmartContext \<times> 'w) option"
  sm_judge :: 'i
  sm_select :: "GatewayContext \<Rightarrow> 'i"
  sm_check :: "'i \<Rightarrow> 'i option"
  sm_run :: "'i \<Rightarrow> SmartContext \<Rightarrow> 'w \<Rightarrow> call_result \<times> SmartContext \<times> 'w"
  sm_decode :: "string \<Rightarrow> (string \<rightharpoonup> string \<times> json) option"
  sm_judge_body :: "SmartRoutingConfig \<Rightarrow> string \<Rightarrow> string option"
  sm_envelope :: "string \<Rightarrow> JudgeEnvelope option"
  sm_score :: "string \<Rightarrow> (int option \<times> bool \<times> string) option"
  sm_encode :: "json \<Rightarrow> string option"
  sm_replace :: "string \<Rightarrow> string \<Rightarrow> string"

definition smartPromptVersion :: string where
  "smartPromptVersion = ''smart-routing-v1''"

subsection \<open>Preparing\<close>

definition smart_Prepare :: "('w, 'i) SmartEnv \<Rightarrow> SmartContext \<Rightarrow> 'w \<Rightarrow> smart_error option \<times> SmartContext" where
  "smart_Prepare env x w = (let g = x_g x in case sm_config env w (g_Model g) of
       Inl _ \<Rightarrow> (Some (SmartHTTP 503 ''smart routing configuration unavailable''), x)
     | Inr None \<Rightarrow> (None, x)
     | Inr (Some c) \<Rightarrow> let cfg = ApplyDefaults c in
         if Validate (g_Model g) (Some cfg) \<noteq> None then (Some (SmartHTTP 503 ''invalid smart routing configuration''), x)
         else (case parseSmartRequest (sm_decode env) (g_RequestType g) (g_RawBody g) of Inl e \<Rightarrow> (Some e, x)
           | Inr _ \<Rightarrow> (None, x\<lparr>x_Config := Some cfg,
               x_Record := Some \<lparr>sr_Model = g_Model g, sr_Version = sc_Version cfg, sr_PromptVersion = smartPromptVersion, sr_JudgeModel = sc_JudgeModel cfg,
                 sr_Score = None, sr_Reason = '''', sr_MatchedModel = '''', sr_ExecutedModel = '''', sr_Escalations = [], sr_JudgeUsage = None\<rparr>,
               x_u := (x_u x)\<lparr>u_TrackLimitReservations := True\<rparr>, x_Sensitive := True\<rparr>)))"

subsection \<open>A child context\<close>

definition internal_request :: HttpRequest where
  "internal_request = \<lparr>hr_Header = (\<lambda>_. []), hr_Query = None, hr_Cookie = (\<lambda>_. None)\<rparr>"

definition owned_policy :: "Policy \<Rightarrow> Policy" where
  "owned_policy p = (case pl_InvocationPolicy p of None \<Rightarrow> p | Some ip \<Rightarrow> p\<lparr>pl_InvocationPolicy := Some (ip\<lparr>ip_FallbackPolicy := None\<rparr>)\<rparr>)"

definition child_of :: "('w, 'i) SmartEnv \<Rightarrow> SmartContext \<Rightarrow> string \<Rightarrow> string \<Rightarrow> Policy \<Rightarrow> SmartContext" where
  "child_of env x model body p = (let g = x_g x in
     \<lparr>x_g = zero_context\<lparr>g_Request := Some internal_request,
        g_GovernanceRequest := (case g_GovernanceRequest g of Some r \<Rightarrow> Some r | None \<Rightarrow> g_Request g),
        g_Model := model, g_OriginalModel := model, g_RequestType := RequestTypeChatCompletion, g_RawBody := sm_replace env body model,
        g_Policy := Some (owned_policy p), g_Tenant := g_Tenant g, g_UserID := g_UserID g, g_SessionID := g_SessionID g, g_Tags := g_Tags g\<rparr>,
      x_u = zero_usage\<lparr>u_APIKey := u_APIKey (x_u x), u_TrackLimitReservations := True, u_LimitKeys := u_LimitKeys (x_u x)\<rparr>,
      x_UserTenant = x_UserTenant x, x_Config = None, x_Record = None, x_Sensitive = True, x_History = [], x_Response = None,
      x_Buffer = newSmartResponseBuffer, x_MaxResponseBytes = 0, x_Err = None\<rparr>)"

text \<open>The policy of a target; a router without a policy provider uses an empty one.\<close>

definition child_policy :: "('w, 'i) SmartEnv \<Rightarrow> SmartContext \<Rightarrow> string \<Rightarrow> 'w \<Rightarrow> Policy option" where
  "child_policy env x model w = (case sm_policies env of None \<Rightarrow> Some zero_policy
     | Some get \<Rightarrow> (case get w (g_Tenant (x_g x)) (g_UserID (x_g x)) model of Inr (Some p) \<Rightarrow> Some p | _ \<Rightarrow> None))"

definition newChild :: "('w, 'i) SmartEnv \<Rightarrow> SmartContext \<Rightarrow> string \<Rightarrow> string \<Rightarrow> smartRequest \<Rightarrow> 'w \<Rightarrow> string \<times> smart_error + SmartContext" where
  "newChild env x model body req w = (let g = x_g x; tenant = (if g_Tenant g = '''' then x_UserTenant x else g_Tenant g) in
     if sm_validate env w model tenant (g_UserID g) \<noteq> Inr True
     then Inl (''target_not_authorized'', SmartHTTP 403 ''smart routing target unavailable or not authorized'')
     else if sm_config env w model \<noteq> Inr None then Inl (''invalid_target'', SmartHTTP 503 ''smart target must be an ordinary model'')
     else case sm_list env w model of Inl _ \<Rightarrow> Inl (''target_unavailable'', SmartHTTP 503 ''smart routing target unavailable'')
     | Inr endpoints \<Rightarrow>
         if \<not> list_ex (\<lambda>ep. smartEndpointCompatible ep req) endpoints
         then Inl (''target_incompatible'', SmartHTTP 503 ''no compatible smart routing endpoint'')
         else (case child_policy env x model w of
             None \<Rightarrow> Inl (''target_policy_unavailable'', SmartHTTP 403 ''smart routing target policy unavailable'')
           | Some p \<Rightarrow> let child = child_of env x model body p in
               (case Option.bind (sm_auth env) (\<lambda>auth. auth (x_g child)) of Some e \<Rightarrow> Inl (''target_not_authorized'', ChildFilter e) | None \<Rightarrow> Inr child)))"

subsection \<open>Accounting of a child call\<close>

record childCallResult =
  cr_admissionErr :: "smart_error option"
  cr_invokeErr :: "smart_error option"
  cr_settlementErr :: "smart_error option"

definition call_err :: "childCallResult \<Rightarrow> smart_error option" where
  "call_err r = (case cr_settlementErr r of Some e \<Rightarrow> Some e | None \<Rightarrow> (case cr_admissionErr r of Some e \<Rightarrow> Some e | None \<Rightarrow> cr_invokeErr r))"

type_synonym 'w child_limits = "SmartContext \<Rightarrow> 'w \<Rightarrow> filter_error option \<times> SmartContext \<times> 'w"
type_synonym 'w child_settle = "SmartContext \<Rightarrow> 'w \<Rightarrow> string option \<times> SmartContext \<times> 'w"

text \<open>The call between admission and settlement; \<open>ctx\<close> is the error of the child's context. \<open>Inl\<close> is a panic.\<close>

definition child_run :: "('w, 'i) SmartEnv \<Rightarrow> ('w \<Rightarrow> string option) \<Rightarrow> 'i \<Rightarrow> SmartContext \<Rightarrow> 'w \<Rightarrow> (unit + smart_error option) \<times> SmartContext \<times> 'w" where
  "child_run env ctx invoke child w = (case ctx w of Some e \<Rightarrow> (Inr (Some (SmartCtx e)), child, w)
     | None \<Rightarrow> (case sm_check env invoke of None \<Rightarrow> (Inr (Some UnsupportedInvoker), child, w)
       | Some checked \<Rightarrow> (case sm_run env checked child w of
           (Panicked, child', w') \<Rightarrow> (Inl (), child', w')
         | (Returned e, child', w') \<Rightarrow> (Inr (map_option ChildInvoke e), child', w'))))"

definition child_invoke :: "('w, 'i) SmartEnv \<Rightarrow> 'w child_limits \<times> 'w child_settle \<Rightarrow> ('w \<Rightarrow> string option) \<Rightarrow> 'i \<Rightarrow> SmartContext \<Rightarrow> 'w \<Rightarrow>
    childCallResult option \<times> SmartContext \<times> 'w" where
  "child_invoke env acct ctx invoke child w = (case (fst acct) child w of (adm, c1, w1) \<Rightarrow>
     (case (if adm = None then child_run env ctx invoke c1 w1 else (Inr None, c1, w1)) of
        (Inl _, c2, w2) \<Rightarrow> (None, c2, w2)
      | (Inr inv', c2, w2) \<Rightarrow>
          let r = \<lparr>cr_admissionErr = map_option ChildFilter adm, cr_invokeErr = inv', cr_settlementErr = None\<rparr>
          in (case (snd acct) (c2\<lparr>x_Err := call_err r\<rparr>) w2 of (serr, c3, w3) \<Rightarrow>
               (Some (r\<lparr>cr_settlementErr := map_option ChildSettle serr\<rparr>), c3, w3))))"

definition childAccounting :: "('w, 'i) SmartEnv \<Rightarrow> smart_error + 'w child_limits \<times> 'w child_settle" where
  "childAccounting env = (case (sm_limits env, sm_settle env) of (Some l, Some s) \<Rightarrow> Inr (l, s) | _ \<Rightarrow> Inl QuotaFiltersMissing)"

subsection \<open>The judge\<close>

definition judge_policy :: "SmartRoutingConfig \<Rightarrow> InvocationPolicy" where
  "judge_policy cfg = \<lparr>ip_ID = '''', ip_Name = '''', ip_Type = ''cluster'',
     ip_RetryPolicy = Some \<lparr>ry_Retry = 0, ry_BackoffType = '''', ry_BaseMs = 0, ry_ErrorCodes = [], ry_ErrorMessages = [], ry_CodePolicy = None,
       ry_MessagePolicy = None, ry_ConnectTimeout = 0, ry_TtftTimeout = 0, ry_TotalTimeout = sc_JudgeTimeoutMs cfg, ry_IdleTimeout = 0,
       ry_ExcludeFailedEndpoint = None, ry_Version = 0\<rparr>, ip_FallbackPolicy = None\<rparr>"

definition judge_child :: "SmartRoutingConfig \<Rightarrow> SmartContext \<Rightarrow> SmartContext" where
  "judge_child cfg child = child\<lparr>x_MaxResponseBytes := 64 * 1024, x_Buffer := (x_Buffer child)\<lparr>sb_limit := 64 * 1024\<rparr>,
     x_g := (x_g child)\<lparr>g_Policy := map_option (\<lambda>p. p\<lparr>pl_InvocationPolicy := Some (judge_policy cfg)\<rparr>) (g_Policy (x_g child))\<rparr>\<rparr>"

definition context_bytes :: "('w, 'i) SmartEnv \<Rightarrow> SmartContext \<Rightarrow> string option" where
  "context_bytes env x = smartResponseBytes (g_UpstreamBody (x_g x)) (map_option (sm_encode env) (x_Response x)) (x_Buffer x)"

text \<open>A verdict of the judge: a score with its reason, an error, or an error that ends the request. All carry the reason for the record and the usage.\<close>

datatype verdict = Scored int | Unscored smart_error | Terminal smart_error

definition read_judgment :: "('w, 'i) SmartEnv \<Rightarrow> SmartContext \<Rightarrow> verdict \<times> string \<times> SmartJudgeUsage option" where
  "read_judgment env child = (case context_bytes env child of
       None \<Rightarrow> (Unscored (JudgeInvalid ''invalid judge response''), ''judge_invalid_response'', None)
     | Some data \<Rightarrow> if int (length data) > x_MaxResponseBytes child
         then (Unscored (JudgeInvalid ''invalid judge response''), ''judge_invalid_response'', None)
         else (case sm_envelope env data of None \<Rightarrow> (Unscored (JudgeInvalid ''invalid judge completion''), ''judge_invalid_response'', None)
           | Some e \<Rightarrow> (case je_Choices e of
               [(content, finish)] \<Rightarrow>
                 if finish = ''length'' then (Unscored (JudgeInvalid ''truncated judge completion''), ''judge_invalid_response'', je_Usage e)
                 else (case parseSmartScore (sm_score env) content of
                     Inl err \<Rightarrow> (Unscored err, ''judge_invalid_score'', je_Usage e)
                   | Inr (score, reason) \<Rightarrow> (Scored score, reason, je_Usage e))
             | _ \<Rightarrow> (Unscored (JudgeInvalid ''invalid judge completion''), ''judge_invalid_response'', None))))"

text \<open>\<open>None\<close> is a panic of the judge's invoker.\<close>

definition classify :: "('w, 'i) SmartEnv \<Rightarrow> 'w child_limits \<times> 'w child_settle \<Rightarrow> SmartRoutingConfig \<Rightarrow> SmartContext \<Rightarrow> smartRequest \<Rightarrow> 'w \<Rightarrow>
    (verdict \<times> string \<times> SmartJudgeUsage option) option \<times> 'w" where
  "classify env acct cfg x req w = (case buildSmartJudgeRequest (sm_judge_body env) req cfg of
       Inl e \<Rightarrow> (Some (Unscored e, ''judge_input_limit'', None), w)
     | Inr body \<Rightarrow> (case parseSmartRequest (sm_decode env) RequestTypeChatCompletion body of
         Inl e \<Rightarrow> (Some (Unscored e, ''judge_invalid_request'', None), w)
       | Inr judgeReq \<Rightarrow> (case newChild env x (sc_JudgeModel cfg) body judgeReq w of
           Inl (_, e) \<Rightarrow> (Some (Unscored e, ''judge_unavailable'', None), w)
         | Inr child \<Rightarrow> (case child_invoke env acct (sm_judge_ctx env) (sm_judge env) (judge_child cfg child) w of
             (None, _, w') \<Rightarrow> (None, w')
           | (Some r, c', w') \<Rightarrow> (Some (case cr_settlementErr r of Some e \<Rightarrow> (Terminal e, ''judge_quota_error'', None)
               | None \<Rightarrow> (case cr_admissionErr r of Some e \<Rightarrow> (Terminal e, ''judge_limit_rejected'', None)
                 | None \<Rightarrow> (case cr_invokeErr r of
                     Some e \<Rightarrow> (Unscored e, if sm_judge_ctx env w' \<noteq> None then ''judge_timeout'' else ''judge_unavailable'', None)
                   | None \<Rightarrow> read_judgment env c'))), w')))))"

subsection \<open>The targets\<close>

definition smartRetryable :: "string option \<Rightarrow> GatewayContext \<Rightarrow> smart_error \<Rightarrow> bool" where
  "smartRetryable ctxErr g e = (if ctxErr \<noteq> None \<or> e = ChildInvoke ClientDisconnected \<or> g_FatalErr g \<noteq> None
       \<or> (case e of ChildInvoke ge \<Rightarrow> isExplicitlyNonRetryable ge | _ \<Rightarrow> False) then False
     else case g_UpstreamResponse g of Some r \<Rightarrow> hs_StatusCode r = 429 \<or> hs_StatusCode r \<ge> 500 | None \<Rightarrow> True)"

definition copySmartAnswer :: "('w, 'i) SmartEnv \<Rightarrow> SmartContext \<Rightarrow> SmartContext \<Rightarrow> SmartContext" where
  "copySmartAnswer env x child = (let gc = x_g child; uc = x_u child;
       g1 = (x_g x)\<lparr>g_SelectedEndpoint := g_SelectedEndpoint gc, g_UpstreamConnect := g_UpstreamConnect gc,
              g_UpstreamResponse := g_UpstreamResponse gc, g_UpstreamBody := g_UpstreamBody gc\<rparr>;
       x1 = x\<lparr>x_u := (x_u x)\<lparr>u_InputTokens := u_InputTokens uc, u_OutputTokens := u_OutputTokens uc, u_CachedTokens := u_CachedTokens uc,
              u_CacheCreationTokens := u_CacheCreationTokens uc\<rparr>, x_Response := x_Response child\<rparr>
     in x1\<lparr>x_g := (if x_Response child = None \<and> g_UpstreamBody gc = [] then
           (case context_bytes env child of Some data \<Rightarrow> g1\<lparr>g_UpstreamBody := data\<rparr> | None \<Rightarrow> g1) else g1)\<rparr>)"

definition upd_record :: "(SmartRoutingRecord \<Rightarrow> SmartRoutingRecord) \<Rightarrow> SmartContext \<Rightarrow> SmartContext" where
  "upd_record f x = x\<lparr>x_Record := map_option f (x_Record x)\<rparr>"

definition escalate :: "string \<Rightarrow> string \<Rightarrow> SmartContext \<Rightarrow> SmartContext" where
  "escalate model reason = upd_record (\<lambda>r. r\<lparr>sr_Escalations := sr_Escalations r @ [\<lparr>es_Model = model, es_Reason = reason\<rparr>]\<rparr>)"

text \<open>What a child call that was admitted and settled leaves in the parent.\<close>

definition note_call :: "string \<Rightarrow> SmartContext \<Rightarrow> SmartContext \<Rightarrow> SmartContext" where
  "note_call model child x = (upd_record (\<lambda>r. r\<lparr>sr_ExecutedModel := model\<rparr>) x)\<lparr>x_History := x_History x @ x_History child,
     x_g := (x_g x)\<lparr>g_AttemptCount := g_AttemptCount (x_g x) + g_AttemptCount (x_g child), g_FallbackChain := g_FallbackChain (x_g x) @ [model]\<rparr>\<rparr>"

definition match_model :: "string \<Rightarrow> SmartContext \<Rightarrow> SmartContext" where
  "match_model model = upd_record (\<lambda>r. if sr_MatchedModel r = '''' then r\<lparr>sr_MatchedModel := model\<rparr> else r)"

datatype outcome = Crashed | Answered "smart_error option"

text \<open>The loop over the models of the ranges still to try. The list of calls made holds the world each call started in.\<close>

fun smart_loop :: "('w, 'i) SmartEnv \<Rightarrow> 'w child_limits \<times> 'w child_settle \<Rightarrow> bool \<Rightarrow> smartRequest \<Rightarrow> string list \<Rightarrow> string set \<Rightarrow> smart_error \<Rightarrow>
    SmartContext \<Rightarrow> 'w \<Rightarrow> outcome \<times> (string \<times> 'w \<times> childCallResult option) list \<times> SmartContext \<times> 'w" where
  "smart_loop env acct judgeFailed req [] seen lastErr x w = (Answered (Some lastErr), [], x, w)"
| "smart_loop env acct judgeFailed req (model # models) seen lastErr x w =
     (case sm_ctx env w of Some e \<Rightarrow> (Answered (Some (SmartCtx e)), [], x, w)
      | None \<Rightarrow>
        if model \<in> seen then smart_loop env acct judgeFailed req models seen lastErr x w
        else (case newChild env x model (g_RawBody (x_g x)) req w of
            Inl (reason, e) \<Rightarrow> smart_loop env acct judgeFailed req models (insert model seen) e (escalate model reason x) w
          | Inr child \<Rightarrow> let x1 = match_model model x in
              (case child_invoke env acct (sm_ctx env) (sm_select env (x_g child)) child w of
                 (None, _, w') \<Rightarrow> (Crashed, [(model, w, None)], x1, w')
               | (Some r, c', w') \<Rightarrow>
                   if cr_admissionErr r \<noteq> None \<or> cr_settlementErr r \<noteq> None then (Answered (call_err r), [(model, w, Some r)], x1, w')
                   else let x2 = note_call model c' x1 in
                     (case call_err r of None \<Rightarrow> (Answered None, [(model, w, Some r)], copySmartAnswer env x2 c', w')
                      | Some e \<Rightarrow> let x3 = escalate model ''target_unavailable'' x2 in
                          if judgeFailed \<or> \<not> smartRetryable (sm_ctx env w') (x_g c') e then (Answered (Some e), [(model, w, Some r)], x3, w')
                          else (case smart_loop env acct judgeFailed req models (insert model seen) e x3 w' of
                              (res, calls, x', w'') \<Rightarrow> (res, (model, w, Some r) # calls, x', w''))))))"

text \<open>The models to try: from the range of the score upwards, or all of them from the highest down.\<close>

definition candidate_models :: "SmartRoutingRange list \<Rightarrow> int option \<Rightarrow> string list" where
  "candidate_models ranges index = (case index of Some i \<Rightarrow> map rg_Model (drop (nat i) ranges) | None \<Rightarrow> rev (map rg_Model ranges))"

definition no_target :: smart_error where
  "no_target = SmartHTTP 503 ''no available smart routing target''"

definition route_verdict :: "('w, 'i) SmartEnv \<Rightarrow> 'w child_limits \<times> 'w child_settle \<Rightarrow> SmartRoutingConfig \<Rightarrow> smartRequest \<Rightarrow> verdict \<Rightarrow> SmartContext \<Rightarrow> 'w \<Rightarrow>
    outcome \<times> (string \<times> 'w \<times> childCallResult option) list \<times> SmartContext \<times> 'w" where
  "route_verdict env acct cfg req v x w = (case v of
       Terminal e \<Rightarrow> (Answered (Some e), [], x, w)
     | Unscored _ \<Rightarrow> smart_loop env acct True req (candidate_models (sc_Ranges cfg) None) {} no_target x w
     | Scored score \<Rightarrow> let x1 = upd_record (\<lambda>r. r\<lparr>sr_Score := Some score\<rparr>) x; start = smartRangeIndex (sc_Ranges cfg) score in
         if start < 0 then (Answered (Some (SmartHTTP 503 ''invalid smart routing partition'')), [], x1, w)
         else smart_loop env acct False req (candidate_models (sc_Ranges cfg) (Some start)) {} no_target
           (upd_record (\<lambda>r. r\<lparr>sr_MatchedModel := rg_Model (sc_Ranges cfg ! nat start)\<rparr>) x1) w)"

text \<open>\<open>Invoke\<close>: whether the router handled the request, the outcome, and the calls to targets.\<close>

definition smart_Invoke :: "('w, 'i) SmartEnv \<Rightarrow> SmartContext \<Rightarrow> 'w \<Rightarrow>
    bool \<times> outcome \<times> (string \<times> 'w \<times> childCallResult option) list \<times> SmartContext \<times> 'w" where
  "smart_Invoke env x w = (case x_Config x of None \<Rightarrow> (False, Answered None, [], x, w)
     | Some cfg \<Rightarrow> (True, case sm_ctx env w of Some e \<Rightarrow> (Answered (Some (SmartCtx e)), [], x, w)
       | None \<Rightarrow> (case parseSmartRequest (sm_decode env) (g_RequestType (x_g x)) (g_RawBody (x_g x)) of
           Inl e \<Rightarrow> (Answered (Some e), [], x, w)
         | Inr req \<Rightarrow> (case childAccounting env of Inl e \<Rightarrow> (Answered (Some e), [], x, w)
           | Inr acct \<Rightarrow> (case classify env acct cfg x req w of
               (None, w1) \<Rightarrow> (Crashed, [], x, w1)
             | (Some (v, reason, usage), w1) \<Rightarrow>
                 let x1 = upd_record (\<lambda>r. r\<lparr>sr_JudgeUsage := usage\<rparr>) x in
                 (case sm_ctx env w1 of Some e \<Rightarrow> (Answered (Some (SmartCtx e)), [], x1, w1)
                  | None \<Rightarrow> route_verdict env acct cfg req v (upd_record (\<lambda>r. r\<lparr>sr_Reason := reason\<rparr>) x1) w1))))))"

subsection \<open>The calls of the loop\<close>

text \<open>A model may be called for a user: it is allowed, it is no smart model, and one of its endpoints has room for the request.\<close>

definition eligible :: "('w, 'i) SmartEnv \<Rightarrow> string \<Rightarrow> string \<Rightarrow> smartRequest \<Rightarrow> string \<Rightarrow> 'w \<Rightarrow> bool" where
  "eligible env tenant user req model w = (sm_validate env w model tenant user = Inr True \<and> sm_config env w model = Inr None
     \<and> (case sm_list env w model of Inr endpoints \<Rightarrow> list_ex (\<lambda>ep. smartEndpointCompatible ep req) endpoints | Inl _ \<Rightarrow> False))"

definition same_user :: "SmartContext \<Rightarrow> SmartContext \<Rightarrow> bool" where
  "same_user x y = (g_Tenant (x_g y) = g_Tenant (x_g x) \<and> g_UserID (x_g y) = g_UserID (x_g x) \<and> x_UserTenant y = x_UserTenant x)"

abbreviation tenant_of :: "SmartContext \<Rightarrow> string" where
  "tenant_of x \<equiv> (if g_Tenant (x_g x) = '''' then x_UserTenant x else g_Tenant (x_g x))"

lemma newChild_eligible: "newChild env x model body req w = Inr child \<Longrightarrow> eligible env (tenant_of x) (g_UserID (x_g x)) req model w"
  by (auto simp: newChild_def eligible_def Let_def split: if_splits sum.splits option.splits)

lemma same_user_updates [simp]:
  "same_user x x" "same_user x (escalate m r y) = same_user x y" "same_user x (match_model m y) = same_user x y" "same_user x (note_call m c y) = same_user x y"
  by (simp_all add: same_user_def escalate_def match_model_def note_call_def upd_record_def)

text \<open>A call that lets the loop go on: it was admitted and settled, and failed.\<close>

definition escalated :: "(string \<times> 'w \<times> childCallResult option) \<Rightarrow> bool" where
  "escalated c = (case snd (snd c) of Some r \<Rightarrow> cr_admissionErr r = None \<and> cr_settlementErr r = None \<and> call_err r \<noteq> None | None \<Rightarrow> False)"

definition answered :: "(string \<times> 'w \<times> childCallResult option) \<Rightarrow> bool" where
  "answered c = (case snd (snd c) of Some r \<Rightarrow> call_err r = None | None \<Rightarrow> False)"

definition loop_calls :: "('w, 'i) SmartEnv \<Rightarrow> bool \<Rightarrow> smartRequest \<Rightarrow> SmartContext \<Rightarrow> string list \<Rightarrow> string set \<Rightarrow> outcome \<Rightarrow>
    (string \<times> 'w \<times> childCallResult option) list \<Rightarrow> bool" where
  "loop_calls env judgeFailed req x models seen res calls = (subseq (map fst calls) models \<and> distinct (map fst calls) \<and> set (map fst calls) \<inter> seen = {}
     \<and> (judgeFailed \<longrightarrow> length calls \<le> 1) \<and> list_all escalated (butlast calls) \<and> (res = Answered None \<longleftrightarrow> calls \<noteq> [] \<and> answered (last calls))
     \<and> list_all (\<lambda>(m, w, _). eligible env (tenant_of x) (g_UserID (x_g x)) req m w) calls)"

lemma loop_calls_Nil: "res \<noteq> Answered None \<Longrightarrow> loop_calls env jf req x models seen res []"
  by (simp add: loop_calls_def)

lemma loop_calls_skip: "loop_calls env jf req x models (insert m seen) res calls \<or> loop_calls env jf req x models seen res calls
    \<Longrightarrow> loop_calls env jf req x (m # models) seen res calls"
  by (auto simp: loop_calls_def)

lemma loop_calls_one:
  assumes "m \<notin> seen" and "res = Answered None \<longleftrightarrow> answered (m, w, r)" and "eligible env (tenant_of x) (g_UserID (x_g x)) req m w"
  shows "loop_calls env jf req x (m # models) seen res [(m, w, r)]"
  using assms by (simp add: loop_calls_def)

lemma loop_calls_Cons:
  assumes "m \<notin> seen" and "\<not> jf" and "escalated (m, w, r)" and "eligible env (tenant_of x) (g_UserID (x_g x)) req m w"
    and "loop_calls env jf req x models (insert m seen) res calls"
  shows "loop_calls env jf req x (m # models) seen res ((m, w, r) # calls)"
  using assms by (cases "calls = []") (auto simp: loop_calls_def escalated_def answered_def split: option.splits)

lemma smart_loop_calls:
  assumes "smart_loop env acct jf req models seen lastErr x w = (res, calls, x', w')" and "same_user x0 x"
  shows "loop_calls env jf req x0 models seen res calls"
  using assms
proof (induction models arbitrary: seen lastErr x w calls)
  case Nil
  then show ?case by (auto intro: loop_calls_Nil)
next
  case (Cons m models)
  show ?case
  proof (cases "sm_ctx env w = None \<and> m \<notin> seen")
    case False
    then show ?thesis
      using Cons.prems Cons.IH by (auto split: option.splits if_splits intro: loop_calls_Nil loop_calls_skip)
  next
    case True
    show ?thesis
    proof (cases "newChild env x m (g_RawBody (x_g x)) req w")
      case (Inl e)
      then show ?thesis
        using Cons.prems Cons.IH[of "insert m seen" "snd e" "escalate m (fst e) x" w calls] True by (cases e) (auto intro: loop_calls_skip)
    next
      case (Inr child)
      have el: "eligible env (tenant_of x0) (g_UserID (x_g x0)) req m w"
        using newChild_eligible[OF Inr] Cons.prems(2) by (auto simp: same_user_def split: if_splits)
      obtain r c' w1 where ci: "child_invoke env acct (sm_ctx env) (sm_select env (x_g child)) child w = (r, c', w1)" by (rule prod_cases3)
      show ?thesis
      proof (cases "\<exists>rr e. r = Some rr \<and> cr_admissionErr rr = None \<and> cr_settlementErr rr = None \<and> call_err rr = Some e
          \<and> \<not> jf \<and> smartRetryable (sm_ctx env w1) (x_g c') e")
        case going: True
        then obtain rr e where rr: "r = Some rr" "cr_admissionErr rr = None" "cr_settlementErr rr = None" "call_err rr = Some e"
            "\<not> jf" "smartRetryable (sm_ctx env w1) (x_g c') e" by blast
        obtain calls' where rest: "smart_loop env acct jf req models (insert m seen) e (escalate m ''target_unavailable'' (note_call m c' (match_model m x))) w1
            = (res, calls', x', w')" and calls: "calls = (m, w, r) # calls'"
          using Cons.prems(1) True Inr ci rr by (auto simp: Let_def split: prod.splits)
        have "escalated (m, w, r)" using rr by (simp add: escalated_def)
        then show ?thesis
          unfolding calls using True rr(5) el Cons.IH[OF rest] Cons.prems(2) by (intro loop_calls_Cons) auto
      next
        case False
        then have "calls = [(m, w, r)] \<and> (res = Answered None \<longleftrightarrow> answered (m, w, r))"
          using Cons.prems(1) True Inr ci by (auto simp: Let_def answered_def call_err_def split: option.splits if_splits)
        then show ?thesis using True el by (auto intro: loop_calls_one)
      qed
    qed
  qed
qed

subsection \<open>The whole invocation\<close>

lemma read_judgment_score: "read_judgment env child = (Scored score, reason, usage) \<Longrightarrow> 0 \<le> score \<and> score \<le> 100"
  by (auto simp: read_judgment_def split: option.splits if_splits list.splits prod.splits sum.splits dest: accepted_judgment)

lemma classify_score:
  assumes "classify env acct cfg x req w = (Some (Scored score, reason, usage), w')"
  shows "0 \<le> score \<and> score \<le> 100"
  using assms read_judgment_score[of env _ score reason usage]
  by (auto simp: classify_def split: sum.splits prod.splits option.splits)

lemma same_user_record [simp]: "same_user x (upd_record f y) = same_user x y"
  by (simp add: same_user_def upd_record_def)

text \<open>The calls of an invocation are the calls of one loop, with or without a score.\<close>

lemma smart_Invoke_calls:
  assumes run: "smart_Invoke env x w = (True, res, calls, x', w')" and cfg: "x_Config x = Some cfg"
  shows "(res \<noteq> Answered None \<and> calls = []) \<or> (\<exists>req index. parseSmartRequest (sm_decode env) (g_RequestType (x_g x)) (g_RawBody (x_g x)) = Inr req
     \<and> (index = None \<or> (\<exists>score. 0 \<le> score \<and> score \<le> 100 \<and> index = Some (smartRangeIndex (sc_Ranges cfg) score)))
     \<and> loop_calls env (index = None) req x (candidate_models (sc_Ranges cfg) index) {} res calls)"
proof (cases "\<exists>req acct. sm_ctx env w = None \<and> parseSmartRequest (sm_decode env) (g_RequestType (x_g x)) (g_RawBody (x_g x)) = Inr req \<and> childAccounting env = Inr acct")
  case False
  then show ?thesis using run cfg by (auto simp: smart_Invoke_def split: option.splits sum.splits)
next
  case True
  then obtain req acct where c: "sm_ctx env w = None" "parseSmartRequest (sm_decode env) (g_RequestType (x_g x)) (g_RawBody (x_g x)) = Inr req"
      "childAccounting env = Inr acct" by blast
  obtain j w1 where j: "classify env acct cfg x req w = (j, w1)" by fastforce
  show ?thesis
  proof (cases "j = None \<or> sm_ctx env w1 \<noteq> None")
    case True
    then show ?thesis using run cfg c j by (auto simp: smart_Invoke_def split: option.splits prod.splits)
  next
    case False
    then obtain v reason usage where v: "j = Some (v, reason, usage)" and nc: "sm_ctx env w1 = None" by (cases j) auto
    define x1 where "x1 = upd_record (\<lambda>r. r\<lparr>sr_Reason := reason\<rparr>) (upd_record (\<lambda>r. r\<lparr>sr_JudgeUsage := usage\<rparr>) x)"
    have rv: "route_verdict env acct cfg req v x1 w1 = (res, calls, x', w')"
      using run cfg c j v nc by (simp add: smart_Invoke_def x1_def Let_def)
    have su: "same_user x x1" by (simp add: x1_def)
    show ?thesis
    proof (cases v)
      case (Scored score)
      then have s: "0 \<le> score \<and> score \<le> 100" using classify_score[of env acct cfg x req w score reason usage w1] j v by simp
      show ?thesis
      proof (cases "smartRangeIndex (sc_Ranges cfg) score < 0")
        case True
        then show ?thesis using rv Scored by (auto simp: route_verdict_def Let_def)
      next
        case False
        then have "loop_calls env False req x (candidate_models (sc_Ranges cfg) (Some (smartRangeIndex (sc_Ranges cfg) score))) {} res calls"
          using rv Scored su smart_loop_calls[of env acct False req _ "{}" no_target _ w1 res calls x' w' x] by (simp add: route_verdict_def Let_def)
        then show ?thesis using c(2) s by (intro disjI2 exI[of _ req] exI[of _ "Some (smartRangeIndex (sc_Ranges cfg) score)"]) auto
      qed
    next
      case (Unscored e)
      then have "loop_calls env True req x (candidate_models (sc_Ranges cfg) None) {} res calls"
        using rv su smart_loop_calls[of env acct True req _ "{}" no_target x1 w1 res calls x' w' x] by (simp add: route_verdict_def)
      then show ?thesis using c(2) by (intro disjI2 exI[of _ req] exI[of _ None]) simp
    next
      case (Terminal e)
      then show ?thesis using rv by (auto simp: route_verdict_def)
    qed
  qed
qed

subsection \<open>The gateway's own filters and invokers\<close>

text \<open>The capacity router before the routers of the invokers that have any.\<close>

definition with_capacity :: "(string \<Rightarrow> (string \<rightharpoonup> string \<times> json) option) \<Rightarrow> 'l ClusterEnv \<Rightarrow> 'l ClusterEnv" where
  "with_capacity dec env = env\<lparr>ce_routers := (\<lambda>a g. (\<lambda>eps m. (smartCapacityRouter_Route dec g eps, m)) # ce_routers env a g)\<rparr>"

datatype 'l target = ClusterTarget "'l ClusterEnv" | HedgingTarget "'l ClusterEnv" "'l target" | OtherTarget

fun capacityCheckedInvoker :: "(string \<Rightarrow> (string \<rightharpoonup> string \<times> json) option) \<Rightarrow> 'l target \<Rightarrow> 'l target option" where
  "capacityCheckedInvoker dec (ClusterTarget env) = Some (ClusterTarget (with_capacity dec env))"
| "capacityCheckedInvoker dec (HedgingTarget env fallback) = map_option (HedgingTarget (with_capacity dec env)) (capacityCheckedInvoker dec fallback)"
| "capacityCheckedInvoker dec OtherTarget = None"

interpretation capacity: router "\<lambda>eps m. (smartCapacityRouter_Route dec g eps, m)" for dec g
  by unfold_locales (simp add: smartCapacityRouter_Route_def split: sum.split)

text \<open>Whatever the routers behind it do, a capacity-checked invoker is left with endpoints that have room for the request.\<close>

lemma capacity_checked_candidates:
  assumes "\<And>r. r \<in> set (ce_routers env a g) \<Longrightarrow> router r"
    and "ep \<in> set (fst (router_chain (ce_routers (with_capacity dec env) a g) eps m))"
  shows "\<exists>req. parseSmartRequest dec (g_RequestType g) (g_RawBody g) = Inr req \<and> smartEndpointCompatible (Some ep) req"
proof -
  have "ep \<in> set (smartCapacityRouter_Route dec g eps)"
    using assms(2) list_emb_set[OF router_chain_subseq[of "ce_routers env a g" "smartCapacityRouter_Route dec g eps" m], of ep] assms(1)
    by (auto simp: with_capacity_def split: if_splits)
  then show ?thesis by (cases "parseSmartRequest dec (g_RequestType g) (g_RawBody g)") (auto simp: smartCapacityRouter_Route_def)
qed

definition gateway_limits :: "(duration \<Rightarrow> string) \<Rightarrow> (string \<Rightarrow> string \<Rightarrow> int option) \<Rightarrow> (nat \<Rightarrow> nat \<times> nat) \<Rightarrow> (nat \<Rightarrow> string option) \<Rightarrow> (LimitPolicy \<Rightarrow> instant) \<Rightarrow>
    'l World child_limits" where
  "gateway_limits dstr tik lag ctxDone now x w = (case RateLimitFilter_OnRequest dstr tik lag ctxDone now (x_g x) (x_u x, w_store w) of
     (e, g, (u, s)) \<Rightarrow> (e, x\<lparr>x_g := g, x_u := u\<rparr>, w\<lparr>w_store := s\<rparr>))"

definition gateway_settle :: "instant \<Rightarrow> 'l World child_settle" where
  "gateway_settle now x w = (case SettleLimits (x_g x) now (x_u x) (w_store w) of (u, s) \<Rightarrow> (None, x\<lparr>x_u := u\<rparr>, w\<lparr>w_store := s\<rparr>))"

text \<open>A cluster target runs the modelled invoker, on a history of its own; the usage the provider reports, and the other kinds of invokers,
  are arguments.\<close>

definition target_run :: "(GatewayContext \<Rightarrow> Usage \<Rightarrow> Usage) \<Rightarrow> ('l target \<Rightarrow> SmartContext \<Rightarrow> 'l World \<Rightarrow> call_result \<times> SmartContext \<times> 'l World) \<Rightarrow>
    'l target \<Rightarrow> SmartContext \<Rightarrow> 'l World \<Rightarrow> call_result \<times> SmartContext \<times> 'l World" where
  "target_run report other t x w = (case t of ClusterTarget env \<Rightarrow>
       (case ClusterInvoker_Invoke env (x_g x) (w\<lparr>w_History := x_History x\<rparr>) of (r, g, w') \<Rightarrow>
          (r, x\<lparr>x_g := g, x_u := report g (x_u x), x_History := w_History w'\<rparr>, w'\<lparr>w_History := w_History w\<rparr>))
     | _ \<Rightarrow> other t x w)"

subsection \<open>Properties\<close>


text \<open>(C13) A target is called only for a user who may use the model, only if it is an ordinary model, and only if one of its endpoints has room for the
  request.\<close>

theorem smart_targets_are_eligible:
  assumes "smart_Invoke env x w = (True, res, calls, x', w')" and "x_Config x = Some cfg" and "(model, w0, r) \<in> set calls"
  shows "\<exists>req. parseSmartRequest (sm_decode env) (g_RequestType (x_g x)) (g_RawBody (x_g x)) = Inr req
     \<and> eligible env (if g_Tenant (x_g x) = '''' then x_UserTenant x else g_Tenant (x_g x)) (g_UserID (x_g x)) req model w0"
proof -
  obtain req index where "parseSmartRequest (sm_decode env) (g_RequestType (x_g x)) (g_RawBody (x_g x)) = Inr req"
      "loop_calls env (index = None) req x (candidate_models (sc_Ranges cfg) index) {} res calls"
    using smart_Invoke_calls[OF assms(1,2)] assms(3) by auto
  then show ?thesis using assms(3) by (auto simp: loop_calls_def list_all_iff)
qed

lemma child_invoke_settles:
  "child_invoke env acct ctx invoke child w = (Some r, child', w')
   \<Longrightarrow> \<exists>c2 w2 serr. snd acct c2 w2 = (serr, child', w') \<and> cr_settlementErr r = map_option ChildSettle serr"
  by (fastforce simp: child_invoke_def Let_def split: prod.splits sum.splits)


subsection \<open>Witnesses\<close>

text \<open>A judge that scores every request 10, a small model that fails, and a big one that answers; the world counts the calls.\<close>

definition demo_members :: "string \<rightharpoonup> string \<times> json" where
  "demo_members = [''messages'' \<mapsto> (''[]'', JArr [JObj [(''role'', JStr ''user''), (''content'', JStr ''hi'')]])]"

definition demo_smart :: "(nat, unit) SmartEnv" where
  "demo_smart = \<lparr>sm_config = (\<lambda>_ _. Inr None), sm_validate = (\<lambda>_ _ _ _. Inr True), sm_policies = None,
     sm_list = (\<lambda>_ _. Inr [Some (zero_endpoint\<lparr>ep_RequestTypes := [RequestTypeChatCompletion]\<rparr>)]), sm_ctx = (\<lambda>_. None), sm_judge_ctx = (\<lambda>_. None), sm_auth = None,
     sm_limits = Some (\<lambda>x w. (None, x, w)), sm_settle = Some (\<lambda>x w. (None, x, w)), sm_judge = (), sm_select = (\<lambda>_. ()), sm_check = Some,
     sm_run = (\<lambda>_ x w. (Returned (if g_Model (x_g x) = ''small'' then Some (UpstreamFailed ''overloaded'' False) else None), x, w + 1)),
     sm_decode = (\<lambda>_. Some demo_members), sm_judge_body = (\<lambda>_ _. Some ''{}''), sm_envelope = (\<lambda>_. Some \<lparr>je_Choices = [('''', ''stop'')], je_Usage = None\<rparr>),
     sm_score = (\<lambda>_. Some (Some 10, False, ''easy'')), sm_encode = (\<lambda>_. None), sm_replace = (\<lambda>b _. b)\<rparr>"

definition demo_request :: SmartContext where
  "demo_request = \<lparr>x_g = zero_context\<lparr>g_RequestType := RequestTypeChatCompletion, g_Model := ''smart''\<rparr>, x_u = zero_usage, x_UserTenant = '''', x_Config = Some demo_config,
     x_Record = None, x_Sensitive = True, x_History = [], x_Response = None, x_Buffer = newSmartResponseBuffer, x_MaxResponseBytes = 0, x_Err = None\<rparr>"

definition demo_invocation :: "bool \<times> outcome \<times> (string \<times> nat \<times> childCallResult option) list \<times> SmartContext \<times> nat" where
  "demo_invocation = smart_Invoke demo_smart demo_request 0"

abbreviation "demo_calls \<equiv> fst (snd (snd demo_invocation))"

lemma demo_invocation_run: "fst demo_invocation \<and> fst (snd demo_invocation) = Answered None \<and> map (\<lambda>(m, w, _). (m, w)) demo_calls = [(''small'', 1), (''big'', 2)]"
  by code_simp

lemma demo_invocation_eq:
  "smart_Invoke demo_smart demo_request 0 = (True, fst (snd demo_invocation), demo_calls, fst (snd (snd (snd demo_invocation))), snd (snd (snd (snd demo_invocation))))"
  using demo_invocation_run unfolding demo_invocation_def[symmetric] by (simp add: prod_eq_iff)

lemma demo_request_config: "x_Config demo_request = Some demo_config"
  by (simp add: demo_request_def)


theorem smart_targets_are_eligible_witness:
  "\<exists>r req. (''big'', 2, r) \<in> set demo_calls \<and> eligible demo_smart '''' '''' req ''big'' 2"
proof -
  have "(''big'', 2) \<in> set (map (\<lambda>(m, w, _). (m, w)) demo_calls)" using demo_invocation_run by simp
  then obtain r where r: "(''big'', 2, r) \<in> set demo_calls" by auto
  then show ?thesis
    using smart_targets_are_eligible[OF demo_invocation_eq demo_request_config r] by (auto simp: demo_request_def zero_context_def)
qed

text \<open>A child limited to requests per window, on the gateway's store, rejected by a context that is already done.\<close>

definition demo_child :: SmartContext where
  "demo_child = demo_request\<lparr>x_g := tracked_context, x_u := demo_usage []\<rparr>"

definition demo_child_call :: "childCallResult option \<times> SmartContext \<times> unit World" where
  "demo_child_call = child_invoke \<lparr>sm_config = (\<lambda>_ _. Inr None), sm_validate = (\<lambda>_ _ _ _. Inr True), sm_policies = None, sm_list = (\<lambda>_ _. Inr []),
     sm_ctx = (\<lambda>_. Some ''gone''), sm_judge_ctx = (\<lambda>_. None), sm_auth = None, sm_limits = None, sm_settle = None, sm_judge = (), sm_select = (\<lambda>_. ()), sm_check = Some,
     sm_run = (\<lambda>_ x w. (Returned None, x, w)), sm_decode = (\<lambda>_. None), sm_judge_body = (\<lambda>_ _. None), sm_envelope = (\<lambda>_. None), sm_score = (\<lambda>_. None),
     sm_encode = (\<lambda>_. None), sm_replace = (\<lambda>b _. b)\<rparr>
     (gateway_limits demo_dstr (\<lambda>_ _. None) (\<lambda>_. (0, 0)) (\<lambda>_. None) (\<lambda>_. second), gateway_settle second) (\<lambda>_. Some ''gone'') () demo_child
     \<lparr>w_cbm = NewCircuitBreakerManager, w_store = NewMemoryStateStore, w_lb = (), w_History = []\<rparr>"


end
