(* ===== verification/Tool_Schema.thy ===== *)
theory Tool_Schema
  imports Json
begin

text \<open>
  The cleaning of the JSON schemas of tools: \<open>cleanJSONSchema\<close> and \<open>isObjectSchema\<close> of \<open>src/pkg/llm/translate/helpers.go\<close>. A schema is
  a decoded object; the map the code builds is the list of its entries.

  The theorems: cleaning leaves no rejected keyword in any schema it reaches and gives every object schema a list of required names, and
  a clean schema is left as it is. It does not tell a keyword from a parameter that has the name of one.
\<close>

subsection \<open>Maps\<close>

text \<open>\<open>m[k] = v\<close> and \<open>delete(m, k)\<close> on the entries of a map.\<close>

fun jset :: "string \<Rightarrow> json \<Rightarrow> (string \<times> json) list \<Rightarrow> (string \<times> json) list" where
  "jset k v [] = [(k, v)]"
| "jset k v (e # kvs) = (if fst e = k then (k, v) # kvs else e # jset k v kvs)"

definition jdel :: "string \<Rightarrow> (string \<times> json) list \<Rightarrow> (string \<times> json) list" where
  "jdel k kvs = filter (\<lambda>e. fst e \<noteq> k) kvs"

lemma map_of_jset [simp]: "map_of (jset k v kvs) = (map_of kvs)(k \<mapsto> v)"
  by (induction kvs) (auto simp: fun_eq_iff)

lemma map_of_jdel [simp]: "map_of (jdel k kvs) = (map_of kvs)(k := None)"
  by (induction kvs) (auto simp: jdel_def fun_eq_iff)

lemma keys_jset [simp]: "fst ` set (jset k v kvs) = insert k (fst ` set kvs)"
  by (induction kvs) auto

lemma set_jset: "set (jset k v kvs) \<subseteq> insert (k, v) (set kvs)"
  by (induction kvs) auto

lemma jset_distinct [simp]: "distinct (map fst (jset k v kvs)) = distinct (map fst kvs)"
proof (induction kvs)
  case (Cons e kvs)
  have "fst e \<in> fst ` set (jset k v kvs) \<longleftrightarrow> fst e = k \<or> fst e \<in> fst ` set kvs" by simp
  with Cons show ?case by (auto simp del: keys_jset)
qed simp

subsection \<open>Cleaning\<close>

definition schema_keywords :: "string list" where
  "schema_keywords = [''$schema'', ''propertyNames'', ''minItems'', ''maxItems'', ''minLength'', ''maxLength'', ''default'', ''pattern'']"

definition skipped_key :: "bool \<Rightarrow> string \<Rightarrow> json \<Rightarrow> bool" where
  "skipped_key removeAdditionalProps k v \<longleftrightarrow> k \<in> set schema_keywords \<or> k = ''additionalProperties'' \<and> removeAdditionalProps \<or> k = ''required'' \<and> v = JNull"

definition isObjectSchema :: "(string \<times> json) list \<Rightarrow> bool" where
  "isObjectSchema m \<longleftrightarrow> map_of m ''type'' = Some (JStr ''object'') \<or> map_of m ''properties'' \<noteq> None"

text \<open>The end of the function: an object schema without a list of required names gets an empty one.\<close>

definition with_required :: "(string \<times> json) list \<Rightarrow> (string \<times> json) list" where
  "with_required res = (if isObjectSchema res \<and> jlist (map_of res ''required'') = None then jset ''required'' (JArr []) res else res)"

text \<open>The items of an array that are objects are cleaned, arrays in arrays are not looked into; what is no object is its own result.\<close>

fun cleanJSONSchema :: "bool \<Rightarrow> json \<Rightarrow> json"
  and clean_entries :: "bool \<Rightarrow> (string \<times> json) list \<Rightarrow> (string \<times> json) list"
  and clean_items :: "bool \<Rightarrow> json list \<Rightarrow> json list" where
  "cleanJSONSchema rm (JObj m) = JObj (with_required (clean_entries rm m))"
| "cleanJSONSchema rm j = j"
| "clean_entries rm [] = []"
| "clean_entries rm ((k, v) # m) =
     (if skipped_key rm k v then clean_entries rm m
      else (k, case v of JArr items \<Rightarrow> JArr (clean_items rm items) | _ \<Rightarrow> cleanJSONSchema rm v) # clean_entries rm m)"
| "clean_items rm [] = []"
| "clean_items rm (j # js) = cleanJSONSchema rm j # clean_items rm js"

subsection \<open>Clean schemas\<close>

text \<open>What the upstream may be sent: no keyword it rejects, and a list of required names in every object schema.\<close>

definition rejected :: "bool \<Rightarrow> string \<Rightarrow> json \<Rightarrow> bool" where
  "rejected rm k v \<longleftrightarrow> k \<in> {''$schema'', ''propertyNames'', ''minItems'', ''maxItems'', ''minLength'', ''maxLength'', ''default'', ''pattern''}
     \<or> rm \<and> k = ''additionalProperties'' \<or> k = ''required'' \<and> v = JNull"

definition entries_ok :: "bool \<Rightarrow> (string \<times> json) list \<Rightarrow> bool" where
  "entries_ok rm m \<longleftrightarrow> list_all (\<lambda>(k, v). \<not> rejected rm k v) m
     \<and> (map_of m ''type'' = Some (JStr ''object'') \<or> map_of m ''properties'' \<noteq> None \<longrightarrow> (\<exists>names. map_of m ''required'' = Some (JArr names)))"

fun schema_ok :: "bool \<Rightarrow> json \<Rightarrow> bool"
  and values_ok :: "bool \<Rightarrow> (string \<times> json) list \<Rightarrow> bool"
  and items_ok :: "bool \<Rightarrow> json list \<Rightarrow> bool" where
  "schema_ok rm (JObj m) = (entries_ok rm m \<and> values_ok rm m)"
| "schema_ok rm j = True"
| "values_ok rm [] = True"
| "values_ok rm ((k, v) # m) = ((case v of JArr items \<Rightarrow> items_ok rm items | _ \<Rightarrow> schema_ok rm v) \<and> values_ok rm m)"
| "items_ok rm [] = True"
| "items_ok rm (j # js) = (schema_ok rm j \<and> items_ok rm js)"

lemma entries_ok_alt:
  "entries_ok rm m \<longleftrightarrow> list_all (\<lambda>(k, v). \<not> skipped_key rm k v) m \<and> (isObjectSchema m \<longrightarrow> jlist (map_of m ''required'') \<noteq> None)"
proof -
  have "rejected rm k v = skipped_key rm k v" for k v by (auto simp: rejected_def skipped_key_def schema_keywords_def)
  moreover have "jlist (map_of m ''required'') \<noteq> None \<longleftrightarrow> (\<exists>names. map_of m ''required'' = Some (JArr names))"
    by (auto simp: jlist_def split: option.splits json.splits)
  ultimately show ?thesis by (simp add: entries_ok_def isObjectSchema_def)
qed

lemma values_ok_jset: "values_ok rm m \<Longrightarrow> values_ok rm (jset ''required'' (JArr []) m)"
  by (induction m) auto

lemma list_all_jset: "list_all P m \<Longrightarrow> P (k, v) \<Longrightarrow> list_all P (jset k v m)"
  by (induction m) auto

lemma required_kept: "\<not> skipped_key rm ''required'' (JArr [])"
  by (simp add: skipped_key_def schema_keywords_def)

lemma isObjectSchema_required: "isObjectSchema (jset ''required'' v m) = isObjectSchema m"
  by (simp add: isObjectSchema_def)

lemma with_required_ok:
  assumes "list_all (\<lambda>(k, v). \<not> skipped_key rm k v) m" "values_ok rm m"
  shows "entries_ok rm (with_required m) \<and> values_ok rm (with_required m)"
  using assms list_all_jset[of "\<lambda>(k, v). \<not> skipped_key rm k v" m "''required''" "JArr []"] required_kept[of rm] values_ok_jset
  by (auto simp: with_required_def entries_ok_alt isObjectSchema_required)

text \<open>A value that is kept stays one that is kept: only null is special, and cleaning gives null for null only.\<close>

lemma cleaned_not_null: "cleanJSONSchema rm v = JNull \<longleftrightarrow> v = JNull"
  by (cases v) auto

lemma skipped_cleaned:
  "skipped_key rm k (case v of JArr items \<Rightarrow> JArr (clean_items rm items) | _ \<Rightarrow> cleanJSONSchema rm v) = skipped_key rm k v"
  by (cases v) (auto simp: skipped_key_def)

lemma entries_not_skipped: "list_all (\<lambda>(k, v). \<not> skipped_key rm k v) (clean_entries rm m)"
  by (induction m) (auto simp: skipped_cleaned)

lemma cleaned_ok:
  "schema_ok rm (cleanJSONSchema rm j)" "values_ok rm (clean_entries rm m)" "items_ok rm (clean_items rm js)"
proof (induction rm j and rm m and rm js rule: cleanJSONSchema_clean_entries_clean_items.induct)
  case (1 rm m)
  then show ?case using with_required_ok[OF entries_not_skipped] by simp
next
  case (4 rm k v m)
  then show ?case by (cases v) auto
qed auto

lemma ok_unchanged:
  "schema_ok rm j \<Longrightarrow> cleanJSONSchema rm j = j"
  "list_all (\<lambda>(k, v). \<not> skipped_key rm k v) m \<Longrightarrow> values_ok rm m \<Longrightarrow> clean_entries rm m = m"
  "items_ok rm js \<Longrightarrow> clean_items rm js = js"
proof (induction rm j and rm m and rm js rule: cleanJSONSchema_clean_entries_clean_items.induct)
  case (1 rm m)
  then show ?case by (auto simp: entries_ok_alt with_required_def)
next
  case (4 rm k v m)
  then show ?case by (cases v) auto
qed auto

text \<open>(C29) Cleaning the schema of a tool leaves no schema with a rejected keyword, with a null list of required names, or with an object
  schema that lacks the list, wherever the function looks; a schema that was already so is not changed, so that cleaning twice is cleaning
  once.\<close>

theorem cleaned_schema_is_accepted:
  "schema_ok rm (cleanJSONSchema rm j) \<and> (cleanJSONSchema rm j = j \<longleftrightarrow> schema_ok rm j)
   \<and> cleanJSONSchema rm (cleanJSONSchema rm j) = cleanJSONSchema rm j"
proof -
  have ok: "schema_ok rm (cleanJSONSchema rm j)" by (rule cleaned_ok)
  moreover have "cleanJSONSchema rm j = j \<longleftrightarrow> schema_ok rm j"
  proof
    assume "cleanJSONSchema rm j = j"
    with ok show "schema_ok rm j" by simp
  next
    assume "schema_ok rm j"
    then show "cleanJSONSchema rm j = j" by (rule ok_unchanged)
  qed
  ultimately show ?thesis using ok_unchanged(1) by blast
qed

text \<open>The map of the parameters is cleaned like a schema: a parameter called \<open>pattern\<close> is dropped, while the list of required names
  still asks for it.\<close>

theorem parameter_named_like_keyword_is_dropped:
  "cleanJSONSchema True (JObj [(''type'', JStr ''object''), (''properties'', JObj [(''pattern'', JObj [(''type'', JStr ''string'')])]),
       (''required'', JArr [JStr ''pattern''])])
   = JObj [(''type'', JStr ''object''), (''properties'', JObj []), (''required'', JArr [JStr ''pattern''])]"
  by code_simp

end
