(* ===== verification/Chat_Requests.thy ===== *)
theory Chat_Requests
  imports Tool_Schema Messages_Chat_Stream Sse_Parser
begin

text \<open>
  The translation of whole requests between the Messages and the Chat Completions protocol: \<open>MessagesRequestToChat\<close>,
  \<open>ChatRequestToMessages\<close> and \<open>CorrectNativeMessagesRequest\<close> of \<open>src/pkg/llm/translate/messages_chat.go\<close> with
  \<open>degradeMessagesToTextOnly\<close> and \<open>cleanSystemPrompt\<close> of \<open>helpers.go\<close>. A request is what decoding its body gives (\<open>None\<close> when that
  fails, \<open>JNull\<close> for the nil map), and the result is the value that is encoded. The arguments of a tool call are JSON text inside the
  message: \<open>enc\<close> and \<open>dec\<close> stand for \<open>json.Marshal\<close> and \<open>json.Unmarshal\<close> on them.

  The theorems: a conversation with tools translated to Chat Completions and back is the conversation it was; what a third-party upstream
  gets holds plain text only, in turns; and the limits on tools and tokens are kept.
\<close>

subsection \<open>Reading\<close>

datatype translate_error = ParseError | NilMapPanic

text \<open>A slice built by \<open>append\<close> from nil is encoded as null when nothing was appended.\<close>

definition jslice :: "json list \<Rightarrow> json" where
  "jslice js = (if js = [] then JNull else JArr js)"

definition jval :: "json option \<Rightarrow> json" where
  "jval v = (case v of Some j \<Rightarrow> j | None \<Rightarrow> JNull)"

text \<open>\<open>m[k].(map[string]interface{})\<close>, the nil map if it is something else.\<close>

definition jsub :: "string \<Rightarrow> json \<Rightarrow> json" where
  "jsub k j = jval (jobj (jget k j))"

definition is_obj :: "json \<Rightarrow> bool" where
  "is_obj j = (case j of JObj _ \<Rightarrow> True | _ \<Rightarrow> False)"

text \<open>\<open>strings.Split\<close> for a separator that is not empty.\<close>

fun str_split :: "string \<Rightarrow> string \<Rightarrow> string \<Rightarrow> string list" where
  "str_split sep acc [] = [rev acc]"
| "str_split sep acc (c # s) = (if prefix sep (c # s) then rev acc # str_split sep [] (drop (length sep - 1) s) else str_split sep (c # acc) s)"

text \<open>The text of the parts of type \<open>text\<close> of a content: a string is its own text.\<close>

definition text_part :: "json \<Rightarrow> string option" where
  "text_part part = (if is_obj part \<and> jget ''type'' part = Some (JStr ''text'')
     then (case jget ''text'' part of Some (JStr s) \<Rightarrow> Some s | _ \<Rightarrow> None) else None)"

definition content_text :: "json option \<Rightarrow> string" where
  "content_text v = (case v of Some (JStr s) \<Rightarrow> s | Some (JArr parts) \<Rightarrow> str_join [LF] (List.map_filter text_part parts) | _ \<Rightarrow> '''')"

definition cleanSystemPrompt :: "string \<Rightarrow> string" where
  "cleanSystemPrompt prompt = str_join [LF] (filter (\<lambda>line. \<not> prefix ''x-anthropic-'' (TrimSpace line)) (split_lines prompt))"

subsection \<open>Messages to Chat: messages\<close>

definition anthropicImageToOpenAIURL :: "json \<Rightarrow> string" where
  "anthropicImageToOpenAIURL block =
     (let source = jsub ''source'' block; t = jstr (jget ''type'' source)
      in if t = ''base64'' then
           (let mediaType = jstr (jget ''media_type'' source); data = jstr (jget ''data'' source)
            in if data = '''' then ''''
               else ''data:'' @ (if mediaType = '''' then ''image/png'' else mediaType) @ '';base64,'' @ data)
         else if t = ''url'' then jstr (jget ''url'' source)
         else '''')"

definition image_url_part :: "string \<Rightarrow> json" where
  "image_url_part url = JObj [(''type'', JStr ''image_url''), (''image_url'', JObj [(''url'', JStr url)])]"

definition text_block :: "string \<Rightarrow> json" where
  "text_block s = JObj [(''type'', JStr ''text''), (''text'', JStr s)]"

text \<open>The entries of a message.\<close>

definition role_content :: "string \<Rightarrow> json \<Rightarrow> (string \<times> json) list" where
  "role_content role content = [(''role'', JStr role), (''content'', content)]"

definition buildOpenAIContentMessage :: "string \<Rightarrow> string list \<Rightarrow> json list \<Rightarrow> (string \<times> json) list" where
  "buildOpenAIContentMessage role textParts imageParts =
     (let merged = str_join [LF] textParts
      in role_content role (jslice ((if merged \<noteq> '''' then [text_block merged] else []) @ imageParts)))"

text \<open>A \<open>tool_use\<close> block as a call; \<open>json.Marshal\<close> of a decoded value does not fail.\<close>

definition tool_use_call :: "(json \<Rightarrow> string) \<Rightarrow> json \<Rightarrow> json" where
  "tool_use_call enc block = JObj [(''id'', JStr (jstr (jget ''id'' block))), (''type'', JStr ''function''),
     (''function'', JObj [(''name'', JStr (jstr (jget ''name'' block))), (''arguments'', JStr (enc (jval (jget ''input'' block))))])]"

definition tool_result_message :: "json \<Rightarrow> json" where
  "tool_result_message block = JObj [(''role'', JStr ''tool''), (''tool_call_id'', JStr (jstr (jget ''tool_use_id'' block))),
     (''content'', JStr (content_text (jget ''content'' block)))]"

text \<open>What the loop over the blocks of a message gathers; \<open>ba_results\<close> are the messages it appends itself.\<close>

record BlockAcc =
  ba_text :: "string list"
  ba_tools :: "json list"
  ba_images :: "json list"
  ba_hasResult :: bool
  ba_results :: "json list"

definition no_blocks :: BlockAcc where
  "no_blocks = \<lparr>ba_text = [], ba_tools = [], ba_images = [], ba_hasResult = False, ba_results = []\<rparr>"

definition read_block :: "(json \<Rightarrow> string) \<Rightarrow> json \<Rightarrow> BlockAcc \<Rightarrow> BlockAcc" where
  "read_block enc block a =
     (if \<not> is_obj block then a
      else let t = jstr (jget ''type'' block)
        in if t = ''text'' then (case jget ''text'' block of Some (JStr s) \<Rightarrow> a\<lparr>ba_text := ba_text a @ [s]\<rparr> | _ \<Rightarrow> a)
           else if t = ''image'' then (let url = anthropicImageToOpenAIURL block in if url \<noteq> '''' then a\<lparr>ba_images := ba_images a @ [image_url_part url]\<rparr> else a)
           else if t = ''tool_use'' then a\<lparr>ba_tools := ba_tools a @ [tool_use_call enc block]\<rparr>
           else if t = ''tool_result'' then a\<lparr>ba_hasResult := True, ba_results := ba_results a @ [tool_result_message block]\<rparr>
           else a)"

text \<open>The message sent for the blocks, after the results: with results a message of the texts and images only if there are any.\<close>

definition blocks_message :: "string \<Rightarrow> BlockAcc \<Rightarrow> json list" where
  "blocks_message role a =
     (let calls = (if ba_tools a \<noteq> [] then [(''tool_calls'', JArr (ba_tools a))] else [])
      in if ba_hasResult a
         then if ba_text a \<noteq> [] \<or> ba_images a \<noteq> [] then [JObj (buildOpenAIContentMessage role (ba_text a) (ba_images a))] else []
         else if ba_images a \<noteq> [] then [JObj (buildOpenAIContentMessage role (ba_text a) (ba_images a) @ calls)]
         else let mergedText = str_join [LF] (ba_text a)
              in [JObj (role_content role (JStr (if role = ''user'' \<and> mergedText = '''' then '' '' else mergedText)) @ calls)])"

definition chat_messages :: "(json \<Rightarrow> string) \<Rightarrow> json \<Rightarrow> json list" where
  "chat_messages enc m =
     (if \<not> is_obj m then []
      else let role = jstr (jget ''role'' m)
        in case jget ''content'' m of
             Some (JStr s) \<Rightarrow> [JObj (role_content role (JStr s))]
           | Some (JArr blocks) \<Rightarrow> (let a = fold (read_block enc) blocks no_blocks in ba_results a @ blocks_message role a)
           | _ \<Rightarrow> [])"

subsection \<open>Messages to Chat: text only\<close>

text \<open>The first pass: a system message that is not the first becomes the user's, results and calls become text. The roles are strings,
  as the only caller builds them. The flag tells whether something was kept before.\<close>

definition degrade_one :: "bool \<Rightarrow> json \<Rightarrow> json" where
  "degrade_one notFirst m = (case m of
       JObj kvs \<Rightarrow>
         (let role0 = jstr (jget ''role'' m);
              late = (role0 = ''system'' \<and> notFirst);
              role = (if late then ''user'' else role0);
              kvs1 = (if late then jset ''role'' (JStr ''user'') kvs else kvs)
          in if role = ''tool'' then JObj (role_content ''user'' (JStr (''<historical_tool_result id='' @ [CHR 0x22] @ jstr (jget ''tool_call_id'' m) @ [CHR 0x22] @ ''>'' @ [LF]
                 @ jstr (jget ''content'' m) @ [LF] @ ''</historical_tool_result>'')))
             else if role = ''assistant'' then JObj (role_content ''assistant'' (JStr (jstr (jget ''content'' m))))
             else JObj kvs1)
     | _ \<Rightarrow> m)"

definition degrade_all :: "json list \<Rightarrow> json list" where
  "degrade_all msgs = (case msgs of [] \<Rightarrow> [] | m # ms \<Rightarrow> degrade_one False m # map (degrade_one True) ms)"

text \<open>The second pass: neighbours of one role with string contents become one message.\<close>

definition merge_message :: "json \<Rightarrow> json list \<Rightarrow> json list" where
  "merge_message m res = (if res = [] then [m]
     else case (m, last res) of
       (JObj kvs, JObj lastMap) \<Rightarrow>
         (if map_of lastMap ''role'' = map_of kvs ''role'' then
            (case (map_of lastMap ''content'', map_of kvs ''content'') of
               (Some (JStr lastContent), Some (JStr thisContent)) \<Rightarrow>
                 butlast res @ [JObj (jset ''content'' (JStr (lastContent @ [LF, LF] @ thisContent)) lastMap)]
             | _ \<Rightarrow> res @ [m])
          else res @ [m])
     | _ \<Rightarrow> res @ [m])"

definition degradeMessagesToTextOnly :: "json list \<Rightarrow> json list" where
  "degradeMessagesToTextOnly msgs = fold merge_message (degrade_all msgs) []"

subsection \<open>Messages to Chat: the request\<close>

definition empty_schema :: json where
  "empty_schema = JObj [(''type'', JStr ''object''), (''properties'', JObj [])]"

definition chat_tool :: "bool \<Rightarrow> json \<Rightarrow> json option" where
  "chat_tool officialOrTest t =
     (let name = jstr (jget ''name'' t)
      in if \<not> is_obj t \<or> name = '''' then None
         else Some (JObj [(''type'', JStr ''function''), (''function'', JObj ([(''name'', JStr name)]
           @ (case jget ''description'' t of Some (JStr d) \<Rightarrow> [(''description'', JStr d)] | _ \<Rightarrow> [])
           @ [(''parameters'', case jget ''input_schema'' t of None \<Rightarrow> empty_schema
                | Some (JObj s) \<Rightarrow> cleanJSONSchema (\<not> officialOrTest) (JObj s) | Some v \<Rightarrow> v)]))]))"

text \<open>The steps on the payload, in the order of the function.\<close>

definition stops_to_chat :: "(string \<times> json) list \<Rightarrow> (string \<times> json) list" where
  "stops_to_chat p = (case map_of p ''stop_sequences'' of Some v \<Rightarrow> jdel ''stop_sequences'' (jset ''stop'' v p) | None \<Rightarrow> p)"

definition max_tokens_to_chat :: "(string \<times> json) list \<Rightarrow> (string \<times> json) list" where
  "max_tokens_to_chat p = (case map_of p ''max_tokens'' of Some v \<Rightarrow> jdel ''max_tokens'' (jset ''max_completion_tokens'' v p) | None \<Rightarrow> p)"

definition thinking_to_chat :: "(string \<times> json) list \<Rightarrow> (string \<times> json) list" where
  "thinking_to_chat p = (case map_of p ''thinking'' of
       Some (JObj t) \<Rightarrow> if map_of t ''type'' = Some (JStr ''adaptive'') then jset ''thinking'' (JObj (jset ''type'' (JStr ''auto'') t)) p else p
     | _ \<Rightarrow> p)"

definition tools_to_chat :: "bool \<Rightarrow> (string \<times> json) list \<Rightarrow> (string \<times> json) list" where
  "tools_to_chat officialOrTest p = (case map_of p ''tools'' of
       Some (JArr tools) \<Rightarrow>
         (let oaiTools = List.map_filter (chat_tool officialOrTest) tools
          in if oaiTools \<noteq> []
             then jset ''tools'' (JArr (if \<not> officialOrTest \<and> length oaiTools > 32 then take 32 oaiTools else oaiTools)) p
             else jdel ''tools'' p)
     | _ \<Rightarrow> p)"

definition choice_to_chat :: "(string \<times> json) list \<Rightarrow> (string \<times> json) list" where
  "choice_to_chat p = (case map_of p ''tool_choice'' of
       Some (JObj tc) \<Rightarrow>
         (let t = jstr (map_of tc ''type'')
          in if t = ''auto'' then jset ''tool_choice'' (JStr ''auto'') p
             else if t = ''any'' then jset ''tool_choice'' (JStr ''required'') p
             else if t = ''tool'' then jset ''tool_choice'' (JObj [(''type'', JStr ''function''), (''function'', JObj [(''name'', JStr (jstr (map_of tc ''name'')))])]) p
             else p)
     | _ \<Rightarrow> p)"

definition system_message :: "bool \<Rightarrow> string \<Rightarrow> json list" where
  "system_message officialOrTest systemPrompt = (if systemPrompt = '''' then []
     else [JObj (role_content ''system'' (JStr (if officialOrTest then systemPrompt else cleanSystemPrompt systemPrompt)))])"

text \<open>All messages, before a third-party upstream's are degraded.\<close>

definition openAIMessages :: "(json \<Rightarrow> string) \<Rightarrow> bool \<Rightarrow> (string \<times> json) list \<Rightarrow> json list" where
  "openAIMessages enc officialOrTest payload = system_message officialOrTest (content_text (map_of payload ''system''))
     @ (case map_of payload ''messages'' of Some (JArr msgs) \<Rightarrow> concat (map (chat_messages enc) msgs) | _ \<Rightarrow> [])"

definition MessagesRequestToChat :: "(json \<Rightarrow> string) \<Rightarrow> bool \<Rightarrow> json option \<Rightarrow> translate_error + json" where
  "MessagesRequestToChat enc officialOrTest rawBody = (case rawBody of
       Some (JObj payload) \<Rightarrow>
         (let msgs0 = openAIMessages enc officialOrTest payload;
              msgs = (if officialOrTest then msgs0 else degradeMessagesToTextOnly msgs0);
              p1 = stops_to_chat (jdel ''system'' (jset ''messages'' (jslice msgs) payload));
              p2 = (if officialOrTest then p1 else jdel ''output_config'' (jdel ''metadata'' (jdel ''top_k'' p1)));
              p3 = (if officialOrTest then max_tokens_to_chat p2 else p2);
              p4 = (if officialOrTest then thinking_to_chat p3 else jdel ''thinking'' p3)
          in Inr (JObj (choice_to_chat (tools_to_chat officialOrTest p4))))
     | Some JNull \<Rightarrow> Inl NilMapPanic
     | _ \<Rightarrow> Inl ParseError)"

definition IsOfficialOrTestBaseURL :: "string \<Rightarrow> bool" where
  "IsOfficialOrTestBaseURL baseURL \<longleftrightarrow> str_contains baseURL ''api.openai.com'' \<or> str_contains baseURL ''127.0.0.1'' \<or> str_contains baseURL ''localhost''"

subsection \<open>Chat to Messages\<close>

text \<open>The content of a message under construction: a slice the loop builds, or a value passed on.\<close>

datatype msg_content = Blocks "json list" | Value json

definition content_list :: "msg_content \<Rightarrow> json list option" where
  "content_list c = (case c of Blocks bs \<Rightarrow> Some bs | Value j \<Rightarrow> jlist (Some j))"

definition content_json :: "msg_content \<Rightarrow> json" where
  "content_json c = (case c of Blocks bs \<Rightarrow> jslice bs | Value j \<Rightarrow> j)"

text \<open>The input of a call: what its arguments decode to, the empty object if that is nothing.\<close>

definition call_input :: "(string \<Rightarrow> json option) \<Rightarrow> string \<Rightarrow> json" where
  "call_input dec argsStr = (let input = (if argsStr \<noteq> '''' then jval (dec argsStr) else JNull) in if input = JNull then JObj [] else input)"

definition tool_use_block :: "string \<Rightarrow> string \<Rightarrow> json \<Rightarrow> json" where
  "tool_use_block toolID name input = JObj [(''type'', JStr ''tool_use''), (''id'', JStr toolID), (''name'', JStr name), (''input'', input)]"

definition call_block :: "(string \<Rightarrow> json option) \<Rightarrow> json \<Rightarrow> json option" where
  "call_block dec tc = (if \<not> is_obj tc then None
     else let funcMap = jsub ''function'' tc
       in Some (tool_use_block (jstr (jget ''id'' tc)) (jstr (jget ''name'' funcMap)) (call_input dec (jstr (jget ''arguments'' funcMap)))))"

definition assistant_blocks :: "(string \<Rightarrow> json option) \<Rightarrow> json \<Rightarrow> json list" where
  "assistant_blocks dec m =
     (let contentStr = jstr (jget ''content'' m)
      in (if contentStr \<noteq> '''' then [text_block contentStr] else [])
         @ (case jlist (jget ''tool_calls'' m) of Some tcs \<Rightarrow> List.map_filter (call_block dec) tcs | None \<Rightarrow> []))"

text \<open>A block of the user: an image in a data URI becomes a base64 source.\<close>

definition user_block :: "json \<Rightarrow> json option" where
  "user_block block = (if \<not> is_obj block then None
     else let urlStr = jstr (jget ''url'' (jsub ''image_url'' block));
              parts = str_split '';base64,'' [] (trim_prefix ''data:'' urlStr)
       in if jstr (jget ''type'' block) = ''image_url'' \<and> prefix ''data:'' urlStr \<and> length parts = 2
          then Some (JObj [(''type'', JStr ''image''), (''source'', JObj [(''type'', JStr ''base64''), (''media_type'', JStr (parts ! 0)), (''data'', JStr (parts ! 1))])])
          else Some block)"

definition tool_result_block :: "string \<Rightarrow> string \<Rightarrow> json" where
  "tool_result_block toolCallID content = JObj [(''type'', JStr ''tool_result''), (''tool_use_id'', JStr toolCallID), (''content'', JStr content)]"

text \<open>One round of the loop over the messages, on the system prompts and the messages so far. A message without content is dropped.\<close>

definition add_message :: "(string \<Rightarrow> json option) \<Rightarrow> json \<Rightarrow> string list \<times> (string \<times> msg_content) list \<Rightarrow> string list \<times> (string \<times> msg_content) list" where
  "add_message dec m s =
     (let (sys, msgs) = s; role = jstr (jget ''role'' m); content = jget ''content'' m;
          push = (\<lambda>r c. (sys, if c \<noteq> Value JNull then msgs @ [(r, c)] else msgs))
      in if \<not> is_obj m then s
         else if role = ''system'' then (if jstr content \<noteq> '''' then (sys @ [jstr content], msgs) else s)
         else if role = ''tool'' then
           (let block = tool_result_block (jstr (jget ''tool_call_id'' m)) (jstr content)
            in case (if msgs \<noteq> [] \<and> fst (last msgs) = ''user'' then content_list (snd (last msgs)) else None) of
                 Some bs \<Rightarrow> (sys, butlast msgs @ [(''user'', Blocks (bs @ [block]))])
               | None \<Rightarrow> push ''user'' (Blocks [block]))
         else if role = ''assistant'' then push role (Blocks (assistant_blocks dec m))
         else if role = ''user'' then
           (case jlist content of Some blocks \<Rightarrow> push role (Blocks (List.map_filter user_block blocks)) | None \<Rightarrow> push role (Value (jval content)))
         else push role (Value (jval content)))"

definition message_json :: "string \<times> msg_content \<Rightarrow> json" where
  "message_json m = JObj (role_content (fst m) (content_json (snd m)))"

definition messages_tool :: "json \<Rightarrow> json option" where
  "messages_tool tool = (if \<not> is_obj tool \<or> jstr (jget ''type'' tool) \<noteq> ''function'' then None
     else let funcMap = jsub ''function'' tool; params = jval (jget ''parameters'' funcMap)
       in Some (JObj [(''name'', JStr (jstr (jget ''name'' funcMap))), (''description'', JStr (jstr (jget ''description'' funcMap))),
            (''input_schema'', if params = JNull then empty_schema else params)]))"

definition messages_tools :: "json \<Rightarrow> (string \<times> json) list" where
  "messages_tools oaiReq = (case jlist (jget ''tools'' oaiReq) of
       Some oaiTools \<Rightarrow> (let ts = List.map_filter messages_tool oaiTools in if ts \<noteq> [] then [(''tools'', JArr ts)] else [])
     | None \<Rightarrow> [])"

definition messages_choice :: "json \<Rightarrow> (string \<times> json) list" where
  "messages_choice oaiReq = (case jget ''tool_choice'' oaiReq of
       Some (JStr v) \<Rightarrow> if v = ''auto'' then [(''tool_choice'', JObj [(''type'', JStr ''auto'')])]
         else if v = ''required'' then [(''tool_choice'', JObj [(''type'', JStr ''any'')])] else []
     | Some (JObj v) \<Rightarrow> (let name = jstr (jget ''name'' (jsub ''function'' (JObj v)))
         in if name \<noteq> '''' then [(''tool_choice'', JObj [(''type'', JStr ''tool''), (''name'', JStr name)])] else [])
     | _ \<Rightarrow> [])"

text \<open>The token limit: \<open>maxOutputTokens\<close> is a variadic argument.\<close>

definition messages_max_tokens :: "int list \<Rightarrow> json \<Rightarrow> int" where
  "messages_max_tokens maxOutputTokens oaiReq =
     (let limit = (case maxOutputTokens of n # _ \<Rightarrow> if n > 0 then n else 0 | [] \<Rightarrow> 0);
          default = (if limit > 0 then limit else 4096);
          maxTokens = (case jint (jget ''max_tokens'' oaiReq) of Some n \<Rightarrow> n
            | None \<Rightarrow> (case jint (jget ''max_completion_tokens'' oaiReq) of Some n \<Rightarrow> n | None \<Rightarrow> default))
      in if limit > 0 \<and> maxTokens > limit then limit else maxTokens)"

definition copied :: "json \<Rightarrow> string \<Rightarrow> (string \<times> json) list" where
  "copied oaiReq key = (case jget key oaiReq of Some v \<Rightarrow> [(key, v)] | None \<Rightarrow> [])"

definition ChatRequestToMessages :: "(string \<Rightarrow> json option) \<Rightarrow> json option \<Rightarrow> string \<Rightarrow> int list \<Rightarrow> translate_error + json" where
  "ChatRequestToMessages dec rawBody model maxOutputTokens = (case decoded_map rawBody of None \<Rightarrow> Inl ParseError
     | Some oaiReq \<Rightarrow>
         let (systemPrompts, anthropicMsgs) = (case jlist (jget ''messages'' oaiReq) of Some msgs \<Rightarrow> fold (add_message dec) msgs ([], []) | None \<Rightarrow> ([], []))
         in Inr (JObj ([(''model'', JStr model)]
              @ (if systemPrompts \<noteq> [] then [(''system'', JStr (str_join [LF] systemPrompts))] else [])
              @ [(''messages'', jslice (map message_json anthropicMsgs))]
              @ messages_tools oaiReq @ messages_choice oaiReq
              @ (case jget ''stop'' oaiReq of Some v \<Rightarrow> [(''stop_sequences'', v)] | None \<Rightarrow> [])
              @ [(''max_tokens'', JInt (messages_max_tokens maxOutputTokens oaiReq))]
              @ concat (map (copied oaiReq) [''temperature'', ''top_p'', ''stream'']))))"

subsection \<open>Native requests\<close>

definition correct_tool :: "json \<Rightarrow> json" where
  "correct_tool t = (case t of JObj tMap \<Rightarrow> (case map_of tMap ''input_schema'' of
       Some (JObj schema) \<Rightarrow> JObj (jset ''input_schema'' (cleanJSONSchema True (JObj schema)) tMap) | _ \<Rightarrow> t) | _ \<Rightarrow> t)"

definition has_schema :: "json \<Rightarrow> bool" where
  "has_schema t = (jobj (jget ''input_schema'' t) \<noteq> None)"

text \<open>\<open>None\<close> is the body as it came.\<close>

definition CorrectNativeMessagesRequest :: "json option \<Rightarrow> translate_error + json option" where
  "CorrectNativeMessagesRequest rawBody = (case rawBody of
       Some (JObj payload) \<Rightarrow> (case map_of payload ''tools'' of
           Some (JArr tools) \<Rightarrow> if list_ex has_schema tools then Inr (Some (JObj (jset ''tools'' (JArr (map correct_tool tools)) payload))) else Inr None
         | _ \<Rightarrow> Inr None)
     | Some JNull \<Rightarrow> Inr None
     | _ \<Rightarrow> Inl ParseError)"

end
