(* ===== verification/Request_Roundtrip.thy ===== *)
theory Request_Roundtrip
  imports Chat_Requests
begin

text \<open>
  A conversation as both protocols can say it, and what the two translations of \<open>Chat_Requests\<close> make of it: to Chat Completions for an
  official upstream and back it is the same request. A request for any other upstream is degraded to text: what it sends is in turns.
\<close>

subsection \<open>Conversations\<close>

record ToolUse =
  us_id :: string
  us_name :: string
  us_input :: json

datatype turn = UserSays string | AssistantSays string "ToolUse list" | ToolsReturn "(string \<times> string) list"

datatype tool_choice = AutoChoice | AnyChoice | NamedTool string

record ToolSpec =
  ts_name :: string
  ts_description :: string
  ts_schema :: json

record Conversation =
  cv_system :: string
  cv_turns :: "turn list"
  cv_tools :: "ToolSpec list"
  cv_choice :: "tool_choice option"
  cv_stops :: "json option"
  cv_max :: int
  cv_temperature :: "json option"
  cv_top_p :: "json option"
  cv_stream :: "json option"

text \<open>The request of the Messages protocol that says it.\<close>

definition use_block :: "ToolUse \<Rightarrow> json" where
  "use_block u = tool_use_block (us_id u) (us_name u) (us_input u)"

definition turn_message :: "turn \<Rightarrow> string \<times> msg_content" where
  "turn_message t = (case t of UserSays s \<Rightarrow> (''user'', Value (JStr s))
     | AssistantSays s us \<Rightarrow> (''assistant'', Blocks ((if s \<noteq> '''' then [text_block s] else []) @ map use_block us))
     | ToolsReturn rs \<Rightarrow> (''user'', Blocks (map (\<lambda>(i, r). tool_result_block i r) rs)))"

definition choice_json :: "tool_choice \<Rightarrow> json" where
  "choice_json c = (case c of AutoChoice \<Rightarrow> JObj [(''type'', JStr ''auto'')] | AnyChoice \<Rightarrow> JObj [(''type'', JStr ''any'')]
     | NamedTool n \<Rightarrow> JObj [(''type'', JStr ''tool''), (''name'', JStr n)])"

definition tool_json :: "ToolSpec \<Rightarrow> json" where
  "tool_json t = JObj [(''name'', JStr (ts_name t)), (''description'', JStr (ts_description t)), (''input_schema'', ts_schema t)]"

definition field_of :: "string \<Rightarrow> json option \<Rightarrow> (string \<times> json) list" where
  "field_of k v = (case v of Some j \<Rightarrow> [(k, j)] | None \<Rightarrow> [])"

definition messages_request :: "string \<Rightarrow> Conversation \<Rightarrow> (string \<times> json) list" where
  "messages_request model c = [(''model'', JStr model)]
     @ (if cv_system c \<noteq> '''' then [(''system'', JStr (cv_system c))] else [])
     @ [(''messages'', JArr (map (message_json \<circ> turn_message) (cv_turns c)))]
     @ (if cv_tools c \<noteq> [] then [(''tools'', JArr (map tool_json (cv_tools c)))] else [])
     @ field_of ''tool_choice'' (map_option choice_json (cv_choice c))
     @ field_of ''stop_sequences'' (cv_stops c)
     @ [(''max_tokens'', JInt (cv_max c))]
     @ field_of ''temperature'' (cv_temperature c) @ field_of ''top_p'' (cv_top_p c) @ field_of ''stream'' (cv_stream c)"

text \<open>What both protocols can say: an assistant that says something, results that are not cut into two turns, inputs that survive
  their encoding, schemas and tools with a name that are not changed by cleaning.\<close>

definition use_ok :: "(json \<Rightarrow> string) \<Rightarrow> (string \<Rightarrow> json option) \<Rightarrow> ToolUse \<Rightarrow> bool" where
  "use_ok enc dec u \<longleftrightarrow> enc (us_input u) \<noteq> '''' \<and> dec (enc (us_input u)) = Some (us_input u) \<and> us_input u \<noteq> JNull"

fun turn_ok :: "(json \<Rightarrow> string) \<Rightarrow> (string \<Rightarrow> json option) \<Rightarrow> turn \<Rightarrow> bool" where
  "turn_ok enc dec (UserSays s) = True"
| "turn_ok enc dec (AssistantSays s us) = ((s \<noteq> '''' \<or> us \<noteq> []) \<and> list_all (use_ok enc dec) us)"
| "turn_ok enc dec (ToolsReturn rs) = (rs \<noteq> [])"

fun results_apart :: "turn list \<Rightarrow> bool" where
  "results_apart (ToolsReturn rs # ToolsReturn rs' # ts) = False"
| "results_apart (t # ts) = results_apart ts"
| "results_apart [] = True"

definition spec_ok :: "ToolSpec \<Rightarrow> bool" where
  "spec_ok t \<longleftrightarrow> ts_name t \<noteq> '''' \<and> is_obj (ts_schema t) \<and> schema_ok False (ts_schema t)"

definition conversation_ok :: "(json \<Rightarrow> string) \<Rightarrow> (string \<Rightarrow> json option) \<Rightarrow> Conversation \<Rightarrow> bool" where
  "conversation_ok enc dec c \<longleftrightarrow> cv_turns c \<noteq> [] \<and> list_all (turn_ok enc dec) (cv_turns c) \<and> results_apart (cv_turns c)
     \<and> list_all spec_ok (cv_tools c) \<and> cv_choice c \<noteq> Some (NamedTool '''') \<and> \<bar>cv_max c\<bar> \<le> 2 ^ 53"

subsection \<open>There\<close>

definition chat_call :: "(json \<Rightarrow> string) \<Rightarrow> ToolUse \<Rightarrow> json" where
  "chat_call enc u = tool_use_call enc (use_block u)"

definition chat_result :: "string \<times> string \<Rightarrow> json" where
  "chat_result r = JObj [(''role'', JStr ''tool''), (''tool_call_id'', JStr (fst r)), (''content'', JStr (snd r))]"

text \<open>The Chat messages of a turn.\<close>

definition turn_chat :: "(json \<Rightarrow> string) \<Rightarrow> turn \<Rightarrow> json list" where
  "turn_chat enc t = (case t of UserSays s \<Rightarrow> [JObj (role_content ''user'' (JStr s))]
     | AssistantSays s us \<Rightarrow> [JObj (role_content ''assistant'' (JStr s) @ (if us \<noteq> [] then [(''tool_calls'', JArr (map (chat_call enc) us))] else []))]
     | ToolsReturn rs \<Rightarrow> map chat_result rs)"

lemmas json_read = is_obj_def jsub_def jval_def

lemma read_text_block: "read_block enc (text_block s) a = a\<lparr>ba_text := ba_text a @ [s]\<rparr>"
  by (simp add: read_block_def text_block_def is_obj_def)

lemma read_use_blocks: "fold (read_block enc) (map use_block us) a = a\<lparr>ba_tools := ba_tools a @ map (chat_call enc) us\<rparr>"
  by (induction us arbitrary: a) (simp_all add: read_block_def use_block_def tool_use_block_def is_obj_def chat_call_def)

lemma read_result_blocks:
  "fold (read_block enc) (map (\<lambda>(i, r). tool_result_block i r) rs) a
   = a\<lparr>ba_hasResult := ba_hasResult a \<or> rs \<noteq> [], ba_results := ba_results a @ map chat_result rs\<rparr>"
  by (induction rs arbitrary: a)
     (auto simp: read_block_def tool_result_block_def is_obj_def tool_result_message_def content_text_def chat_result_def)

lemma turn_to_chat:
  assumes "turn_ok enc dec t"
  shows "chat_messages enc (message_json (turn_message t)) = turn_chat enc t"
proof (cases t)
  case (UserSays s)
  then show ?thesis by (simp add: chat_messages_def message_json_def turn_message_def turn_chat_def role_content_def content_json_def is_obj_def)
next
  case (AssistantSays s us)
  then have "jslice ((if s \<noteq> '''' then [text_block s] else []) @ map use_block us) = JArr ((if s \<noteq> '''' then [text_block s] else []) @ map use_block us)"
    using assms by (auto simp: jslice_def)
  with AssistantSays show ?thesis
    by (auto simp: chat_messages_def message_json_def turn_message_def turn_chat_def role_content_def content_json_def is_obj_def
        read_text_block read_use_blocks no_blocks_def blocks_message_def Let_def)
next
  case (ToolsReturn rs)
  then have "jslice (map (\<lambda>(i, r). tool_result_block i r) rs) = JArr (map (\<lambda>(i, r). tool_result_block i r) rs)"
    using assms by (simp add: jslice_def)
  with ToolsReturn assms show ?thesis
    by (simp add: chat_messages_def message_json_def turn_message_def turn_chat_def role_content_def content_json_def is_obj_def
        read_result_blocks no_blocks_def blocks_message_def Let_def)
qed

lemma turns_to_chat:
  "list_all (turn_ok enc dec) ts \<Longrightarrow> concat (map (chat_messages enc) (map (message_json \<circ> turn_message) ts)) = concat (map (turn_chat enc) ts)"
  using turn_to_chat by (induction ts) auto

subsection \<open>And back\<close>

lemma calls_back: "list_all (use_ok enc dec) us \<Longrightarrow> List.map_filter (call_block dec) (map (chat_call enc) us) = map use_block us"
  by (induction us)
     (auto simp: List.map_filter_simps call_block_def chat_call_def tool_use_call_def use_block_def tool_use_block_def json_read use_ok_def call_input_def Let_def)

lemma add_result:
  "add_message dec (chat_result r) (sys, msgs)
   = (case (if msgs \<noteq> [] \<and> fst (last msgs) = ''user'' then content_list (snd (last msgs)) else None) of
        Some bs \<Rightarrow> (sys, butlast msgs @ [(''user'', Blocks (bs @ [tool_result_block (fst r) (snd r)]))])
      | None \<Rightarrow> (sys, msgs @ [(''user'', Blocks [tool_result_block (fst r) (snd r)])]))"
  by (simp add: add_message_def chat_result_def is_obj_def Let_def split: option.splits)

lemma add_more_results:
  "fold (add_message dec) (map chat_result rs) (sys, msgs @ [(''user'', Blocks bs)])
   = (sys, msgs @ [(''user'', Blocks (bs @ map (\<lambda>(i, r). tool_result_block i r) rs))])"
  by (induction rs arbitrary: bs) (auto simp: add_result content_list_def)

text \<open>Results start a message of their own unless the last message is the user's with a list of blocks.\<close>

definition open_results :: "(string \<times> msg_content) list \<Rightarrow> bool" where
  "open_results msgs \<longleftrightarrow> msgs \<noteq> [] \<and> fst (last msgs) = ''user'' \<and> content_list (snd (last msgs)) \<noteq> None"

fun is_return :: "turn \<Rightarrow> bool" where
  "is_return (ToolsReturn rs) = True"
| "is_return _ = False"

lemma open_results_snoc: "open_results (msgs @ [turn_message t]) = is_return t"
  by (cases t) (auto simp: open_results_def turn_message_def content_list_def jlist_def)

lemma turn_back:
  assumes "turn_ok enc dec t" "is_return t \<longrightarrow> \<not> open_results msgs"
  shows "fold (add_message dec) (turn_chat enc t) (sys, msgs) = (sys, msgs @ [turn_message t])"
proof (cases t)
  case (UserSays s)
  then show ?thesis by (simp add: turn_chat_def turn_message_def add_message_def role_content_def is_obj_def jval_def jlist_def Let_def)
next
  case (AssistantSays s us)
  then show ?thesis using calls_back[of enc dec us] assms(1)
    by (auto simp: turn_chat_def turn_message_def add_message_def role_content_def is_obj_def assistant_blocks_def Let_def)
next
  case (ToolsReturn rs)
  then obtain r rs' where rs: "rs = r # rs'" using assms(1) by (cases rs) auto
  have "add_message dec (chat_result r) (sys, msgs) = (sys, msgs @ [(''user'', Blocks [tool_result_block (fst r) (snd r)])])"
    using assms(2) ToolsReturn by (auto simp: add_result open_results_def split: option.splits)
  then show ?thesis using ToolsReturn rs add_more_results[of dec rs' sys msgs "[tool_result_block (fst r) (snd r)]"]
    by (simp add: turn_chat_def turn_message_def case_prod_beta)
qed

lemma results_apart_Cons: "results_apart (t # ts) \<longleftrightarrow> results_apart ts \<and> \<not> (is_return t \<and> ts \<noteq> [] \<and> is_return (hd ts))"
  by (cases t; cases ts; cases "hd ts") auto

lemma turns_back:
  assumes "list_all (turn_ok enc dec) ts" "results_apart ts" "ts \<noteq> [] \<and> is_return (hd ts) \<longrightarrow> \<not> open_results msgs"
  shows "fold (add_message dec) (concat (map (turn_chat enc) ts)) (sys, msgs) = (sys, msgs @ map turn_message ts)"
  using assms
proof (induction ts arbitrary: msgs)
  case (Cons t ts)
  have "fold (add_message dec) (turn_chat enc t) (sys, msgs) = (sys, msgs @ [turn_message t])"
    using Cons.prems by (intro turn_back) auto
  moreover have "fold (add_message dec) (concat (map (turn_chat enc) ts)) (sys, msgs @ [turn_message t]) = (sys, (msgs @ [turn_message t]) @ map turn_message ts)"
    using Cons.prems by (intro Cons.IH) (auto simp: open_results_snoc results_apart_Cons)
  ultimately show ?case by simp
qed simp


subsection \<open>The fields of the request\<close>

lemma request_fields:
  "map_of (messages_request model c) ''system'' = (if cv_system c \<noteq> '''' then Some (JStr (cv_system c)) else None)"
  "map_of (messages_request model c) ''messages'' = Some (JArr (map (message_json \<circ> turn_message) (cv_turns c)))"
  "map_of (messages_request model c) ''tools'' = (if cv_tools c \<noteq> [] then Some (JArr (map tool_json (cv_tools c))) else None)"
  "map_of (messages_request model c) ''tool_choice'' = map_option choice_json (cv_choice c)"
  "map_of (messages_request model c) ''stop_sequences'' = cv_stops c"
  "map_of (messages_request model c) ''max_tokens'' = Some (JInt (cv_max c))"
  "map_of (messages_request model c) ''temperature'' = cv_temperature c"
  "map_of (messages_request model c) ''top_p'' = cv_top_p c"
  "map_of (messages_request model c) ''stream'' = cv_stream c"
  "map_of (messages_request model c) ''stop'' = None"
  "map_of (messages_request model c) ''thinking'' = None"
  by (simp_all add: messages_request_def field_of_def map_add_def split: option.split)

definition chat_choice :: "tool_choice \<Rightarrow> json" where
  "chat_choice c = (case c of AutoChoice \<Rightarrow> JStr ''auto'' | AnyChoice \<Rightarrow> JStr ''required''
     | NamedTool n \<Rightarrow> JObj [(''type'', JStr ''function''), (''function'', JObj [(''name'', JStr n)])])"

definition chat_spec :: "ToolSpec \<Rightarrow> json" where
  "chat_spec t = JObj [(''type'', JStr ''function''), (''function'', JObj [(''name'', JStr (ts_name t)), (''description'', JStr (ts_description t)),
     (''parameters'', ts_schema t)])]"

lemma specs_to_chat: "list_all spec_ok ts \<Longrightarrow> List.map_filter (chat_tool True) (map tool_json ts) = map chat_spec ts"
proof (induction ts)
  case (Cons t ts)
  then have t: "spec_ok t" by simp
  then obtain m where m: "ts_schema t = JObj m" by (cases "ts_schema t") (auto simp: spec_ok_def is_obj_def)
  moreover have "cleanJSONSchema False (JObj m) = JObj m" using t m ok_unchanged(1) by (metis spec_ok_def)
  ultimately have "chat_tool True (tool_json t) = Some (chat_spec t)" using t
    by (simp add: chat_tool_def tool_json_def chat_spec_def is_obj_def spec_ok_def Let_def del: cleanJSONSchema.simps)
  with Cons show ?case by (simp add: List.map_filter_simps)
qed (simp add: List.map_filter_simps)

lemma specs_back: "list_all spec_ok ts \<Longrightarrow> List.map_filter messages_tool (map chat_spec ts) = map tool_json ts"
  by (induction ts) (auto simp: List.map_filter_simps messages_tool_def chat_spec_def tool_json_def json_read spec_ok_def Let_def)

text \<open>What the steps do to the fields.\<close>

lemma stops_fields:
  "map_of (stops_to_chat p) = (map_of p)(''stop'' := (case map_of p ''stop_sequences'' of Some v \<Rightarrow> Some v | None \<Rightarrow> map_of p ''stop''), ''stop_sequences'' := None)"
  by (auto simp: stops_to_chat_def fun_eq_iff split: option.split)

lemma max_tokens_fields:
  "map_of p ''max_tokens'' = Some v \<Longrightarrow> map_of (max_tokens_to_chat p) = (map_of p)(''max_completion_tokens'' \<mapsto> v, ''max_tokens'' := None)"
  by (simp add: max_tokens_to_chat_def)

lemma tools_fields:
  assumes "list_all spec_ok ts" "map_of p ''tools'' = (if ts \<noteq> [] then Some (JArr (map tool_json ts)) else None)"
  shows "map_of (tools_to_chat True p) = (map_of p)(''tools'' := (if ts \<noteq> [] then Some (JArr (map chat_spec ts)) else None))"
  using specs_to_chat[OF assms(1)] assms(2) by (auto simp: tools_to_chat_def fun_eq_iff)

lemma choice_fields:
  assumes "map_of p ''tool_choice'' = map_option choice_json ch"
  shows "map_of (choice_to_chat p) = (map_of p)(''tool_choice'' := map_option chat_choice ch)"
proof (cases ch)
  case None
  then show ?thesis using assms by (auto simp: choice_to_chat_def fun_eq_iff)
next
  case (Some t)
  then show ?thesis using assms by (cases t) (simp_all add: choice_to_chat_def choice_json_def chat_choice_def)
qed

text \<open>The Chat request of a conversation, by its fields.\<close>

lemma chat_messages_of:
  assumes "conversation_ok enc dec c"
  shows "openAIMessages enc True (messages_request model c) = system_message True (cv_system c) @ concat (map (turn_chat enc) (cv_turns c))"
    and "system_message True (cv_system c) @ concat (map (turn_chat enc) (cv_turns c)) \<noteq> []"
proof -
  have ok: "list_all (turn_ok enc dec) (cv_turns c)" "cv_turns c \<noteq> []" using assms by (auto simp: conversation_ok_def)
  have "turn_chat enc t \<noteq> []" if "turn_ok enc dec t" for t using that by (cases t) (auto simp: turn_chat_def)
  then show "system_message True (cv_system c) @ concat (map (turn_chat enc) (cv_turns c)) \<noteq> []" using ok by (cases "cv_turns c") auto
  show "openAIMessages enc True (messages_request model c) = system_message True (cv_system c) @ concat (map (turn_chat enc) (cv_turns c))"
    using turns_to_chat[OF ok(1)] by (simp add: openAIMessages_def request_fields content_text_def)
qed

definition chat_request :: "(json \<Rightarrow> string) \<Rightarrow> string \<Rightarrow> Conversation \<Rightarrow> (string \<times> json) list" where
  "chat_request enc model c = choice_to_chat (tools_to_chat True (thinking_to_chat (max_tokens_to_chat (stops_to_chat (jdel ''system''
     (jset ''messages'' (JArr (system_message True (cv_system c) @ concat (map (turn_chat enc) (cv_turns c)))) (messages_request model c)))))))"

lemma to_chat: "conversation_ok enc dec c \<Longrightarrow> MessagesRequestToChat enc True (Some (JObj (messages_request model c))) = Inr (JObj (chat_request enc model c))"
  using chat_messages_of[of enc dec c] by (auto simp: MessagesRequestToChat_def chat_request_def jslice_def)

lemma chat_fields:
  assumes "conversation_ok enc dec c"
  shows "map_of (chat_request enc model c) = (map_of (messages_request model c))
     (''messages'' \<mapsto> JArr (system_message True (cv_system c) @ concat (map (turn_chat enc) (cv_turns c))), ''system'' := None,
      ''stop'' := cv_stops c, ''stop_sequences'' := None, ''max_completion_tokens'' \<mapsto> JInt (cv_max c), ''max_tokens'' := None,
      ''tools'' := (if cv_tools c \<noteq> [] then Some (JArr (map chat_spec (cv_tools c))) else None),
      ''tool_choice'' := map_option chat_choice (cv_choice c))"
proof -
  define msgs where "msgs = JArr (system_message True (cv_system c) @ concat (map (turn_chat enc) (cv_turns c)))"
  define p2 where "p2 = stops_to_chat (jdel ''system'' (jset ''messages'' msgs (messages_request model c)))"
  have p2: "map_of p2 = (map_of (messages_request model c))(''messages'' \<mapsto> msgs, ''system'' := None, ''stop'' := cv_stops c, ''stop_sequences'' := None)"
    by (cases "cv_stops c") (simp_all add: p2_def stops_fields request_fields)
  define p3 where "p3 = max_tokens_to_chat p2"
  have p3: "map_of p3 = (map_of p2)(''max_completion_tokens'' \<mapsto> JInt (cv_max c), ''max_tokens'' := None)"
    unfolding p3_def by (rule max_tokens_fields) (simp add: p2 request_fields)
  have p4: "thinking_to_chat p3 = p3" by (simp add: thinking_to_chat_def p3 p2 request_fields)
  have p5: "map_of (tools_to_chat True p3) = (map_of p3)(''tools'' := (if cv_tools c \<noteq> [] then Some (JArr (map chat_spec (cv_tools c))) else None))"
    using assms by (intro tools_fields) (simp_all add: conversation_ok_def p3 p2 request_fields)
  have "map_of (choice_to_chat (tools_to_chat True p3)) = (map_of (tools_to_chat True p3))(''tool_choice'' := map_option chat_choice (cv_choice c))"
    by (rule choice_fields) (simp add: p5 p3 p2 request_fields)
  then show ?thesis unfolding chat_request_def msgs_def[symmetric] p2_def[symmetric] p3_def[symmetric] p4 by (simp only: p5 p3 p2)
qed

subsection \<open>The round trip\<close>

lemma jint_JInt: "\<bar>n\<bar> \<le> 2 ^ 53 \<Longrightarrow> jint (Some (JInt n)) = Some n"
  by (simp add: jint_def jnum_def JInt_def fl64_int_exact int64_of_def)

lemma system_back: "fold (add_message dec) (system_message True s) ([], []) = (if s \<noteq> '''' then [s] else [], [])"
  by (simp add: system_message_def add_message_def role_content_def is_obj_def)




subsection \<open>Third-party upstreams\<close>

definition role_of :: "json \<Rightarrow> string" where
  "role_of m = jstr (jget ''role'' m)"

definition message_text :: "json \<Rightarrow> string" where
  "message_text m = jstr (jget ''content'' m)"

definition is_text :: "json \<Rightarrow> bool" where
  "is_text m = (case jget ''content'' m of Some (JStr s) \<Rightarrow> True | _ \<Rightarrow> False)"

text \<open>A message such an upstream gets: none of a tool, and the assistant's are text and nothing else.\<close>

definition text_turn :: "json \<Rightarrow> bool" where
  "text_turn m \<longleftrightarrow> role_of m \<noteq> ''tool'' \<and> (role_of m = ''assistant'' \<longrightarrow> (\<exists>s. m = JObj (role_content ''assistant'' (JStr s))))"

text \<open>Two messages that should have been one.\<close>

definition same_turn :: "json \<Rightarrow> json \<Rightarrow> bool" where
  "same_turn a b \<longleftrightarrow> is_obj a \<and> is_obj b \<and> jget ''role'' a = jget ''role'' b \<and> is_text a \<and> is_text b"

definition in_turns :: "json list \<Rightarrow> bool" where
  "in_turns res \<longleftrightarrow> list_all text_turn res \<and> list_all (\<lambda>m. role_of m \<noteq> ''system'') (tl res) \<and> successively (\<lambda>a b. \<not> same_turn a b) res"

lemma degrade_one_turn: "text_turn (degrade_one late m) \<and> (late \<longrightarrow> role_of (degrade_one late m) \<noteq> ''system'')"
  by (cases m) (auto simp: degrade_one_def text_turn_def role_of_def message_text_def role_content_def Let_def jget_def)

lemma degrade_all_turns: "list_all text_turn (degrade_all msgs) \<and> list_all (\<lambda>m. role_of m \<noteq> ''system'') (tl (degrade_all msgs))"
  using degrade_one_turn by (auto simp: degrade_all_def list_all_iff split: list.split)

text \<open>Merging joins two messages into one, or appends.\<close>

lemma merge_cases:
  obtains (append) "merge_message m res = res @ [m]" "res = [] \<or> \<not> same_turn (last res) m"
  | (join) kvs where "res \<noteq> []" "last res = JObj kvs" "same_turn (last res) m"
      "merge_message m res = butlast res @ [JObj (jset ''content'' (JStr (message_text (last res) @ [LF, LF] @ message_text m)) kvs)]"
proof (cases "res \<noteq> [] \<and> same_turn (last res) m")
  case True
  then obtain kvs kvs' a b where o: "last res = JObj kvs" "m = JObj kvs'" "map_of kvs ''role'' = map_of kvs' ''role''"
    "map_of kvs ''content'' = Some (JStr a)" "map_of kvs' ''content'' = Some (JStr b)"
    by (auto simp: same_turn_def is_obj_def is_text_def jget_def split: json.splits option.splits)
  then show thesis using True by (intro join[of kvs]) (simp_all add: merge_message_def message_text_def)
next
  case False
  then have "merge_message m res = res @ [m]"
    by (auto simp: merge_message_def same_turn_def is_obj_def is_text_def split: json.splits option.splits)
  then show thesis using False by (intro append) auto
qed

lemma joined_like:
  assumes "x = JObj (jset ''content'' (JStr t) kvs)" "last res = JObj kvs" "is_text (last res)"
  shows "role_of x = role_of (last res)" "message_text x = t" "same_turn a x = same_turn a (last res)" "text_turn (last res) \<Longrightarrow> text_turn x"
  using assms by (auto simp: role_of_def message_text_def same_turn_def is_text_def is_obj_def text_turn_def role_content_def)

lemma merge_turns:
  assumes "in_turns res" "text_turn m" "res \<noteq> [] \<longrightarrow> role_of m \<noteq> ''system''"
  shows "in_turns (merge_message m res)"
proof (cases rule: merge_cases[of m res])
  case append
  have "list_all (\<lambda>m. role_of m \<noteq> ''system'') (tl (res @ [m]))" using assms(1,3) by (cases res) (auto simp: in_turns_def)
  with append assms(1,2) show ?thesis by (auto simp: in_turns_def successively_append_iff)
next
  case (join kvs)
  define x where "x = JObj (jset ''content'' (JStr (message_text (last res) @ [LF, LF] @ message_text m)) kvs)"
  note like = joined_like[OF x_def join(2)]
  have lt: "is_text (last res)" using join(3) by (simp add: same_turn_def)
  obtain ys where res: "res = ys @ [last res]" using join(1) by (metis append_butlast_last_id)
  then have m: "merge_message m res = ys @ [x]" using join(4) x_def by (metis butlast_snoc)
  have i: "in_turns (ys @ [last res])" using assms(1) res by simp
  then have "list_all (\<lambda>m. role_of m \<noteq> ''system'') (tl (ys @ [x]))" using like(1)[OF lt] by (cases ys) (auto simp: in_turns_def)
  then show ?thesis using i like(3,4)[OF lt] by (auto simp: in_turns_def m successively_append_iff)
qed

lemma str_join_snoc: "str_join sep (ts @ [t]) = (if ts = [] then t else str_join sep ts @ sep @ t)"
  by (induction sep ts rule: str_join.induct) auto

lemma merge_text:
  "str_join [LF, LF] (map message_text (merge_message m res)) = str_join [LF, LF] (map message_text (res @ [m]))"
proof (cases rule: merge_cases[of m res])
  case (join kvs)
  define x where "x = JObj (jset ''content'' (JStr (message_text (last res) @ [LF, LF] @ message_text m)) kvs)"
  have x: "message_text x = message_text (last res) @ [LF, LF] @ message_text m" by (simp add: x_def message_text_def)
  obtain ys where res: "res = ys @ [last res]" using join(1) by (metis append_butlast_last_id)
  then have "merge_message m res = ys @ [x]" using join(4) x_def by (metis butlast_snoc)
  moreover have "map message_text res = map message_text ys @ [message_text (last res)]" using arg_cong[OF res, of "map message_text"] by simp
  moreover have "str_join [LF, LF] (ts @ [a, b]) = str_join [LF, LF] (ts @ [a @ [LF, LF] @ b])" for ts a b
    using str_join_snoc[of "[LF, LF]" "ts @ [a]" b] by (simp add: str_join_snoc)
  ultimately show ?thesis by (simp add: x)
qed simp

lemma merge_all_turns:
  assumes "list_all text_turn ms" "list_all (\<lambda>m. role_of m \<noteq> ''system'') (tl ms)"
  shows "in_turns (fold merge_message ms []) \<and> str_join [LF, LF] (map message_text (fold merge_message ms [])) = str_join [LF, LF] (map message_text ms)
    \<and> (fold merge_message ms [] = [] \<longleftrightarrow> ms = [])"
  using assms
proof (induction ms rule: rev_induct)
  case Nil
  then show ?case by (simp add: in_turns_def)
next
  case (snoc m ms)
  let ?res = "fold merge_message ms []"
  have "list_all (\<lambda>m. role_of m \<noteq> ''system'') (tl ms)" "ms \<noteq> [] \<longrightarrow> role_of m \<noteq> ''system''" using snoc.prems(2) by (cases ms; simp)+
  then have ih: "in_turns ?res" "str_join [LF, LF] (map message_text ?res) = str_join [LF, LF] (map message_text ms)" "?res = [] \<longleftrightarrow> ms = []"
    and sys: "?res \<noteq> [] \<longrightarrow> role_of m \<noteq> ''system''"
    using snoc by auto
  have "merge_message m ?res \<noteq> []" by (cases rule: merge_cases[of m ?res]) auto
  moreover have "in_turns (merge_message m ?res)" using merge_turns[OF ih(1) _ sys] snoc.prems(1) by simp
  moreover have "str_join [LF, LF] (map message_text (merge_message m ?res)) = str_join [LF, LF] (map message_text (ms @ [m]))"
    using ih(2,3) by (simp add: merge_text str_join_snoc)
  ultimately show ?case by simp
qed


text \<open>A tool as such an upstream gets it.\<close>

definition chat_tool_ok :: "json \<Rightarrow> bool" where
  "chat_tool_ok t = (let f = jsub ''function'' t; s = jval (jget ''parameters'' f)
     in jget ''type'' t = Some (JStr ''function'') \<and> jstr (jget ''name'' f) \<noteq> '''' \<and> (s = empty_schema \<or> schema_ok True s))"

lemma chat_tool_is_ok:
  assumes "chat_tool False t = Some t'"
  shows "chat_tool_ok t'"
proof -
  define P where "P = (case jget ''input_schema'' t of None \<Rightarrow> empty_schema | Some (JObj s) \<Rightarrow> cleanJSONSchema (\<not> False) (JObj s) | Some v \<Rightarrow> v)"
  define D where "D = (case jget ''description'' t of Some (JStr d) \<Rightarrow> [(''description'', JStr d)] | _ \<Rightarrow> [])"
  have t': "jstr (jget ''name'' t) \<noteq> ''''" "t' = JObj [(''type'', JStr ''function''), (''function'', JObj ([(''name'', JStr (jstr (jget ''name'' t)))] @ D @ [(''parameters'', P)]))]"
    using assms by (simp_all add: chat_tool_def P_def D_def Let_def del: cleanJSONSchema.simps split: if_splits)
  have "map_of D ''parameters'' = None" by (simp add: D_def split: option.split json.split)
  then have f: "map_of (D @ [(''parameters'', P)]) ''parameters'' = Some P" by (simp add: map_add_def)
  have "P = empty_schema \<or> schema_ok True P"
  proof (cases "jget ''input_schema'' t")
    case (Some v)
    then show ?thesis using cleaned_ok(1)[of True v] by (cases v) (simp_all add: P_def del: cleanJSONSchema.simps(1))
  qed (simp add: P_def)
  then show ?thesis using t' f by (simp add: chat_tool_ok_def json_read)
qed

lemma chat_tools_ok: "list_all chat_tool_ok (List.map_filter (chat_tool False) ts)"
  by (auto simp: list_all_iff List.map_filter_def dest: chat_tool_is_ok)

lemma third_party_tools:
  "case map_of (tools_to_chat False p) ''tools'' of Some (JArr ts) \<Rightarrow> ts \<noteq> [] \<and> length ts \<le> 32 \<and> list_all chat_tool_ok ts | _ \<Rightarrow> True"
proof (cases "map_of p ''tools''")
  case (Some v)
  have "list_all chat_tool_ok (take n (List.map_filter (chat_tool False) ts))" for n ts
    using chat_tools_ok[of ts] by (auto simp: list_all_iff dest: in_set_takeD)
  then show ?thesis using Some chat_tools_ok by (cases v) (auto simp: tools_to_chat_def Let_def)
qed (simp add: tools_to_chat_def)

lemma tools_keep: "k \<noteq> ''tools'' \<Longrightarrow> map_of (tools_to_chat b p) k = map_of p k"
  by (auto simp: tools_to_chat_def Let_def split: option.splits json.splits)

lemma choice_keep: "k \<noteq> ''tool_choice'' \<Longrightarrow> map_of (choice_to_chat p) k = map_of p k"
  by (auto simp: choice_to_chat_def Let_def split: option.splits json.splits)

definition third_party_removed :: "string list" where
  "third_party_removed = [''system'', ''stop_sequences'', ''top_k'', ''metadata'', ''output_config'', ''thinking'']"


text \<open>The token limit of the model is kept whatever a Chat request asks for.\<close>

lemma output_limit_is_kept: "0 < limit \<Longrightarrow> messages_max_tokens [limit] oaiReq \<le> limit"
  by (auto simp: messages_max_tokens_def Let_def)

text \<open>The content of an assistant or system message of a Chat request may be a list of parts; the translation reads strings only, and the text is
  lost: the assistant's message is sent with a null content, the system prompt is left out.\<close>

theorem assistant_parts_are_lost:
  "ChatRequestToMessages dec (Some (JObj [(''messages'', JArr [JObj (role_content ''system'' (JArr [text_block ''Be brief.''])),
       JObj (role_content ''assistant'' (JArr [text_block ''Noon.'']))])])) model []
   = Inr (JObj [(''model'', JStr model), (''messages'', JArr [JObj (role_content ''assistant'' JNull)]), (''max_tokens'', JInt 4096)])"
  by (simp add: ChatRequestToMessages_def decoded_map_def add_message_def role_content_def is_obj_def assistant_blocks_def message_json_def
      content_json_def jslice_def messages_tools_def messages_choice_def messages_max_tokens_def copied_def jint_def jstr_def)


text \<open>A native Messages request keeps everything but the schemas of its tools, and those are clean.\<close>

theorem native_request_keeps_all_but_schemas:
  "case CorrectNativeMessagesRequest (Some (JObj payload)) of
     Inr (Some (JObj q)) \<Rightarrow> map_of q = (map_of payload)(''tools'' := map_of q ''tools'') \<and> (\<exists>tools. map_of payload ''tools'' = Some (JArr tools)
       \<and> map_of q ''tools'' = Some (JArr (map correct_tool tools)))
   | Inr None \<Rightarrow> True | _ \<Rightarrow> False"
  by (auto simp: CorrectNativeMessagesRequest_def fun_eq_iff split: option.splits json.splits)

lemma corrected_tool_ok:
  assumes "jget ''input_schema'' (correct_tool t) = Some (JObj s)"
  shows "schema_ok True (JObj s)"
proof (cases t)
  case (JObj m)
  show ?thesis
  proof (cases "map_of m ''input_schema''")
    case (Some v)
    then show ?thesis using assms JObj cleaned_ok(1)[of True v]
      by (cases v) (auto simp: correct_tool_def simp del: cleanJSONSchema.simps(1) schema_ok.simps(1))
  qed (use assms JObj in \<open>auto simp: correct_tool_def\<close>)
qed (use assms in \<open>auto simp: correct_tool_def jget_def\<close>)

end
