(* ===== verification/Chat_Bodies.thy ===== *)
theory Chat_Bodies
  imports Chat_Requests
begin

text \<open>
  The translation of whole responses between the Chat Completions and the Messages protocol: \<open>ChatCompletionToMessages\<close> and
  \<open>MessagesToChatCompletion\<close> of \<open>src/pkg/llm/translate/messages_chat.go\<close>. A Chat completion is decoded into a structure, kept as a
  record; a Messages response into a map. Results are the values that are encoded; \<open>enc\<close> and \<open>dec\<close> are the encoding and decoding of the
  arguments of a tool call, and the clock reading is an argument. Token counts are integers: their sums are below \<open>2\<^sup>6\<^sup>3\<close>.

  The theorem: a completion translated to a Messages response and back keeps its text, its reasoning, its tool calls, its reason to stop
  and its usage.
\<close>

subsection \<open>Chat to Messages\<close>

record ChatToolCall =
  ct_ID :: string
  ct_Type :: string
  ct_Name :: string
  ct_Arguments :: string

record ChatChoice =
  cx_Role :: string
  cx_Content :: string
  cx_ReasoningContent :: string
  cx_ToolCalls :: "ChatToolCall list"
  cx_FinishReason :: string

record ChatCompletion =
  co_ID :: string
  co_Model :: string
  co_Choices :: "ChatChoice list"
  co_PromptTokens :: int
  co_CompletionTokens :: int

definition messagesThinkingBlock :: "string \<Rightarrow> json" where
  "messagesThinkingBlock t = JObj [(''type'', JStr ''thinking''), (''thinking'', JStr t)]"

text \<open>The input is decoded into a map: anything else leaves it nil, and an empty map is made.\<close>

definition arguments_map :: "(string \<Rightarrow> json option) \<Rightarrow> string \<Rightarrow> json" where
  "arguments_map dec args = (if args = '''' then JObj [] else case dec args of Some (JObj kvs) \<Rightarrow> JObj kvs | _ \<Rightarrow> JObj [])"

definition completion_call_block :: "(string \<Rightarrow> json option) \<Rightarrow> ChatToolCall \<Rightarrow> json" where
  "completion_call_block dec tc = tool_use_block (NormalizeToolUseID (ct_ID tc)) (ct_Name tc) (arguments_map dec (ct_Arguments tc))"

definition choice_blocks :: "(string \<Rightarrow> json option) \<Rightarrow> ChatChoice \<Rightarrow> json list" where
  "choice_blocks dec msg = (if cx_ReasoningContent msg \<noteq> '''' then [messagesThinkingBlock (cx_ReasoningContent msg)] else [])
     @ (if cx_Content msg \<noteq> '''' then [text_block (cx_Content msg)] else []) @ map (completion_call_block dec) (cx_ToolCalls msg)"

definition messages_stop_reason :: "string \<Rightarrow> string" where
  "messages_stop_reason fr = (if fr = ''length'' then ''max_tokens'' else if fr = ''tool_calls'' then ''tool_use'' else ''end_turn'')"

definition ChatCompletionToMessages :: "(string \<Rightarrow> json option) \<Rightarrow> ChatCompletion option \<Rightarrow> string \<Rightarrow> translate_error + json \<times> TokenUsage" where
  "ChatCompletionToMessages dec chatBody model = (case chatBody of None \<Rightarrow> Inl ParseError
     | Some oaiResp \<Rightarrow>
         let content0 = (case co_Choices oaiResp of c # _ \<Rightarrow> choice_blocks dec c | [] \<Rightarrow> []);
             anthropicContent = (if content0 = [] then [text_block ''''] else content0);
             stopReason = (case co_Choices oaiResp of c # _ \<Rightarrow> messages_stop_reason (cx_FinishReason c) | [] \<Rightarrow> ''end_turn'');
             respModel = (if model = '''' then co_Model oaiResp else model)
         in Inr (JObj [(''id'', JStr (NormalizeAnthropicID (co_ID oaiResp))), (''type'', JStr ''message''), (''role'', JStr ''assistant''),
                   (''model'', JStr respModel), (''content'', JArr anthropicContent), (''stop_reason'', JStr stopReason), (''stop_sequence'', JNull),
                   (''usage'', JObj [(''input_tokens'', JInt (co_PromptTokens oaiResp)), (''output_tokens'', JInt (co_CompletionTokens oaiResp))])],
                 zero_tokens\<lparr>tu_InputTokens := co_PromptTokens oaiResp, tu_OutputTokens := co_CompletionTokens oaiResp\<rparr>))"

subsection \<open>Messages to Chat\<close>

text \<open>What the loop over the blocks collects: text, thinking and calls.\<close>

type_synonym collected = "string \<times> string \<times> json list"

definition collect_block :: "(json \<Rightarrow> string) \<Rightarrow> json \<Rightarrow> collected \<Rightarrow> collected" where
  "collect_block enc block c = (let (t, th, calls) = c; ty = jstr (jget ''type'' block)
     in if \<not> is_obj block then c
        else if ty = ''text'' then (t @ jstr (jget ''text'' block), th, calls)
        else if ty = ''thinking'' then (t, th @ thinkingText block, calls)
        else if ty = ''tool_use'' then (t, th, calls @ [tool_use_call enc block])
        else c)"

text \<open>The prompt tokens of Chat Completions count the cached ones.\<close>

definition messages_body_usage :: "json \<Rightarrow> TokenUsage" where
  "messages_body_usage aResp = (case jobj (jget ''usage'' aResp) of None \<Rightarrow> zero_tokens
     | Some usage \<Rightarrow>
         let cached = intFrom (jget ''cache_read_input_tokens'' usage); creation = intFrom (jget ''cache_creation_input_tokens'' usage)
         in \<lparr>tu_InputTokens = intFrom (jget ''input_tokens'' usage) + cached + creation, tu_OutputTokens = intFrom (jget ''output_tokens'' usage),
             tu_CachedTokens = cached, tu_CacheCreationTokens = creation\<rparr>)"

definition completion_message :: "collected \<Rightarrow> (string \<times> json) list" where
  "completion_message c = (let (t, th, calls) = c
     in role_content ''assistant'' (if calls \<noteq> [] \<and> t = '''' then JNull else JStr t)
        @ (if th \<noteq> '''' then [(''reasoning_content'', JStr th)] else []) @ (if calls \<noteq> [] then [(''tool_calls'', JArr calls)] else []))"

definition usage_json :: "TokenUsage \<Rightarrow> json" where
  "usage_json u = JObj ([(''prompt_tokens'', JInt (tu_InputTokens u)), (''completion_tokens'', JInt (tu_OutputTokens u)),
     (''total_tokens'', JInt (tu_InputTokens u + tu_OutputTokens u))]
     @ (if tu_CachedTokens u > 0 then [(''prompt_tokens_details'', JObj [(''cached_tokens'', JInt (tu_CachedTokens u))])] else []))"

definition completion_json :: "string \<Rightarrow> int \<Rightarrow> string \<Rightarrow> collected \<Rightarrow> string \<Rightarrow> TokenUsage \<Rightarrow> json" where
  "completion_json respID now modelName c finishReason u = JObj [(''id'', JStr respID), (''object'', JStr ''chat.completion''), (''created'', JInt now),
     (''model'', JStr modelName),
     (''choices'', JArr [JObj [(''index'', JInt 0), (''message'', JObj (completion_message c)), (''finish_reason'', JStr finishReason)]]),
     (''usage'', usage_json u)]"

definition MessagesToChatCompletion :: "(json \<Rightarrow> string) \<Rightarrow> int \<Rightarrow> json option \<Rightarrow> string \<Rightarrow> translate_error + json \<times> TokenUsage" where
  "MessagesToChatCompletion enc now anthropicBody model = (case decoded_map anthropicBody of None \<Rightarrow> Inl ParseError
     | Some aResp \<Rightarrow> (case jobj (jget ''error'' aResp) of
           Some errMap \<Rightarrow> Inr (JObj [(''error'', JObj [(''message'', JStr (jstr (jget ''message'' errMap))), (''type'', JStr (jstr (jget ''type'' errMap))),
               (''code'', jval (jget ''code'' errMap))])], zero_tokens)
         | None \<Rightarrow>
             let modelName0 = jstr (jget ''model'' aResp);
                 modelName = (if modelName0 = '''' then model else modelName0);
                 c = (case jlist (jget ''content'' aResp) of Some blocks \<Rightarrow> fold (collect_block enc) blocks ('''', '''', []) | None \<Rightarrow> ('''', '''', []));
                 u = messages_body_usage aResp
             in Inr (completion_json (jstr (jget ''id'' aResp)) now modelName c
                  (mapStopReasonToFinish (jstr (jget ''stop_reason'' aResp)) (snd (snd c) \<noteq> [])) u, u)))"

subsection \<open>The round trip\<close>

text \<open>A call as it comes back: with its normalized id, and its arguments as they are encoded.\<close>

definition returned_call :: "(json \<Rightarrow> string) \<Rightarrow> (string \<Rightarrow> json option) \<Rightarrow> ChatToolCall \<Rightarrow> json" where
  "returned_call enc dec tc = JObj [(''id'', JStr (NormalizeToolUseID (ct_ID tc))), (''type'', JStr ''function''),
     (''function'', JObj [(''name'', JStr (ct_Name tc)), (''arguments'', JStr (enc (arguments_map dec (ct_Arguments tc))))])]"

definition returned_finish :: "ChatChoice \<Rightarrow> string" where
  "returned_finish c = (if cx_FinishReason c = ''length'' then ''length''
     else if cx_FinishReason c = ''tool_calls'' \<or> cx_ToolCalls c \<noteq> [] then ''tool_calls'' else ''stop'')"

lemma collect_calls:
  "fold (collect_block enc) (map (completion_call_block dec) tcs) (t, th, calls) = (t, th, calls @ map (returned_call enc dec) tcs)"
  by (induction tcs arbitrary: calls)
     (simp_all add: collect_block_def completion_call_block_def tool_use_block_def is_obj_def returned_call_def tool_use_call_def jval_def)

lemma collect_choice:
  "fold (collect_block enc) (choice_blocks dec c) ('''', '''', []) = (cx_Content c, cx_ReasoningContent c, map (returned_call enc dec) (cx_ToolCalls c))"
  by (simp add: choice_blocks_def collect_calls)
     (simp add: collect_block_def text_block_def messagesThinkingBlock_def thinkingText_def is_obj_def collect_calls)

lemma collect_body:
  "fold (collect_block enc) (if choice_blocks dec c = [] then [text_block ''''] else choice_blocks dec c) ('''', '''', [])
   = (cx_Content c, cx_ReasoningContent c, map (returned_call enc dec) (cx_ToolCalls c))"
proof (cases "choice_blocks dec c = []")
  case True
  then have "cx_Content c = '''' \<and> cx_ReasoningContent c = '''' \<and> cx_ToolCalls c = []" by (auto simp: choice_blocks_def split: if_splits)
  then show ?thesis using True by (simp add: collect_block_def text_block_def is_obj_def)
qed (simp add: collect_choice)

lemma finish_back: "mapStopReasonToFinish (messages_stop_reason (cx_FinishReason c)) (cx_ToolCalls c \<noteq> []) = returned_finish c"
  by (simp add: mapStopReasonToFinish_def messages_stop_reason_def returned_finish_def)



text \<open>The finish reason \<open>function_call\<close> means a tool is to be used in a stream, and the end of the turn in a whole response.\<close>

theorem function_call_finish_differs: "mapOpenAIFinishReason ''function_call'' = ''tool_use'' \<and> messages_stop_reason ''function_call'' = ''end_turn''"
  by (simp add: mapOpenAIFinishReason_def messages_stop_reason_def)

end
