(* ===== verification/Reasoning.thy ===== *)
theory Reasoning
  imports Chat_Bodies
begin

text \<open>
  The reasoning of the model in requests and responses: \<open>src/pkg/llm/translate/reasoning.go\<close>. Maps are the entries of decoded objects; the
  warnings of \<open>resolveThinking\<close> are kept by the number they report.

  The theorem: the thinking budget of a request fits its token limit, except when the gateway's own limit is lower than the budget and
  the client names none.
\<close>

subsection \<open>Text\<close>

definition firstNonEmptyReasoning :: "string list \<Rightarrow> string" where
  "firstNonEmptyReasoning values = (case find (\<lambda>v. v \<noteq> '''') values of Some v \<Rightarrow> v | None \<Rightarrow> '''')"

definition chatResponsesReasoning :: "string \<Rightarrow> string \<Rightarrow> string" where
  "chatResponsesReasoning reasoningContent reasoning = firstNonEmptyReasoning [reasoningContent, reasoning]"

definition responsesReasoningEffort :: "json \<Rightarrow> string" where
  "responsesReasoningEffort payload = jstr (jget ''effort'' (jsub ''reasoning'' payload))"

definition hasReasoningEffort :: "string \<Rightarrow> bool" where
  "hasReasoningEffort effort \<longleftrightarrow> effort \<noteq> '''' \<and> effort \<noteq> ''none''"

text \<open>An assistant message gets the text, or an empty field when reasoning is on and it has none.\<close>

definition applyAssistantReasoning :: "string \<Rightarrow> bool \<Rightarrow> (string \<times> json) list \<Rightarrow> (string \<times> json) list" where
  "applyAssistantReasoning reasoning enabled message =
     (if map_of message ''role'' \<noteq> Some (JStr ''assistant'') then message
      else if reasoning \<noteq> '''' then jset ''reasoning_content'' (JStr reasoning) message
      else if enabled \<and> map_of message ''reasoning_content'' = None then jset ''reasoning_content'' (JStr '''') message
      else message)"

definition reasoning_part :: "json \<Rightarrow> string" where
  "reasoning_part part = (case part of JObj _ \<Rightarrow> jstr (jget ''text'' part) | JStr v \<Rightarrow> v | _ \<Rightarrow> '''')"

definition reasoningPartsText :: "json list \<Rightarrow> string" where
  "reasoningPartsText parts = concat (map reasoning_part parts)"

definition extractReasoningSummary :: "json \<Rightarrow> string" where
  "extractReasoningSummary item =
     (let fromSummary = (case jlist (jget ''summary'' item) of Some ps \<Rightarrow> reasoningPartsText ps | None \<Rightarrow> '''');
          plain = firstNonEmptyReasoning [jstr (jget ''summary'' item), jstr (jget ''reasoning_content'' item), jstr (jget ''text'' item)]
      in if fromSummary \<noteq> '''' then fromSummary else if plain \<noteq> '''' then plain
         else case jlist (jget ''content'' item) of Some ps \<Rightarrow> reasoningPartsText ps | None \<Rightarrow> '''')"

subsection \<open>History\<close>

definition has_reasoning :: "json \<Rightarrow> bool" where
  "has_reasoning m \<longleftrightarrow> is_obj m \<and> jval (jget ''reasoning_content'' m) \<noteq> JNull"

definition fill_reasoning :: "json \<Rightarrow> json" where
  "fill_reasoning m = (case m of JObj kvs \<Rightarrow> JObj (applyAssistantReasoning '''' True kvs) | _ \<Rightarrow> m)"

definition EnsureChatReasoningHistory :: "(string \<times> json) list \<Rightarrow> (string \<times> json) list" where
  "EnsureChatReasoningHistory payload =
     (let kind = jstr (jget ''type'' (jsub ''thinking'' (JObj payload)));
          wanted = (hasReasoningEffort (jstr (map_of payload ''reasoning_effort'')) \<or> kind \<noteq> '''' \<and> kind \<noteq> ''disabled'')
      in case map_of payload ''messages'' of
           Some (JArr messages) \<Rightarrow> if wanted \<or> list_ex has_reasoning messages then jset ''messages'' (JArr (map fill_reasoning messages)) payload else payload
         | _ \<Rightarrow> payload)"

text \<open>After it, if one message carries reasoning then every assistant message has the field; nothing else is changed.\<close>

lemma fill_reasoning_total:
  "jget ''role'' m = Some (JStr ''assistant'') \<Longrightarrow> jget ''reasoning_content'' (fill_reasoning m) \<noteq> None"
  by (cases m) (auto simp: fill_reasoning_def applyAssistantReasoning_def jget_def)

lemma fill_reasoning_keeps: "jget k m = Some v \<Longrightarrow> jget k (fill_reasoning m) = Some v"
  by (cases m) (auto simp: fill_reasoning_def applyAssistantReasoning_def jget_def)

subsection \<open>Items\<close>

definition responsesReasoningToThinking :: "json \<Rightarrow> json option" where
  "responsesReasoningToThinking item =
     (let signature = jstr (jget ''encrypted_content'' item);
          parts = (case jlist (jget ''summary'' item) of None \<Rightarrow> []
            | Some ps \<Rightarrow> List.map_filter (\<lambda>p. if is_obj p then (case jget ''text'' p of Some (JStr s) \<Rightarrow> Some s | _ \<Rightarrow> None) else None) ps)
      in if signature = '''' then None
         else Some (JObj [(''type'', JStr ''thinking''), (''thinking'', JStr (str_join [LF] parts)), (''signature'', JStr signature)]))"

definition reasoningSummaryPart :: "string \<Rightarrow> json" where
  "reasoningSummaryPart s = JObj [(''type'', JStr ''summary_text''), (''text'', JStr s)]"

definition reasoningSummary :: "string \<Rightarrow> json list" where
  "reasoningSummary s = [reasoningSummaryPart s]"

definition responsesReasoningItem :: "string \<Rightarrow> json list \<Rightarrow> string \<Rightarrow> (string \<times> json) list" where
  "responsesReasoningItem itemID summary encryptedContent = [(''id'', JStr itemID), (''type'', JStr ''reasoning''), (''summary'', JArr summary)]
     @ (if encryptedContent \<noteq> '''' then [(''encrypted_content'', JStr encryptedContent)] else [])"

definition completedChatReasoningItem :: "string \<Rightarrow> string \<Rightarrow> json" where
  "completedChatReasoningItem itemID s = JObj (responsesReasoningItem itemID (reasoningSummary s) '''' @ [(''status'', JStr ''completed'')])"

text \<open>The text of a completed item is read back by the extraction.\<close>

lemma reasoning_item_read_back: "extractReasoningSummary (completedChatReasoningItem itemID s) = s"
  by (simp add: extractReasoningSummary_def completedChatReasoningItem_def responsesReasoningItem_def reasoningSummary_def reasoningSummaryPart_def
      reasoningPartsText_def reasoning_part_def firstNonEmptyReasoning_def jstr_def)

subsection \<open>The thinking budget\<close>

definition DefaultMessagesMaxTokens :: int where
  "DefaultMessagesMaxTokens = 8192"

definition MinThinkingBudget :: int where
  "MinThinkingBudget = 1024"

definition reasoningEffortBudget :: "string \<Rightarrow> int option" where
  "reasoningEffortBudget effort = (if effort = ''minimal'' \<or> effort = ''low'' then Some MinThinkingBudget else if effort = ''medium'' then Some 4096
     else if effort = ''high'' then Some 16384 else None)"

text \<open>The result: the budget if thinking is enabled, the token limit, and the limit a warning reports.\<close>

definition resolveThinking :: "json \<Rightarrow> int list \<Rightarrow> int option \<times> int \<times> int option" where
  "resolveThinking payload maxOutputTokens =
     (let limit = (case maxOutputTokens of n # _ \<Rightarrow> if n > 0 then n else 0 | [] \<Rightarrow> 0);
          defaultMax = (if limit > 0 then limit else DefaultMessagesMaxTokens);
          capped = (\<lambda>n. if limit > 0 \<and> n > limit then limit else n);
          clientMax = (case jnum (jget ''max_output_tokens'' payload) of Some r \<Rightarrow> if r > 0 then Some (int64_of r) else None | None \<Rightarrow> None)
      in case reasoningEffortBudget (responsesReasoningEffort payload) of
           None \<Rightarrow> (case clientMax of Some n \<Rightarrow> (None, capped n, None) | None \<Rightarrow> (None, defaultMax, None))
         | Some budget \<Rightarrow> (case clientMax of
               None \<Rightarrow> (Some budget, capped (budget + defaultMax), None)
             | Some n \<Rightarrow>
                 let maxTokens = capped n;
                     budget1 = (if budget > maxTokens - MinThinkingBudget then maxTokens - MinThinkingBudget else budget)
                 in if budget1 < MinThinkingBudget then (None, maxTokens, Some maxTokens) else (Some budget1, maxTokens, None)))"

definition client_max :: "json \<Rightarrow> bool" where
  "client_max payload \<longleftrightarrow> (case jnum (jget ''max_output_tokens'' payload) of Some r \<Rightarrow> r > 0 | None \<Rightarrow> False)"

lemma effort_budget: "reasoningEffortBudget effort = Some b \<Longrightarrow> 1024 \<le> b \<and> b \<le> 16384"
  by (auto simp: reasoningEffortBudget_def MinThinkingBudget_def split: if_splits)

text \<open>(C28) The token limit of a translated request is never above the gateway's, and a thinking budget is at least the minimum. Where the
  client names a limit, or the gateway has none, or its limit is above what the effort asks for, the budget is below the token limit and leaves room for the
  answer.\<close>

theorem thinking_budget_fits:
  assumes "resolveThinking payload maxOutputTokens = (thinking, maxTokens, warning)"
  shows "(maxOutputTokens \<noteq> [] \<and> hd maxOutputTokens > 0 \<longrightarrow> maxTokens \<le> hd maxOutputTokens)
    \<and> (thinking = Some budget \<longrightarrow> 1024 \<le> budget
       \<and> (client_max payload \<longrightarrow> budget + 1024 \<le> maxTokens)
       \<and> (maxOutputTokens = [] \<or> hd maxOutputTokens \<le> 0 \<or> budget < hd maxOutputTokens \<longrightarrow> budget < maxTokens))"
  using assms effort_budget[of "responsesReasoningEffort payload"]
  by (cases maxOutputTokens)
     (auto simp: resolveThinking_def client_max_def Let_def MinThinkingBudget_def DefaultMessagesMaxTokens_def split: option.splits if_splits)

theorem thinking_budget_fits_witness:
  "let r = resolveThinking (JObj [(''reasoning'', JObj [(''effort'', JStr ''high'')]), (''max_output_tokens'', JNum 4096)]) [64000]
   in fst r = Some 3072 \<and> fst (snd r) = 4096 \<and> fst (snd r) \<le> 64000"
proof -
  let ?p = "JObj [(''reasoning'', JObj [(''effort'', JStr ''high'')]), (''max_output_tokens'', JNum 4096)]"
  have f: "fl64 4096 = 4096" using fl64_int_exact[of 4096] by simp
  have r: "resolveThinking ?p [64000] = (Some 3072, 4096, None)"
    by (simp add: resolveThinking_def responsesReasoningEffort_def jsub_def jval_def reasoningEffortBudget_def MinThinkingBudget_def jnum_def f int64_of_def)
  from thinking_budget_fits[OF r] r show ?thesis by simp
qed

text \<open>Without a limit of the client, the sum of budget and default is cut to the gateway's limit, and the budget is not: it may then be as large as
  the token limit or larger, which the Messages protocol rejects.\<close>

theorem thinking_budget_above_limit:
  "resolveThinking (JObj [(''reasoning'', JObj [(''effort'', JStr ''high'')])]) [8192] = (Some 16384, 8192, None)"
  by (simp add: resolveThinking_def responsesReasoningEffort_def jsub_def jval_def reasoningEffortBudget_def MinThinkingBudget_def)

end
