(* ===== verification/Responses_Chat.thy ===== *)
theory Responses_Chat
  imports Reasoning
begin

text \<open>
  Requests of the Responses API served by a Chat Completions upstream, and the answers: \<open>src/pkg/llm/translate/responses_chat.go\<close>. Bodies are
  decoded values, \<open>enc\<close> and \<open>dec\<close> encode and decode the JSON text inside items, and the clock reading is an argument. The tool name mapper is
  that of \<open>Tool_Names\<close>.

  The theorem: in a translated request every assistant message with calls is followed at once by the answers to exactly these calls, and no
  call that has an output is lost, invented or moved.
\<close>

subsection \<open>Items\<close>

definition responseItemCallID :: "json \<Rightarrow> string" where
  "responseItemCallID item = (let callID = jstr (jget ''call_id'' item) in if callID \<noteq> '''' then callID else jstr (jget ''id'' item))"

definition call_id_of :: "json \<Rightarrow> string" where
  "call_id_of tc = jstr (jget ''id'' tc)"

definition pendingHasCallID :: "json list \<Rightarrow> string \<Rightarrow> bool" where
  "pendingHasCallID pending callID \<longleftrightarrow> list_ex (\<lambda>tc. call_id_of tc = callID) pending"

definition item_part_text :: "json \<Rightarrow> string" where
  "item_part_text c = (if is_obj c then firstNonEmptyReasoning [jstr (jget ''text'' c), jstr (jget ''input_text'' c), jstr (jget ''value'' c)] else '''')"

definition messageItemText :: "json \<Rightarrow> string" where
  "messageItemText item = (case jget ''content'' item of Some (JStr s) \<Rightarrow> s | Some (JArr cs) \<Rightarrow> concat (map item_part_text cs) | _ \<Rightarrow> '''')"

definition functionCallOutputText :: "(json \<Rightarrow> string) \<Rightarrow> json \<Rightarrow> string" where
  "functionCallOutputText enc item = (case jget ''output'' item of None \<Rightarrow> '''' | Some (JStr s) \<Rightarrow> s
     | Some (JArr blocks) \<Rightarrow> (let t = concat (map (\<lambda>b. jstr (jget ''text'' b)) blocks) in if t \<noteq> '''' then t else enc (JArr blocks))
     | Some v \<Rightarrow> enc v)"

definition item_type :: "json \<Rightarrow> string" where
  "item_type item = jstr (jget ''type'' item)"

definition is_output :: "json \<Rightarrow> bool" where
  "is_output item \<longleftrightarrow> item_type item = ''function_call_output'' \<or> item_type item = ''custom_tool_call_output''"

text \<open>The first pass: outputs by call id, a later one replacing an earlier, and whether there is reasoning.\<close>

definition note_output :: "(json \<Rightarrow> string) \<Rightarrow> json \<Rightarrow> (string \<rightharpoonup> string) \<Rightarrow> (string \<rightharpoonup> string)" where
  "note_output enc item outs = (if is_obj item \<and> is_output item \<and> responseItemCallID item \<noteq> ''''
     then outs(responseItemCallID item \<mapsto> functionCallOutputText enc item) else outs)"

definition tool_outputs :: "(json \<Rightarrow> string) \<Rightarrow> json list \<Rightarrow> (string \<rightharpoonup> string)" where
  "tool_outputs enc items = fold (note_output enc) items Map.empty"

definition has_reasoning_item :: "json list \<Rightarrow> bool" where
  "has_reasoning_item items \<longleftrightarrow> list_ex (\<lambda>item. is_obj item \<and> item_type item = ''reasoning'') items"

subsection \<open>The open round of calls\<close>

record Assembly =
  as_messages :: "json list"
  as_pending :: "json list"
  as_text :: string
  as_answered :: "string set"
  as_reasoning :: string
  as_mapper :: ToolNameMapper

definition answer_message :: "(string \<rightharpoonup> string) \<Rightarrow> json \<Rightarrow> json" where
  "answer_message outs tc = JObj [(''role'', JStr ''tool''), (''tool_call_id'', JStr (call_id_of tc)), (''content'', JStr (the (outs (call_id_of tc))))]"

definition flushPendingToolCalls :: "(string \<rightharpoonup> string) \<Rightarrow> bool \<Rightarrow> Assembly \<Rightarrow> Assembly" where
  "flushPendingToolCalls outs thinking s =
     (if as_pending s = [] then s
      else let answered = filter (\<lambda>tc. call_id_of tc \<noteq> '''' \<and> outs (call_id_of tc) \<noteq> None) (as_pending s);
               s1 = s\<lparr>as_pending := [], as_answered := as_answered s \<union> call_id_of ` set answered\<rparr>
        in if answered = [] then s1
           else let msg = [(''role'', JStr ''assistant''), (''tool_calls'', JArr answered)] @ (if as_text s \<noteq> '''' then [(''content'', JStr (as_text s))] else [])
             in s1\<lparr>as_text := '''', as_reasoning := '''',
                   as_messages := as_messages s @ [JObj (applyAssistantReasoning (as_reasoning s) thinking msg)] @ map (answer_message outs) answered\<rparr>)"

definition call_json :: "string \<Rightarrow> string \<Rightarrow> string \<Rightarrow> json" where
  "call_json callID name args = JObj [(''id'', JStr callID), (''type'', JStr ''function''), (''function'', JObj [(''name'', JStr name), (''arguments'', JStr args)])]"

text \<open>The name sent for an item: registered with its namespace if it has one.\<close>

definition sent_name :: "json \<Rightarrow> ToolNameMapper \<Rightarrow> string \<times> ToolNameMapper" where
  "sent_name item mapper = (let ns = jstr (jget ''namespace'' item); name = jstr (jget ''name'' item)
     in if ns \<noteq> '''' then SanitizeAndRegister ns name mapper else (name, mapper))"

definition add_call :: "(json \<Rightarrow> string) \<Rightarrow> (string \<rightharpoonup> string) \<Rightarrow> json \<Rightarrow> Assembly \<Rightarrow> Assembly" where
  "add_call enc outs item s =
     (if outs (responseItemCallID item) = None then s
      else let (name, mapper) = sent_name item (as_mapper s);
               custom = (item_type item = ''custom_tool_call'');
               args = (if custom then enc (JObj [(''patch'', JStr (jstr (jget ''input'' item)))]) else jstr (jget ''arguments'' item))
        in s\<lparr>as_mapper := (if custom then RegisterCustom name mapper else mapper), as_pending := as_pending s @ [call_json (responseItemCallID item) name args]\<rparr>)"

definition chat_role :: "string \<Rightarrow> string" where
  "chat_role role = (if role = ''developer'' \<or> role = ''system'' then ''system'' else if role \<noteq> '''' then role else ''user'')"

text \<open>A message item once no round is open; an empty assistant message is left out.\<close>

definition string_field :: "string \<Rightarrow> json \<Rightarrow> (string \<times> json) list" where
  "string_field k item = (let v = jstr (jget k item) in if v \<noteq> '''' then [(k, JStr v)] else [])"

definition emit_message :: "bool \<Rightarrow> json \<Rightarrow> Assembly \<Rightarrow> Assembly" where
  "emit_message thinking item s =
     (let role = chat_role (jstr (jget ''role'' item)); content = messageItemText item; calls = jget ''tool_calls'' item
      in if role = ''assistant'' \<and> TrimSpace content = '''' \<and> jval calls = JNull then s
         else let msg = role_content role (JStr content) @ string_field ''name'' item @ string_field ''tool_call_id'' item
                    @ (case calls of Some v \<Rightarrow> [(''tool_calls'', v)] | None \<Rightarrow> [])
           in if role = ''assistant''
              then s\<lparr>as_messages := as_messages s @ [JObj (applyAssistantReasoning (as_reasoning s) thinking msg)], as_reasoning := ''''\<rparr>
              else s\<lparr>as_messages := as_messages s @ [JObj msg]\<rparr>)"

definition add_message_item :: "(string \<rightharpoonup> string) \<Rightarrow> bool \<Rightarrow> json \<Rightarrow> Assembly \<Rightarrow> Assembly" where
  "add_message_item outs thinking item s =
     (if jget ''tool_calls'' item \<noteq> None \<or> jstr (jget ''role'' item) \<noteq> ''assistant'' \<or> as_pending s = []
      then emit_message thinking item (flushPendingToolCalls outs thinking s)
      else let t = messageItemText item
        in if t \<noteq> '''' then s\<lparr>as_text := (if as_text s \<noteq> '''' then as_text s @ [LF] else '''') @ t\<rparr> else s)"

definition add_item :: "(json \<Rightarrow> string) \<Rightarrow> (string \<rightharpoonup> string) \<Rightarrow> bool \<Rightarrow> json \<Rightarrow> Assembly \<Rightarrow> Assembly" where
  "add_item enc outs thinking item s =
     (if \<not> is_obj item then s
      else if item_type item = ''reasoning'' then (let t = extractReasoningSummary item in if t \<noteq> '''' then s\<lparr>as_reasoning := t\<rparr> else s)
      else if item_type item = ''function_call'' \<or> item_type item = ''custom_tool_call'' then add_call enc outs item s
      else if is_output item then
        (let callID = responseItemCallID item
         in if callID = '''' \<or> callID \<in> as_answered s \<or> \<not> pendingHasCallID (as_pending s) callID then flushPendingToolCalls outs thinking s else s)
      else add_message_item outs thinking item s)"

text \<open>The messages of the input.\<close>

definition new_assembly :: "json list \<Rightarrow> Assembly" where
  "new_assembly msgs = \<lparr>as_messages = msgs, as_pending = [], as_text = '''', as_answered = {}, as_reasoning = '''', as_mapper = NewToolNameMapper\<rparr>"

definition assemble :: "(json \<Rightarrow> string) \<Rightarrow> bool \<Rightarrow> json list \<Rightarrow> json list \<Rightarrow> Assembly" where
  "assemble enc hasReasoningConfig msgs items =
     (let outs = tool_outputs enc items; thinking = (hasReasoningConfig \<or> has_reasoning_item items)
      in flushPendingToolCalls outs thinking (fold (add_item enc outs thinking) items (new_assembly msgs)))"

definition responses_messages :: "(json \<Rightarrow> string) \<Rightarrow> json \<Rightarrow> json list \<times> ToolNameMapper" where
  "responses_messages enc payload =
     (let instructions = jstr (jget ''instructions'' payload);
          sys = (if instructions \<noteq> '''' then [JObj (role_content ''system'' (JStr instructions))] else [])
      in case jget ''input'' payload of
           Some (JStr s) \<Rightarrow> (sys @ (if s \<noteq> '''' then [JObj (role_content ''user'' (JStr s))] else []), NewToolNameMapper)
         | Some (JArr items) \<Rightarrow> (let a = assemble enc (hasReasoningEffort (responsesReasoningEffort payload)) sys items in (as_messages a, as_mapper a))
         | _ \<Rightarrow> (sys, NewToolNameMapper))"

subsection \<open>Tools\<close>

definition builtinToolStandardFields :: "string \<Rightarrow> string list" where
  "builtinToolStandardFields t =
     (if t = ''web_search'' \<or> t = ''web_search_preview'' then [''search_context_size'', ''user_location'', ''filters'']
      else if t = ''code_interpreter'' then [''container'']
      else if t = ''image_generation'' then [''model'', ''size'', ''quality'', ''background'', ''output_format'']
      else if t = ''file_search'' then [''vector_store_ids'', ''max_num_results'', ''filters'', ''ranking_options'']
      else if t = ''computer_use_preview'' then [''display_width'', ''display_height'', ''environment'']
      else if t = ''tool_search'' then [''query'', ''max_num_results'', ''filters''] else [])"

definition patch_parameters :: "(string \<times> json) list" where
  "patch_parameters = [(''type'', JStr ''object''), (''properties'', JObj [(''patch'', JObj [(''type'', JStr ''string''),
       (''description'', JStr ''The full patch or diff content to apply to files.'')])]), (''required'', JArr [JStr ''patch''])]"

text \<open>The parameters of \<open>apply_patch\<close> when it has no properties.\<close>

definition with_patch_parameters :: "(string \<times> json) list \<Rightarrow> (string \<times> json) list" where
  "with_patch_parameters flatTool =
     (let params = (case map_of flatTool ''parameters'' of Some (JObj p) \<Rightarrow> p | _ \<Rightarrow> []);
          props = (case map_of params ''properties'' of Some (JObj p) \<Rightarrow> p | _ \<Rightarrow> [])
      in jset ''parameters'' (JObj (if props = [] then fold (\<lambda>(k, v). jset k v) patch_parameters params else params)) flatTool)"

definition BuildStandardTool :: "json \<Rightarrow> (string \<times> json) list option" where
  "BuildStandardTool tool =
     (let type0 = jstr (jget ''type'' tool); name = jstr (jget ''name'' tool);
          toolType = (if type0 = '''' then ''function'' else type0);
          targetType = (if toolType = ''custom'' then ''function'' else toolType);
          entries = (case tool of JObj kvs \<Rightarrow> kvs | _ \<Rightarrow> [])
      in if type0 = '''' \<and> name = '''' then None
         else if targetType \<notin> {''function'', ''mcp'', ''shell''}
         then Some ((''type'', JStr targetType) # concat (map (copied tool) (builtinToolStandardFields targetType)))
         else case jget toolType tool of
           Some (JObj inner) \<Rightarrow>
             (let flat1 = fold (\<lambda>(k, v). jset k v) inner [(''type'', JStr toolType)];
                  flat = flat1 @ filter (\<lambda>(k, v). k \<noteq> ''type'' \<and> k \<noteq> toolType \<and> map_of flat1 k = None) entries
              in if toolType \<noteq> ''custom'' \<and> jstr (map_of flat ''name'') = '''' then None else Some flat)
         | _ \<Rightarrow>
             (let innerName = (if name = '''' then targetType else name);
                  flat = filter (\<lambda>(k, v). k \<noteq> ''type'' \<and> k \<noteq> ''name'') entries @ [(''type'', JStr targetType), (''name'', JStr innerName)]
              in Some (if innerName = ''apply_patch'' then with_patch_parameters flat else flat)))"

definition WrapFlatToolToNestedOpenAI :: "(string \<times> json) list \<Rightarrow> ToolNameMapper \<Rightarrow> json \<times> ToolNameMapper" where
  "WrapFlatToolToNestedOpenAI flatTool mapper =
     (let type0 = jstr (map_of flatTool ''type''); toolType = (if type0 = '''' then ''function'' else type0);
          inner = jdel ''type'' flatTool; name = jstr (map_of inner ''name''); ns = jstr (map_of inner ''namespace'');
          mapper1 = (if name \<noteq> '''' \<and> (name = ''apply_patch'' \<or> toolType = ''custom'') then RegisterCustom name mapper else mapper);
          (inner2, mapper2) = (if ns = '''' then (inner, mapper1)
             else let (inner1, m) = (if name \<noteq> '''' then (let (s, m) = SanitizeAndRegister ns name mapper1 in (jset ''name'' (JStr s) inner, m)) else (inner, mapper1))
               in (jdel ''namespace'' inner1, m))
      in (JObj [(''type'', JStr toolType), (toolType, JObj inner2)], mapper2))"

text \<open>A tool with its namespace, if it is a function.\<close>

definition chat_function_tool :: "string \<Rightarrow> json \<Rightarrow> json list \<times> ToolNameMapper \<Rightarrow> json list \<times> ToolNameMapper" where
  "chat_function_tool ns tool acc = (if \<not> is_obj tool then acc
     else case BuildStandardTool tool of
       Some stdTool \<Rightarrow>
         if map_of stdTool ''type'' = Some (JStr ''function'')
         then let (t, m) = WrapFlatToolToNestedOpenAI (if ns \<noteq> '''' then jset ''namespace'' (JStr ns) stdTool else stdTool) (snd acc) in (fst acc @ [t], m)
         else acc
     | None \<Rightarrow> acc)"

definition responses_tool :: "json \<Rightarrow> json list \<times> ToolNameMapper \<Rightarrow> json list \<times> ToolNameMapper" where
  "responses_tool tool acc = (if is_obj tool \<and> item_type tool = ''namespace''
     then (case jlist (jget ''tools'' tool) of Some subs \<Rightarrow> fold (chat_function_tool (jstr (jget ''name'' tool))) subs acc | None \<Rightarrow> acc)
     else chat_function_tool '''' tool acc)"

subsection \<open>The request\<close>

definition responses_only :: "string list" where
  "responses_only = [''store'', ''previous_response_id'', ''include'', ''background'', ''truncation'', ''text'', ''reasoning'']"

definition effort_to_chat :: "(string \<times> json) list \<Rightarrow> (string \<times> json) list" where
  "effort_to_chat p = (let effort = responsesReasoningEffort (JObj p)
     in if effort \<noteq> '''' \<and> map_of p ''reasoning_effort'' = None then jset ''reasoning_effort'' (JStr effort) p else p)"

definition max_output_to_chat :: "(string \<times> json) list \<Rightarrow> (string \<times> json) list" where
  "max_output_to_chat p = (case map_of p ''max_output_tokens'' of Some v \<Rightarrow> jdel ''max_output_tokens'' (jset ''max_completion_tokens'' v p) | None \<Rightarrow> p)"

definition responses_tools_to_chat :: "ToolNameMapper \<Rightarrow> (string \<times> json) list \<Rightarrow> (string \<times> json) list \<times> ToolNameMapper" where
  "responses_tools_to_chat mapper p = (case map_of p ''tools'' of
       Some (JArr tools) \<Rightarrow>
         (let (finalTools, m) = fold responses_tool tools ([], mapper)
          in (if finalTools \<noteq> [] then jset ''tools'' (JArr finalTools) p else jdel ''tool_choice'' (jdel ''tools'' p), m))
     | _ \<Rightarrow> (p, mapper))"

definition ResponsesRequestToChat :: "(json \<Rightarrow> string) \<Rightarrow> json option \<Rightarrow> translate_error + json \<times> ToolNameMapper" where
  "ResponsesRequestToChat enc rawBody = (case rawBody of
       Some (JObj payload) \<Rightarrow>
         (let (msgs, mapper) = responses_messages enc (JObj payload);
              p1 = effort_to_chat (jdel ''instructions'' (jdel ''input'' (jset ''messages'' (jslice msgs) payload)));
              p2 = max_output_to_chat (fold jdel responses_only p1);
              (p3, m) = responses_tools_to_chat mapper p2
          in Inr (JObj p3, m))
     | Some JNull \<Rightarrow> Inl NilMapPanic
     | _ \<Rightarrow> Inl ParseError)"


subsection \<open>Calls and their answers\<close>

text \<open>The ids of the calls a message makes, and a message that answers one.\<close>

definition calls_of :: "json \<Rightarrow> string list" where
  "calls_of m = (case jlist (jget ''tool_calls'' m) of Some tcs \<Rightarrow> map call_id_of tcs | None \<Rightarrow> [])"

definition is_answer :: "(string \<rightharpoonup> string) \<Rightarrow> string \<Rightarrow> json \<Rightarrow> bool" where
  "is_answer outs i m \<longleftrightarrow> jget ''role'' m = Some (JStr ''tool'') \<and> jget ''tool_call_id'' m = Some (JStr i) \<and> outs i \<noteq> None \<and> jget ''content'' m = map_option JStr (outs i)"

text \<open>A reader that is owed the answers to the calls made last, in their order, before anything else may come.\<close>

fun answered :: "(string \<rightharpoonup> string) \<Rightarrow> string list \<Rightarrow> json list \<Rightarrow> bool" where
  "answered outs owed [] = (owed = [])"
| "answered outs [] (m # ms) = (jstr (jget ''role'' m) \<noteq> ''tool'' \<and> answered outs (calls_of m) ms)"
| "answered outs (i # owed) (m # ms) = (is_answer outs i m \<and> answered outs owed ms)"

lemma answered_append: "answered outs owed xs \<Longrightarrow> answered outs [] ys \<Longrightarrow> answered outs owed (xs @ ys)"
  by (induction outs owed xs rule: answered.induct) auto

text \<open>Items as the Responses API has them: calls are items of their own, not fields of messages.\<close>

definition responses_item :: "json \<Rightarrow> bool" where
  "responses_item item \<longleftrightarrow> jget ''tool_calls'' item = None \<and> jstr (jget ''role'' item) \<noteq> ''tool''"

definition is_call :: "json \<Rightarrow> bool" where
  "is_call item \<longleftrightarrow> is_obj item \<and> (item_type item = ''function_call'' \<or> item_type item = ''custom_tool_call'')"

text \<open>The calls that must be sent: those that have an output somewhere.\<close>

definition expected_calls :: "(string \<rightharpoonup> string) \<Rightarrow> json list \<Rightarrow> string list" where
  "expected_calls outs items = map responseItemCallID (filter (\<lambda>item. is_call item \<and> outs (responseItemCallID item) \<noteq> None) items)"

definition assembly_ok :: "(string \<rightharpoonup> string) \<Rightarrow> string list \<Rightarrow> Assembly \<Rightarrow> bool" where
  "assembly_ok outs ids s \<longleftrightarrow> answered outs [] (as_messages s) \<and> list_all (\<lambda>tc. call_id_of tc \<noteq> '''' \<and> outs (call_id_of tc) \<noteq> None) (as_pending s)
     \<and> concat (map calls_of (as_messages s)) @ map call_id_of (as_pending s) = ids \<and> (as_pending s = [] \<longrightarrow> as_text s = '''')"

lemma no_empty_output: "tool_outputs enc items '''' = None"
proof -
  have "outs '''' = None \<Longrightarrow> fold (note_output enc) items outs '''' = None" for outs
    by (induction items arbitrary: outs) (auto simp: note_output_def)
  then show ?thesis by (simp add: tool_outputs_def)
qed

lemma reasoning_keeps_fields:
  "k \<noteq> ''reasoning_content'' \<Longrightarrow> map_of (applyAssistantReasoning r b msg) k = map_of msg k"
  by (simp add: applyAssistantReasoning_def)

lemma answers_owed:
  "list_all (\<lambda>tc. call_id_of tc \<noteq> '''' \<and> outs (call_id_of tc) \<noteq> None) tcs \<Longrightarrow> answered outs (map call_id_of tcs) (map (answer_message outs) tcs)"
  by (induction tcs) (auto simp: is_answer_def answer_message_def)

lemma answers_make_no_calls: "concat (map calls_of (map (answer_message outs) tcs)) = []"
  by (induction tcs) (simp_all add: calls_of_def answer_message_def)

text \<open>Closing the round keeps the invariant and leaves nothing pending.\<close>

lemma flush_ok:
  assumes "assembly_ok outs ids s"
  shows "assembly_ok outs ids (flushPendingToolCalls outs thinking s) \<and> as_pending (flushPendingToolCalls outs thinking s) = []"
proof (cases "as_pending s = []")
  case True
  then show ?thesis using assms by (simp add: flushPendingToolCalls_def)
next
  case False
  define msg where "msg = JObj (applyAssistantReasoning (as_reasoning s) thinking ([(''role'', JStr ''assistant''), (''tool_calls'', JArr (as_pending s))]
     @ (if as_text s \<noteq> '''' then [(''content'', JStr (as_text s))] else [])))"
  have all: "list_all (\<lambda>tc. call_id_of tc \<noteq> '''' \<and> outs (call_id_of tc) \<noteq> None) (as_pending s)" using assms by (simp add: assembly_ok_def)
  then have "filter (\<lambda>tc. call_id_of tc \<noteq> '''' \<and> outs (call_id_of tc) \<noteq> None) (as_pending s) = as_pending s" by (simp add: list_all_iff)
  then have f: "flushPendingToolCalls outs thinking s = s\<lparr>as_pending := [], as_answered := as_answered s \<union> call_id_of ` set (as_pending s), as_text := '''', as_reasoning := '''',
      as_messages := as_messages s @ msg # map (answer_message outs) (as_pending s)\<rparr>"
    using False by (simp add: flushPendingToolCalls_def msg_def Let_def)
  have m: "calls_of msg = map call_id_of (as_pending s)" "jstr (jget ''role'' msg) \<noteq> ''tool''"
    by (simp_all add: msg_def calls_of_def reasoning_keeps_fields)
  then have "answered outs [] (msg # map (answer_message outs) (as_pending s))" using answers_owed[OF all] by simp
  then have "answered outs [] (as_messages s @ msg # map (answer_message outs) (as_pending s))" using assms answered_append by (auto simp: assembly_ok_def)
  moreover have "concat (map calls_of (as_messages s @ msg # map (answer_message outs) (as_pending s))) = ids"
    using assms m(1) by (simp only: map_append list.map concat_append concat.simps answers_make_no_calls assembly_ok_def append_Nil2)
  ultimately show ?thesis unfolding f assembly_ok_def by simp
qed

lemma emit_ok:
  assumes "assembly_ok outs ids s" "as_pending s = []" "responses_item item"
  shows "assembly_ok outs ids (emit_message thinking item s)"
proof -
  define msg where "msg = role_content (chat_role (jstr (jget ''role'' item))) (JStr (messageItemText item)) @ string_field ''name'' item @ string_field ''tool_call_id'' item"
  have role: "chat_role (jstr (jget ''role'' item)) \<noteq> ''tool''" using assms(3) by (auto simp: chat_role_def responses_item_def)
  have k: "map_of msg ''role'' = Some (JStr (chat_role (jstr (jget ''role'' item))))" "map_of msg ''tool_calls'' = None"
    by (simp_all add: msg_def role_content_def string_field_def Let_def map_add_def)
  have add: "assembly_ok outs ids s'" if "as_messages s' = as_messages s @ [JObj kvs]" "as_pending s' = []" "as_text s' = as_text s"
      "map_of kvs ''role'' = map_of msg ''role''" "map_of kvs ''tool_calls'' = None" for s' kvs
    using that assms(1,2) role k answered_append[of outs "[]" "as_messages s" "[JObj kvs]"] by (simp add: assembly_ok_def calls_of_def)
  show ?thesis
  proof (cases "chat_role (jstr (jget ''role'' item)) = ''assistant'' \<and> TrimSpace (messageItemText item) = '''' \<and> jval (jget ''tool_calls'' item) = JNull")
    case True
    then show ?thesis using assms(1) by (simp add: emit_message_def)
  next
    case False
    then have e: "emit_message thinking item s = (if chat_role (jstr (jget ''role'' item)) = ''assistant''
        then s\<lparr>as_messages := as_messages s @ [JObj (applyAssistantReasoning (as_reasoning s) thinking msg)], as_reasoning := ''''\<rparr>
        else s\<lparr>as_messages := as_messages s @ [JObj msg]\<rparr>)"
      using assms(3) unfolding emit_message_def msg_def by (auto simp: Let_def responses_item_def)
    show ?thesis
    proof (cases "chat_role (jstr (jget ''role'' item)) = ''assistant''")
      case True
      then show ?thesis using assms(2) k(2) unfolding e by (intro add[of _ "applyAssistantReasoning (as_reasoning s) thinking msg"]) (simp_all add: reasoning_keeps_fields)
    next
      case False
      then show ?thesis using assms(2) k(2) unfolding e by (intro add[of _ msg]) simp_all
    qed
  qed
qed

lemma message_item_ok:
  assumes "assembly_ok outs ids s" "responses_item item"
  shows "assembly_ok outs ids (add_message_item outs thinking item s)"
proof (cases "jstr (jget ''role'' item) \<noteq> ''assistant'' \<or> as_pending s = []")
  case True
  then show ?thesis using flush_ok[OF assms(1), of thinking] emit_ok[OF _ _ assms(2)] by (auto simp: add_message_item_def)
next
  case False
  then show ?thesis using assms by (simp add: add_message_item_def assembly_ok_def responses_item_def Let_def)
qed

lemma call_ok:
  assumes "assembly_ok outs ids s" "outs '''' = None"
  shows "assembly_ok outs (ids @ (if outs (responseItemCallID item) \<noteq> None then [responseItemCallID item] else [])) (add_call enc outs item s)"
  using assms by (cases "outs (responseItemCallID item)") (auto simp: add_call_def assembly_ok_def call_json_def call_id_of_def Let_def split: prod.split)

lemma item_ok:
  assumes "assembly_ok outs ids s" "outs '''' = None" "responses_item item"
  shows "assembly_ok outs (ids @ expected_calls outs [item]) (add_item enc outs thinking item s)"
proof -
  have same: "assembly_ok outs ids (s\<lparr>as_reasoning := t\<rparr>)" for t using assms(1) by (simp add: assembly_ok_def)
  show ?thesis
  proof (cases "is_call item")
    case True
    then have "item_type item \<noteq> ''reasoning''" "is_obj item" "item_type item = ''function_call'' \<or> item_type item = ''custom_tool_call''" by (auto simp: is_call_def)
    then have "add_item enc outs thinking item s = add_call enc outs item s" by (auto simp: add_item_def)
    then show ?thesis using True call_ok[OF assms(1,2), of item enc] by (simp add: expected_calls_def split: if_splits)
  next
    case False
    then show ?thesis using same assms(1) flush_ok[OF assms(1), of thinking] message_item_ok[OF assms(1,3)]
      by (auto simp: add_item_def expected_calls_def is_call_def Let_def)
  qed
qed

lemma items_ok_fold:
  assumes "assembly_ok outs ids s" "outs '''' = None" "list_all responses_item items"
  shows "assembly_ok outs (ids @ expected_calls outs items) (fold (add_item enc outs thinking) items s)"
  using assms
proof (induction items arbitrary: ids s)
  case (Cons item items)
  have "expected_calls outs (item # items) = expected_calls outs [item] @ expected_calls outs items" by (simp add: expected_calls_def)
  then show ?case using Cons.IH[OF item_ok[OF Cons.prems(1,2), of item enc thinking] Cons.prems(2)] Cons.prems(3) by simp
qed (simp add: expected_calls_def)

lemma assemble_answered:
  assumes "list_all responses_item items" "answered (tool_outputs enc items) [] msgs" "concat (map calls_of msgs) = []"
  shows "answered (tool_outputs enc items) [] (as_messages (assemble enc c msgs items))
    \<and> concat (map calls_of (as_messages (assemble enc c msgs items))) = expected_calls (tool_outputs enc items) items
    \<and> as_text (assemble enc c msgs items) = ''''"
proof -
  let ?outs = "tool_outputs enc items"
  have "assembly_ok ?outs [] (new_assembly msgs)" using assms(2,3) by (simp add: assembly_ok_def new_assembly_def)
  from items_ok_fold[OF this no_empty_output assms(1)]
  have "assembly_ok ?outs (expected_calls ?outs items) (fold (add_item enc ?outs t) items (new_assembly msgs))" for t by simp
  from flush_ok[OF this, of "c \<or> has_reasoning_item items" "c \<or> has_reasoning_item items"]
  have "assembly_ok ?outs (expected_calls ?outs items) (assemble enc c msgs items) \<and> as_pending (assemble enc c msgs items) = []"
    by (simp add: assemble_def Let_def)
  then show ?thesis by (auto simp: assembly_ok_def)
qed


lemma fold_jdel_keep: "k \<notin> set ks \<Longrightarrow> map_of (fold jdel ks p) k = map_of p k"
  by (induction ks arbitrary: p) simp_all

lemma request_steps_keep_messages:
  "map_of (fst (responses_tools_to_chat m (max_output_to_chat (fold jdel responses_only (effort_to_chat p))))) ''messages'' = map_of p ''messages''"
proof -
  have t: "map_of (fst (responses_tools_to_chat m p)) ''messages'' = map_of p ''messages''" for p
    by (auto simp: responses_tools_to_chat_def split: option.splits json.splits prod.split)
  have x: "map_of (max_output_to_chat p) ''messages'' = map_of p ''messages''" for p
    by (simp add: max_output_to_chat_def split: option.splits)
  have r: "map_of (fold jdel responses_only p) ''messages'' = map_of p ''messages''" for p
    by (rule fold_jdel_keep) (simp add: responses_only_def)
  have e: "map_of (effort_to_chat p) ''messages'' = map_of p ''messages''" for p
    by (simp add: effort_to_chat_def Let_def)
  show ?thesis by (simp only: t x r e)
qed

text \<open>(C22) A Chat upstream gets every call with its answer: in the messages of a translated Responses request, an assistant message with calls
  is followed at once by one message of a tool per call, in the order of the calls and with the output the client sent for it; no other
  message is a tool's. The calls sent are the calls of the input that have an output, in their order, wherever the outputs stand.\<close>

theorem every_call_is_answered:
  assumes "map_of payload ''input'' = Some (JArr items)" "list_all responses_item items"
  shows "\<exists>q m msgs. ResponsesRequestToChat enc (Some (JObj payload)) = Inr (JObj q, m) \<and> map_of q ''messages'' = Some (jslice msgs)
    \<and> answered (tool_outputs enc items) [] msgs \<and> concat (map calls_of msgs) = expected_calls (tool_outputs enc items) items"
proof -
  define sys where "sys = (let i = jstr (map_of payload ''instructions'') in if i \<noteq> '''' then [JObj (role_content ''system'' (JStr i))] else [])"
  define a where "a = assemble enc (hasReasoningEffort (responsesReasoningEffort (JObj payload))) sys items"
  define p where "p = jdel ''instructions'' (jdel ''input'' (jset ''messages'' (jslice (as_messages a)) payload))"
  obtain q m where q: "responses_tools_to_chat (as_mapper a) (max_output_to_chat (fold jdel responses_only (effort_to_chat p))) = (q, m)" by fastforce
  have "responses_messages enc (JObj payload) = (as_messages a, as_mapper a)" using assms(1) by (simp add: responses_messages_def a_def sys_def Let_def)
  then have "ResponsesRequestToChat enc (Some (JObj payload)) = Inr (JObj q, m)" using q by (simp add: ResponsesRequestToChat_def p_def)
  moreover have "map_of q ''messages'' = Some (jslice (as_messages a))"
    using request_steps_keep_messages[of "as_mapper a" p] unfolding q by (simp add: p_def)
  moreover have "answered (tool_outputs enc items) [] sys \<and> concat (map calls_of sys) = []"
    by (simp add: sys_def Let_def role_content_def calls_of_def)
  with assemble_answered[OF assms(2)] have "answered (tool_outputs enc items) [] (as_messages a)
      \<and> concat (map calls_of (as_messages a)) = expected_calls (tool_outputs enc items) items" by (simp add: a_def)
  ultimately show ?thesis by blast
qed

theorem every_call_is_answered_witness:
  "let items = [JObj [(''role'', JStr ''user''), (''content'', JStr ''Time?'')],
         JObj [(''type'', JStr ''function_call_output''), (''call_id'', JStr ''c2''), (''output'', JStr ''Rome'')],
         JObj [(''type'', JStr ''function_call''), (''call_id'', JStr ''c1''), (''name'', JStr ''clock''), (''arguments'', JStr ''{}'')],
         JObj [(''role'', JStr ''assistant''), (''content'', JStr ''Looking.'')],
         JObj [(''type'', JStr ''function_call''), (''id'', JStr ''c2''), (''name'', JStr ''place''), (''arguments'', JStr ''{}'')],
         JObj [(''type'', JStr ''function_call_output''), (''call_id'', JStr ''c1''), (''output'', JStr ''noon'')]]
   in expected_calls (tool_outputs (\<lambda>j. ''{}'') items) items = [''c1'', ''c2'']
      \<and> (\<exists>q m msgs. ResponsesRequestToChat (\<lambda>j. ''{}'') (Some (JObj [(''input'', JArr items)])) = Inr (JObj q, m) \<and> map_of q ''messages'' = Some (jslice msgs)
        \<and> answered (tool_outputs (\<lambda>j. ''{}'') items) [] msgs \<and> concat (map calls_of msgs) = expected_calls (tool_outputs (\<lambda>j. ''{}'') items) items)"
  unfolding Let_def
proof (rule conjI, goal_cases)
  case 1
  show ?case by code_simp
next
  case 2
  show ?case by (rule every_call_is_answered) (simp_all add: responses_item_def jstr_def)
qed

end
