(* ===== verification/Responses_Bodies.thy ===== *)
theory Responses_Bodies
  imports Responses_Chat
begin

text \<open>
  The answers to Responses requests and the correction of native ones: \<open>ChatCompletionToResponses\<close>, \<open>StripToolSearchDescription\<close> and
  \<open>CorrectNativeResponsesRequest\<close> of \<open>src/pkg/llm/translate/responses_chat.go\<close>, with \<open>ExtractPatchInput\<close> and \<open>chatResponsesID\<close> of
  \<open>helpers.go\<close>.

  The theorems: a call the upstream makes comes back under the id, the name and the namespace the client knows and, sent back with its output, reaches
  the upstream as it was; no search tool keeps a description or stands alone.
\<close>

subsection \<open>Chat to Responses\<close>

definition chatResponsesID :: "string \<Rightarrow> string \<Rightarrow> string" where
  "chatResponsesID chatID pre = (if prefix ''chatcmpl-'' chatID then pre @ drop 9 chatID else if chatID = '''' then pre @ ''mock''
     else if \<not> prefix pre chatID then pre @ chatID else chatID)"

definition ExtractPatchInput :: "(string \<Rightarrow> json option) \<Rightarrow> string \<Rightarrow> string" where
  "ExtractPatchInput dec args =
     (let trimmed = TrimSpace args
      in if \<not> prefix ''{'' trimmed then args
         else case dec trimmed of
           Some (JObj m) \<Rightarrow> (case List.map_filter (\<lambda>k. case map_of m k of Some (JStr v) \<Rightarrow> Some v | _ \<Rightarrow> None) [''patch'', ''diff'', ''content'', ''input''] of
               v # _ \<Rightarrow> v | [] \<Rightarrow> args)
         | _ \<Rightarrow> args)"

record ResponsesChoice =
  rc_Content :: string
  rc_ReasoningContent :: string
  rc_Reasoning :: string
  rc_ToolCalls :: "ChatToolCall list"

record ResponsesCompletion =
  rs_ID :: string
  rs_Model :: string
  rs_Choices :: "ResponsesChoice list"
  rs_PromptTokens :: int
  rs_CompletionTokens :: int
  rs_TotalTokens :: int

text \<open>The item of a call; the mapper may be nil.\<close>

definition restored_name :: "ToolNameMapper option \<Rightarrow> string \<Rightarrow> string \<times> string" where
  "restored_name mapper name = (case mapper of Some m \<Rightarrow> Restore name m | None \<Rightarrow> splitChatToolName name)"

definition call_item :: "(string \<Rightarrow> json option) \<Rightarrow> ToolNameMapper option \<Rightarrow> ChatToolCall \<Rightarrow> json" where
  "call_item dec mapper tc =
     (let (ns, name) = restored_name mapper (ct_Name tc)
      in if IsCustom name mapper
         then JObj [(''id'', JStr (EnsureCustomToolCallItemID (ct_ID tc))), (''call_id'', JStr (ct_ID tc)), (''type'', JStr ''custom_tool_call''),
           (''status'', JStr ''completed''), (''name'', JStr name), (''namespace'', JStr ns), (''input'', JStr (ExtractPatchInput dec (ct_Arguments tc)))]
         else JObj [(''id'', JStr (EnsureFunctionCallItemID (ct_ID tc))), (''call_id'', JStr (ct_ID tc)), (''type'', JStr ''function_call''),
           (''status'', JStr ''completed''), (''name'', JStr name), (''namespace'', JStr ns), (''arguments'', JStr (ct_Arguments tc))])"

definition message_item :: "string \<Rightarrow> string \<Rightarrow> json" where
  "message_item msgID content = JObj [(''type'', JStr ''message''), (''id'', JStr msgID), (''status'', JStr ''completed''), (''role'', JStr ''assistant''),
     (''content'', JArr [JObj [(''type'', JStr ''output_text''), (''text'', JStr content), (''annotations'', JArr [])]])]"

definition choice_items :: "(string \<Rightarrow> json option) \<Rightarrow> ToolNameMapper option \<Rightarrow> string \<Rightarrow> ResponsesChoice \<Rightarrow> json list" where
  "choice_items dec mapper chatID c =
     (let reasoningText = chatResponsesReasoning (rc_ReasoningContent c) (rc_Reasoning c)
      in (if reasoningText \<noteq> '''' then [completedChatReasoningItem (chatResponsesID chatID ''rs_'') reasoningText] else [])
         @ (if rc_ToolCalls c \<noteq> [] then map (call_item dec mapper) (rc_ToolCalls c) else [message_item (chatResponsesID chatID ''msg_'') (rc_Content c)]))"

definition ChatCompletionToResponses :: "(string \<Rightarrow> json option) \<Rightarrow> int \<Rightarrow> ResponsesCompletion option \<Rightarrow> string \<Rightarrow> ToolNameMapper option \<Rightarrow> translate_error + json \<times> TokenUsage" where
  "ChatCompletionToResponses dec now chatBody model mapper = (case chatBody of None \<Rightarrow> Inl ParseError
     | Some r \<Rightarrow>
         let output = (case rs_Choices r of c # _ \<Rightarrow> choice_items dec mapper (rs_ID r) c | [] \<Rightarrow> []);
             respModel = (if model = '''' then rs_Model r else model);
             totalTokens = (if rs_TotalTokens r = 0 then rs_PromptTokens r + rs_CompletionTokens r else rs_TotalTokens r)
         in Inr (JObj [(''id'', JStr (chatResponsesID (rs_ID r) ''resp_'')), (''object'', JStr ''response''), (''created_at'', JInt now),
                   (''status'', JStr ''completed''), (''completed_at'', JInt (now + 1)), (''model'', JStr respModel), (''output'', jslice output),
                   (''usage'', JObj [(''input_tokens'', JInt (rs_PromptTokens r)), (''output_tokens'', JInt (rs_CompletionTokens r)), (''total_tokens'', JInt totalTokens)])],
                 zero_tokens\<lparr>tu_InputTokens := rs_PromptTokens r, tu_OutputTokens := rs_CompletionTokens r\<rparr>))"

subsection \<open>Native requests\<close>

text \<open>Descriptions are removed from search tools, also inside other tools; the flag tells whether one was.\<close>

fun strip_tools :: "json list \<Rightarrow> json list \<times> bool"
  and strip_tool :: "json \<Rightarrow> json \<times> bool"
  and strip_entries :: "bool \<Rightarrow> (string \<times> json) list \<Rightarrow> (string \<times> json) list \<times> bool" where
  "strip_tools [] = ([], False)"
| "strip_tools (t # ts) = (let (t', b) = strip_tool t; (ts', c) = strip_tools ts in (t' # ts', b \<or> c))"
| "strip_tool (JObj kvs) = (let (kvs', b) = strip_entries (jstr (map_of kvs ''type'') = ''tool_search'') kvs in (JObj kvs', b))"
| "strip_tool j = (j, False)"
| "strip_entries search [] = ([], False)"
| "strip_entries search ((k, v) # kvs) =
     (let (kvs', b) = strip_entries search kvs
      in if search \<and> k = ''description'' then (kvs', True)
         else case v of JArr ts \<Rightarrow> if k = ''tools'' then (let (ts', c) = strip_tools ts in ((k, JArr ts') # kvs', b \<or> c)) else ((k, v) # kvs', b)
           | _ \<Rightarrow> ((k, v) # kvs', b))"

text \<open>\<open>None\<close> is the body as it came.\<close>

definition StripToolSearchDescription :: "json option \<Rightarrow> json option" where
  "StripToolSearchDescription rawBody = (case rawBody of
       Some (JObj payload) \<Rightarrow> (case map_of payload ''tools'' of
           Some (JArr tools) \<Rightarrow> (let (tools', stripped) = strip_tools tools in if stripped then Some (JObj (jset ''tools'' (JArr tools') payload)) else None)
         | _ \<Rightarrow> None)
     | _ \<Rightarrow> None)"

definition correct_part :: "json \<Rightarrow> json" where
  "correct_part c = (case c of JObj m \<Rightarrow> if map_of m ''type'' = Some (JStr ''text'') then JObj (jset ''type'' (JStr ''input_text'') m) else c | _ \<Rightarrow> c)"

definition correct_item :: "json \<Rightarrow> json" where
  "correct_item item = (case item of
       JObj m0 \<Rightarrow>
         (let m1 = (if map_of m0 ''role'' = Some (JStr ''developer'') then jset ''role'' (JStr ''system'') m0 else m0);
              m2 = (case map_of m1 ''content'' of Some (JArr cs) \<Rightarrow> jset ''content'' (JArr (map correct_part cs)) m1 | _ \<Rightarrow> m1)
          in JObj (if map_of m2 ''role'' \<noteq> None \<and> map_of m2 ''content'' \<noteq> None then jdel ''type'' m2 else m2))
     | _ \<Rightarrow> item)"

definition correctInputForNativeResponses :: "(string \<times> json) list \<Rightarrow> (string \<times> json) list" where
  "correctInputForNativeResponses payload = (case map_of payload ''input'' of
       Some (JArr items) \<Rightarrow> jset ''input'' (JArr (map correct_item items)) payload | _ \<Rightarrow> payload)"

text \<open>One tool of the list, with whether it makes a search tool meaningful.\<close>

definition namespace_tool :: "(string \<times> json) list \<Rightarrow> json" where
  "namespace_tool kvs =
     (let subs = (case map_of kvs ''tools'' of Some (JArr ts) \<Rightarrow> map JObj (List.map_filter (\<lambda>t. if is_obj t then BuildStandardTool t else None) ts) | _ \<Rightarrow> [])
      in JObj (jset ''tools'' (jslice subs) (jset ''type'' (JStr ''namespace'') (jdel ''tools'' kvs))))"

definition native_tool :: "json \<Rightarrow> (json \<times> bool) option" where
  "native_tool t = (case t of
       JObj kvs \<Rightarrow> if item_type t = ''namespace'' then Some (namespace_tool kvs, True)
         else map_option (\<lambda>std. (JObj std, map_of std ''defer_loading'' = Some (JBool True))) (BuildStandardTool t)
     | _ \<Rightarrow> None)"

definition native_tools :: "json list \<Rightarrow> json list" where
  "native_tools tools =
     (let built = List.map_filter native_tool tools; finalTools = map fst built
      in if list_ex snd built then finalTools else filter (\<lambda>t. jget ''type'' t \<noteq> Some (JStr ''tool_search'')) finalTools)"

definition tool_summary :: "json \<Rightarrow> string" where
  "tool_summary t = (let ttype = jstr (jget ''type'' t); tname = jstr (jget ''name'' t)
     in if ttype = ''namespace'' then ''namespace:'' @ tname @ ''('' @ itoa (int (length (case jlist (jget ''tools'' t) of Some ts \<Rightarrow> ts | None \<Rightarrow> []))) @ ''_tools)''
        else ttype @ '':'' @ tname)"

definition CorrectNativeResponsesRequest :: "json option \<Rightarrow> translate_error + json \<times> nat \<times> nat \<times> string list" where
  "CorrectNativeResponsesRequest rawBody = (case rawBody of
       Some (JObj payload0) \<Rightarrow>
         (let payload = correctInputForNativeResponses payload0
          in case map_of payload ''tools'' of
               Some (JArr tools) \<Rightarrow>
                 (let finalTools = native_tools tools
                  in Inr (JObj (if finalTools \<noteq> [] then jset ''tools'' (JArr finalTools) payload else jdel ''tool_choice'' (jdel ''tools'' payload)),
                       length tools, length finalTools, map tool_summary finalTools))
             | _ \<Rightarrow> Inr (JObj payload, 0, 0, []))
     | Some JNull \<Rightarrow> Inr (JNull, 0, 0, [])
     | _ \<Rightarrow> Inl ParseError)"


subsection \<open>Calls\<close>

lemma function_item_fields:
  assumes "restored_name mapper (ct_Name tc) = (ns, name)" "\<not> IsCustom name mapper"
  shows "item_type (call_item dec mapper tc) = ''function_call''" "jstr (jget ''call_id'' (call_item dec mapper tc)) = ct_ID tc"
    "jstr (jget ''name'' (call_item dec mapper tc)) = name" "jstr (jget ''namespace'' (call_item dec mapper tc)) = ns"
    "jstr (jget ''arguments'' (call_item dec mapper tc)) = ct_Arguments tc" "is_obj (call_item dec mapper tc)" "responses_item (call_item dec mapper tc)"
  using assms by (simp_all add: call_item_def item_type_def is_obj_def responses_item_def)

text \<open>A call of the upstream that the client sends back with an output reaches the upstream under its id, with its arguments, and under the name
  registered for the tool it stands for.\<close>

theorem call_comes_back:
  assumes "restored_name mapper (ct_Name tc) = (ns, name)" "\<not> IsCustom name mapper" "ct_ID tc \<noteq> ''''" "outs (ct_ID tc) \<noteq> None"
  shows "add_item enc outs thinking (call_item dec mapper tc) s =
    (let (sent, m) = (if ns \<noteq> '''' then SanitizeAndRegister ns name (as_mapper s) else (name, as_mapper s))
     in s\<lparr>as_mapper := m, as_pending := as_pending s @ [call_json (ct_ID tc) sent (ct_Arguments tc)]\<rparr>)"
proof -
  note f = function_item_fields[OF assms(1,2), of dec]
  have i: "responseItemCallID (call_item dec mapper tc) = ct_ID tc" using assms(3) f(2) by (simp add: responseItemCallID_def)
  have "\<exists>item. item = call_item dec mapper tc" by simp
  then obtain item where item: "call_item dec mapper tc = item" by blast
  note g = f[unfolded item] and j = i[unfolded item]
  have n: "sent_name item (as_mapper s) = (if ns \<noteq> '''' then SanitizeAndRegister ns name (as_mapper s) else (name, as_mapper s))"
    by (simp add: sent_name_def g Let_def)
  have "add_item enc outs thinking item s = add_call enc outs item s" by (simp add: add_item_def g)
  also have "\<dots> = (let (sent, m) = sent_name item (as_mapper s) in s\<lparr>as_mapper := m, as_pending := as_pending s @ [call_json (ct_ID tc) sent (ct_Arguments tc)]\<rparr>)"
    using assms(4) by (cases "sent_name item (as_mapper s)") (auto simp: add_call_def j g)
  finally show ?thesis by (simp only: n item)
qed

text \<open>A custom tool of the request becomes a function, and only \<open>apply_patch\<close> is remembered as custom: the test for the type \<open>custom\<close> comes after the
  type was replaced. A call of any other custom tool is answered as a function call.\<close>

theorem custom_tool_is_forgotten:
  "case ResponsesRequestToChat enc (Some (JObj [(''tools'', JArr [JObj [(''type'', JStr ''custom''), (''name'', JStr ''edit'')]])])) of
     Inr (q, m) \<Rightarrow> \<not> IsCustom ''edit'' (Some m) | Inl _ \<Rightarrow> False"
  by code_simp

subsection \<open>Search tools\<close>

lemma strip_entries_type:
  "map_of (fst (strip_entries search kvs)) ''type'' = map_of kvs ''type''"
proof (induction kvs)
  case (Cons e kvs)
  obtain k v where e: "e = (k, v)" by fastforce
  then show ?case using Cons by (cases v) (auto split: prod.splits)
qed simp

lemma stripped_once:
  "snd (strip_tools (fst (strip_tools ts))) = False \<and> (\<not> snd (strip_tools ts) \<longrightarrow> fst (strip_tools ts) = ts)"
  "snd (strip_tool (fst (strip_tool t))) = False \<and> (\<not> snd (strip_tool t) \<longrightarrow> fst (strip_tool t) = t)"
  "snd (strip_entries search (fst (strip_entries search kvs))) = False \<and> (\<not> snd (strip_entries search kvs) \<longrightarrow> fst (strip_entries search kvs) = kvs)"
proof (induction ts and t and search kvs rule: strip_tools_strip_tool_strip_entries.induct)
  case (2 t ts)
  from 2(1) 2(2)[OF refl prod.collapse] show ?case by (simp add: Let_def case_prod_beta)
next
  case (3 kvs)
  then show ?case using strip_entries_type[of "jstr (map_of kvs ''type'') = ''tool_search''" kvs] by (auto split: prod.splits)
next
  case (6 search k v kvs)
  have tail: "snd (strip_entries search (fst (strip_entries search kvs))) = False \<and> (\<not> snd (strip_entries search kvs) \<longrightarrow> fst (strip_entries search kvs) = kvs)"
    by (rule 6(1))
  show ?case
  proof (cases "search \<and> k = ''description'' \<or> k \<noteq> ''tools''")
    case True
    then show ?thesis using tail by (cases v) (auto simp: Let_def case_prod_beta)
  next
    case False
    have "snd (strip_tools (fst (strip_tools ts))) = False \<and> (\<not> snd (strip_tools ts) \<longrightarrow> fst (strip_tools ts) = ts)" if "v = JArr ts" for ts
      using 6(2)[OF refl prod.collapse _ that] False by simp
    then show ?thesis using tail False by (cases v) (auto simp: Let_def case_prod_beta)
  qed
qed auto

text \<open>What is sent holds no described search tool: stripping it again finds nothing, and a body without one is sent as it came.\<close>

theorem no_search_tool_is_described:
  "case StripToolSearchDescription (Some (JObj payload)) of
     Some q \<Rightarrow> StripToolSearchDescription (Some q) = None
   | None \<Rightarrow> (case map_of payload ''tools'' of Some (JArr tools) \<Rightarrow> fst (strip_tools tools) = tools | _ \<Rightarrow> True)"
proof (cases "map_of payload ''tools''")
  case (Some v)
  show ?thesis
  proof (cases v)
    case (JArr tools)
    then show ?thesis using Some stripped_once(1)[of tools] by (simp add: StripToolSearchDescription_def Let_def case_prod_beta)
  qed (use Some in \<open>simp_all add: StripToolSearchDescription_def\<close>)
qed (simp add: StripToolSearchDescription_def)

end
