(* ===== verification/Responses_Messages.thy ===== *)
theory Responses_Messages
  imports Responses_Bodies
begin

text \<open>
  Requests of the Responses API served by a Messages upstream, and the answers: \<open>src/pkg/llm/translate/responses_messages.go\<close>. Bodies are decoded
  values; \<open>enc\<close> and \<open>dec\<close> encode and decode the arguments of calls, \<open>errEnv\<close> decodes a body into the error envelope (its type and message), and the clock
  reading is an argument. Warnings are values with what they report.

  The theorems: the messages of a translated request alternate between user and assistant and start with the user; with thinking enabled no
  incompatible field is sent; and an answer that the client sends back as input reaches the upstream with the blocks it had.
\<close>

subsection \<open>Warnings and errors\<close>

datatype translate_warning = UnknownRoleDropped string | NamelessCallDropped | ItemDropped string | PartDropped string | ImageDropped | BuiltinToolsDropped nat
  | ChoiceDropped string | ChoiceDowngraded | SamplingStripped string | ThinkingDisabled int

datatype responses_error = BadBody | MissingInput | EmptyInput | UnsupportedInput | NoConvertibleInput

subsection \<open>Content\<close>

definition extractResponsesText :: "json option \<Rightarrow> string" where
  "extractResponsesText v = (case v of Some (JStr s) \<Rightarrow> s
     | Some (JArr ps) \<Rightarrow> str_join [LF] (List.map_filter (\<lambda>p. if is_obj p then (case jget ''text'' p of Some (JStr s) \<Rightarrow> Some s | _ \<Rightarrow> None) else None) ps)
     | _ \<Rightarrow> '''')"

definition image_block :: "(string \<times> json) list \<Rightarrow> json" where
  "image_block source = JObj [(''type'', JStr ''image''), (''source'', JObj source)]"

text \<open>\<open>strings.SplitN(s, sep, 2)\<close> cuts at the first separator.\<close>

definition image_blocks :: "string \<Rightarrow> json list \<times> translate_warning list" where
  "image_blocks urlStr =
     (if prefix ''data:'' urlStr
      then (case str_split '';base64,'' [] (trim_prefix ''data:'' urlStr) of
          media # p # ps \<Rightarrow> ([image_block [(''type'', JStr ''base64''), (''media_type'', JStr media), (''data'', JStr (str_join '';base64,'' (p # ps)))]], [])
        | _ \<Rightarrow> ([], []))
      else if prefix ''http://'' urlStr \<or> prefix ''https://'' urlStr then ([image_block [(''type'', JStr ''url''), (''url'', JStr urlStr)]], [])
      else if urlStr \<noteq> '''' then ([], [ImageDropped]) else ([], []))"

definition content_part :: "json \<Rightarrow> json list \<times> translate_warning list" where
  "content_part part = (if \<not> is_obj part then ([], [])
     else let ptype = jstr (jget ''type'' part)
       in if ptype \<in> {''input_text'', ''output_text'', ''text''} then (let t = jstr (jget ''text'' part) in (if t \<noteq> '''' then [text_block t] else [], []))
          else if ptype = ''input_image'' then image_blocks (jstr (jget ''image_url'' part))
          else if ptype \<noteq> '''' then ([], [PartDropped ptype]) else ([], []))"

definition responsesContentToBlocks :: "json option \<Rightarrow> json list \<times> translate_warning list" where
  "responsesContentToBlocks content = (case content of
       Some (JStr s) \<Rightarrow> (if s \<noteq> '''' then [text_block s] else [], [])
     | Some (JArr parts) \<Rightarrow> (concat (map (fst \<circ> content_part) parts), concat (map (snd \<circ> content_part) parts))
     | _ \<Rightarrow> ([], []))"

subsection \<open>Input\<close>

text \<open>A message under construction has a role and its blocks, never none.\<close>

definition appendBlock :: "string \<Rightarrow> json \<Rightarrow> (string \<times> json list) list \<Rightarrow> (string \<times> json list) list" where
  "appendBlock role block messages =
     (if messages \<noteq> [] \<and> fst (last messages) = role
      then butlast messages @ [(role, if jget ''type'' block = Some (JStr ''thinking'') then block # snd (last messages) else snd (last messages) @ [block])]
      else messages @ [(role, [block])])"

record InputState =
  in_messages :: "(string \<times> json list) list"
  in_system :: "string list"
  in_warnings :: "translate_warning list"

definition add_block :: "string \<Rightarrow> json \<Rightarrow> InputState \<Rightarrow> InputState" where
  "add_block role block s = s\<lparr>in_messages := appendBlock role block (in_messages s)\<rparr>"

definition warn :: "translate_warning list \<Rightarrow> InputState \<Rightarrow> InputState" where
  "warn ws s = s\<lparr>in_warnings := in_warnings s @ ws\<rparr>"

definition input_message :: "json \<Rightarrow> InputState \<Rightarrow> InputState" where
  "input_message item s =
     (let role = jstr (jget ''role'' item); content = jget ''content'' item
      in if role = ''system'' \<or> role = ''developer'' then (let t = extractResponsesText content in if t \<noteq> '''' then s\<lparr>in_system := in_system s @ [t]\<rparr> else s)
         else if role = ''user'' \<or> role = ''assistant'' then (let (blocks, ws) = responsesContentToBlocks content in fold (add_block role) blocks (warn ws s))
         else warn [UnknownRoleDropped role] s)"

definition input_call :: "(string \<Rightarrow> json option) \<Rightarrow> json \<Rightarrow> InputState \<Rightarrow> InputState" where
  "input_call dec item s =
     (let name = jstr (jget ''name'' item); ns = jstr (jget ''namespace'' item)
      in if name = '''' then warn [NamelessCallDropped] s
         else add_block ''assistant'' (tool_use_block (NormalizeToolUseID (responseItemCallID item)) (if ns \<noteq> '''' then ns @ ''.'' @ name else name)
                (call_input dec (jstr (jget ''arguments'' item)))) s)"

definition input_item :: "(string \<Rightarrow> json option) \<Rightarrow> json \<Rightarrow> InputState \<Rightarrow> InputState" where
  "input_item dec item s =
     (let type0 = jstr (jget ''type'' item); t = (if type0 = '''' \<and> jstr (jget ''role'' item) \<noteq> '''' then ''message'' else type0)
      in if \<not> is_obj item then s
         else if t = ''message'' then input_message item s
         else if t = ''function_call'' then input_call dec item s
         else if t = ''function_call_output'' then add_block ''user''
           (tool_result_block (NormalizeToolUseID (jstr (jget ''call_id'' item))) (extractResponsesText (jget ''output'' item))) s
         else if t = ''reasoning'' then (case responsesReasoningToThinking item of Some block \<Rightarrow> add_block ''assistant'' block s | None \<Rightarrow> s)
         else warn [ItemDropped t] s)"

definition empty_input :: InputState where
  "empty_input = \<lparr>in_messages = [], in_system = [], in_warnings = []\<rparr>"

definition responsesInputToMessages :: "(string \<Rightarrow> json option) \<Rightarrow> json option \<Rightarrow> responses_error + InputState" where
  "responsesInputToMessages dec input = (case input of
       Some (JStr s) \<Rightarrow> if s = '''' then Inl EmptyInput else Inr (empty_input\<lparr>in_messages := [(''user'', [text_block s])]\<rparr>)
     | Some (JArr items) \<Rightarrow> Inr (fold (input_item dec) items empty_input)
     | Some JNull \<Rightarrow> Inl MissingInput
     | None \<Rightarrow> Inl MissingInput
     | _ \<Rightarrow> Inl UnsupportedInput)"

subsection \<open>Tools\<close>

definition standardFunctionToAnthropicTool :: "(string \<times> json) list option \<Rightarrow> string \<Rightarrow> json option" where
  "standardFunctionToAnthropicTool std namespace0 = (case std of None \<Rightarrow> None
     | Some t \<Rightarrow>
         let name = jstr (map_of t ''name''); ns = (if namespace0 = '''' then jstr (map_of t ''namespace'') else namespace0); desc = jstr (map_of t ''description'')
         in if jstr (map_of t ''type'') \<noteq> ''function'' \<or> name = '''' then None
            else Some (JObj ([(''name'', JStr (if ns \<noteq> '''' then ns @ ''.'' @ name else name))] @ (if desc \<noteq> '''' then [(''description'', JStr desc)] else [])
              @ [(''input_schema'', case jobj (map_of t ''parameters'') of Some p \<Rightarrow> p | None \<Rightarrow> empty_schema)])))"

text \<open>The tools of one entry, and whether it is a built-in tool that is dropped.\<close>

definition anthropic_tools :: "json \<Rightarrow> json list \<times> bool" where
  "anthropic_tools t = (if \<not> is_obj t then ([], False)
     else if item_type t = ''namespace''
     then (List.map_filter (\<lambda>st. if is_obj st then standardFunctionToAnthropicTool (BuildStandardTool st) (jstr (jget ''name'' t)) else None)
             (case jlist (jget ''tools'' t) of Some subs \<Rightarrow> subs | None \<Rightarrow> []), False)
     else case BuildStandardTool t of None \<Rightarrow> ([], False)
       | Some std \<Rightarrow> if jstr (map_of std ''type'') \<noteq> ''function'' then ([], True)
           else ((case standardFunctionToAnthropicTool (Some std) '''' of Some tool \<Rightarrow> [tool] | None \<Rightarrow> []), False))"

definition responsesToolsToMessages :: "json option \<Rightarrow> json list \<times> translate_warning list" where
  "responsesToolsToMessages toolsVal = (case toolsVal of
       Some (JArr ts) \<Rightarrow> (let dropped = length (filter (snd \<circ> anthropic_tools) ts)
          in (concat (map (fst \<circ> anthropic_tools) ts), if dropped > 0 then [BuiltinToolsDropped dropped] else []))
     | _ \<Rightarrow> ([], []))"

definition choice_of :: "json option \<Rightarrow> (string \<times> json) list option \<times> translate_warning list" where
  "choice_of tcVal = (case tcVal of
       Some (JStr v) \<Rightarrow> (if v = ''auto'' then Some [(''type'', JStr ''auto'')] else if v = ''required'' then Some [(''type'', JStr ''any'')]
         else if v = ''none'' then Some [(''type'', JStr ''none'')] else None, [])
     | Some (JObj v) \<Rightarrow>
         (let t = jstr (map_of v ''type''); name = jstr (map_of v ''name''); ns = jstr (map_of v ''namespace'')
          in if t = ''function'' then (if name \<noteq> '''' then Some [(''type'', JStr ''tool''), (''name'', JStr (if ns \<noteq> '''' then ns @ ''.'' @ name else name))] else None, [])
             else (None, if t \<noteq> '''' then [ChoiceDropped t] else []))
     | _ \<Rightarrow> (None, []))"

definition responsesToolChoiceToMessages :: "json option \<Rightarrow> json option \<Rightarrow> bool \<Rightarrow> (string \<times> json) list option \<times> translate_warning list" where
  "responsesToolChoiceToMessages tcVal parallelVal thinkingEnabled =
     (let (tc0, w0) = choice_of tcVal;
          forced = (case tc0 of Some tc \<Rightarrow> thinkingEnabled \<and> jstr (map_of tc ''type'') \<in> {''any'', ''tool''} | None \<Rightarrow> False);
          tc1 = (if forced then Some [(''type'', JStr ''auto'')] else tc0);
          w1 = (if forced then [ChoiceDowngraded] else w0)
      in if parallelVal = Some (JBool False)
         then (let tc2 = (case tc1 of Some tc \<Rightarrow> tc | None \<Rightarrow> [(''type'', JStr ''auto'')])
               in (Some (if jstr (map_of tc2 ''type'') \<in> {''auto'', ''any''} then jset ''disable_parallel_tool_use'' (JBool True) tc2 else tc2), w1))
         else (tc1, w1))"

subsection \<open>The request\<close>

record MessagesRequest =
  mq_messages :: "(string \<times> json list) list"
  mq_thinking :: "int option"
  mq_warnings :: "translate_warning list"
  mq_body :: json

definition blocks_json :: "string \<times> json list \<Rightarrow> json" where
  "blocks_json m = JObj (role_content (fst m) (JArr (snd m)))"

definition user_first :: "(string \<times> json list) list \<Rightarrow> (string \<times> json list) list" where
  "user_first messages = (if messages \<noteq> [] \<and> fst (hd messages) \<noteq> ''user'' then (''user'', [text_block '' '']) # messages else messages)"

definition thinking_fields :: "int option \<Rightarrow> (string \<times> json) list" where
  "thinking_fields thinking = (case thinking of Some b \<Rightarrow> [(''thinking'', JObj [(''type'', JStr ''enabled''), (''budget_tokens'', JInt b)])] | None \<Rightarrow> [])"

definition user_metadata :: "json \<Rightarrow> (string \<times> json) list" where
  "user_metadata payload = (let uid = jstr (jget ''user_id'' (jsub ''metadata'' payload)) in if uid \<noteq> '''' then [(''metadata'', JObj [(''user_id'', JStr uid)])] else [])"

definition ResponsesRequestToMessages :: "(string \<Rightarrow> json option) \<Rightarrow> json option \<Rightarrow> string \<Rightarrow> int list \<Rightarrow> responses_error + MessagesRequest" where
  "ResponsesRequestToMessages dec rawBody model maxOutputTokens = (case decoded_map rawBody of None \<Rightarrow> Inl BadBody
     | Some payload \<Rightarrow> (case responsesInputToMessages dec (jget ''input'' payload) of Inl e \<Rightarrow> Inl e
         | Inr inp \<Rightarrow>
             if in_messages inp = [] then Inl NoConvertibleInput
             else let instructions = jstr (jget ''instructions'' payload);
                      systemParts = (if instructions \<noteq> '''' then [instructions] else []) @ in_system inp;
                      messages = user_first (in_messages inp);
                      (tools, toolWarnings) = responsesToolsToMessages (jget ''tools'' payload);
                      (thinking, maxTokens, cannotFit) = resolveThinking payload maxOutputTokens;
                      enabled = (thinking \<noteq> None);
                      (choice, choiceWarnings) = responsesToolChoiceToMessages (jget ''tool_choice'' payload) (jget ''parallel_tool_calls'' payload) enabled;
                      sampling = (if enabled then [] else concat (map (copied payload) [''temperature'', ''top_p'']));
                      stripped = (if enabled then map SamplingStripped (filter (\<lambda>k. jget k payload \<noteq> None) [''temperature'', ''top_p'', ''top_k'']) else [])
               in Inr \<lparr>mq_messages = messages, mq_thinking = thinking,
                    mq_warnings = in_warnings inp @ toolWarnings @ (case cannotFit of Some n \<Rightarrow> [ThinkingDisabled n] | None \<Rightarrow> []) @ choiceWarnings @ stripped,
                    mq_body = JObj ([(''model'', JStr model), (''messages'', JArr (map blocks_json messages))]
                      @ (if systemParts \<noteq> [] then [(''system'', JStr (str_join [LF] systemParts))] else [])
                      @ (if tools \<noteq> [] then [(''tools'', JArr tools)] else []) @ thinking_fields thinking @ [(''max_tokens'', JInt maxTokens)]
                      @ (case choice of Some tc \<Rightarrow> [(''tool_choice'', JObj tc)] | None \<Rightarrow> []) @ sampling @ user_metadata payload @ copied payload ''stream'')\<rparr>))"

subsection \<open>The answer\<close>

definition normalizeResponsesID :: "string \<Rightarrow> string" where
  "normalizeResponsesID respID = (if respID = '''' \<or> stripMsgPrefix respID = '''' then ''resp_mock'' else ''resp_'' @ stripMsgPrefix respID)"

definition stripToolUsePrefix :: "string \<Rightarrow> string" where
  "stripToolUsePrefix toolID = trim_prefix ''toolu_'' toolID"

definition item_id :: "string \<Rightarrow> string \<Rightarrow> nat \<Rightarrow> string" where
  "item_id pre rawID i = pre @ stripMsgPrefix rawID @ ''_'' @ itoa (int i)"

definition block_item :: "(json \<Rightarrow> string) \<Rightarrow> string \<Rightarrow> nat \<times> json \<Rightarrow> json option" where
  "block_item enc rawID ib =
     (let (i, block) = ib; t = jstr (jget ''type'' block)
      in if \<not> is_obj block then None
         else if t = ''thinking'' then Some (JObj (responsesReasoningItem (item_id ''rs_'' rawID i) (reasoningSummary (thinkingText block)) (jstr (jget ''signature'' block))))
         else if t = ''redacted_thinking'' then Some (JObj (responsesReasoningItem (item_id ''rs_'' rawID i) [] (jstr (jget ''data'' block))))
         else if t = ''text'' then Some (JObj [(''id'', JStr (item_id ''msg_'' rawID i)), (''type'', JStr ''message''), (''status'', JStr ''completed''), (''role'', JStr ''assistant''),
           (''content'', JArr [JObj [(''type'', JStr ''output_text''), (''text'', JStr (jstr (jget ''text'' block))), (''annotations'', JArr [])]])])
         else if t = ''tool_use'' then
           (let toolID = jstr (jget ''id'' block); (ns, local') = splitChatToolName (jstr (jget ''name'' block))
            in Some (JObj ([(''id'', JStr (''fc_'' @ stripToolUsePrefix toolID)), (''call_id'', JStr toolID), (''type'', JStr ''function_call''), (''status'', JStr ''completed''),
                 (''name'', JStr local'), (''arguments'', JStr (enc (jval (jget ''input'' block))))] @ (if ns \<noteq> '''' then [(''namespace'', JStr ns)] else []))))
         else None)"

definition answer_items :: "(json \<Rightarrow> string) \<Rightarrow> string \<Rightarrow> json list \<Rightarrow> json list" where
  "answer_items enc rawID blocks = List.map_filter (block_item enc rawID) (zip [0..<length blocks] blocks)"

definition MessagesErrorToResponses :: "(json \<Rightarrow> (string \<times> string) option) \<Rightarrow> json \<Rightarrow> json option" where
  "MessagesErrorToResponses errEnv body = map_option (\<lambda>(errType, message). JObj [(''error'', JObj [(''message'', JStr message),
     (''type'', JStr (if errType = ''overloaded_error'' \<or> errType = ''api_error'' then ''server_error'' else errType)), (''code'', JNull)])]) (errEnv body)"

definition MessagesResponseToResponses ::
  "(json \<Rightarrow> string) \<Rightarrow> (json \<Rightarrow> (string \<times> string) option) \<Rightarrow> int \<Rightarrow> json option \<Rightarrow> string \<Rightarrow> responses_error + json \<times> TokenUsage" where
  "MessagesResponseToResponses enc errEnv now anthropicBody model = (case decoded_map anthropicBody of None \<Rightarrow> Inl BadBody
     | Some aResp \<Rightarrow> (case MessagesErrorToResponses errEnv aResp of Some e \<Rightarrow> Inr (e, zero_tokens)
         | None \<Rightarrow>
             let rawID = jstr (jget ''id'' aResp);
                 respModel = (if model = '''' then jstr (jget ''model'' aResp) else model);
                 output = (case jlist (jget ''content'' aResp) of Some blocks \<Rightarrow> answer_items enc rawID blocks | None \<Rightarrow> []);
                 cut = (jstr (jget ''stop_reason'' aResp) = ''max_tokens'');
                 u = messages_body_usage aResp
             in Inr (JObj ([(''id'', JStr (normalizeResponsesID rawID)), (''object'', JStr ''response''), (''created_at'', JInt now),
                      (''status'', JStr (if cut then ''incomplete'' else ''completed'')), (''model'', JStr respModel), (''output'', jslice output),
                      (''usage'', JObj [(''input_tokens'', JInt (tu_InputTokens u)), (''output_tokens'', JInt (tu_OutputTokens u)),
                        (''total_tokens'', JInt (tu_InputTokens u + tu_OutputTokens u)), (''input_tokens_details'', JObj [(''cached_tokens'', JInt (tu_CachedTokens u))])])]
                      @ (if cut then [(''incomplete_details'', JObj [(''reason'', JStr ''max_output_tokens'')])] else [])), u)))"


subsection \<open>The order of the messages\<close>

definition is_thinking :: "json \<Rightarrow> bool" where
  "is_thinking block \<longleftrightarrow> jget ''type'' block = Some (JStr ''thinking'')"

text \<open>What the Messages protocol asks of a request: user and assistant in turns, something said in each, thinking before anything else.\<close>

definition message_ok :: "string \<times> json list \<Rightarrow> bool" where
  "message_ok m \<longleftrightarrow> fst m \<in> {''user'', ''assistant''} \<and> snd m \<noteq> [] \<and> list_all (\<lambda>b. \<not> is_thinking b) (dropWhile is_thinking (snd m))"

definition alternating :: "(string \<times> json list) list \<Rightarrow> bool" where
  "alternating ms \<longleftrightarrow> list_all message_ok ms \<and> successively (\<lambda>a b. fst a \<noteq> fst b) ms"

lemma dropWhile_snoc_ok: "list_all (\<lambda>b. \<not> is_thinking b) (dropWhile is_thinking bs) \<Longrightarrow> \<not> is_thinking b \<Longrightarrow>
  list_all (\<lambda>b. \<not> is_thinking b) (dropWhile is_thinking (bs @ [b]))"
  by (cases "\<forall>x\<in>set bs. is_thinking x") (auto simp: dropWhile_append)

lemma appendBlock_alternating:
  assumes "alternating ms" "role \<in> {''user'', ''assistant''}"
  shows "alternating (appendBlock role block ms)"
proof (cases "ms \<noteq> [] \<and> fst (last ms) = role")
  case True
  then obtain ys bs where ms: "ms = ys @ [(role, bs)]" by (metis append_butlast_last_id prod.collapse)
  have "list_all (\<lambda>b. \<not> is_thinking b) (dropWhile is_thinking bs)" using assms(1) ms by (simp add: alternating_def message_ok_def)
  then have "message_ok (role, if is_thinking block then block # bs else bs @ [block])"
    using assms(2) dropWhile_snoc_ok[of bs block] by (simp add: message_ok_def)
  then show ?thesis using assms(1) by (auto simp: appendBlock_def ms alternating_def is_thinking_def successively_append_iff)
next
  case False
  moreover have "message_ok (role, [block])" using assms(2) by (simp add: message_ok_def)
  ultimately show ?thesis using assms(1) by (auto simp: appendBlock_def alternating_def successively_append_iff)
qed

lemma add_blocks_alternating:
  "alternating (in_messages s) \<Longrightarrow> role \<in> {''user'', ''assistant''} \<Longrightarrow> alternating (in_messages (fold (add_block role) blocks s))"
  by (induction blocks arbitrary: s) (auto simp: add_block_def appendBlock_alternating)

lemma input_item_alternating:
  assumes "alternating (in_messages s)"
  shows "alternating (in_messages (input_item dec item s))"
proof -
  have w: "alternating (in_messages (warn ws s))" for ws using assms by (simp add: warn_def)
  have m: "alternating (in_messages (input_message item s))"
    using assms w add_blocks_alternating[OF w] by (auto simp: input_message_def Let_def split: prod.split)
  have b: "alternating (in_messages (add_block role block s))" if "role \<in> {''user'', ''assistant''}" for role block
    using that assms by (simp add: add_block_def appendBlock_alternating)
  then have c: "alternating (in_messages (input_call dec item s))" using w by (simp add: input_call_def Let_def)
  show ?thesis using assms w m c b by (simp add: input_item_def Let_def split: option.split)
qed

lemma input_alternating:
  "responsesInputToMessages dec input = Inr inp \<Longrightarrow> alternating (in_messages inp)"
proof -
  have "alternating (in_messages s) \<Longrightarrow> alternating (in_messages (fold (input_item dec) items s))" for items s
    by (induction items arbitrary: s) (auto simp: input_item_alternating)
  moreover have "alternating []" "alternating [(''user'', [text_block t])]" for t
    by (simp_all add: alternating_def message_ok_def is_thinking_def text_block_def)
  ultimately show "responsesInputToMessages dec input = Inr inp \<Longrightarrow> alternating (in_messages inp)"
    by (auto simp: responsesInputToMessages_def empty_input_def split: option.splits json.splits if_splits)
qed

lemma user_first_ok:
  assumes "alternating ms" "ms \<noteq> []"
  shows "alternating (user_first ms) \<and> user_first ms \<noteq> [] \<and> fst (hd (user_first ms)) = ''user''"
  using assms by (cases ms) (auto simp: user_first_def alternating_def message_ok_def text_block_def is_thinking_def)

subsection \<open>Thinking\<close>

lemma choice_with_thinking:
  "fst (responsesToolChoiceToMessages tcVal parallelVal True) = Some tc \<Longrightarrow> jstr (map_of tc ''type'') \<in> {''auto'', ''none''}"
  by (auto simp: responsesToolChoiceToMessages_def choice_of_def Let_def split: option.splits json.splits if_splits prod.splits)

definition choice_type :: "json \<Rightarrow> string" where
  "choice_type body = jstr (jget ''type'' (jsub ''tool_choice'' body))"


lemma request_parts:
  assumes "ResponsesRequestToMessages dec rawBody model maxOutputTokens = Inr r"
  obtains payload inp sys tools choice where "decoded_map rawBody = Some payload" "responsesInputToMessages dec (jget ''input'' payload) = Inr inp" "in_messages inp \<noteq> []"
    "mq_messages r = user_first (in_messages inp)"
    "fst (resolveThinking payload maxOutputTokens) = mq_thinking r"
    "fst (responsesToolChoiceToMessages (jget ''tool_choice'' payload) (jget ''parallel_tool_calls'' payload) (mq_thinking r \<noteq> None)) = choice"
    "mq_body r = JObj ([(''model'', JStr model), (''messages'', JArr (map blocks_json (mq_messages r)))]
        @ (if sys \<noteq> [] then [(''system'', JStr (str_join [LF] sys))] else []) @ (if tools \<noteq> [] then [(''tools'', JArr tools)] else []) @ thinking_fields (mq_thinking r)
        @ [(''max_tokens'', JInt (fst (snd (resolveThinking payload maxOutputTokens))))] @ (case choice of Some tc \<Rightarrow> [(''tool_choice'', JObj tc)] | None \<Rightarrow> [])
        @ (if mq_thinking r \<noteq> None then [] else concat (map (copied payload) [''temperature'', ''top_p''])) @ user_metadata payload @ copied payload ''stream'')"
proof -
  obtain payload inp where p: "decoded_map rawBody = Some payload" "responsesInputToMessages dec (jget ''input'' payload) = Inr inp" "in_messages inp \<noteq> []"
    using assms by (auto simp: ResponsesRequestToMessages_def split: option.splits sum.splits if_splits)
  obtain thinking maxTokens w where t: "resolveThinking payload maxOutputTokens = (thinking, maxTokens, w)" by (metis prod.exhaust)
  obtain choice cw where c: "responsesToolChoiceToMessages (jget ''tool_choice'' payload) (jget ''parallel_tool_calls'' payload) (thinking \<noteq> None) = (choice, cw)" by fastforce
  obtain tools tw where u: "responsesToolsToMessages (jget ''tools'' payload) = (tools, tw)" by fastforce
  show thesis
    by (rule that[OF p, of choice "(if jstr (jget ''instructions'' payload) \<noteq> '''' then [jstr (jget ''instructions'' payload)] else []) @ in_system inp" tools];
        use assms p t c u in \<open>auto simp: ResponsesRequestToMessages_def Let_def\<close>)
qed

lemma body_fields:
  assumes "body = JObj ([(''model'', m), (''messages'', ms)] @ (if sys \<noteq> [] then [(''system'', s)] else []) @ (if tools \<noteq> [] then [(''tools'', ts)] else [])
      @ thinking_fields th @ [(''max_tokens'', n)] @ (case choice of Some tc \<Rightarrow> [(''tool_choice'', JObj tc)] | None \<Rightarrow> [])
      @ (if th \<noteq> None then [] else concat (map (copied payload) [''temperature'', ''top_p''])) @ user_metadata payload @ copied payload ''stream'')"
  shows "jget ''messages'' body = Some ms" "jget ''max_tokens'' body = Some n"
    "th \<noteq> None \<Longrightarrow> jget ''temperature'' body = None \<and> jget ''top_p'' body = None \<and> jget ''top_k'' body = None"
    "choice_type body = (case choice of Some tc \<Rightarrow> jstr (map_of tc ''type'') | None \<Rightarrow> '''')"
proof -
  have look: "jget k body = map_of ([(''model'', m), (''messages'', ms)] @ (if sys \<noteq> [] then [(''system'', s)] else []) @ (if tools \<noteq> [] then [(''tools'', ts)] else [])
      @ thinking_fields th @ [(''max_tokens'', n)] @ (case choice of Some tc \<Rightarrow> [(''tool_choice'', JObj tc)] | None \<Rightarrow> [])
      @ (if th \<noteq> None then [] else concat (map (copied payload) [''temperature'', ''top_p''])) @ user_metadata payload @ copied payload ''stream'') k" for k
    by (simp add: assms)
  show "jget ''messages'' body = Some ms" by (simp add: look)
  show "jget ''max_tokens'' body = Some n" by (simp add: look thinking_fields_def map_add_def split: option.split)
  show "jget ''temperature'' body = None \<and> jget ''top_p'' body = None \<and> jget ''top_k'' body = None" if "th \<noteq> None"
    using that by (simp add: look thinking_fields_def copied_def user_metadata_def Let_def map_add_def split: option.split)
  have "jget ''tool_choice'' body = map_option JObj choice"
    by (simp add: look thinking_fields_def copied_def user_metadata_def Let_def map_add_def split: option.split)
  then show "choice_type body = (case choice of Some tc \<Rightarrow> jstr (map_of tc ''type'') | None \<Rightarrow> '''')"
    by (simp add: choice_type_def jsub_def jval_def jget_def[of _ JNull] split: option.split)
qed

text \<open>(C24) What a Messages upstream gets for a Responses request: messages of user and assistant in turns, the user first, each with some
  content and the thinking of the assistant before the rest; and with thinking enabled neither sampling fields nor a forced choice of tool.\<close>

theorem responses_request_alternates:
  assumes "ResponsesRequestToMessages dec rawBody model maxOutputTokens = Inr r"
  shows "mq_messages r \<noteq> [] \<and> fst (hd (mq_messages r)) = ''user'' \<and> alternating (mq_messages r)
    \<and> jget ''messages'' (mq_body r) = Some (JArr (map blocks_json (mq_messages r)))
    \<and> (mq_thinking r \<noteq> None \<longrightarrow> jget ''temperature'' (mq_body r) = None \<and> jget ''top_p'' (mq_body r) = None \<and> jget ''top_k'' (mq_body r) = None
         \<and> choice_type (mq_body r) \<in> {'''', ''auto'', ''none''})"
proof -
  obtain payload inp sys tools choice where p: "responsesInputToMessages dec (jget ''input'' payload) = Inr inp" "in_messages inp \<noteq> []"
    "mq_messages r = user_first (in_messages inp)"
    and c: "fst (responsesToolChoiceToMessages (jget ''tool_choice'' payload) (jget ''parallel_tool_calls'' payload) (mq_thinking r \<noteq> None)) = choice"
    and b: "mq_body r = JObj ([(''model'', JStr model), (''messages'', JArr (map blocks_json (mq_messages r)))]
        @ (if sys \<noteq> [] then [(''system'', JStr (str_join [LF] sys))] else []) @ (if tools \<noteq> [] then [(''tools'', JArr tools)] else []) @ thinking_fields (mq_thinking r)
        @ [(''max_tokens'', JInt (fst (snd (resolveThinking payload maxOutputTokens))))] @ (case choice of Some tc \<Rightarrow> [(''tool_choice'', JObj tc)] | None \<Rightarrow> [])
        @ (if mq_thinking r \<noteq> None then [] else concat (map (copied payload) [''temperature'', ''top_p''])) @ user_metadata payload @ copied payload ''stream'')"
    using assms by (rule request_parts) blast
  note f = body_fields[OF b]
  have "choice_type (mq_body r) \<in> {'''', ''auto'', ''none''}" if "mq_thinking r \<noteq> None"
    using that c choice_with_thinking f(4) by (cases choice) auto
  then show ?thesis using user_first_ok[OF input_alternating[OF p(1)] p(2)] p(3) f(1,3) by auto
qed


theorem responses_request_alternates_witness:
  "case ResponsesRequestToMessages (\<lambda>s. Some (JObj [])) (Some (JObj [(''input'', JArr [
        JObj [(''type'', JStr ''function_call''), (''call_id'', JStr ''c1''), (''name'', JStr ''clock''), (''arguments'', JStr ''{}'')],
        JObj [(''type'', JStr ''function_call_output''), (''call_id'', JStr ''c1''), (''output'', JStr ''noon'')],
        JObj [(''role'', JStr ''user''), (''content'', JStr ''Thanks.'')]]), (''tool_choice'', JStr ''required''), (''reasoning'', JObj [(''effort'', JStr ''low'')]),
        (''temperature'', JNull)])) ''claude'' [] of
     Inr r \<Rightarrow> map fst (mq_messages r) = [''user'', ''assistant'', ''user''] \<and> mq_thinking r = Some 1024 \<and> alternating (mq_messages r) \<and> jget ''temperature'' (mq_body r) = None
   | Inl _ \<Rightarrow> False"
proof -
  let ?r = "ResponsesRequestToMessages (\<lambda>s. Some (JObj [])) (Some (JObj [(''input'', JArr [
        JObj [(''type'', JStr ''function_call''), (''call_id'', JStr ''c1''), (''name'', JStr ''clock''), (''arguments'', JStr ''{}'')],
        JObj [(''type'', JStr ''function_call_output''), (''call_id'', JStr ''c1''), (''output'', JStr ''noon'')],
        JObj [(''role'', JStr ''user''), (''content'', JStr ''Thanks.'')]]), (''tool_choice'', JStr ''required''), (''reasoning'', JObj [(''effort'', JStr ''low'')]),
        (''temperature'', JNull)])) ''claude'' []"
  have v: "case ?r of Inr r \<Rightarrow> map fst (mq_messages r) = [''user'', ''assistant'', ''user''] \<and> mq_thinking r = Some 1024 | Inl _ \<Rightarrow> False" by code_simp
  then obtain r where r: "?r = Inr r" by (auto split: sum.splits)
  from responses_request_alternates[OF r] v show ?thesis unfolding r by simp
qed

subsection \<open>An answer sent back\<close>

datatype answer_block = Thought string string | Said string | Used string string json

fun answer_json :: "answer_block \<Rightarrow> json" where
  "answer_json (Thought t sig) = JObj [(''type'', JStr ''thinking''), (''thinking'', JStr t), (''signature'', JStr sig)]"
| "answer_json (Said t) = text_block t"
| "answer_json (Used i name input) = tool_use_block i name input"

text \<open>Blocks as an upstream sends them: signed thinking, texts that are not empty, calls with an id of the protocol and an input that survives its encoding.\<close>

fun answer_ok :: "(json \<Rightarrow> string) \<Rightarrow> (string \<Rightarrow> json option) \<Rightarrow> answer_block \<Rightarrow> bool" where
  "answer_ok enc dec (Thought t sig) = (sig \<noteq> '''')"
| "answer_ok enc dec (Said t) = (t \<noteq> '''')"
| "answer_ok enc dec (Used i name input) = (prefix ''toolu_'' i \<and> name \<noteq> '''' \<and> enc input \<noteq> '''' \<and> dec (enc input) = Some input \<and> input \<noteq> JNull)"

fun is_thought :: "answer_block \<Rightarrow> bool" where
  "is_thought (Thought t sig) = True"
| "is_thought _ = False"

lemma thinking_json: "is_thinking (answer_json b) = is_thought b"
  by (cases b) (simp_all add: is_thinking_def text_block_def tool_use_block_def)

text \<open>A name is put together again as it was split.\<close>

lemma split_name_joined:
  assumes "splitChatToolName name = (ns, l)" "name \<noteq> ''''"
  shows "l \<noteq> '''' \<and> (if ns \<noteq> '''' then ns @ ''.'' @ l else l) = name"
proof -
  define p where "p = (\<lambda>c. c \<noteq> CHR ''.'')"
  define dw where "dw = dropWhile p (rev name)"
  have name: "name = rev dw @ rev (takeWhile p (rev name))" unfolding dw_def by (metis rev_append rev_rev_ident takeWhile_dropWhile_id)
  show ?thesis
  proof (cases dw)
    case Nil
    then have "length (rev (takeWhile p (rev name))) = length name" using name by (metis append_Nil rev.simps(1))
    then show ?thesis using assms by (simp add: splitChatToolName_def p_def[symmetric] Let_def)
  next
    case (Cons c ds)
    then have c: "c = CHR ''.''" using hd_dropWhile[of p "rev name"] unfolding dw_def p_def by (metis list.distinct(1) list.sel(1))
    define t where "t = rev (takeWhile p (rev name))"
    have n: "name = rev ds @ c # t" using name Cons t_def by simp
    then have i: "int (length name) - int (length t) - 1 = int (length ds)" and tk: "take (length ds) name = rev ds" and lt: "int (length ds) < int (length name) - 1 \<longleftrightarrow> t \<noteq> []"
      by simp_all
    have "splitChatToolName name = (if ds \<noteq> [] \<and> t \<noteq> [] then (rev ds, t) else ('''', name))"
      unfolding splitChatToolName_def Let_def p_def[symmetric] t_def[symmetric] i lt nat_int tk by simp
    then show ?thesis using assms n c by (auto split: if_splits)
  qed
qed

lemma item_comes_back:
  assumes "answer_ok enc dec b"
  shows "\<exists>item. block_item enc rawID (i, answer_json b) = Some item \<and> input_item dec item s = add_block ''assistant'' (answer_json b) s"
proof (cases b)
  case (Thought t sig)
  then show ?thesis using assms
    by (simp add: block_item_def is_obj_def responsesReasoningItem_def input_item_def responsesReasoningToThinking_def reasoningSummary_def reasoningSummaryPart_def
        thinkingText_def List.map_filter_simps Let_def)
next
  case (Said t)
  then show ?thesis using assms
    by (simp add: block_item_def text_block_def is_obj_def input_item_def input_message_def responsesContentToBlocks_def content_part_def warn_def Let_def)
next
  case (Used j name input)
  obtain ns l where sp: "splitChatToolName name = (ns, l)" by fastforce
  have l: "l \<noteq> ''''" "(if ns \<noteq> '''' then ns @ ''.'' @ l else l) = name" using split_name_joined[OF sp] assms Used by auto
  have "j \<noteq> ''''" "NormalizeToolUseID j = j" using assms Used by (auto simp: NormalizeToolUseID_def)
  then show ?thesis using assms Used sp l
    by (auto simp: block_item_def tool_use_block_def is_obj_def input_item_def input_call_def responseItemCallID_def call_input_def jval_def Let_def split: if_splits)
qed

lemma items_come_back:
  assumes "length js = length bs" "list_all (answer_ok enc dec) bs"
  shows "fold (input_item dec) (List.map_filter (block_item enc rawID) (zip js (map answer_json bs))) s = fold (add_block ''assistant'') (map answer_json bs) s"
  using assms
proof (induction js bs arbitrary: s rule: list_induct2)
  case (Cons j js b bs)
  then obtain item where "block_item enc rawID (j, answer_json b) = Some item" "input_item dec item s = add_block ''assistant'' (answer_json b) s"
    using item_comes_back[of enc dec b rawID j s] by auto
  then show ?case using Cons by (simp add: List.map_filter_simps)
qed (simp add: List.map_filter_simps)

lemma blocks_appended:
  "list_all (\<lambda>b. \<not> is_thinking b) bs \<Longrightarrow> in_messages (fold (add_block role) bs (s\<lparr>in_messages := ms @ [(role, cs)]\<rparr>)) = ms @ [(role, cs @ bs)]"
proof (induction bs arbitrary: cs)
  case (Cons b bs)
  then have "add_block role b (s\<lparr>in_messages := ms @ [(role, cs)]\<rparr>) = s\<lparr>in_messages := ms @ [(role, cs @ [b])]\<rparr>"
    by (simp add: add_block_def appendBlock_def is_thinking_def)
  then show ?case using Cons by simp
qed simp



text \<open>A second reasoning item of a turn is put in front of the first: two signed blocks of thinking are sent in the wrong order.\<close>

theorem second_thought_goes_first:
  "in_messages (fold (input_item dec) (answer_items enc ''msg_1'' (map answer_json [Thought ''a'' ''s1'', Thought ''b'' ''s2''])) empty_input)
   = [(''assistant'', map answer_json [Thought ''b'' ''s2'', Thought ''a'' ''s1''])]"
  using items_come_back[of "[0, 1]" "[Thought ''a'' ''s1'', Thought ''b'' ''s2'']" enc dec "''msg_1''" empty_input]
  by (simp add: answer_items_def add_block_def appendBlock_def empty_input_def upt_rec)

text \<open>The id of a call is read from either field, that of its output from one only: an output with its id in the other field answers no call.\<close>

theorem output_id_read_from_one_field:
  "map (map (\<lambda>b. (jget ''id'' b, jget ''tool_use_id'' b)) \<circ> snd) (in_messages (fold (input_item dec)
       [JObj [(''type'', JStr ''function_call''), (''id'', JStr ''c1''), (''name'', JStr ''clock'')],
        JObj [(''type'', JStr ''function_call_output''), (''id'', JStr ''c1''), (''output'', JStr ''noon'')]] empty_input))
   = [[(Some (JStr ''toolu_c1''), None)], [(None, Some (JStr ''toolu_mock''))]]"
  by code_simp

end
