(* ===== verification/Chat_Responses_Stream.thy ===== *)
theory Chat_Responses_Stream
  imports Responses_Bodies
begin

text \<open>
  The translation of a Chat Completions stream into a stream of the Responses API: \<open>src/pkg/llm/translate/chat_responses_stream.go\<close>. A frame is what the
  three decodings of its text give: the usage, the finish reasons of its choices, and the chunk. Events carry the value that is encoded, and the
  clock reading is an argument.
\<close>

subsection \<open>Frames, events, state\<close>

record ResponsesDelta =
  rd_Content :: string
  rd_ReasoningContent :: string
  rd_Reasoning :: string
  rd_ToolCalls :: "ToolCallDelta list"

record ResponsesChunk =
  rk_ID :: string
  rk_Model :: string
  rk_Choices :: "ResponsesDelta list"

datatype responses_frame = ResponsesDone | ResponsesFrame TokenUsage "string option list option" "ResponsesChunk option"

record ResponsesStreamEvent =
  re_Event :: string
  re_Data :: json
  re_TransmittedChars :: nat
  re_Flush :: bool

record chatResponsesToolCall =
  rt_ID :: string
  rt_CallID :: string
  rt_Name :: string
  rt_Namespace :: string
  rt_Arguments :: string
  rt_OutputIndex :: int
  rt_Added :: bool
  rt_IsCustom :: bool

text \<open>The calls are a map by the index of the upstream, kept as the list of its entries.\<close>

record ChatToResponsesStream =
  cr_model :: string
  cr_mapper :: "ToolNameMapper option"
  cr_usage :: TokenUsage
  cr_started :: bool
  cr_finished :: bool
  cr_sawDone :: bool
  cr_finishReason :: string
  cr_lastResponseID :: string
  cr_lastModelName :: string
  cr_fullText :: string
  cr_fullReasoning :: string
  cr_messageAdded :: bool
  cr_textOutputIndex :: int
  cr_currentOutputIndex :: int
  cr_reasoningAdded :: bool
  cr_reasoningOutputIndex :: int
  cr_localToolCalls :: "(int \<times> chatResponsesToolCall) list"

definition NewChatToResponsesStream :: "string \<Rightarrow> ToolNameMapper option \<Rightarrow> TokenUsage \<Rightarrow> ChatToResponsesStream" where
  "NewChatToResponsesStream model mapper initialUsage =
     \<lparr>cr_model = model, cr_mapper = mapper, cr_usage = initialUsage, cr_started = False, cr_finished = False, cr_sawDone = False, cr_finishReason = '''',
      cr_lastResponseID = '''', cr_lastModelName = '''', cr_fullText = '''', cr_fullReasoning = '''', cr_messageAdded = False, cr_textOutputIndex = -1,
      cr_currentOutputIndex = 0, cr_reasoningAdded = False, cr_reasoningOutputIndex = -1, cr_localToolCalls = []\<rparr>"

definition responses_event :: "string \<Rightarrow> (string \<times> json) list \<Rightarrow> ResponsesStreamEvent" where
  "responses_event name kvs = \<lparr>re_Event = name, re_Data = JObj ((''type'', JStr name) # kvs), re_TransmittedChars = 0, re_Flush = False\<rparr>"

text \<open>An event about an output item.\<close>

definition item_event :: "string \<Rightarrow> string \<Rightarrow> int \<Rightarrow> (string \<times> json) list \<Rightarrow> ResponsesStreamEvent" where
  "item_event name respID idx kvs = responses_event name ([(''response_id'', JStr respID), (''output_index'', JInt idx)] @ kvs)"

definition modelName :: "ChatToResponsesStream \<Rightarrow> string" where
  "modelName s = (if cr_lastModelName s = '''' then cr_model s else cr_lastModelName s)"

definition respID :: "ChatToResponsesStream \<Rightarrow> string" where
  "respID s = chatResponsesID (cr_lastResponseID s) ''resp_''"

definition msgID :: "ChatToResponsesStream \<Rightarrow> string" where
  "msgID s = chatResponsesID (cr_lastResponseID s) ''msg_''"

definition reasoningID :: "ChatToResponsesStream \<Rightarrow> string" where
  "reasoningID s = chatResponsesID (cr_lastResponseID s) ''rs_''"

definition responses_progress :: "ChatToResponsesStream \<Rightarrow> StreamChunkMeta \<Rightarrow> StreamChunkMeta" where
  "responses_progress s m = m\<lparr>sm_SawDone := cr_sawDone s, sm_FinishReason := cr_finishReason s, sm_TextChars := length (cr_fullText s),
     sm_ThinkingChars := length (cr_fullReasoning s), sm_HasToolUse := cr_localToolCalls s \<noteq> []\<rparr>"

definition applyUsage :: "TokenUsage \<Rightarrow> TokenUsage \<Rightarrow> TokenUsage" where
  "applyUsage u old = \<lparr>tu_InputTokens = (if tu_InputTokens u > 0 then tu_InputTokens u else tu_InputTokens old),
     tu_OutputTokens = (if tu_OutputTokens u > 0 then tu_OutputTokens u else tu_OutputTokens old),
     tu_CachedTokens = (if tu_CachedTokens u > 0 then tu_CachedTokens u else tu_CachedTokens old),
     tu_CacheCreationTokens = (if tu_CacheCreationTokens u > 0 then tu_CacheCreationTokens u else tu_CacheCreationTokens old)\<rparr>"

subsection \<open>Feeding\<close>

definition started_response :: "int \<Rightarrow> ChatToResponsesStream \<Rightarrow> json" where
  "started_response now s = JObj [(''id'', JStr (respID s)), (''object'', JStr ''response''), (''created_at'', JInt now), (''status'', JStr ''in_progress''),
     (''model'', JStr (modelName s)), (''output'', JArr [])]"

definition start_response :: "int \<Rightarrow> ChatToResponsesStream \<Rightarrow> ResponsesStreamEvent list \<times> ChatToResponsesStream" where
  "start_response now s = (if cr_started s then ([], s)
     else ([responses_event ''response.created'' [(''response'', started_response now s)],
            (responses_event ''response.in_progress'' [(''response'', started_response now s)])\<lparr>re_Flush := True\<rparr>], s\<lparr>cr_started := True\<rparr>))"

definition sendResponsesReasoningDelta :: "string \<Rightarrow> ChatToResponsesStream \<Rightarrow> ResponsesStreamEvent list \<times> ChatToResponsesStream" where
  "sendResponsesReasoningDelta d s =
     (let (e1, s1) = (if cr_reasoningAdded s then ([], s)
            else let idx = cr_currentOutputIndex s
              in ([item_event ''response.output_item.added'' (respID s) idx [(''item'', JObj (responsesReasoningItem (reasoningID s) [] ''''))],
                   item_event ''response.reasoning_summary_part.added'' (respID s) idx
                     [(''item_id'', JStr (reasoningID s)), (''summary_index'', JInt 0), (''part'', reasoningSummaryPart '''')]],
                  s\<lparr>cr_reasoningAdded := True, cr_reasoningOutputIndex := idx, cr_currentOutputIndex := idx + 1\<rparr>))
      in (e1 @ [(item_event ''response.reasoning_summary_text.delta'' (respID s) (cr_reasoningOutputIndex s1)
            [(''item_id'', JStr (reasoningID s)), (''summary_index'', JInt 0), (''delta'', JStr d)])\<lparr>re_TransmittedChars := length d\<rparr>], s1))"

definition sendPlainResponsesText :: "string \<Rightarrow> ChatToResponsesStream \<Rightarrow> ResponsesStreamEvent list \<times> ChatToResponsesStream" where
  "sendPlainResponsesText t s =
     (let (e1, s1) = (if cr_messageAdded s then ([], s)
            else let idx = cr_currentOutputIndex s
              in ([item_event ''response.output_item.added'' (respID s) idx [(''item'', JObj [(''id'', JStr (msgID s)), (''type'', JStr ''message''),
                     (''status'', JStr ''in_progress''), (''role'', JStr ''assistant''), (''content'', JArr [])])],
                   item_event ''response.content_part.added'' (respID s) idx [(''item_id'', JStr (msgID s)), (''content_index'', JInt 0),
                     (''part'', JObj [(''type'', JStr ''output_text''), (''text'', JStr ''''), (''annotations'', JArr [])])]],
                  s\<lparr>cr_messageAdded := True, cr_textOutputIndex := idx, cr_currentOutputIndex := idx + 1\<rparr>))
      in (e1 @ [(item_event ''response.output_text.delta'' (respID s) (cr_textOutputIndex s1)
            [(''item_id'', JStr (msgID s)), (''content_index'', JInt 0), (''delta'', JStr t)])\<lparr>re_TransmittedChars := length t\<rparr>], s1))"

definition feed_reasoning_text :: "string \<Rightarrow> ChatToResponsesStream \<Rightarrow> ResponsesStreamEvent list \<times> ChatToResponsesStream" where
  "feed_reasoning_text r s = (if r = '''' then ([], s)
     else let (es, s1) = sendResponsesReasoningDelta r s in (es, s1\<lparr>cr_fullReasoning := cr_fullReasoning s1 @ r\<rparr>))"

definition feed_plain_text :: "string \<Rightarrow> ChatToResponsesStream \<Rightarrow> ResponsesStreamEvent list \<times> ChatToResponsesStream" where
  "feed_plain_text t s = (if t = '''' then ([], s)
     else let (es, s1) = sendPlainResponsesText t s in (es, s1\<lparr>cr_fullText := cr_fullText s1 @ t\<rparr>))"

text \<open>A call: the entry of a new index, then what each delta does to it.\<close>

definition new_call :: "string \<Rightarrow> int \<Rightarrow> ToolCallDelta \<Rightarrow> chatResponsesToolCall" where
  "new_call mid idx tc = (let callID = (if tcd_ID tc = '''' then ''call_'' @ mid @ ''_'' @ itoa (tcd_Index tc) else tcd_ID tc)
     in \<lparr>rt_ID = EnsureFunctionCallItemID callID, rt_CallID = callID, rt_Name = tcd_Name tc, rt_Namespace = '''', rt_Arguments = '''', rt_OutputIndex = idx,
         rt_Added = False, rt_IsCustom = False\<rparr>)"

definition resolve_call :: "ToolNameMapper option \<Rightarrow> ToolCallDelta \<Rightarrow> chatResponsesToolCall \<Rightarrow> chatResponsesToolCall" where
  "resolve_call mapper tc c0 =
     (let c1 = (if tcd_ID tc \<noteq> '''' \<and> rt_CallID c0 = '''' then c0\<lparr>rt_CallID := tcd_ID tc, rt_ID := EnsureFunctionCallItemID (tcd_ID tc)\<rparr> else c0);
          c2 = (if tcd_Name tc \<noteq> '''' \<and> rt_Name c1 = '''' then c1\<lparr>rt_Name := tcd_Name tc\<rparr> else c1);
          c3 = (if rt_Namespace c2 = '''' then (let (ns, n) = restored_name mapper (rt_Name c2) in c2\<lparr>rt_Namespace := ns, rt_Name := n\<rparr>) else c2)
      in if IsCustom (rt_Name c3) mapper then c3\<lparr>rt_IsCustom := True, rt_ID := EnsureCustomToolCallItemID (rt_CallID c3)\<rparr> else c3)"

text \<open>The item of a call; an empty namespace is left out.\<close>

definition call_fields :: "string \<Rightarrow> string \<times> json \<Rightarrow> chatResponsesToolCall \<Rightarrow> (string \<times> json) list" where
  "call_fields status body c = [(''id'', JStr (rt_ID c)), (''call_id'', JStr (rt_CallID c)),
     (''type'', JStr (if rt_IsCustom c then ''custom_tool_call'' else ''function_call'')), (''status'', JStr status), (''name'', JStr (rt_Name c)), body]
     @ (if rt_Namespace c \<noteq> '''' then [(''namespace'', JStr (rt_Namespace c))] else [])"

definition call_added :: "string \<Rightarrow> chatResponsesToolCall \<Rightarrow> ResponsesStreamEvent list \<times> chatResponsesToolCall" where
  "call_added rid c = (if rt_Name c \<noteq> '''' \<and> \<not> rt_Added c
     then ([item_event ''response.output_item.added'' rid (rt_OutputIndex c)
              [(''item'', JObj (call_fields ''in_progress'' (if rt_IsCustom c then ''input'' else ''arguments'', JStr '''') c))]], c\<lparr>rt_Added := True\<rparr>)
     else ([], c))"

definition arguments_delta :: "string \<Rightarrow> string \<Rightarrow> chatResponsesToolCall \<Rightarrow> ResponsesStreamEvent list" where
  "arguments_delta rid d c = (if rt_IsCustom c then []
     else [item_event ''response.function_call.arguments.delta'' rid (rt_OutputIndex c) [(''item_id'', JStr (rt_ID c)), (''call_id'', JStr (rt_CallID c)), (''delta'', JStr d)]])"

definition set_call :: "int \<Rightarrow> chatResponsesToolCall \<Rightarrow> (int \<times> chatResponsesToolCall) list \<Rightarrow> (int \<times> chatResponsesToolCall) list" where
  "set_call i c cs = (if map_of cs i = None then cs @ [(i, c)] else map (\<lambda>e. if fst e = i then (i, c) else e) cs)"

definition feed_call :: "ToolCallDelta \<Rightarrow> ChatToResponsesStream \<Rightarrow> ResponsesStreamEvent list \<times> ChatToResponsesStream" where
  "feed_call tc s =
     (let (c0, s1) = (case map_of (cr_localToolCalls s) (tcd_Index tc) of Some c \<Rightarrow> (c, s)
            | None \<Rightarrow> (new_call (msgID s) (cr_currentOutputIndex s) tc, s\<lparr>cr_currentOutputIndex := cr_currentOutputIndex s + 1\<rparr>));
          (e1, c1) = call_added (respID s) (resolve_call (cr_mapper s) tc c0);
          c2 = c1\<lparr>rt_Arguments := rt_Arguments c1 @ tcd_Arguments tc\<rparr>
      in (e1 @ arguments_delta (respID s) (tcd_Arguments tc) c2, s1\<lparr>cr_localToolCalls := set_call (tcd_Index tc) c2 (cr_localToolCalls s)\<rparr>))"

fun feed_call_list :: "ToolCallDelta list \<Rightarrow> ChatToResponsesStream \<Rightarrow> ResponsesStreamEvent list \<times> ChatToResponsesStream" where
  "feed_call_list [] s = ([], s)"
| "feed_call_list (tc # tcs) s = (let (e1, s1) = feed_call tc s; (e2, s2) = feed_call_list tcs s1 in (e1 @ e2, s2))"

definition feed_choice :: "ResponsesDelta \<Rightarrow> ChatToResponsesStream \<Rightarrow> ResponsesStreamEvent list \<times> ChatToResponsesStream" where
  "feed_choice d s =
     (let (e1, s1) = feed_reasoning_text (chatResponsesReasoning (rd_ReasoningContent d) (rd_Reasoning d)) s;
          (e2, s2) = feed_plain_text (rd_Content d) s1;
          (e3, s3) = feed_call_list (rd_ToolCalls d) s2
      in (e1 @ e2 @ e3, s3))"

definition last_finish :: "string option list option \<Rightarrow> string \<Rightarrow> string" where
  "last_finish reasons old = (case reasons of None \<Rightarrow> old | Some rs \<Rightarrow> fold (\<lambda>r o'. case r of Some v \<Rightarrow> v | None \<Rightarrow> o') rs old)"

definition note_chunk :: "ResponsesChunk \<Rightarrow> ChatToResponsesStream \<Rightarrow> ChatToResponsesStream" where
  "note_chunk c s = s\<lparr>cr_lastResponseID := (if rk_ID c \<noteq> '''' then rk_ID c else cr_lastResponseID s), cr_lastModelName := (if rk_Model c \<noteq> '''' then rk_Model c else cr_lastModelName s)\<rparr>"

definition chunk_meta :: "ResponsesChunk \<Rightarrow> StreamChunkMeta \<Rightarrow> StreamChunkMeta" where
  "chunk_meta c m = (let m1 = (if rk_ID c \<noteq> '''' then m\<lparr>sm_ResponseID := chatResponsesID (rk_ID c) ''resp_''\<rparr> else m);
       m2 = (if rk_Model c \<noteq> '''' then m1\<lparr>sm_ResponseModel := rk_Model c\<rparr> else m1)
     in case rk_Choices c of [] \<Rightarrow> m2 | d # _ \<Rightarrow> m2\<lparr>sm_Flush := True,
       sm_TransmittedChars := length (chatResponsesReasoning (rd_ReasoningContent d) (rd_Reasoning d)) + length (rd_Content d)\<rparr>)"

definition FeedResponses :: "int \<Rightarrow> responses_frame \<Rightarrow> ChatToResponsesStream \<Rightarrow> (ResponsesStreamEvent list \<times> StreamChunkMeta) \<times> ChatToResponsesStream" where
  "FeedResponses now frame s =
     (if cr_finished s then (([], zero_meta), s)
      else case frame of
        ResponsesDone \<Rightarrow> (let s1 = s\<lparr>cr_sawDone := True\<rparr> in (([], responses_progress s1 zero_meta), s1))
      | ResponsesFrame u reasons chunk \<Rightarrow>
          (let m = zero_meta\<lparr>sm_InputTokens := tu_InputTokens u, sm_OutputTokens := tu_OutputTokens u, sm_CachedTokens := tu_CachedTokens u\<rparr>;
               s1 = s\<lparr>cr_usage := applyUsage u (cr_usage s), cr_finishReason := last_finish reasons (cr_finishReason s)\<rparr>
           in case chunk of None \<Rightarrow> (([], m), s1)
              | Some c \<Rightarrow>
                  let (e1, s2) = start_response now (note_chunk c s1);
                      (e2, s3) = (case rk_Choices c of [] \<Rightarrow> ([], s2) | d # _ \<Rightarrow> feed_choice d s2)
                  in ((e1 @ e2, responses_progress s3 (chunk_meta c m)), s3)))"

subsection \<open>Finishing\<close>

definition output_message :: "ChatToResponsesStream \<Rightarrow> json" where
  "output_message s = JObj [(''id'', JStr (msgID s)), (''type'', JStr ''message''), (''status'', JStr ''completed''), (''role'', JStr ''assistant''),
     (''content'', JArr [JObj [(''type'', JStr ''output_text''), (''text'', JStr (cr_fullText s)), (''annotations'', JArr [])]])]"

definition reasoning_done :: "ChatToResponsesStream \<Rightarrow> ResponsesStreamEvent list" where
  "reasoning_done s = (if \<not> cr_reasoningAdded s then []
     else let idx = cr_reasoningOutputIndex s; t = cr_fullReasoning s
       in [item_event ''response.reasoning_summary_text.done'' (respID s) idx [(''item_id'', JStr (reasoningID s)), (''summary_index'', JInt 0), (''text'', JStr t)],
           item_event ''response.reasoning_summary_part.done'' (respID s) idx [(''item_id'', JStr (reasoningID s)), (''summary_index'', JInt 0), (''part'', reasoningSummaryPart t)],
           item_event ''response.output_item.done'' (respID s) idx [(''item'', completedChatReasoningItem (reasoningID s) t)]])"

definition text_done :: "ChatToResponsesStream \<Rightarrow> ResponsesStreamEvent list" where
  "text_done s = (if \<not> cr_messageAdded s then []
     else let idx = cr_textOutputIndex s; t = cr_fullText s
       in [item_event ''response.output_text.done'' (respID s) idx [(''item_id'', JStr (msgID s)), (''content_index'', JInt 0), (''text'', JStr t)],
           item_event ''response.content_part.done'' (respID s) idx [(''item_id'', JStr (msgID s)), (''content_index'', JInt 0),
             (''part'', JObj [(''type'', JStr ''output_text''), (''text'', JStr t), (''annotations'', JArr [])])],
           item_event ''response.output_item.done'' (respID s) idx [(''item'', output_message s)]])"

definition call_body :: "(string \<Rightarrow> json option) \<Rightarrow> chatResponsesToolCall \<Rightarrow> string \<times> json" where
  "call_body dec c = (if rt_IsCustom c then (''input'', JStr (ExtractPatchInput dec (rt_Arguments c))) else (''arguments'', JStr (rt_Arguments c)))"

definition call_done :: "(string \<Rightarrow> json option) \<Rightarrow> string \<Rightarrow> chatResponsesToolCall \<Rightarrow> ResponsesStreamEvent list" where
  "call_done dec rid c = (if rt_IsCustom c then []
       else [item_event ''response.function_call.arguments.done'' rid (rt_OutputIndex c) [(''item_id'', JStr (rt_ID c)), (''call_id'', JStr (rt_CallID c)), (''arguments'', JStr (rt_Arguments c))]])
     @ [item_event ''response.output_item.done'' rid (rt_OutputIndex c) [(''item'', JObj (call_fields ''completed'' (call_body dec c) c))]]"

text \<open>In the list of the final response the namespace is always there.\<close>

definition output_call :: "(string \<Rightarrow> json option) \<Rightarrow> chatResponsesToolCall \<Rightarrow> json" where
  "output_call dec c = JObj [(''id'', JStr (rt_ID c)), (''call_id'', JStr (rt_CallID c)), (''type'', JStr (if rt_IsCustom c then ''custom_tool_call'' else ''function_call'')),
     (''status'', JStr ''completed''), (''name'', JStr (rt_Name c)), (''namespace'', JStr (rt_Namespace c)), call_body dec c]"

definition calls_in_order :: "ChatToResponsesStream \<Rightarrow> chatResponsesToolCall list" where
  "calls_in_order s = map snd (sort_key fst (cr_localToolCalls s))"

definition outputs :: "(string \<Rightarrow> json option) \<Rightarrow> ChatToResponsesStream \<Rightarrow> json list" where
  "outputs dec s = (if cr_reasoningAdded s then [completedChatReasoningItem (reasoningID s) (cr_fullReasoning s)] else [])
     @ (if cr_messageAdded s then [output_message s] else []) @ map (output_call dec) (calls_in_order s)"

definition final_response :: "(string \<Rightarrow> json option) \<Rightarrow> int \<Rightarrow> ChatToResponsesStream \<Rightarrow> json" where
  "final_response dec now s = JObj [(''id'', JStr (respID s)), (''object'', JStr ''response''), (''created_at'', JInt (now - 1)), (''status'', JStr ''completed''),
     (''model'', JStr (modelName s)), (''output'', jslice (outputs dec s)),
     (''usage'', JObj [(''input_tokens'', JInt (tu_InputTokens (cr_usage s))), (''output_tokens'', JInt (tu_OutputTokens (cr_usage s))),
       (''total_tokens'', JInt (tu_InputTokens (cr_usage s) + tu_OutputTokens (cr_usage s)))])]"

definition FinishResponses :: "(string \<Rightarrow> json option) \<Rightarrow> int \<Rightarrow> TokenUsage \<Rightarrow> ChatToResponsesStream \<Rightarrow> (ResponsesStreamEvent list \<times> StreamChunkMeta) \<times> ChatToResponsesStream" where
  "FinishResponses dec now latestUsage s =
     (if cr_finished s then (([], zero_meta), s)
      else let s1 = s\<lparr>cr_finished := True, cr_usage := applyUsage latestUsage (cr_usage s)\<rparr>; m = responses_progress s1 zero_meta
        in if \<not> cr_started s1 then (([], m), s1)
           else ((reasoning_done s1 @ text_done s1 @ concat (map (call_done dec (respID s1)) (calls_in_order s1))
                  @ [responses_event ''response.done'' [(''response'', final_response dec now s1)], responses_event ''response.completed'' [(''response'', final_response dec now s1)]],
                  final_usage (cr_usage s1) (m\<lparr>sm_Completed := True, sm_EmitDone := True\<rparr>)), s1))"

end
