(* ===== verification/Responses_Protocol.thy ===== *)
theory Responses_Protocol
  imports Chat_Responses_Stream
begin

text \<open>
  What a Responses client may rely on in a translated stream, over all sequences of frames: the order of the events, as an automaton that reads them, and the
  text it gets. The state of the translator follows the automaton as long as the first delta of a call names the tool.
\<close>

subsection \<open>The protocol\<close>

text \<open>Nothing yet, the response created, a response with the number of its next item and the items that are open, the end announced, the end.\<close>

datatype response_reader = Silent | Created | Streaming int "int set" | Announced | Completed

definition output_index :: "ResponsesStreamEvent \<Rightarrow> int option" where
  "output_index e = (case jget ''output_index'' (re_Data e) of Some (JNum r) \<Rightarrow> if of_int \<lfloor>r\<rfloor> = r then Some \<lfloor>r\<rfloor> else None | _ \<Rightarrow> None)"

definition item_progress :: "string set" where
  "item_progress = {''response.content_part.added'', ''response.output_text.delta'', ''response.output_text.done'', ''response.content_part.done'',
     ''response.reasoning_summary_part.added'', ''response.reasoning_summary_text.delta'', ''response.reasoning_summary_text.done'', ''response.reasoning_summary_part.done'',
     ''response.function_call.arguments.delta'', ''response.function_call.arguments.done''}"

fun read_event :: "string \<Rightarrow> int option \<Rightarrow> response_reader \<Rightarrow> response_reader option" where
  "read_event ty idx Silent = (if ty = ''response.created'' then Some Created else None)"
| "read_event ty idx Created = (if ty = ''response.in_progress'' then Some (Streaming 0 {}) else None)"
| "read_event ty (Some i) (Streaming n opened) =
     (if ty = ''response.output_item.added'' then (if i = n then Some (Streaming (n + 1) (insert i opened)) else None)
      else if ty \<in> item_progress then (if i \<in> opened then Some (Streaming n opened) else None)
      else if ty = ''response.output_item.done'' then (if i \<in> opened then Some (Streaming n (opened - {i})) else None)
      else None)"
| "read_event ty None (Streaming n opened) = (if ty = ''response.done'' \<and> opened = {} then Some Announced else None)"
| "read_event ty idx Announced = (if ty = ''response.completed'' then Some Completed else None)"
| "read_event ty idx Completed = None"

fun read_events :: "ResponsesStreamEvent list \<Rightarrow> response_reader \<Rightarrow> response_reader option" where
  "read_events [] r = Some r"
| "read_events (e # es) r = (case read_event (re_Event e) (output_index e) r of Some r' \<Rightarrow> read_events es r' | None \<Rightarrow> None)"

lemma read_append: "read_events (es @ fs) r = (case read_events es r of Some r' \<Rightarrow> read_events fs r' | None \<Rightarrow> None)"
  by (induction es arbitrary: r) (auto split: option.splits)

lemma item_event_index [simp]:
  "output_index (item_event name rid i kvs) = Some i" "re_Event (item_event name rid i kvs) = name"
  "output_index (e\<lparr>re_TransmittedChars := n\<rparr>) = output_index e"
  by (simp_all add: output_index_def item_event_def responses_event_def JInt_def)

lemma progress_types [simp]:
  "''response.content_part.added'' \<in> item_progress" "''response.output_text.delta'' \<in> item_progress" "''response.output_text.done'' \<in> item_progress"
  "''response.content_part.done'' \<in> item_progress" "''response.reasoning_summary_part.added'' \<in> item_progress" "''response.reasoning_summary_text.delta'' \<in> item_progress"
  "''response.reasoning_summary_text.done'' \<in> item_progress" "''response.reasoning_summary_part.done'' \<in> item_progress"
  "''response.function_call.arguments.delta'' \<in> item_progress" "''response.function_call.arguments.done'' \<in> item_progress"
  by (simp_all add: item_progress_def)

lemma item_events_read [simp]:
  "read_event ''response.output_item.added'' (Some i) (Streaming n opened) = (if i = n then Some (Streaming (n + 1) (insert i opened)) else None)"
  "read_event ''response.output_item.done'' (Some i) (Streaming n opened) = (if i \<in> opened then Some (Streaming n (opened - {i})) else None)"
  by (simp_all add: item_progress_def)

lemma progress_read [simp]:
  assumes "ty \<in> item_progress"
  shows "read_event ty (Some i) (Streaming n opened) = (if i \<in> opened then Some (Streaming n opened) else None)"
proof -
  have "ty \<noteq> ''response.output_item.added''" using assms by (auto simp: item_progress_def)
  then show ?thesis using assms by simp
qed

declare read_event.simps(3) [simp del]

lemma plain_event_index:
  "output_index (responses_event name [(''response'', j)]) = None" "re_Event (responses_event name kvs) = name"
  "output_index (e\<lparr>re_Flush := b\<rparr>) = output_index e"
  by (simp_all add: output_index_def responses_event_def)

subsection \<open>The state follows\<close>

definition call_indices :: "ChatToResponsesStream \<Rightarrow> int list" where
  "call_indices s = map (rt_OutputIndex \<circ> snd) (cr_localToolCalls s)"

text \<open>The indices of the items, each once: the reasoning, the message, the calls.\<close>

definition item_indices :: "ChatToResponsesStream \<Rightarrow> int list" where
  "item_indices s = (if cr_reasoningAdded s then [cr_reasoningOutputIndex s] else []) @ (if cr_messageAdded s then [cr_textOutputIndex s] else []) @ call_indices s"

definition responses_ok :: "ChatToResponsesStream \<Rightarrow> bool" where
  "responses_ok s \<longleftrightarrow> distinct (item_indices s) \<and> set (item_indices s) = {0..<cr_currentOutputIndex s} \<and> 0 \<le> cr_currentOutputIndex s
     \<and> distinct (map fst (cr_localToolCalls s)) \<and> list_all (\<lambda>c. rt_Added (snd c)) (cr_localToolCalls s)
     \<and> (cr_started s \<or> cr_currentOutputIndex s = 0)"

definition reader_of :: "ChatToResponsesStream \<Rightarrow> response_reader" where
  "reader_of s = (if cr_started s then Streaming (cr_currentOutputIndex s) {0..<cr_currentOutputIndex s} else Silent)"

definition tracks :: "ResponsesStreamEvent list \<Rightarrow> ChatToResponsesStream \<Rightarrow> ChatToResponsesStream \<Rightarrow> bool" where
  "tracks es s s' \<longleftrightarrow> read_events es (reader_of s) = Some (reader_of s') \<and> responses_ok s' \<and> (cr_started s \<longrightarrow> cr_started s')"

lemma tracks_refl: "responses_ok s \<Longrightarrow> tracks [] s s"
  by (simp add: tracks_def)

lemma tracks_trans: "tracks es s s' \<Longrightarrow> tracks fs s' s'' \<Longrightarrow> tracks (es @ fs) s s''"
  by (simp add: tracks_def read_append)

lemma tracks_ok: "tracks es s s' \<Longrightarrow> responses_ok s'"
  by (simp add: tracks_def)

lemma next_index: "0 \<le> n \<Longrightarrow> insert n {0..<n} = {0..<n + 1}" for n :: int
  by auto

lemma start_tracks:
  assumes "responses_ok s" "start_response now s = (es, s')"
  shows "tracks es s s' \<and> cr_started s'"
  using assms by (auto simp: start_response_def tracks_def reader_of_def plain_event_index responses_ok_def item_indices_def call_indices_def split: if_splits)

text \<open>A new item takes the next index.\<close>

lemma responses_ok_grow:
  assumes "responses_ok s" "mset (item_indices s') = add_mset (cr_currentOutputIndex s) (mset (item_indices s))" "cr_currentOutputIndex s' = cr_currentOutputIndex s + 1"
    "distinct (map fst (cr_localToolCalls s'))" "list_all (\<lambda>c. rt_Added (snd c)) (cr_localToolCalls s')" "cr_started s'"
  shows "responses_ok s'"
proof -
  have i: "distinct (item_indices s)" "set (item_indices s) = {0..<cr_currentOutputIndex s}" "0 \<le> cr_currentOutputIndex s" using assms(1) by (simp_all add: responses_ok_def)
  have m: "mset (item_indices s') = mset (cr_currentOutputIndex s # item_indices s)" using assms(2) by simp
  have "distinct (item_indices s')" using mset_eq_imp_distinct_iff[OF m] i by simp
  moreover have "set (item_indices s') = {0..<cr_currentOutputIndex s'}" using mset_eq_setD[OF m] i next_index[OF i(3)] assms(3) by simp
  ultimately show ?thesis using assms(3-6) i(3) by (simp add: responses_ok_def)
qed

lemma reasoning_tracks:
  assumes "responses_ok s" "cr_started s" "sendResponsesReasoningDelta d s = (es, s')"
  shows "tracks es s s' \<and> cr_started s'"
proof (cases "cr_reasoningAdded s")
  case True
  then have "cr_reasoningOutputIndex s \<in> {0..<cr_currentOutputIndex s}" using assms(1) by (auto simp: responses_ok_def item_indices_def)
  then show ?thesis using assms True by (auto simp: sendResponsesReasoningDelta_def tracks_def reader_of_def)
next
  case False
  have "responses_ok s'"
    by (rule responses_ok_grow[OF assms(1)]; use assms False in \<open>auto simp: sendResponsesReasoningDelta_def responses_ok_def item_indices_def call_indices_def Let_def\<close>)
  moreover have "read_events es (Streaming (cr_currentOutputIndex s) {0..<cr_currentOutputIndex s}) = Some (Streaming (cr_currentOutputIndex s + 1) (insert (cr_currentOutputIndex s) {0..<cr_currentOutputIndex s}))"
    "cr_currentOutputIndex s' = cr_currentOutputIndex s + 1" "cr_started s'"
    using assms(2,3) False by (auto simp: sendResponsesReasoningDelta_def Let_def)
  moreover have "0 \<le> cr_currentOutputIndex s" using assms(1) by (simp add: responses_ok_def)
  ultimately show ?thesis using assms(2) by (simp only: tracks_def reader_of_def next_index if_True simp_thms)
qed

lemma text_tracks:
  assumes "responses_ok s" "cr_started s" "sendPlainResponsesText t s = (es, s')"
  shows "tracks es s s' \<and> cr_started s'"
proof (cases "cr_messageAdded s")
  case True
  then have "cr_textOutputIndex s \<in> {0..<cr_currentOutputIndex s}" using assms(1) by (auto simp: responses_ok_def item_indices_def)
  then show ?thesis using assms True by (auto simp: sendPlainResponsesText_def tracks_def reader_of_def)
next
  case False
  have "responses_ok s'"
    by (rule responses_ok_grow[OF assms(1)]; use assms False in \<open>auto simp: sendPlainResponsesText_def responses_ok_def item_indices_def call_indices_def Let_def\<close>)
  moreover have "read_events es (Streaming (cr_currentOutputIndex s) {0..<cr_currentOutputIndex s}) = Some (Streaming (cr_currentOutputIndex s + 1) (insert (cr_currentOutputIndex s) {0..<cr_currentOutputIndex s}))"
    "cr_currentOutputIndex s' = cr_currentOutputIndex s + 1" "cr_started s'"
    using assms(2,3) False by (auto simp: sendPlainResponsesText_def Let_def)
  moreover have "0 \<le> cr_currentOutputIndex s" using assms(1) by (simp add: responses_ok_def)
  ultimately show ?thesis using assms(2) by (simp only: tracks_def reader_of_def next_index if_True simp_thms)
qed

lemma tracks_fields:
  "tracks es s (s'\<lparr>cr_fullText := t\<rparr>) = tracks es s s'" "tracks es s (s'\<lparr>cr_fullReasoning := t\<rparr>) = tracks es s s'"
  by (simp_all add: tracks_def reader_of_def responses_ok_def item_indices_def call_indices_def)

lemma feed_texts_track:
  assumes "responses_ok s" "cr_started s"
  shows "feed_reasoning_text r s = (es, s') \<Longrightarrow> tracks es s s' \<and> cr_started s'" "feed_plain_text t s = (es, s') \<Longrightarrow> tracks es s s' \<and> cr_started s'"
  using assms reasoning_tracks[OF assms] text_tracks[OF assms]
  by (auto simp: feed_reasoning_text_def feed_plain_text_def tracks_fields tracks_refl split: if_splits prod.splits)


subsection \<open>Calls\<close>

definition call_keys :: "ChatToResponsesStream \<Rightarrow> int set" where
  "call_keys s = fst ` set (cr_localToolCalls s)"

text \<open>The first delta of each call names its tool.\<close>

fun named :: "ToolNameMapper option \<Rightarrow> int set \<Rightarrow> ToolCallDelta list \<Rightarrow> bool" where
  "named mapper seen [] = True"
| "named mapper seen (tc # tcs) = ((tcd_Index tc \<in> seen \<or> snd (restored_name mapper (tcd_Name tc)) \<noteq> '''') \<and> named mapper (insert (tcd_Index tc) seen) tcs)"

lemma resolve_keeps [simp]:
  "rt_OutputIndex (resolve_call m tc c) = rt_OutputIndex c" "rt_Added (resolve_call m tc c) = rt_Added c"
  by (simp_all add: resolve_call_def Let_def split: prod.split)

lemma new_call_fields [simp]: "rt_OutputIndex (new_call mid idx tc) = idx" "\<not> rt_Added (new_call mid idx tc)"
  by (simp_all add: new_call_def Let_def)

lemma new_call_named: "snd (restored_name m (tcd_Name tc)) \<noteq> '''' \<Longrightarrow> rt_Name (resolve_call m tc (new_call mid idx tc)) \<noteq> ''''"
  by (auto simp: resolve_call_def new_call_def Let_def split: prod.splits)

lemma set_call_known:
  assumes "map_of cs i = Some c0" "distinct (map fst cs)"
  shows "map fst (set_call i c cs) = map fst cs" "rt_OutputIndex c = rt_OutputIndex c0 \<Longrightarrow> map (rt_OutputIndex \<circ> snd) (set_call i c cs) = map (rt_OutputIndex \<circ> snd) cs"
    "list_all (\<lambda>c. rt_Added (snd c)) cs \<Longrightarrow> rt_Added c \<Longrightarrow> list_all (\<lambda>c. rt_Added (snd c)) (set_call i c cs)"
proof -
  have "snd e = c0" if "e \<in> set cs" "fst e = i" for e using that assms by (metis map_of_is_SomeI option.inject prod.collapse)
  then show "rt_OutputIndex c = rt_OutputIndex c0 \<Longrightarrow> map (rt_OutputIndex \<circ> snd) (set_call i c cs) = map (rt_OutputIndex \<circ> snd) cs"
    using assms(1) by (simp add: set_call_def)
qed (use assms(1) in \<open>auto simp: set_call_def list_all_iff\<close>)

lemma set_call_new: "map_of cs i = None \<Longrightarrow> set_call i c cs = cs @ [(i, c)]"
  by (simp add: set_call_def)

lemma known_call_tracks:
  assumes "responses_ok s" "cr_started s" "map_of (cr_localToolCalls s) (tcd_Index tc) = Some c0" "feed_call tc s = (es, s')"
  shows "tracks es s s' \<and> cr_started s' \<and> cr_mapper s' = cr_mapper s \<and> call_keys s' = insert (tcd_Index tc) (call_keys s)"
proof -
  define c1 where "c1 = resolve_call (cr_mapper s) tc c0"
  define c2 where "c2 = c1\<lparr>rt_Arguments := rt_Arguments c1 @ tcd_Arguments tc\<rparr>"
  have keys: "distinct (map fst (cr_localToolCalls s))" and all: "list_all (\<lambda>c. rt_Added (snd c)) (cr_localToolCalls s)" using assms(1) by (simp_all add: responses_ok_def)
  have mem: "(tcd_Index tc, c0) \<in> set (cr_localToolCalls s)" using assms(3) by (rule map_of_SomeD)
  then have added: "rt_Added c0" using all by (auto simp: list_all_iff)
  have idx: "rt_OutputIndex c0 \<in> {0..<cr_currentOutputIndex s}"
    using mem assms(1) unfolding responses_ok_def item_indices_def call_indices_def by (metis (no_types, lifting) Un_iff comp_apply image_eqI list.set_map set_append snd_conv)
  have f: "es = arguments_delta (respID s) (tcd_Arguments tc) c2" "s' = s\<lparr>cr_localToolCalls := set_call (tcd_Index tc) c2 (cr_localToolCalls s)\<rparr>"
    using assms(3,4) added by (auto simp: feed_call_def call_added_def c1_def c2_def Let_def)
  have c2: "rt_OutputIndex c2 = rt_OutputIndex c0" "rt_Added c2" using added by (simp_all add: c1_def c2_def)
  note set = set_call_known[OF assms(3) keys, of c2]
  have "responses_ok s'" using assms(1) set c2 all by (simp add: f responses_ok_def item_indices_def call_indices_def)
  moreover have "read_events es (reader_of s) = Some (reader_of s')" using assms(2) idx by (simp add: f arguments_delta_def reader_of_def c2)
  moreover have "call_keys s' = insert (tcd_Index tc) (call_keys s)" using arg_cong[OF set(1), of set] mem by (force simp: f call_keys_def)
  ultimately show ?thesis using assms(2) f(2) by (simp add: tracks_def)
qed

lemma new_call_tracks:
  assumes "responses_ok s" "cr_started s" "map_of (cr_localToolCalls s) (tcd_Index tc) = None" "snd (restored_name (cr_mapper s) (tcd_Name tc)) \<noteq> ''''" "feed_call tc s = (es, s')"
  shows "tracks es s s' \<and> cr_started s' \<and> cr_mapper s' = cr_mapper s \<and> call_keys s' = insert (tcd_Index tc) (call_keys s)"
proof -
  define n where "n = cr_currentOutputIndex s"
  define c1 where "c1 = resolve_call (cr_mapper s) tc (new_call (msgID s) n tc)"
  define c2 where "c2 = c1\<lparr>rt_Added := True, rt_Arguments := rt_Arguments c1 @ tcd_Arguments tc\<rparr>"
  have c1: "rt_Name c1 \<noteq> ''''" "\<not> rt_Added c1" "rt_OutputIndex c1 = n" using new_call_named[OF assms(4)] by (simp_all add: c1_def)
  obtain e where f: "es = e # arguments_delta (respID s) (tcd_Arguments tc) c2" "re_Event e = ''response.output_item.added''" "output_index e = Some n"
    and s': "s' = s\<lparr>cr_currentOutputIndex := n + 1, cr_localToolCalls := cr_localToolCalls s @ [(tcd_Index tc, c2)]\<rparr>"
    using assms(3,5) c1 by (auto simp: feed_call_def call_added_def c1_def[symmetric] n_def[symmetric] c2_def set_call_new Let_def)
  have c2: "rt_OutputIndex c2 = n" "rt_Added c2" using c1 by (simp_all add: c2_def)
  have n0: "0 \<le> n" "distinct (map fst (cr_localToolCalls s))" "list_all (\<lambda>c. rt_Added (snd c)) (cr_localToolCalls s)" using assms(1) by (simp_all add: responses_ok_def n_def)
  have "responses_ok s'"
    by (rule responses_ok_grow[OF assms(1)]; use assms(2,3) n0 c2 in \<open>auto simp: s' n_def item_indices_def call_indices_def map_of_eq_None_iff\<close>)
  moreover have "read_events es (Streaming n {0..<n}) = Some (Streaming (n + 1) (insert n {0..<n}))" by (simp add: f arguments_delta_def c2)
  ultimately show ?thesis using assms(2) n0(1) by (simp add: tracks_def reader_of_def s' n_def[symmetric] next_index call_keys_def)
qed

lemma calls_track:
  assumes "responses_ok s" "cr_started s" "named (cr_mapper s) (call_keys s) tcs" "feed_call_list tcs s = (es, s')"
  shows "tracks es s s' \<and> cr_started s' \<and> cr_mapper s' = cr_mapper s \<and> call_keys s' = call_keys s \<union> tcd_Index ` set tcs"
  using assms
proof (induction tcs arbitrary: s es s')
  case (Cons tc tcs)
  obtain e1 s1 e2 where f: "feed_call tc s = (e1, s1)" "feed_call_list tcs s1 = (e2, s')" "es = e1 @ e2" using Cons.prems(4) by (auto split: prod.splits)
  have "tracks e1 s s1 \<and> cr_started s1 \<and> cr_mapper s1 = cr_mapper s \<and> call_keys s1 = insert (tcd_Index tc) (call_keys s)"
  proof (cases "map_of (cr_localToolCalls s) (tcd_Index tc)")
    case None
    then have "tcd_Index tc \<notin> call_keys s" by (simp add: call_keys_def map_of_eq_None_iff)
    then show ?thesis using new_call_tracks[OF Cons.prems(1,2) None _ f(1)] Cons.prems(3) by simp
  next
    case (Some c)
    then show ?thesis using known_call_tracks[OF Cons.prems(1,2) _ f(1)] by simp
  qed
  then show ?case using Cons.IH[OF tracks_ok _ _ f(2)] Cons.prems(3) tracks_trans[of e1 s s1 e2 s'] f(3) by auto
qed (auto simp: tracks_refl)


subsection \<open>Frames\<close>

definition first_delta :: "responses_frame \<Rightarrow> ResponsesDelta option" where
  "first_delta f = (case f of ResponsesFrame u rs (Some c) \<Rightarrow> (case rk_Choices c of d # _ \<Rightarrow> Some d | [] \<Rightarrow> None) | _ \<Rightarrow> None)"

definition frame_calls :: "responses_frame \<Rightarrow> ToolCallDelta list" where
  "frame_calls f = (case first_delta f of Some d \<Rightarrow> rd_ToolCalls d | None \<Rightarrow> [])"

definition frame_text :: "responses_frame \<Rightarrow> string" where
  "frame_text f = (case first_delta f of Some d \<Rightarrow> rd_Content d | None \<Rightarrow> '''')"

lemma choice_tracks:
  assumes "responses_ok s" "cr_started s" "named (cr_mapper s) (call_keys s) (rd_ToolCalls d)" "feed_choice d s = (es, s')"
  shows "tracks es s s' \<and> cr_mapper s' = cr_mapper s \<and> call_keys s' = call_keys s \<union> tcd_Index ` set (rd_ToolCalls d)"
proof -
  obtain e1 s1 e2 s2 e3 where f: "feed_reasoning_text (chatResponsesReasoning (rd_ReasoningContent d) (rd_Reasoning d)) s = (e1, s1)"
    "feed_plain_text (rd_Content d) s1 = (e2, s2)" "feed_call_list (rd_ToolCalls d) s2 = (e3, s')" "es = e1 @ e2 @ e3"
    using assms(4) by (auto simp: feed_choice_def split: prod.splits)
  have 1: "tracks e1 s s1 \<and> cr_started s1" using feed_texts_track(1)[OF assms(1,2) f(1)] .
  then have 2: "tracks e2 s1 s2 \<and> cr_started s2" using feed_texts_track(2)[OF tracks_ok _ f(2)] by blast
  have keep: "cr_mapper s1 = cr_mapper s \<and> call_keys s1 = call_keys s \<and> cr_mapper s2 = cr_mapper s1 \<and> call_keys s2 = call_keys s1"
    using f(1,2) by (auto simp: feed_reasoning_text_def feed_plain_text_def sendResponsesReasoningDelta_def sendPlainResponsesText_def call_keys_def Let_def split: if_splits prod.splits)
  then have 3: "tracks e3 s2 s' \<and> cr_mapper s' = cr_mapper s2 \<and> call_keys s' = call_keys s2 \<union> tcd_Index ` set (rd_ToolCalls d)"
    using calls_track[OF tracks_ok _ _ f(3), of e2 s1] 2 assms(3) by auto
  then show ?thesis using 1 2 keep tracks_trans f(4) by metis
qed

lemma tracks_from:
  "tracks es (s\<lparr>cr_usage := u, cr_finishReason := r\<rparr>) s' = tracks es s s'" "tracks es (note_chunk c s) s' = tracks es s s'"
  "responses_ok (s\<lparr>cr_usage := u, cr_finishReason := r\<rparr>) = responses_ok s" "responses_ok (note_chunk c s) = responses_ok s"
  "responses_ok (s\<lparr>cr_sawDone := b\<rparr>) = responses_ok s"
  by (simp_all add: tracks_def reader_of_def responses_ok_def item_indices_def call_indices_def note_chunk_def)

lemma start_keeps: "start_response now s = (es, s') \<Longrightarrow> cr_mapper s' = cr_mapper s \<and> call_keys s' = call_keys s"
  by (auto simp: start_response_def call_keys_def split: if_splits)

lemma frame_tracks:
  assumes "responses_ok s" "\<not> cr_finished s" "named (cr_mapper s) (call_keys s) (frame_calls f)" "FeedResponses now f s = ((es, m), s')"
  shows "tracks es s s' \<and> cr_mapper s' = cr_mapper s \<and> call_keys s' = call_keys s \<union> tcd_Index ` set (frame_calls f)"
proof (cases "\<exists>u rs c. f = ResponsesFrame u rs (Some c)")
  case False
  then show ?thesis using assms(1,2,4)
    by (cases f) (auto simp: FeedResponses_def frame_calls_def first_delta_def tracks_def tracks_from reader_of_def call_keys_def Let_def split: option.splits)
next
  case True
  then obtain u rs c where f: "f = ResponsesFrame u rs (Some c)" by blast
  define s1 where "s1 = s\<lparr>cr_usage := applyUsage u (cr_usage s), cr_finishReason := last_finish rs (cr_finishReason s)\<rparr>"
  obtain e1 s2 where 1: "start_response now (note_chunk c s1) = (e1, s2)" by fastforce
  have s1: "responses_ok (note_chunk c s1)" "cr_mapper (note_chunk c s1) = cr_mapper s" "call_keys (note_chunk c s1) = call_keys s"
    using assms(1) by (simp_all add: s1_def tracks_from note_chunk_def call_keys_def responses_ok_def item_indices_def call_indices_def)
  have t1: "tracks e1 s s2" "cr_started s2" using start_tracks[OF s1(1) 1] by (simp_all add: s1_def tracks_from)
  note k = start_keeps[OF 1] s1(2,3)
  obtain e2 where 2: "(case rk_Choices c of [] \<Rightarrow> ([], s2) | d # _ \<Rightarrow> feed_choice d s2) = (e2, s')" "es = e1 @ e2"
    using assms(2,4) 1 by (auto simp: FeedResponses_def f s1_def[symmetric] Let_def split: prod.splits)
  show ?thesis
  proof (cases "rk_Choices c")
    case Nil
    then show ?thesis using 2 t1 k by (simp add: f frame_calls_def first_delta_def)
  next
    case (Cons d ds)
    then have c: "frame_calls f = rd_ToolCalls d" and fc: "feed_choice d s2 = (e2, s')" using 2(1) by (simp_all add: f frame_calls_def first_delta_def)
    have "named (cr_mapper s2) (call_keys s2) (rd_ToolCalls d)" using assms(3) k by (simp only: c)
    then have t2: "tracks e2 s2 s' \<and> cr_mapper s' = cr_mapper s2 \<and> call_keys s' = call_keys s2 \<union> tcd_Index ` set (rd_ToolCalls d)"
      by (rule choice_tracks[OF tracks_ok[OF t1(1)] t1(2) _ fc])
    then have "tracks es s s'" unfolding 2(2) using tracks_trans[OF t1(1)] by blast
    then show ?thesis using t2 k by (simp add: c)
  qed
qed

subsection \<open>The end\<close>

lemma item_done_read: "i \<in> opened \<Longrightarrow> read_events (call_done dec rid c) (Streaming n opened) = Some (Streaming n (opened - {rt_OutputIndex c}))" if "rt_OutputIndex c = i"
  using that by (simp add: call_done_def)

lemma calls_done_read:
  "distinct (map rt_OutputIndex cs) \<Longrightarrow> set (map rt_OutputIndex cs) \<subseteq> opened \<Longrightarrow>
   read_events (concat (map (call_done dec rid) cs)) (Streaming n opened) = Some (Streaming n (opened - set (map rt_OutputIndex cs)))"
proof (induction cs arbitrary: opened)
  case (Cons c cs)
  have "set (map rt_OutputIndex cs) \<subseteq> opened" "rt_OutputIndex c \<notin> set (map rt_OutputIndex cs)" using Cons.prems by simp_all
  then have "set (map rt_OutputIndex cs) \<subseteq> opened - {rt_OutputIndex c}" by blast
  moreover have "opened - {rt_OutputIndex c} - set (map rt_OutputIndex cs) = opened - set (map rt_OutputIndex (c # cs))" by auto
  ultimately show ?case using Cons.IH[of "opened - {rt_OutputIndex c}"] Cons.prems item_done_read[of c _ opened] by (simp add: read_append)
qed simp

lemma ordered_calls: "mset (map rt_OutputIndex (calls_in_order s)) = mset (call_indices s)"
  by (simp add: calls_in_order_def call_indices_def mset_map[symmetric] del: mset_map) (metis comp_apply list.map_comp mset_map mset_sort)

lemma reasoning_done_read:
  "cr_reasoningAdded s \<Longrightarrow> cr_reasoningOutputIndex s \<in> opened \<Longrightarrow>
   read_events (reasoning_done s) (Streaming n opened) = Some (Streaming n (opened - {cr_reasoningOutputIndex s}))"
  by (simp add: reasoning_done_def Let_def)

lemma text_done_read:
  "cr_messageAdded s \<Longrightarrow> cr_textOutputIndex s \<in> opened \<Longrightarrow> read_events (text_done s) (Streaming n opened) = Some (Streaming n (opened - {cr_textOutputIndex s}))"
  by (simp add: text_done_def Let_def)

lemma items_done_read:
  assumes "responses_ok s"
  shows "read_events (reasoning_done s @ text_done s @ concat (map (call_done dec rid) (calls_in_order s))) (Streaming n {0..<cr_currentOutputIndex s}) = Some (Streaming n {})"
proof -
  let ?r = "if cr_reasoningAdded s then {cr_reasoningOutputIndex s} else {}"
  let ?t = "if cr_messageAdded s then {cr_textOutputIndex s} else {}"
  let ?c = "set (call_indices s)"
  have d: "distinct (item_indices s)" "set (item_indices s) = {0..<cr_currentOutputIndex s}" using assms by (simp_all add: responses_ok_def)
  have all: "{0..<cr_currentOutputIndex s} = ?r \<union> ?t \<union> ?c" using d(2) by (auto simp: item_indices_def)
  have dis: "?r \<inter> (?t \<union> ?c) = {}" "?t \<inter> ?c = {}" "distinct (call_indices s)" using d(1) by (auto simp: item_indices_def)
  have cs: "distinct (map rt_OutputIndex (calls_in_order s))" "set (map rt_OutputIndex (calls_in_order s)) = ?c"
    using dis(3) mset_eq_imp_distinct_iff[OF ordered_calls[of s]] mset_eq_setD[OF ordered_calls[of s]] by auto
  have 1: "read_events (reasoning_done s) (Streaming n (?r \<union> ?t \<union> ?c)) = Some (Streaming n (?t \<union> ?c))"
    using dis(1) reasoning_done_read[of s "?r \<union> ?t \<union> ?c" n] by (cases "cr_reasoningAdded s") (auto simp: reasoning_done_def)
  have 2: "read_events (text_done s) (Streaming n (?t \<union> ?c)) = Some (Streaming n ?c)"
    using dis(2) text_done_read[of s "?t \<union> ?c" n] by (cases "cr_messageAdded s") (auto simp: text_done_def)
  have 3: "read_events (concat (map (call_done dec rid) (calls_in_order s))) (Streaming n ?c) = Some (Streaming n {})"
    using calls_done_read[OF cs(1), of ?c dec rid n] cs(2) by simp
  show ?thesis unfolding all by (simp add: read_append 1 2 3)
qed


subsection \<open>The text\<close>

definition text_deltas :: "ResponsesStreamEvent list \<Rightarrow> string" where
  "text_deltas es = concat (map (\<lambda>e. if re_Event e = ''response.output_text.delta'' then jstr (jget ''delta'' (re_Data e)) else '''') es)"

lemma text_deltas_append [simp]: "text_deltas (es @ fs) = text_deltas es @ text_deltas fs"
  by (simp add: text_deltas_def)

lemma no_text_deltas: "list_all (\<lambda>e. re_Event e \<noteq> ''response.output_text.delta'') es \<Longrightarrow> text_deltas es = ''''"
  by (induction es) (auto simp: text_deltas_def)

lemma start_no_text: "start_response now s = (es, s') \<Longrightarrow> text_deltas es = '''' \<and> cr_fullText s' = cr_fullText s"
  by (auto simp: start_response_def plain_event_index no_text_deltas split: if_splits)

lemma reasoning_no_text: "feed_reasoning_text r s = (es, s') \<Longrightarrow> text_deltas es = '''' \<and> cr_fullText s' = cr_fullText s"
  by (auto simp: feed_reasoning_text_def sendResponsesReasoningDelta_def no_text_deltas Let_def split: if_splits prod.splits)

lemma call_no_text: "feed_call tc s = (es, s') \<Longrightarrow> text_deltas es = '''' \<and> cr_fullText s' = cr_fullText s"
  by (auto simp: feed_call_def call_added_def arguments_delta_def no_text_deltas Let_def split: if_splits prod.splits option.splits)

lemma calls_no_text: "feed_call_list tcs s = (es, s') \<Longrightarrow> text_deltas es = '''' \<and> cr_fullText s' = cr_fullText s"
  by (induction tcs arbitrary: s es) (auto simp: text_deltas_def[of "[]"] dest: call_no_text split: prod.splits)

lemma plain_text_delta: "feed_plain_text t s = (es, s') \<Longrightarrow> text_deltas es = t \<and> cr_fullText s' = cr_fullText s @ t"
  by (auto simp: feed_plain_text_def sendPlainResponsesText_def text_deltas_def item_event_def responses_event_def Let_def split: if_splits prod.splits)

lemma choice_text: "feed_choice d s = (es, s') \<Longrightarrow> text_deltas es = rd_Content d \<and> cr_fullText s' = cr_fullText s @ rd_Content d"
  by (auto simp: feed_choice_def dest!: reasoning_no_text plain_text_delta calls_no_text split: prod.splits)

lemma frame_text_sent:
  assumes "\<not> cr_finished s" "FeedResponses now f s = ((es, m), s')"
  shows "text_deltas es = frame_text f \<and> cr_fullText s' = cr_fullText s @ frame_text f \<and> \<not> cr_finished s'"
proof -
  have fin: "cr_finished (snd (start_response now s)) = cr_finished s" for s by (simp add: start_response_def)
  have r: "cr_finished (snd (feed_reasoning_text t s)) = cr_finished s" for t s
    by (simp add: feed_reasoning_text_def sendResponsesReasoningDelta_def Let_def split: prod.split)
  have p: "cr_finished (snd (feed_plain_text t s)) = cr_finished s" for t s
    by (simp add: feed_plain_text_def sendPlainResponsesText_def Let_def split: prod.split)
  have "cr_finished (snd (feed_call tc s)) = cr_finished s" for tc s by (simp add: feed_call_def Let_def split: prod.split option.split)
  then have cl: "cr_finished (snd (feed_call_list tcs s)) = cr_finished s" for tcs s
    by (induction tcs arbitrary: s) (simp_all add: Let_def case_prod_beta)
  have ch: "cr_finished (snd (feed_choice d s)) = cr_finished s" for d s
    by (simp add: feed_choice_def Let_def case_prod_beta r p cl)
  show ?thesis
  proof (cases "\<exists>u rs c. f = ResponsesFrame u rs (Some c)")
    case False
    then show ?thesis using assms by (cases f) (auto simp: FeedResponses_def frame_text_def first_delta_def text_deltas_def Let_def split: option.splits)
  next
    case True
    then obtain u rs c where f: "f = ResponsesFrame u rs (Some c)" by blast
    define s1 where "s1 = note_chunk c (s\<lparr>cr_usage := applyUsage u (cr_usage s), cr_finishReason := last_finish rs (cr_finishReason s)\<rparr>)"
    have s1: "cr_fullText s1 = cr_fullText s" "\<not> cr_finished s1" using assms(1) by (simp_all add: s1_def note_chunk_def)
    obtain e1 s2 where 1: "start_response now s1 = (e1, s2)" by fastforce
    obtain e2 where 2: "(case rk_Choices c of [] \<Rightarrow> ([], s2) | d # _ \<Rightarrow> feed_choice d s2) = (e2, s')" "es = e1 @ e2"
      using assms 1 by (auto simp: FeedResponses_def f s1_def[symmetric] Let_def split: prod.splits)
    have "\<not> cr_finished s2" using fin[of s1] 1 s1(2) by simp
    show ?thesis
    proof (cases "rk_Choices c")
      case Nil
      then show ?thesis using \<open>\<not> cr_finished s2\<close> start_no_text[OF 1] 2 s1 by (simp add: f frame_text_def first_delta_def text_deltas_def[of "[]"])
    next
      case (Cons d ds)
      then have "feed_choice d s2 = (e2, s')" "frame_text f = rd_Content d" using 2(1) by (simp_all add: f frame_text_def first_delta_def)
      then show ?thesis using \<open>\<not> cr_finished s2\<close> start_no_text[OF 1] 2(2) s1 choice_text[of d s2 e2 s'] ch[of d s2] by simp
    qed
  qed
qed


subsection \<open>Whole streams\<close>

fun feed_stream :: "int \<Rightarrow> responses_frame list \<Rightarrow> ChatToResponsesStream \<Rightarrow> ResponsesStreamEvent list \<times> ChatToResponsesStream" where
  "feed_stream now [] s = ([], s)"
| "feed_stream now (f # fs) s = (let ((e1, m), s1) = FeedResponses now f s; (e2, s2) = feed_stream now fs s1 in (e1 @ e2, s2))"

lemma named_append: "named mapper seen (xs @ ys) \<longleftrightarrow> named mapper seen xs \<and> named mapper (seen \<union> tcd_Index ` set xs) ys"
  by (induction xs arbitrary: seen) (auto simp: insert_commute)

lemma stream_tracks:
  assumes "responses_ok s" "\<not> cr_finished s" "named (cr_mapper s) (call_keys s) (concat (map frame_calls fs))" "feed_stream now fs s = (es, s')"
  shows "tracks es s s' \<and> \<not> cr_finished s' \<and> text_deltas es = concat (map frame_text fs) \<and> cr_fullText s' = cr_fullText s @ concat (map frame_text fs)"
  using assms
proof (induction fs arbitrary: s es)
  case Nil
  then show ?case by (simp add: tracks_refl text_deltas_def)
next
  case (Cons f fs)
  obtain e1 m s1 e2 where f: "FeedResponses now f s = ((e1, m), s1)" "feed_stream now fs s1 = (e2, s')" "es = e1 @ e2"
    using Cons.prems(4) by (auto split: prod.splits)
  have n: "named (cr_mapper s) (call_keys s) (frame_calls f)" "named (cr_mapper s) (call_keys s \<union> tcd_Index ` set (frame_calls f)) (concat (map frame_calls fs))"
    using Cons.prems(3) by (simp_all add: named_append)
  have t: "tracks e1 s s1" "cr_mapper s1 = cr_mapper s" "call_keys s1 = call_keys s \<union> tcd_Index ` set (frame_calls f)"
    using frame_tracks[OF Cons.prems(1,2) n(1) f(1)] by auto
  have x: "text_deltas e1 = frame_text f" "cr_fullText s1 = cr_fullText s @ frame_text f" "\<not> cr_finished s1" using frame_text_sent[OF Cons.prems(2) f(1)] by auto
  have "tracks e2 s1 s' \<and> \<not> cr_finished s' \<and> text_deltas e2 = concat (map frame_text fs) \<and> cr_fullText s' = cr_fullText s1 @ concat (map frame_text fs)"
    by (rule Cons.IH[OF tracks_ok[OF t(1)] x(3) _ f(2)]) (simp only: t n)
  then show ?case using tracks_trans[OF t(1), of e2 s'] x by (simp add: f(3))
qed

lemma new_stream: "responses_ok (NewChatToResponsesStream model mapper u)" "\<not> cr_finished (NewChatToResponsesStream model mapper u)"
  "cr_mapper (NewChatToResponsesStream model mapper u) = mapper" "call_keys (NewChatToResponsesStream model mapper u) = {}"
  "reader_of (NewChatToResponsesStream model mapper u) = Silent" "cr_fullText (NewChatToResponsesStream model mapper u) = ''''"
  by (simp_all add: NewChatToResponsesStream_def responses_ok_def item_indices_def call_indices_def call_keys_def reader_of_def)

lemma finish_fields:
  "reasoning_done (s\<lparr>cr_finished := b, cr_usage := u\<rparr>) = reasoning_done s" "text_done (s\<lparr>cr_finished := b, cr_usage := u\<rparr>) = text_done s"
  "calls_in_order (s\<lparr>cr_finished := b, cr_usage := u\<rparr>) = calls_in_order s"
  by (simp_all add: reasoning_done_def text_done_def calls_in_order_def respID_def msgID_def reasoningID_def output_message_def)

lemma finish_read:
  assumes "responses_ok s" "\<not> cr_finished s" "cr_started s"
  shows "read_events (fst (fst (FinishResponses dec now u s))) (reader_of s) = Some Completed"
proof -
  let ?s = "s\<lparr>cr_finished := True, cr_usage := applyUsage u (cr_usage s)\<rparr>"
  let ?items = "reasoning_done s @ text_done s @ concat (map (call_done dec (respID ?s)) (calls_in_order s))"
  have "fst (fst (FinishResponses dec now u s)) = ?items @ [responses_event ''response.done'' [(''response'', final_response dec now ?s)],
      responses_event ''response.completed'' [(''response'', final_response dec now ?s)]]"
    using assms(2,3) by (simp add: FinishResponses_def finish_fields Let_def)
  moreover have "read_events (?items @ es) (reader_of s) = read_events es (Streaming (cr_currentOutputIndex s) {})" for es
    unfolding reader_of_def read_append[of ?items] items_done_read[OF assms(1)] using assms(3)
    by (simp only: if_True items_done_read[OF assms(1)] option.case)
  ultimately show ?thesis by (simp only:) (simp add: plain_event_index)
qed

text \<open>(C21) A Responses client gets a well-formed stream for whatever frames the Chat upstream sends, as long as the first delta of each call names its tool: the
  response is created and put in progress, items are added with the numbers from 0 on, only open items progress, every item is finished once, and then
  the response is done. An upstream that sends no chunk gives no event. The text the client gets is the text the upstream sent.\<close>

theorem responses_stream_is_correct:
  assumes "feed_stream now frames (NewChatToResponsesStream model mapper u0) = (es, s)" "named mapper {} (concat (map frame_calls frames))"
  shows "read_events (es @ fst (fst (FinishResponses dec later u s))) Silent = Some (if cr_started s then Completed else Silent)
    \<and> text_deltas es = concat (map frame_text frames) \<and> cr_fullText s = concat (map frame_text frames)"
proof -
  have n: "named (cr_mapper (NewChatToResponsesStream model mapper u0)) (call_keys (NewChatToResponsesStream model mapper u0)) (concat (map frame_calls frames))"
    using assms(2) by (simp only: new_stream)
  have t: "tracks es (NewChatToResponsesStream model mapper u0) s" "\<not> cr_finished s" "text_deltas es = concat (map frame_text frames)" "cr_fullText s = concat (map frame_text frames)"
    using stream_tracks[OF new_stream(1,2) n assms(1)] by (simp_all add: new_stream)
  have r: "read_events es Silent = Some (reader_of s)" using t(1) by (simp add: tracks_def new_stream)
  have "read_events (fst (fst (FinishResponses dec later u s))) (reader_of s) = Some (if cr_started s then Completed else Silent)"
  proof (cases "cr_started s")
    case True
    then show ?thesis using finish_read[OF tracks_ok[OF t(1)] t(2), of dec later u] by simp
  next
    case False
    then show ?thesis using t(2) by (simp add: FinishResponses_def reader_of_def Let_def)
  qed
  then show ?thesis using t r by (simp add: read_append)
qed

text \<open>One chunk with a thought, text and a call, and the end of the stream.\<close>

definition no_usage :: TokenUsage where
  "no_usage = \<lparr>tu_InputTokens = 0, tu_OutputTokens = 0, tu_CachedTokens = 0, tu_CacheCreationTokens = 0\<rparr>"

definition sample_frames :: "responses_frame list" where
  "sample_frames = [ResponsesFrame no_usage None
     (Some \<lparr>rk_ID = ''a'', rk_Model = ''m'', rk_Choices = [\<lparr>rd_Content = ''hi'', rd_ReasoningContent = ''t'', rd_Reasoning = '''',
        rd_ToolCalls = [\<lparr>tcd_Index = 0, tcd_ID = ''c'', tcd_Name = ''f'', tcd_Arguments = ''{}''\<rparr>]\<rparr>]\<rparr>), ResponsesDone]"

definition sample_feed :: "ResponsesStreamEvent list \<times> ChatToResponsesStream" where
  "sample_feed = feed_stream 0 sample_frames (NewChatToResponsesStream ''m'' None no_usage)"

lemma sample_started: "cr_started (snd sample_feed)"
  by code_simp

theorem responses_stream_is_correct_witness:
  "read_events (fst sample_feed @ fst (fst (FinishResponses (\<lambda>_. None) 1 no_usage (snd sample_feed)))) Silent = Some Completed
   \<and> text_deltas (fst sample_feed) = ''hi''"
proof -
  have "named None {} (concat (map frame_calls sample_frames))" by code_simp
  moreover have "concat (map frame_text sample_frames) = ''hi''" by code_simp
  ultimately show ?thesis
    using responses_stream_is_correct[of 0 sample_frames "''m''" None no_usage "fst sample_feed" "snd sample_feed" "\<lambda>_. None" 1 no_usage] sample_started
    by (simp add: sample_feed_def[symmetric])
qed

text \<open>The rule about names is needed: a call that starts without a name reports its arguments before its item is added, whatever comes later.\<close>

lemma unnamed_call_events:
  assumes "tcd_Name tc = ''''" "cr_mapper s = None" "map_of (cr_localToolCalls s) (tcd_Index tc) = None"
  shows "map re_Event (fst (feed_call tc s)) = [''response.function_call.arguments.delta'']"
proof -
  have "splitChatToolName '''' = ('''', '''')" by code_simp
  then show ?thesis
    using assms by (simp add: feed_call_def new_call_def resolve_call_def restored_name_def IsCustom_def call_added_def arguments_delta_def item_event_def responses_event_def Let_def)
qed

end
