(* ===== verification/Spec2Isabelle.thy ===== *)
theory Spec2Isabelle
  imports Policy_Merge Gateway_Pipeline Hedging_Race Messages_Relay Smart_Routing Request_Roundtrip Responses_Messages Responses_Protocol
begin

text \<open>
  Verification of the core of the TokenLive gateway (\<open>src/\<close>, Go): an LLM gateway that matches a policy to a request, limits
  its rate, discovers the endpoints of the model, narrows them by routers, picks one by a load balancer, calls its provider under
  circuit breakers, retries on other endpoints, and falls back to other models.

  \<^bold>\<open>Layout.\<close>
  \<^item> \<open>Prelude\<close>, \<open>Go_Float\<close>: Go's machine types (64-bit integers, durations, instants, IEEE doubles by exact rational
    rounding) and shared list facts.
  \<^item> \<open>Gateway_Types\<close>: the policy structs (\<open>pkg/policy\<close>), endpoints (\<open>pkg/core/types.go\<close>) and the request
    context (\<open>pkg/core/context.go\<close>).
  \<^item> \<open>Circuit_Breaker\<close>, \<open>Breaker_Permits\<close>, \<open>Breaker_Windows\<close>, \<open>Breaker_Manager\<close>: \<open>pkg/core/circuit_breaker.go\<close>. One entry with its count
    or time window and half-open permits; the run of concurrent attempts on an entry as a step relation; the manager with service and
    instance keys, attempts, outcome records and events. Shown: at most one probe in flight, exact opening
    conditions, recovery, the manager invariant over all runs, rollback of permits, harmless stale attempts.
  \<^item> \<open>Matcher\<close>, \<open>Error_Policy\<close>, \<open>Policy_Merge\<close>: \<open>pkg/matcher\<close>, \<open>pkg/policy/error_*.go\<close>, \<open>pkg/policy/policy.go\<close>.
    Shown: the wildcard language, the meaning of the condition loops, transparency of the regex cache, what a merge of layers yields.
  \<^item> \<open>Load_Balancers\<close>, \<open>LB_Fairness\<close>, \<open>LB_Choice\<close>: the ten balancers of \<open>pkg/lbs\<close>, the contract they
    share (locales \<open>load_balancer\<close>, \<open>total_balancer\<close>), and the fairness or choice property of each.
  \<^item> \<open>Routers\<close>: the five routers of \<open>pkg/routers\<close> and the chain (locale \<open>router\<close>), with the outlier cap and recovery.
  \<^item> \<open>State_Store\<close>, \<open>Rate_Limit\<close>: \<open>pkg/store/memory.go\<close> and \<open>pkg/limiter\<close>; buckets, windows, latency rings, and
    limits that roll back (locale \<open>counter_store\<close>).
  \<^item> \<open>Cluster\<close>, \<open>Retry_Loop\<close>, \<open>Gateway_Env\<close>: \<open>pkg/invoker/cluster.go\<close>, \<open>attempt_observer.go\<close>, \<open>provider.go\<close>. The whole
    retry loop over an environment; what it relies on is the locale \<open>cluster_env\<close>, interpreted on the gateway's own
    routers and balancers. Shown: bounded calls, when a retry happens, no endpoint twice, breakers stay sound.
  \<^item> \<open>Fallback\<close>: model fallback (\<open>pkg/core/invoker.go\<close>) over the cluster invoker (locale \<open>request_invoker\<close>).

  \<^item> \<open>Inbound_Filters\<close>, \<open>Settlement\<close>: \<open>pkg/filters/inbound\<close> (auth, credits, session, validation, rate limits with waiting) and
    \<open>pkg/filters/outbound/token_settlement.go\<close>. Shown: bounded waiting, one charge per limit, settlement to the actual usage,
    input tokens billed once.
  \<^item> \<open>Compensation\<close>: \<open>pkg/compensation\<close>, as the Redis commands it sends. Shown: a failing task ends in the dead-letter stream.
  \<^item> \<open>Engine\<close>, \<open>Gateway_Pipeline\<close>: \<open>pkg/core/engine*.go\<close>, the request handler from parsing to the answer, over the locale
    \<open>engine_parts\<close>, interpreted on the engine with the modelled filters and the fallback invoker. Shown: one answer per request,
    rejected requests reach no upstream, requests without identity change nothing.
  \<^item> \<open>Json\<close>, \<open>Tool_Names\<close>, \<open>Chat_Messages_Stream\<close>: the tool name mapper and the translator of Chat streams into Messages streams of
    \<open>pkg/llm/translate\<close>. \<open>Messages_Protocol\<close> shows that every translated stream is well formed (an automaton reads it),
    \<open>Messages_Content\<close> that it carries exactly what the upstream sent. \<open>Messages_Chat_Stream\<close> is the translator in the
    other direction, and \<open>Stream_Roundtrip\<close> shows that a stream survives both.
  \<^item> \<open>Tool_Schema\<close>, \<open>Chat_Requests\<close>, \<open>Request_Roundtrip\<close>, \<open>Chat_Bodies\<close>: \<open>messages_chat.go\<close> and \<open>helpers.go\<close> of \<open>pkg/llm/translate\<close>, whole requests and
    responses between Messages and Chat. Shown: conversations and completions survive both translations, what a third-party upstream is sent, clean schemas.
  \<^item> \<open>Reasoning\<close>, \<open>Responses_Chat\<close>, \<open>Responses_Bodies\<close>, \<open>Responses_Messages\<close>: \<open>reasoning.go\<close>, \<open>responses_chat.go\<close> and \<open>responses_messages.go\<close>, the Responses API over a
    Chat or Messages upstream. Shown: every call is followed by its answers, messages alternate, the bounds of the thinking budget, how calls and
    answers come back, stripped search tools.
  \<^item> \<open>Chat_Responses_Stream\<close>, \<open>Responses_Protocol\<close>: \<open>chat_responses_stream.go\<close>, the stream of a Chat upstream for a Responses client. Shown: the stream is
    well formed, as an automaton reads it, and carries the text of the upstream.
  \<^item> \<open>Smart_Config\<close>, \<open>Smart_Routing\<close>: \<open>pkg/invoker/smart*.go\<close>, \<open>child_accounting.go\<close> and \<open>pkg/core/smart_routing_*.go\<close>. A judge scores a request,
    the ranges of the configuration choose its model, and unavailable models escalate. Shown: validated ranges partition the scores, the order and the
    eligibility of the calls, and that every child call is settled.
  \<^item> \<open>Sse_Parser\<close>, \<open>Sse_Stream\<close>, \<open>Messages_Relay\<close>: \<open>pkg/llm/sse_parser.go\<close>, \<open>sse_intercept_writer.go\<close>,
    \<open>token_extractors.go\<close>, \<open>passthrough_stream.go\<close> and the stream handlers of \<open>providers/openai.go\<close> and \<open>openai_messages.go\<close>. The
    locale \<open>chunked\<close> is a consumer that does not see how a stream is cut, interpreted on the parser. Shown: events depend on the bytes only, frames are
    forwarded whole and free of errors, usage is that of the bytes sent, and a Messages client reads, from the bytes it gets, the message
    in the bytes of its Chat upstream.
  \<^item> \<open>Hedging\<close>, \<open>Hedging_Race\<close>: \<open>pkg/invoker/hedging.go\<close>, two sub-calls racing for the client, as a step relation over the
    invoker, the sub-calls and their providers. Shown over all interleavings: one sub-call's bytes reach the client, no deadlock, what each
    result means, breakers stay sound.

  \<^bold>\<open>Conventions.\<close> A stateful operation returns its new state; a mutex-protected operation is one atomic step. Clock readings,
  random draws, map iteration orders, Redis answers, regular expressions, JSON paths and provider calls are arguments.
  Errors are values of sums or options, and a Go panic the code can reach is a value too. No fuel is used in the model: every loop is
  structural, counted by the attempts left, or terminates by the time that passes (\<open>wait_loop\<close>).

  \<^bold>\<open>Not modelled.\<close> HTTP transport of the providers, Responses streams of Messages upstreams, tagging
  actions, websockets, the engine's lifecycle, discovery sources, configuration polling, events and telemetry, the Redis store, and the JSON
  decoding of policies. Context deadlines have no effect in the model, and sleeps only where a request waits for a limit.
\<close>

end
